(* ===== verification/Prelude.thy ===== *)
theory Prelude imports Main "HOL-Library.Word" begin

text \<open>
  What every component of the development shares: Go's error values and \<open>errors.Is\<close>, the
  environment a request runs in (the clock that \<open>time.Now\<close> reads, the outcome of every call to
  PostgreSQL or Redis, the random numbers that \<open>crypto/rand\<close> delivers), and the lemmas about
  lists of table rows that the repositories use.
\<close>

named_theorems env_simps \<open>frame facts of the clock and of remote calls\<close>
named_theorems row_simps \<open>facts about selecting and updating the rows of a table\<close>

section \<open>Time\<close>

text \<open>
  A \<open>time.Time\<close> is a number of nanoseconds since the Unix epoch, a \<open>time.Duration\<close> a number of
  nanoseconds. \<open>zero_time\<close> is Go's zero value of \<open>time.Time\<close>, the first of January of year 1.
\<close>

type_synonym instant = int
type_synonym duration = int

definition second :: duration where "second = 1000000000"
definition minute :: duration where "minute = 60 * second"
definition hour :: duration where "hour = 60 * minute"

definition zero_time :: instant where "zero_time = - 62135596800 * second"

definition to_unix :: "instant \<Rightarrow> int" where "to_unix t = t div second"
definition from_unix :: "int \<Rightarrow> instant" where "from_unix s = s * second"

lemmas duration_defs = second_def minute_def hour_def

lemma second_pos [simp]: "0 < second"
  by (simp add: second_def)

lemma to_unix_from_unix [simp]: "to_unix (from_unix s) = s"
  by (simp add: to_unix_def from_unix_def second_def)

lemma from_unix_to_unix_le: "from_unix (to_unix t) \<le> t"
  and from_unix_to_unix_gt: "t < from_unix (to_unix t) + second"
proof -
  have "t = (t div second) * second + t mod second"
    by simp
  moreover have "0 \<le> t mod second" and "t mod second < second"
    by (simp_all add: second_def)
  ultimately show "from_unix (to_unix t) \<le> t" and "t < from_unix (to_unix t) + second"
    unfolding from_unix_def to_unix_def by linarith+
qed

section \<open>Errors\<close>

text \<open>
  The sentinel errors of the packages, each value distinct as the \<open>errors.New\<close> values are: the
  repository's \<open>ErrLinkNotFound\<close> is not the service's. An error is a sentinel, a message of a
  driver or of \<open>errors.New\<close> at the call, or \<open>fmt.Errorf\<close> with \<open>%w\<close> around another. A run-time panic
  is a value too: the recovery middleware answers it as a server error.
\<close>

datatype sentinel =
    Repo_ErrLinkNotFound | Repo_ErrAliasExists | Repo_ErrInvalidCursor | Repo_ErrAPIKeyNotFound
  | Repo_ErrUserNotFound | Repo_ErrEmailExists
  | Svc_ErrInvalidDestination | Svc_ErrInvalidAlias | Svc_ErrAliasExists | Svc_ErrLinkNotFound
  | Svc_ErrLinkExpired | Svc_ErrLinkDisabled | Svc_ErrExpiresInPast | Svc_ErrInvalidRedirectType
  | Svc_ErrURLTooLong
  | Cache_ErrCacheMiss
  | Webhook_ErrEndpointNotFound | Webhook_ErrDeliveryNotFound
  | Webhook_ErrInvalidScheme | Webhook_ErrPrivateIP | Webhook_ErrLocalhostBlocked
  | Webhook_ErrInvalidPort | Webhook_ErrInvalidURL | Webhook_ErrEmptyHost
  | Webhook_ErrReplayWindowExceeded | Webhook_ErrInvalidSignature
  | Auth_ErrInvalidKeyFormat | Auth_ErrInvalidHash | Auth_ErrIncompatibleVersion
  | Mw_ErrShortCodeTooLong | Mw_ErrShortCodeTooShort | Mw_ErrShortCodeInvalid
  | Mw_ErrShortCodeReserved | Mw_ErrDestinationTooLong | Mw_ErrDestinationInvalid
  | Mw_ErrDestinationUnsafe | Mw_ErrWebhookURLTooLong | Mw_ErrAliasInvalidUnicode
  | Ctx_Canceled

datatype error = Sentinel sentinel | Text string | Wrap string error | Panic string

fun errors_is :: "error \<Rightarrow> sentinel \<Rightarrow> bool" where
  "errors_is (Sentinel s) t = (s = t)"
| "errors_is (Text m) t = False"
| "errors_is (Wrap m e) t = errors_is e t"
| "errors_is (Panic m) t = False"

fun sentinel_text :: "sentinel \<Rightarrow> string" where
  "sentinel_text Repo_ErrLinkNotFound = ''link not found''"
| "sentinel_text Repo_ErrAliasExists = ''alias already exists''"
| "sentinel_text Repo_ErrInvalidCursor = ''invalid pagination cursor''"
| "sentinel_text Repo_ErrAPIKeyNotFound = ''API key not found''"
| "sentinel_text Repo_ErrUserNotFound = ''user not found''"
| "sentinel_text Repo_ErrEmailExists = ''email already exists''"
| "sentinel_text Svc_ErrInvalidDestination = ''invalid destination URL''"
| "sentinel_text Svc_ErrInvalidAlias = ''invalid alias format''"
| "sentinel_text Svc_ErrAliasExists = ''alias already exists''"
| "sentinel_text Svc_ErrLinkNotFound = ''link not found''"
| "sentinel_text Svc_ErrLinkExpired = ''link is expired''"
| "sentinel_text Svc_ErrLinkDisabled = ''link is disabled''"
| "sentinel_text Svc_ErrExpiresInPast = ''expires_at must be in the future''"
| "sentinel_text Svc_ErrInvalidRedirectType = ''invalid redirect type''"
| "sentinel_text Svc_ErrURLTooLong = ''destination URL too long''"
| "sentinel_text Cache_ErrCacheMiss = ''cache miss''"
| "sentinel_text Webhook_ErrEndpointNotFound = ''webhook endpoint not found''"
| "sentinel_text Webhook_ErrDeliveryNotFound = ''webhook delivery not found''"
| "sentinel_text Webhook_ErrInvalidScheme = ''only HTTPS allowed''"
| "sentinel_text Webhook_ErrPrivateIP = ''private IP addresses not allowed''"
| "sentinel_text Webhook_ErrLocalhostBlocked = ''localhost not allowed''"
| "sentinel_text Webhook_ErrInvalidPort = ''only port 443 allowed''"
| "sentinel_text Webhook_ErrInvalidURL = ''invalid URL format''"
| "sentinel_text Webhook_ErrEmptyHost = ''URL must have a host''"
| "sentinel_text Webhook_ErrReplayWindowExceeded = ''timestamp outside replay window''"
| "sentinel_text Webhook_ErrInvalidSignature = ''invalid signature''"
| "sentinel_text Auth_ErrInvalidKeyFormat = ''invalid API key format''"
| "sentinel_text Auth_ErrInvalidHash = ''invalid hash format''"
| "sentinel_text Auth_ErrIncompatibleVersion = ''incompatible argon2 version''"
| "sentinel_text Mw_ErrShortCodeTooLong = ''short code exceeds maximum length''"
| "sentinel_text Mw_ErrShortCodeTooShort = ''short code is too short''"
| "sentinel_text Mw_ErrShortCodeInvalid = ''short code contains invalid characters''"
| "sentinel_text Mw_ErrShortCodeReserved = ''short code is reserved''"
| "sentinel_text Mw_ErrDestinationTooLong = ''destination URL exceeds maximum length''"
| "sentinel_text Mw_ErrDestinationInvalid = ''destination URL is invalid''"
| "sentinel_text Mw_ErrDestinationUnsafe = ''destination URL uses unsafe scheme''"
| "sentinel_text Mw_ErrWebhookURLTooLong = ''webhook URL exceeds maximum length''"
| "sentinel_text Mw_ErrAliasInvalidUnicode = ''alias contains confusable unicode characters''"
| "sentinel_text Ctx_Canceled = ''context canceled''"

text \<open>\<open>err.Error()\<close>; every \<open>fmt.Errorf\<close> of the program has the form \<open>message: %w\<close>.\<close>

fun error_text :: "error \<Rightarrow> string" where
  "error_text (Sentinel s) = sentinel_text s"
| "error_text (Text m) = m"
| "error_text (Wrap m e) = m @ '': '' @ error_text e"
| "error_text (Panic m) = m"

section \<open>The environment of a request\<close>

text \<open>
  A call to a remote store answers (\<open>Up\<close>), fails with a message and without effect (\<open>Lost\<close>), takes
  effect while its answer is lost (\<open>Late\<close>, a timeout after the commit), or is abandoned because the
  context of the request is cancelled. The list of outcomes
  is arbitrary in every theorem, so a theorem covers every failure at every call. The clock moves
  forward by an arbitrary amount at each reading. A random read gives a number or fails.
\<close>

datatype outcome = Up | Lost string | Late string | Cancelled

record env =
  clock :: instant
  ticks :: "nat list"
  outcomes :: "outcome list"
  rands :: "nat option list"

definition time_now :: "'z env_scheme \<Rightarrow> instant \<times> 'z env_scheme" where
  "time_now w = (case ticks w of
       [] \<Rightarrow> (clock w, w)
     | d # ds \<Rightarrow> (clock w + int d, w\<lparr>clock := clock w + int d, ticks := ds\<rparr>))"

definition next_outcome :: "'z env_scheme \<Rightarrow> outcome \<times> 'z env_scheme" where
  "next_outcome w = (case outcomes w of [] \<Rightarrow> (Up, w) | x # xs \<Rightarrow> (x, w\<lparr>outcomes := xs\<rparr>))"

definition next_rand :: "'z env_scheme \<Rightarrow> nat option \<times> 'z env_scheme" where
  "next_rand w = (case rands w of [] \<Rightarrow> (None, w) | x # xs \<Rightarrow> (x, w\<lparr>rands := xs\<rparr>))"

text \<open>
  \<open>call f\<close> runs the remote operation \<open>f\<close> under the next outcome. \<open>f\<close> itself may answer with an
  error of the store, such as a violated constraint.
\<close>

definition call :: "('z env_scheme \<Rightarrow> (error + 'a) \<times> 'z env_scheme) \<Rightarrow> 'z env_scheme
    \<Rightarrow> (error + 'a) \<times> 'z env_scheme" where
  "call f w = (case next_outcome w of
       (Up, w') \<Rightarrow> f w'
     | (Lost m, w') \<Rightarrow> (Inl (Text m), w')
     | (Late m, w') \<Rightarrow> (Inl (Text m), snd (f w'))
     | (Cancelled, w') \<Rightarrow> (Inl (Sentinel Ctx_Canceled), w'))"

lemma time_now_mono: "time_now w = (t, w') \<Longrightarrow> clock w \<le> t \<and> clock w' = t"
  by (auto simp: time_now_def split: list.splits)

lemma time_now_more [env_simps]: "env.more (snd (time_now w)) = env.more w"
  by (simp add: time_now_def split: list.split)

lemma next_outcome_more [env_simps]: "env.more (snd (next_outcome w)) = env.more w"
  by (simp add: next_outcome_def split: list.split)

lemma next_rand_more [env_simps]: "env.more (snd (next_rand w)) = env.more w"
  by (simp add: next_rand_def split: list.split)

text \<open>With every call up and a still clock an operation is evaluated by simplification.\<close>

lemma call_up [simp]: "outcomes w = [] \<Longrightarrow> call f w = f w"
  by (simp add: call_def next_outcome_def)

lemma time_now_still [simp]: "ticks w = [] \<Longrightarrow> time_now w = (clock w, w)"
  by (simp add: time_now_def)

text \<open>A call preserves what its operation preserves, whatever its outcome.\<close>

lemma call_keeps:
  assumes "P w" and "\<And>u. P u \<Longrightarrow> P (snd (f u))" and "\<And>u. P u \<Longrightarrow> P (snd (next_outcome u))"
  shows "P (snd (call f w))"
proof -
  obtain x u where x: "next_outcome w = (x, u)"
    by (cases "next_outcome w")
  with assms(1,3) have "P u"
    by (metis snd_conv)
  with x assms(2) show ?thesis
    by (cases x) (auto simp: call_def)
qed

lemma next_outcome_clock [simp]: "clock (snd (next_outcome w)) = clock w"
  by (simp add: next_outcome_def split: list.split)

lemma next_outcome_up [simp]: "outcomes w = [] \<Longrightarrow> next_outcome w = (Up, w)"
  by (simp add: next_outcome_def)

text \<open>A call that answered has run its operation; one that failed has run it or nothing.\<close>

lemma call_Inr_cases:
  assumes "call f w = (Inr a, w')"
  obtains u where "next_outcome w = (Up, u)" and "f u = (Inr a, w')"
  using assms by (auto simp: call_def split: prod.splits outcome.splits)

text \<open>Every call runs its operation on the world it was given, less the outcomes used, or leaves that.\<close>

lemma call_at:
  assumes "call f w = (r, w')"
  obtains os where "w' = w\<lparr>outcomes := os\<rparr> \<or> w' = snd (f (w\<lparr>outcomes := os\<rparr>))"
    and "\<And>x. r = Inr x \<Longrightarrow> f (w\<lparr>outcomes := os\<rparr>) = (Inr x, w')"
proof -
  obtain y u where y: "next_outcome w = (y, u)" by fastforce
  then have u: "u = w\<lparr>outcomes := outcomes u\<rparr>"
    by (cases w) (auto simp: next_outcome_def split: list.splits)
  have "w' = u \<or> w' = snd (f u)" and "\<And>x. r = Inr x \<Longrightarrow> f u = (Inr x, w')"
    using assms y by (cases y; auto simp: call_def)+
  with u that [of "outcomes u"] show thesis by simp
qed

lemma call_same:
  assumes "\<And>u. h (snd (f u)) = h u" and "\<And>u os. h (u\<lparr>outcomes := os\<rparr>) = h u"
  shows "h (snd (call f w)) = h w"
proof -
  obtain r w' where c: "call f w = (r, w')" by fastforce
  from c obtain os where "w' = w\<lparr>outcomes := os\<rparr> \<or> w' = snd (f (w\<lparr>outcomes := os\<rparr>))"
    by (rule call_at)
  with assms c show ?thesis by auto
qed

section \<open>Rows of a table\<close>

text \<open>
  A table is the list of its rows. \<open>update_where\<close> is \<open>UPDATE ... SET ... WHERE\<close>, its first
  component the number that \<open>RowsAffected\<close> reports.
\<close>

definition update_where :: "('a \<Rightarrow> bool) \<Rightarrow> ('a \<Rightarrow> 'a) \<Rightarrow> 'a list \<Rightarrow> nat \<times> 'a list" where
  "update_where p f rs = (length (filter p rs), map (\<lambda>r. if p r then f r else r) rs)"

lemma filter_update_where:
  assumes "\<And>r. r \<in> set rows \<Longrightarrow> p r \<Longrightarrow> \<not> q r \<and> \<not> q (f r)"
  shows "filter q (snd (update_where p f rows)) = filter q rows"
  using assms by (induction rows) (auto simp: update_where_def)

lemma find_filter_all: "(\<And>k. k \<in> set ks \<Longrightarrow> p k \<Longrightarrow> q k) \<Longrightarrow> find p (filter q ks) = find p ks"
  by (induction ks) auto

lemma set_update_where [row_simps]:
  "r' \<in> set (snd (update_where p f rs)) \<longleftrightarrow> (\<exists>r \<in> set rs. r' = (if p r then f r else r))"
  by (auto simp: update_where_def)

text \<open>
  The interface that the tables with a lifecycle share: a row has a key and is live or retired
  (\<open>deleted_at\<close>, \<open>revoked_at\<close>), and \<open>retire\<close> is the statement that retires the live row of a key.
  What is proved here once holds for links, API keys and webhook endpoints.
\<close>

locale lifecycle_table =
  fixes key :: "'row \<Rightarrow> string" and live :: "'row \<Rightarrow> bool" and kill :: "instant \<Rightarrow> 'row \<Rightarrow> 'row"
  assumes key_kill [simp]: "key (kill t r) = key r"
    and live_kill [simp]: "\<not> live (kill t r)"
begin

lemma keys_after_retire:
  "map key (snd (update_where (\<lambda>r. key r = k \<and> live r) (kill t) rs)) = map key rs"
  by (induction rs) (auto simp: update_where_def)

lemma none_live_after_retire:
  "find (\<lambda>r. key r = k \<and> live r) (snd (update_where (\<lambda>r. key r = k \<and> live r) (kill t) rs)) = None"
proof -
  have "\<not> (key r' = k \<and> live r')"
    if "r' \<in> set (snd (update_where (\<lambda>r. key r = k \<and> live r) (kill t) rs))" for r'
  proof -
    from that obtain r where "r' = (if key r = k \<and> live r then kill t r else r)"
      unfolding set_update_where by blast
    then show ?thesis
      by (cases "key r = k \<and> live r") simp_all
  qed
  then show ?thesis
    unfolding find_None_iff by blast
qed

lemma others_after_retire:
  assumes "k' \<noteq> k"
  shows "filter (\<lambda>r. key r = k') (snd (update_where (\<lambda>r. key r = k \<and> live r) (kill t) rs))
       = filter (\<lambda>r. key r = k') rs"
  using assms by (induction rs) (auto simp: update_where_def)

lemma rest_after_retire:
  "filter (\<lambda>r. key r \<noteq> k) (snd (update_where (\<lambda>r. key r = k \<and> live r) (kill t) rs))
   = filter (\<lambda>r. key r \<noteq> k) rs"
  by (induction rs) (auto simp: update_where_def)

lemma live_after_retire:
  "filter live (snd (update_where (\<lambda>r. key r = k \<and> live r) (kill t) rs))
   = filter (\<lambda>r. live r \<and> key r \<noteq> k) rs"
  by (induction rs) (auto simp: update_where_def)

lemma affected_iff_live:
  "fst (update_where (\<lambda>r. key r = k \<and> live r) f rs) = 0 \<longleftrightarrow>
   find (\<lambda>r. key r = k \<and> live r) rs = None"
  by (auto simp: update_where_def find_None_iff filter_empty_conv)

lemma retire_twice:
  "fst (update_where (\<lambda>r. key r = k \<and> live r) (kill t')
     (snd (update_where (\<lambda>r. key r = k \<and> live r) (kill t) rs))) = 0"
  using none_live_after_retire affected_iff_live by blast

end

lemma find_Some_in: "find p xs = Some x \<Longrightarrow> x \<in> set xs \<and> p x"
  by (induction xs) (auto split: if_splits)

lemma find_distinct_key:
  assumes "distinct (map f xs)" and "x \<in> set xs"
  shows "find (\<lambda>y. f y = f x) xs = Some x"
  using assms by (induction xs) force+

lemma list_ex_key: "list_ex (\<lambda>r. f r = k) rows \<longleftrightarrow> k \<in> f ` set rows"
  by (auto simp: list_ex_iff)

lemma once_of_distinct:
  "distinct (map f rows) \<Longrightarrow> i \<in> f ` set rows \<Longrightarrow> length (filter (\<lambda>row. f row = i) rows) = 1"
proof (induction rows)
  case (Cons a rows)
  show ?case
  proof (cases "f a = i")
    case True
    with Cons.prems have "\<forall>x \<in> set rows. f x \<noteq> i" by (auto simp: image_iff)
    with True show ?thesis by (simp add: filter_empty_conv)
  qed (use Cons in auto)
qed simp

lemma map_update_where [row_simps]:
  "(\<And>r. p r \<Longrightarrow> g (f r) = g r) \<Longrightarrow> map g (snd (update_where p f rs)) = map g rs"
  by (auto simp: update_where_def)

lemma length_update_where [row_simps]: "length (snd (update_where p f rs)) = length rs"
  by (simp add: update_where_def)

end
