(* ===== verification/Go_Time.thy ===== *)
theory Go_Time imports Go_Strings begin

text \<open>
  What the program uses of Go's \<open>time\<close> package beyond instants: the day an instant falls on
  (\<open>Truncate(24 * time.Hour)\<close> in UTC), the date of a day in the proleptic Gregorian calendar, and the
  layout \<open>2006-01-02\<close>, formatted and parsed. The date of a day determines the day and the formatted
  date determines the date, so a date can serve as a key.
\<close>

definition day :: duration where "day = 24 * hour"

lemma day_pos [simp]: "0 < day"
  by (simp add: day_def duration_defs)

lemma day_nonzero [simp]: "day \<noteq> 0"
  using day_pos by linarith

definition day_start :: "instant \<Rightarrow> instant" where "day_start t = t - t mod day"

lemma day_start_range: "day_start t \<le> t" "t < day_start t + day"
  using pos_mod_bound [OF day_pos, of t] by (simp_all add: day_start_def)

lemma day_start_idem [simp]: "day_start (day_start t) = day_start t"
  by (simp add: day_start_def minus_mod_eq_mult_div)

lemma day_start_div: "day_start t = (t div day) * day"
  by (simp add: day_start_def minus_mod_eq_div_mult)

lemma same_day_iff: "day_start t = day_start u \<longleftrightarrow> day_start u \<le> t \<and> t < day_start u + day"
proof
  assume "day_start t = day_start u"
  then show "day_start u \<le> t \<and> t < day_start u + day"
    using day_start_range [of t] by simp
next
  assume "day_start u \<le> t \<and> t < day_start u + day"
  then have "t div day = u div day"
    by (intro int_div_pos_eq [of _ _ _ "t - day_start u"]) (auto simp: day_start_div)
  then show "day_start t = day_start u"
    by (simp add: day_start_div)
qed

section \<open>The calendar\<close>

definition is_leap :: "int \<Rightarrow> bool" where
  "is_leap y = (y mod 4 = 0 \<and> (y mod 100 \<noteq> 0 \<or> y mod 400 = 0))"

definition year_days :: "int \<Rightarrow> int" where "year_days y = (if is_leap y then 366 else 365)"

text \<open>From the first day of year \<open>y\<close>, the year that day \<open>n\<close> falls in and its number in that year.\<close>

function year_up :: "int \<Rightarrow> int \<Rightarrow> int \<times> int" where
  "year_up y n = (if n < year_days y then (y, n) else year_up (y + 1) (n - year_days y))"
  by pat_completeness auto
termination by (relation "measure (\<lambda>(y, n). nat n)") (auto simp: year_days_def split: if_splits)

function year_down :: "int \<Rightarrow> int \<Rightarrow> int \<times> int" where
  "year_down y n = (if 0 \<le> n then (y, n) else year_down (y - 1) (n + year_days (y - 1)))"
  by pat_completeness auto
termination by (relation "measure (\<lambda>(y, n). nat (- n))") (auto simp: year_days_def split: if_splits)

declare year_up.simps [simp del] year_down.simps [simp del]

definition month_lengths :: "int \<Rightarrow> int list" where
  "month_lengths y = [31, if is_leap y then 29 else 28, 31, 30, 31, 30, 31, 31, 30, 31, 30, 31]"

fun month_day :: "nat \<Rightarrow> int list \<Rightarrow> int \<Rightarrow> nat \<times> int" where
  "month_day m [] n = (m, n)"
| "month_day m (l # ls) n = (if n < l then (m, n) else month_day (m + 1) ls (n - l))"

text \<open>The year, month and day of the day \<open>n\<close> days after the first of January 1970.\<close>

definition civil :: "int \<Rightarrow> int \<times> nat \<times> int" where
  "civil n = (case (if n < 0 then year_down 1970 n else year_up 1970 n) of (y, r) \<Rightarrow>
     (case month_day 1 (month_lengths y) r of (m, d) \<Rightarrow> (y, m, d + 1)))"

definition year_base :: "int \<Rightarrow> int" where
  "year_base y = 365 * y + (y - 1) div 4 - (y - 1) div 100 + (y - 1) div 400 - 719527"

definition days_of_civil :: "int \<Rightarrow> nat \<Rightarrow> int \<Rightarrow> int" where
  "days_of_civil y m d = year_base y + sum_list (take (m - 1) (month_lengths y)) + d - 1"

lemma year_base_1970: "year_base 1970 = 0"
  by (simp add: year_base_def)

lemma div_step:
  fixes y :: int
  assumes "0 < k"
  shows "y div k = (y - 1) div k + (if y mod k = 0 then 1 else 0)"
proof (cases "y mod k = 0")
  case True
  have "(y - 1) div k = y div k - 1"
    using assms True by (intro int_div_pos_eq [of _ _ _ "k - 1"]) (auto simp: algebra_simps)
  with True show ?thesis by simp
next
  case False
  have "0 \<le> y mod k" and "y mod k < k" using assms by simp_all
  with False have "(y - 1) div k = y div k"
    by (intro int_div_pos_eq [of _ _ _ "y mod k - 1"]) auto
  with False show ?thesis by simp
qed

lemma year_base_step: "year_base (y + 1) = year_base y + year_days y"
proof -
  define a b c where "a = (y - 1) div 4" and "b = (y - 1) div 100" and "c = (y - 1) div 400"
  have "y mod 100 = 0 \<Longrightarrow> y mod 4 = 0" and "y mod 400 = 0 \<Longrightarrow> y mod 100 = 0"
    using mod_mod_cancel [of 4 100 y] mod_mod_cancel [of 100 400 y] by simp_all
  moreover have "year_base (y + 1) = 365 * y + 365 + (a + (if y mod 4 = 0 then 1 else 0))
      - (b + (if y mod 100 = 0 then 1 else 0)) + (c + (if y mod 400 = 0 then 1 else 0)) - 719527"
    unfolding a_def b_def c_def by (simp add: year_base_def flip: div_step)
  moreover have "year_base y = 365 * y + a - b + c - 719527"
    by (simp add: year_base_def a_def b_def c_def)
  ultimately show ?thesis
    by (cases "y mod 4 = 0"; cases "y mod 100 = 0"; cases "y mod 400 = 0")
      (simp_all only: year_days_def is_leap_def, simp_all)
qed

lemma year_up_base:
  "0 \<le> n \<Longrightarrow> year_up y n = (y', r) \<Longrightarrow> year_base y + n = year_base y' + r \<and> 0 \<le> r \<and> r < year_days y'"
proof (induction y n rule: year_up.induct)
  case (1 y n)
  then show ?case
    by (cases "n < year_days y") (auto simp: year_up.simps [of y n] year_base_step)
qed

lemma year_down_base:
  "n < year_days y \<Longrightarrow> year_down y n = (y', r) \<Longrightarrow>
   year_base y + n = year_base y' + r \<and> 0 \<le> r \<and> r < year_days y'"
proof (induction y n rule: year_down.induct)
  case (1 y n)
  then show ?case
    using year_base_step [of "y - 1"]
    by (cases "0 \<le> n") (auto simp: year_down.simps [of y n])
qed

lemma month_day_range:
  assumes "month_day m ls n = (m', d)" and "0 \<le> n" and "n < sum_list ls"
  shows "m \<le> m' \<and> m' < m + length ls \<and> 0 \<le> d \<and> d < ls ! (m' - m) \<and> n = sum_list (take (m' - m) ls) + d"
  using assms
proof (induction ls arbitrary: m n)
  case (Cons l ls)
  show ?case
  proof (cases "n < l")
    case False
    with Cons have "m + 1 \<le> m' \<and> m' < m + 1 + length ls \<and> 0 \<le> d \<and> d < ls ! (m' - (m + 1))
        \<and> n - l = sum_list (take (m' - (m + 1)) ls) + d"
      by (intro Cons.IH) auto
    moreover from this have "m' - m = Suc (m' - (m + 1))" by auto
    ultimately show ?thesis by simp
  qed (use Cons.prems in auto)
qed simp

lemma sum_month_lengths: "sum_list (month_lengths y) = year_days y"
  by (simp add: month_lengths_def year_days_def)

text \<open>The date of a day is a date of the calendar and determines the day.\<close>

lemma civil_range:
  assumes "civil n = (y, m, d)"
  shows "1 \<le> m \<and> m \<le> 12 \<and> 1 \<le> d \<and> d \<le> month_lengths y ! (m - 1)"
    and "days_of_civil y m d = n"
proof -
  obtain y' r where yr: "(if n < 0 then year_down 1970 n else year_up 1970 n) = (y', r)" by fastforce
  have b: "n = year_base y' + r \<and> 0 \<le> r \<and> r < year_days y'"
  proof (cases "n < 0")
    case True
    moreover have "0 < year_days 1970" by (simp add: year_days_def)
    ultimately show ?thesis
      using year_down_base [of n 1970 y' r] yr year_base_1970 by simp
  next
    case False
    then show ?thesis
      using year_up_base [of n 1970 y' r] yr year_base_1970 by simp
  qed
  obtain m' d' where md: "month_day 1 (month_lengths y') r = (m', d')" by fastforce
  have e: "y = y'" "m = m'" "d = d' + 1"
    using assms unfolding civil_def yr by (simp_all add: md del: One_nat_def)
  have "1 \<le> m' \<and> m' < 1 + length (month_lengths y') \<and> 0 \<le> d' \<and> d' < month_lengths y' ! (m' - 1)
      \<and> r = sum_list (take (m' - 1) (month_lengths y')) + d'"
    using b by (intro month_day_range [OF md]) (simp_all add: sum_month_lengths)
  moreover have "length (month_lengths y') = 12" by (simp add: month_lengths_def)
  ultimately show "1 \<le> m \<and> m \<le> 12 \<and> 1 \<le> d \<and> d \<le> month_lengths y ! (m - 1)"
    and "days_of_civil y m d = n"
    using b e by (simp_all add: days_of_civil_def)
qed

lemma civil_inj: "civil n = civil k \<Longrightarrow> n = k"
  by (metis civil_range(2) prod_cases3)

section \<open>The layout 2006-01-02\<close>

definition format_year :: "int \<Rightarrow> string" where
  "format_year y = (if y < 0 then CHR ''-'' # pad_zero 4 (format_nat (nat (- y)))
     else pad_zero 4 (format_nat (nat y)))"

definition two_digits :: "nat \<Rightarrow> string" where "two_digits n = pad_zero 2 (format_nat n)"

definition format_date :: "instant \<Rightarrow> string" where
  "format_date t = (case civil (t div day) of (y, m, d) \<Rightarrow>
     format_year y @ ''-'' @ two_digits m @ ''-'' @ two_digits (nat d))"

text \<open>\<open>time.Parse("2006-01-02", s)\<close>: four digits, two and two, and a day that the month has.\<close>

definition parse_date :: "string \<Rightarrow> instant option" where
  "parse_date s =
     (if length s = 10 \<and> s ! 4 = CHR ''-'' \<and> s ! 7 = CHR ''-''
      then (case (parse_nat (take 4 s), parse_nat (take 2 (drop 5 s)), parse_nat (drop 8 s)) of
          (Some y, Some m, Some d) \<Rightarrow>
            (if 1 \<le> m \<and> m \<le> 12 \<and> 1 \<le> d \<and> int d \<le> month_lengths (int y) ! (m - 1)
             then Some (days_of_civil (int y) m (int d) * day) else None)
        | _ \<Rightarrow> None)
      else None)"

lemma foldl_zeros: "foldl (\<lambda>a c. 10 * a + digit_val c) 0 (replicate k CHR ''0'' @ s)
    = foldl (\<lambda>a c. 10 * a + digit_val c) 0 s"
  by (induction k) (simp_all add: digit_val_def)

lemma pad_zero_digits: "list_all is_digit (pad_zero k (format_nat n)) \<and> pad_zero k (format_nat n) \<noteq> []"
proof -
  have "is_digit CHR ''0''" by (simp add: is_digit_def)
  then have "list_all is_digit (replicate j CHR ''0'')" for j by (induction j) simp_all
  then show ?thesis by (simp add: pad_zero_def format_nat_digits)
qed

lemma parse_pad_zero [simp]: "parse_nat (pad_zero k (format_nat n)) = Some n"
proof -
  have "foldl (\<lambda>a c. 10 * a + digit_val c) 0 (pad_zero k (format_nat n)) = n"
    unfolding pad_zero_def foldl_zeros by (rule format_nat_value)
  then show ?thesis
    using pad_zero_digits by (simp add: parse_nat_def)
qed

lemma pad_zero_inj: "pad_zero k (format_nat i) = pad_zero k (format_nat j) \<Longrightarrow> i = j"
  by (drule arg_cong [of _ _ parse_nat]) simp

lemma length_format_nat: "n < 10 ^ Suc k \<Longrightarrow> length (format_nat n) \<le> Suc k"
proof (induction k arbitrary: n)
  case (Suc k)
  have "n div 10 < 10 ^ Suc k"
    using Suc.prems by (simp add: less_mult_imp_div_less)
  with Suc.IH show ?case by (simp add: format_nat.simps [of n])
qed (simp add: format_nat.simps)

lemma length_pad_zero: "length s \<le> k \<Longrightarrow> length (pad_zero k s) = k"
  by (simp add: pad_zero_def)

lemma length_two_digits: "n < 100 \<Longrightarrow> length (two_digits n) = 2"
  using length_format_nat [of n 1] by (simp add: two_digits_def length_pad_zero)

lemma two_digits_inj: "two_digits a = two_digits b \<Longrightarrow> a = b"
  unfolding two_digits_def by (rule pad_zero_inj)

lemma pad_zero_no_sign: "pad_zero k (format_nat n) \<noteq> CHR ''-'' # s"
proof
  assume "pad_zero k (format_nat n) = CHR ''-'' # s"
  with pad_zero_digits [of k n] show False by (simp add: is_digit_def)
qed

lemma format_year_inj: "format_year a = format_year b \<Longrightarrow> a = b"
proof -
  assume e: "format_year a = format_year b"
  show "a = b"
  proof (cases "a < 0"; cases "b < 0")
    assume "a < 0" "b < 0"
    with e pad_zero_inj [of 4 "nat (- a)" "nat (- b)"] show ?thesis by (simp add: format_year_def)
  next
    assume "\<not> a < 0" "\<not> b < 0"
    with e pad_zero_inj [of 4 "nat a" "nat b"] show ?thesis by (simp add: format_year_def)
  qed (use e pad_zero_no_sign [of 4 "nat a"] pad_zero_no_sign [of 4 "nat b"] in
      \<open>auto simp: format_year_def dest: sym\<close>)
qed

lemma month_lengths_le: "1 \<le> m \<Longrightarrow> m \<le> 12 \<Longrightarrow> month_lengths y ! (m - 1) \<le> 31"
  by (auto simp: month_lengths_def nth_Cons' split: if_splits)

lemma civil_two_digits:
  assumes "civil n = (y, m, d)"
  shows "length (two_digits m) = 2" and "length (two_digits (nat d)) = 2"
  using civil_range(1) [OF assms] month_lengths_le [of m y]
  by (auto intro!: length_two_digits)

lemma format_date_inj:
  assumes "format_date t = format_date u"
  shows "day_start t = day_start u"
proof -
  obtain y m d where c: "civil (t div day) = (y, m, d)" using prod_cases3 by blast
  obtain y' m' d' where c': "civil (u div day) = (y', m', d')" using prod_cases3 by blast
  note r = civil_range(1) [OF c] civil_range(1) [OF c']
  have "format_year y @ ''-'' @ two_digits m @ ''-'' @ two_digits (nat d)
      = format_year y' @ ''-'' @ two_digits m' @ ''-'' @ two_digits (nat d')"
    using assms by (simp add: format_date_def c c')
  moreover have "length (''-'' @ two_digits m @ ''-'' @ two_digits (nat d))
      = length (''-'' @ two_digits m' @ ''-'' @ two_digits (nat d'))"
    by (simp add: civil_two_digits [OF c] civil_two_digits [OF c'])
  ultimately have "format_year y = format_year y' \<and> ''-'' @ two_digits m @ ''-'' @ two_digits (nat d)
      = ''-'' @ two_digits m' @ ''-'' @ two_digits (nat d')"
    by (intro append_eq_append_conv [THEN iffD1]) simp_all
  then have "y = y'" and "two_digits m = two_digits m'" and "two_digits (nat d) = two_digits (nat d')"
    using format_year_inj by (simp_all add: civil_two_digits [OF c] civil_two_digits [OF c'])
  then have "civil (t div day) = civil (u div day)"
    using r c c' two_digits_inj [of m m'] two_digits_inj [of "nat d" "nat d'"] by auto
  then show ?thesis
    using civil_inj by (simp add: day_start_div)
qed

text \<open>In the years that four digits write, parsing gives the start of the formatted day.\<close>

lemma parse_format_date:
  assumes "civil (t div day) = (y, m, d)" and "0 \<le> y" and "y < 10000"
  shows "parse_date (format_date t) = Some (day_start t)"
proof -
  note r = civil_range [OF assms(1)]
  have y: "length (format_year y) = 4" "parse_nat (format_year y) = Some (nat y)"
    using assms(2,3) length_format_nat [of "nat y" 3]
    by (simp_all add: format_year_def length_pad_zero)
  have m: "parse_nat (two_digits m) = Some m" "parse_nat (two_digits (nat d)) = Some (nat d)"
    by (simp_all add: two_digits_def)
  note l = civil_two_digits [OF assms(1)]
  have s: "format_date t = format_year y @ ''-'' @ two_digits m @ ''-'' @ two_digits (nat d)"
    by (simp add: format_date_def assms(1))
  have "length (format_date t) = 10" and "format_date t ! 4 = CHR ''-''"
    and "format_date t ! 7 = CHR ''-''" and "take 4 (format_date t) = format_year y"
    and "take 2 (drop 5 (format_date t)) = two_digits m"
    and "drop 8 (format_date t) = two_digits (nat d)"
    unfolding s using y(1) l by (simp_all add: nth_append)
  then show ?thesis
    using y m r assms(2) by (auto simp: parse_date_def day_start_div)
qed

text \<open>The layout \<open>time.RFC3339\<close> of a time in UTC, to the second.\<close>

definition format_rfc3339 :: "instant \<Rightarrow> string" where
  "format_rfc3339 t = (let s = t mod day div second in
     format_date t @ ''T'' @ two_digits (nat (s div 3600)) @ '':'' @ two_digits (nat (s div 60 mod 60))
       @ '':'' @ two_digits (nat (s mod 60)) @ ''Z'')"

end
