(* ===== verification/Link_Model.thy ===== *)
theory Link_Model imports Go_Strings begin

text \<open>
  \<open>internal/model/link.go\<close>: the link entity, its computed status, and its conversion to and from
  the string-valued form kept in the Redis cache. The main results: the status is decided by
  deletion before disablement before expiry; the conversion loses the identity of the link (its id
  and owner) and the sub-second part of its times, and nothing else that a redirect uses.
\<close>

section \<open>Status and redirect type\<close>

text \<open>\<open>LinkStatus\<close> and \<open>RedirectType\<close> are a string and an int type with named constants.\<close>

type_synonym link_status = string

definition LinkStatusActive :: link_status where "LinkStatusActive = ''active''"
definition LinkStatusExpired :: link_status where "LinkStatusExpired = ''expired''"
definition LinkStatusDisabled :: link_status where "LinkStatusDisabled = ''disabled''"
definition LinkStatusDeleted :: link_status where "LinkStatusDeleted = ''deleted''"

lemmas link_status_defs =
  LinkStatusActive_def LinkStatusExpired_def LinkStatusDisabled_def LinkStatusDeleted_def

type_synonym redirect_type = int

definition RedirectPermanent :: redirect_type where "RedirectPermanent = 301"
definition RedirectTemporary :: redirect_type where "RedirectTemporary = 302"

definition RedirectType_IsValid :: "redirect_type \<Rightarrow> bool" where
  "RedirectType_IsValid r = (r = RedirectPermanent \<or> r = RedirectTemporary)"

lemma RedirectType_IsValid_iff: "RedirectType_IsValid r \<longleftrightarrow> r = 301 \<or> r = 302"
  by (simp add: RedirectType_IsValid_def RedirectPermanent_def RedirectTemporary_def)

section \<open>Links\<close>

record link =
  l_id :: string
  l_short_code :: string
  l_destination :: string
  l_redirect_type :: redirect_type
  l_owner_id :: string
  l_enabled :: bool
  l_expires_at :: "instant option"
  l_deleted_at :: "instant option"
  l_click_count :: int
  l_created_at :: instant
  l_updated_at :: instant

text \<open>The methods read \<open>time.Now()\<close>; its value is their first argument.\<close>

definition Link_IsExpired :: "instant \<Rightarrow> link \<Rightarrow> bool" where
  "Link_IsExpired now l = (case l_expires_at l of None \<Rightarrow> False | Some e \<Rightarrow> e < now)"

definition Link_Status :: "instant \<Rightarrow> link \<Rightarrow> link_status" where
  "Link_Status now l =
     (if l_deleted_at l \<noteq> None then LinkStatusDeleted
      else if \<not> l_enabled l then LinkStatusDisabled
      else if (case l_expires_at l of None \<Rightarrow> False | Some e \<Rightarrow> e < now) then LinkStatusExpired
      else LinkStatusActive)"

definition Link_IsActive :: "instant \<Rightarrow> link \<Rightarrow> bool" where
  "Link_IsActive now l = (Link_Status now l = LinkStatusActive)"

lemma Link_IsActive_iff:
  "Link_IsActive now l \<longleftrightarrow> l_deleted_at l = None \<and> l_enabled l \<and> \<not> Link_IsExpired now l"
  by (simp add: Link_IsActive_def Link_Status_def Link_IsExpired_def link_status_defs)

lemma Link_Status_cases:
  "Link_Status now l \<in> {LinkStatusActive, LinkStatusExpired, LinkStatusDisabled, LinkStatusDeleted}"
  by (simp add: Link_Status_def)

lemma Link_IsExpired_mono: "Link_IsExpired now l \<Longrightarrow> now \<le> now' \<Longrightarrow> Link_IsExpired now' l"
  by (auto simp: Link_IsExpired_def split: option.splits)

section \<open>The cached form\<close>

record cached_link =
  c_destination :: string
  c_redirect_type :: string
  c_expires_at :: string
  c_enabled :: string
  c_deleted_at :: string
  c_updated_at :: string

definition boolToString :: "bool \<Rightarrow> string" where
  "boolToString b = (if b then ''1'' else ''0'')"

text \<open>A time that does not parse is left at its zero value (\<open>nil\<close>, or the zero \<open>time.Time\<close>).\<close>

definition parse_time_opt :: "string \<Rightarrow> instant option" where
  "parse_time_opt s = (if s \<noteq> [] then map_option from_unix (parse_int64 s) else None)"

definition ToLink :: "string \<Rightarrow> cached_link \<Rightarrow> link" where
  "ToLink shortCode c =
     \<lparr>l_id = [], l_short_code = shortCode, l_destination = c_destination c,
      l_redirect_type = (if c_redirect_type c = ''301'' then RedirectPermanent else RedirectTemporary),
      l_owner_id = [], l_enabled = (c_enabled c = ''1''),
      l_expires_at = parse_time_opt (c_expires_at c),
      l_deleted_at = parse_time_opt (c_deleted_at c),
      l_click_count = 0, l_created_at = zero_time,
      l_updated_at = (case parse_time_opt (c_updated_at c) of None \<Rightarrow> zero_time | Some t \<Rightarrow> t)\<rparr>"

definition ToCachedLink :: "link \<Rightarrow> cached_link" where
  "ToCachedLink l =
     \<lparr>c_destination = l_destination l,
      c_redirect_type = format_int (l_redirect_type l),
      c_expires_at = (case l_expires_at l of None \<Rightarrow> [] | Some t \<Rightarrow> format_int (to_unix t)),
      c_enabled = boolToString (l_enabled l),
      c_deleted_at = (case l_deleted_at l of None \<Rightarrow> [] | Some t \<Rightarrow> format_int (to_unix t)),
      c_updated_at = format_int (to_unix (l_updated_at l))\<rparr>"

text \<open>What a redirect needs of a time: its whole second, in the range of an int64.\<close>

definition unix_ok :: "instant \<Rightarrow> bool" where "unix_ok t = int64_ok (to_unix t)"

definition link_times_ok :: "link \<Rightarrow> bool" where
  "link_times_ok l = (pred_option unix_ok (l_expires_at l) \<and> pred_option unix_ok (l_deleted_at l)
     \<and> unix_ok (l_updated_at l))"

definition whole_second :: "instant \<Rightarrow> instant" where
  "whole_second t = from_unix (to_unix t)"

lemma parse_time_format: "unix_ok t \<Longrightarrow> parse_time_opt (format_int (to_unix t)) = Some (whole_second t)"
  by (simp add: parse_time_opt_def unix_ok_def parse_format_int whole_second_def)

lemma parse_time_empty [simp]: "parse_time_opt [] = None"
  by (simp add: parse_time_opt_def)

lemma whole_second_bounds: "whole_second t \<le> t" "t < whole_second t + second"
  using from_unix_to_unix_le from_unix_to_unix_gt by (auto simp: whole_second_def)

lemma format_int_small: "format_int 301 = ''301''" "format_int 302 = ''302''"
  by (simp_all add: format_int_def format_nat.simps digit_char_def char_of_eq_iff)

lemma format_int_301_iff: "RedirectType_IsValid r \<Longrightarrow> format_int r = ''301'' \<longleftrightarrow> r = 301"
  by (auto simp: RedirectType_IsValid_iff format_int_small)

text \<open>The record that a cache round trip of a link gives back.\<close>

definition cache_image :: "link \<Rightarrow> link" where
  "cache_image l = l\<lparr>l_id := [], l_owner_id := [], l_click_count := 0, l_created_at := zero_time,
     l_expires_at := map_option whole_second (l_expires_at l),
     l_deleted_at := map_option whole_second (l_deleted_at l),
     l_updated_at := whole_second (l_updated_at l)\<rparr>"

lemma ToLink_ToCachedLink:
  assumes "RedirectType_IsValid (l_redirect_type l)" and "link_times_ok l"
  shows "ToLink (l_short_code l) (ToCachedLink l) = cache_image l"
proof -
  have "parse_time_opt (case t of None \<Rightarrow> [] | Some u \<Rightarrow> format_int (to_unix u))
      = map_option whole_second t" if "pred_option unix_ok t" for t
    using that by (cases t) (simp_all add: parse_time_format)
  then show ?thesis
    using assms
    by (auto simp: ToLink_def ToCachedLink_def cache_image_def link_times_ok_def boolToString_def
        parse_time_format format_int_301_iff RedirectType_IsValid_iff RedirectPermanent_def
        RedirectTemporary_def format_int_small)
qed

lemma cache_image_simps [simp]:
  "l_short_code (cache_image l) = l_short_code l" "l_destination (cache_image l) = l_destination l"
  "l_redirect_type (cache_image l) = l_redirect_type l" "l_enabled (cache_image l) = l_enabled l"
  "l_id (cache_image l) = []" "l_owner_id (cache_image l) = []"
  "(l_deleted_at (cache_image l) = None) = (l_deleted_at l = None)"
  by (simp_all add: cache_image_def)

text \<open>A cached link expires no later than the link, and less than a second before it.\<close>

lemma cache_image_expiry:
  shows "Link_IsExpired now l \<Longrightarrow> Link_IsExpired now (cache_image l)"
    and "Link_IsExpired now (cache_image l) \<Longrightarrow> Link_IsExpired (now + second) l"
  using whole_second_bounds [of "the (l_expires_at l)"]
  by (auto simp: Link_IsExpired_def cache_image_def split: option.splits)

end
