(* ===== verification/Key_Model.thy ===== *)
theory Key_Model imports Go_Strings begin

text \<open>
  \<open>internal/model/apikey.go\<close> and \<open>user.go\<close>: API keys, the authenticated context made from one,
  scopes and rate-limit tiers. Both carriers of scopes answer \<open>HasScope\<close> by the same contract,
  stated as the locale \<open>scope_holder\<close>; the API response never carries the key's hash.
\<close>

definition ScopeRead :: string where "ScopeRead = ''read''"
definition ScopeWrite :: string where "ScopeWrite = ''write''"
definition ScopeWebhook :: string where "ScopeWebhook = ''webhook''"
definition ScopeAdmin :: string where "ScopeAdmin = ''admin''"

lemmas scope_defs = ScopeRead_def ScopeWrite_def ScopeWebhook_def ScopeAdmin_def

definition ValidScopes :: "string list" where
  "ValidScopes = [ScopeRead, ScopeWrite, ScopeWebhook, ScopeAdmin]"

definition TierFree :: string where "TierFree = ''free''"
definition TierPro :: string where "TierPro = ''pro''"
definition TierUnlimited :: string where "TierUnlimited = ''unlimited''"

lemmas tier_defs = TierFree_def TierPro_def TierUnlimited_def

record rate_limit_config =
  rl_requests_per_minute :: int
  rl_burst :: int

definition TierConfigs :: "string \<Rightarrow> rate_limit_config option" where
  "TierConfigs t =
     (if t = TierFree then Some \<lparr>rl_requests_per_minute = 60, rl_burst = 10\<rparr>
      else if t = TierPro then Some \<lparr>rl_requests_per_minute = 600, rl_burst = 50\<rparr>
      else if t = TierUnlimited then Some \<lparr>rl_requests_per_minute = 0, rl_burst = 0\<rparr>
      else None)"

text \<open>Indexing a Go map without the second result gives the zero value for an absent key.\<close>

definition TierConfigs_index :: "string \<Rightarrow> rate_limit_config" where
  "TierConfigs_index t = (case TierConfigs t of Some c \<Rightarrow> c
     | None \<Rightarrow> \<lparr>rl_requests_per_minute = 0, rl_burst = 0\<rparr>)"

record api_key =
  k_id :: string
  k_user_id :: string
  k_key_hash :: string
  k_key_prefix :: string
  k_scopes :: "string list"
  k_rate_limit_tier :: string
  k_name :: string
  k_revoked_at :: "instant option"
  k_last_used_at :: "instant option"
  k_created_at :: instant

definition APIKey_IsRevoked :: "api_key \<Rightarrow> bool" where
  "APIKey_IsRevoked k = (k_revoked_at k \<noteq> None)"

definition APIKey_HasScope :: "api_key \<Rightarrow> string \<Rightarrow> bool" where
  "APIKey_HasScope k scope =
     (if ScopeAdmin \<in> set (k_scopes k) then True else scope \<in> set (k_scopes k))"

definition GetRateLimitConfig :: "api_key \<Rightarrow> rate_limit_config" where
  "GetRateLimitConfig k = (case TierConfigs (k_rate_limit_tier k) of
       Some config \<Rightarrow> config
     | None \<Rightarrow> TierConfigs_index TierFree)"

record auth_context =
  a_key_id :: string
  a_key_prefix :: string
  a_user_id :: string
  a_scopes :: "string list"
  a_rate_limit_tier :: string

definition AuthContext_HasScope :: "auth_context \<Rightarrow> string \<Rightarrow> bool" where
  "AuthContext_HasScope a scope =
     (if ScopeAdmin \<in> set (a_scopes a) then True else scope \<in> set (a_scopes a))"

record api_key_response =
  kr_id :: string
  kr_name :: string
  kr_key_prefix :: string
  kr_scopes :: "string list"
  kr_rate_limit_tier :: string
  kr_created_at :: instant
  kr_last_used_at :: "instant option"
  kr_revoked :: bool

definition APIKey_ToResponse :: "api_key \<Rightarrow> api_key_response" where
  "APIKey_ToResponse k =
     \<lparr>kr_id = k_id k, kr_name = k_name k, kr_key_prefix = k_key_prefix k, kr_scopes = k_scopes k,
      kr_rate_limit_tier = k_rate_limit_tier k, kr_created_at = k_created_at k,
      kr_last_used_at = k_last_used_at k, kr_revoked = APIKey_IsRevoked k\<rparr>"

record api_key_create_response =
  kc_id :: string
  kc_key :: string
  kc_name :: string
  kc_key_prefix :: string
  kc_scopes :: "string list"
  kc_rate_limit_tier :: string
  kc_created_at :: instant

record api_key_rotate_response =
  ro_old_key_id :: string
  ro_old_key_revoked_at :: instant
  ro_new_key :: api_key_create_response

record user =
  u_id :: string
  u_email :: string
  u_created_at :: instant

section \<open>The contract of HasScope\<close>

locale scope_holder =
  fixes scopes :: "'a \<Rightarrow> string list" and has_scope :: "'a \<Rightarrow> string \<Rightarrow> bool"
  assumes has_scope_iff: "has_scope a s \<longleftrightarrow> ScopeAdmin \<in> set (scopes a) \<or> s \<in> set (scopes a)"
begin

lemma admin_has_every_scope: "has_scope a ScopeAdmin \<Longrightarrow> has_scope a s"
  by (simp add: has_scope_iff)

lemma has_scope_mono: "set (scopes a) \<subseteq> set (scopes b) \<Longrightarrow> has_scope a s \<Longrightarrow> has_scope b s"
  by (auto simp: has_scope_iff)

lemma no_scope_without_grant: "scopes a = [] \<Longrightarrow> \<not> has_scope a s"
  by (simp add: has_scope_iff)

end

interpretation key_scope: scope_holder k_scopes APIKey_HasScope
  by unfold_locales (simp add: APIKey_HasScope_def)

interpretation ctx_scope: scope_holder a_scopes AuthContext_HasScope
  by unfold_locales (simp add: AuthContext_HasScope_def)

text \<open>Every tier the code names has a configuration; every other string gets the free one.\<close>

lemma GetRateLimitConfig_unknown:
  "TierConfigs (k_rate_limit_tier k) = None \<Longrightarrow>
   GetRateLimitConfig k = \<lparr>rl_requests_per_minute = 60, rl_burst = 10\<rparr>"
  by (simp add: GetRateLimitConfig_def TierConfigs_index_def TierConfigs_def tier_defs)

end
