(* ===== verification/Webhook_Model.thy ===== *)
theory Webhook_Model imports Go_Strings begin

text \<open>
  \<open>internal/model/webhook.go\<close> and \<open>click_event.go\<close>: webhook endpoints, deliveries with their
  status, the payload of a click event, and the rows of the analytics tables. A nullable column
  that the code scans into a plain string (\<open>last_error\<close>) is an option here.
\<close>

section \<open>Webhook endpoints\<close>

type_synonym event_type = string

definition EventTypeClick :: event_type where "EventTypeClick = ''click''"
definition ValidEventTypes :: "event_type list" where "ValidEventTypes = [EventTypeClick]"

definition IsValidEventType :: "event_type \<Rightarrow> bool" where
  "IsValidEventType et = (et \<in> set ValidEventTypes)"

record endpoint =
  e_id :: string
  e_user_id :: string
  e_target_url :: string
  e_secret_hash :: string
  e_enabled :: bool
  e_event_types :: "event_type list"
  e_name :: string
  e_description :: string
  e_created_at :: instant
  e_updated_at :: instant
  e_deleted_at :: "instant option"

definition Endpoint_IsDeleted :: "endpoint \<Rightarrow> bool" where
  "Endpoint_IsDeleted e = (e_deleted_at e \<noteq> None)"

definition Endpoint_IsActive :: "endpoint \<Rightarrow> bool" where
  "Endpoint_IsActive e = (e_enabled e \<and> \<not> Endpoint_IsDeleted e)"

definition SubscribesToEvent :: "endpoint \<Rightarrow> event_type \<Rightarrow> bool" where
  "SubscribesToEvent e et = (et \<in> set (e_event_types e))"

record endpoint_response =
  er_id :: string
  er_name :: string
  er_description :: string
  er_target_url :: string
  er_enabled :: bool
  er_event_types :: "event_type list"
  er_created_at :: instant
  er_updated_at :: instant

definition Endpoint_ToResponse :: "endpoint \<Rightarrow> endpoint_response" where
  "Endpoint_ToResponse e =
     \<lparr>er_id = e_id e, er_name = e_name e, er_description = e_description e,
      er_target_url = e_target_url e, er_enabled = e_enabled e, er_event_types = e_event_types e,
      er_created_at = e_created_at e, er_updated_at = e_updated_at e\<rparr>"

text \<open>The response to a creation carries the secret, once.\<close>

record endpoint_create_response = endpoint_response +
  er_secret :: string

record endpoint_create_request =
  cr_name :: string
  cr_description :: string
  cr_target_url :: string
  cr_event_types :: "event_type list"

record endpoint_update_request =
  ur_name :: "string option"
  ur_description :: "string option"
  ur_target_url :: "string option"
  ur_enabled :: "bool option"
  ur_event_types :: "event_type list option"

section \<open>Webhook deliveries\<close>

datatype delivery_status = Pending | Success | Failed | Exhausted

fun status_text :: "delivery_status \<Rightarrow> string" where
  "status_text Pending = ''pending''"
| "status_text Success = ''success''"
| "status_text Failed = ''failed''"
| "status_text Exhausted = ''exhausted''"

record delivery =
  d_id :: string
  d_endpoint_id :: string
  d_event_id :: string
  d_event_type :: event_type
  d_payload_json :: string
  d_status :: delivery_status
  d_attempt_count :: int
  d_max_attempts :: int
  d_next_retry_at :: instant
  d_last_attempt_at :: "instant option"
  d_last_http_status :: "int option"
  d_last_error :: "string option"
  d_created_at :: instant
  d_updated_at :: instant

definition CanRetry :: "delivery \<Rightarrow> bool" where
  "CanRetry d = (d_status d = Failed \<and> d_attempt_count d < d_max_attempts d)"

definition IsTerminal :: "delivery \<Rightarrow> bool" where
  "IsTerminal d = (d_status d = Success \<or> d_status d = Exhausted)"

record delivery_response =
  dr_id :: string
  dr_event_id :: string
  dr_event_type :: event_type
  dr_status :: delivery_status
  dr_attempt_count :: int
  dr_max_attempts :: int
  dr_next_retry_at :: "instant option"
  dr_last_attempt_at :: "instant option"
  dr_last_http_status :: "int option"
  dr_last_error :: string
  dr_created_at :: instant

text \<open>\<open>d_last_error\<close> is a string by the time a delivery is converted: scanning has read it.\<close>

definition Delivery_ToResponse :: "delivery \<Rightarrow> delivery_response" where
  "Delivery_ToResponse d =
     \<lparr>dr_id = d_id d, dr_event_id = d_event_id d, dr_event_type = d_event_type d,
      dr_status = d_status d, dr_attempt_count = d_attempt_count d,
      dr_max_attempts = d_max_attempts d,
      dr_next_retry_at = (if d_next_retry_at d \<noteq> zero_time \<and> \<not> IsTerminal d
         then Some (d_next_retry_at d) else None),
      dr_last_attempt_at = d_last_attempt_at d, dr_last_http_status = d_last_http_status d,
      dr_last_error = (case d_last_error d of None \<Rightarrow> [] | Some m \<Rightarrow> m),
      dr_created_at = d_created_at d\<rparr>"

lemma CanRetry_not_terminal: "CanRetry d \<Longrightarrow> \<not> IsTerminal d"
  by (simp add: CanRetry_def IsTerminal_def)

lemma terminal_has_no_retry_time: "IsTerminal d \<Longrightarrow> dr_next_retry_at (Delivery_ToResponse d) = None"
  by (simp add: Delivery_ToResponse_def)

lemma status_text_inj: "status_text s = status_text t \<Longrightarrow> s = t"
  by (cases s; cases t) simp_all

section \<open>Click events\<close>

record click_event =
  ce_id :: string
  ce_event_id :: string
  ce_short_code :: string
  ce_link_id :: string
  ce_owner_id :: string
  ce_referrer :: string
  ce_user_agent :: string
  ce_visitor_hash :: string
  ce_country_code :: string
  ce_clicked_at :: instant
  ce_created_at :: instant

text \<open>
  A row of \<open>daily_link_stats\<close>: one per link and day. The breakdowns are association lists, the
  keys distinct, as a Go map has no order.
\<close>

record daily_stats =
  ds_id :: string
  ds_link_id :: string
  ds_date :: instant
  ds_total_clicks :: int
  ds_unique_visitors :: int
  ds_referrers :: "(string \<times> int) list"
  ds_ua_families :: "(string \<times> int) list"
  ds_countries :: "(string \<times> int) list"
  ds_created_at :: instant
  ds_updated_at :: instant

record webhook_payload =
  wp_event_type :: string
  wp_event_id :: string
  wp_timestamp :: instant
  wp_short_code :: string
  wp_link_id :: string
  wp_referrer :: string
  wp_country_code :: string

end
