(* ===== verification/Metrics.thy ===== *)
theory Metrics imports Prelude begin

text \<open>
  \<open>internal/metrics\<close>: the in-memory recorder, a record of 64-bit counters and gauges. Each
  \<open>atomic.AddUint64\<close> is one addition on a 64-bit word, so a counter wraps at \<open>2 ^ 64\<close>.
\<close>

record metrics =
  m_redirect_cache_hits :: "64 word"
  m_redirect_cache_misses :: "64 word"
  m_redirect_duration_count :: "64 word"
  m_redirect_duration_total_ns :: "64 word"
  m_links_created :: "64 word"
  m_links_updated :: "64 word"
  m_links_deleted :: "64 word"
  m_analytics_events_published :: "64 word"
  m_analytics_events_dropped :: "64 word"
  m_analytics_events_processed :: "64 word"
  m_analytics_events_failed :: "64 word"
  m_analytics_events_skipped :: "64 word"
  m_analytics_batch_count :: "64 word"
  m_analytics_queue_depth :: "64 word"
  m_analytics_batch_duration_count :: "64 word"
  m_analytics_batch_duration_total_ns :: "64 word"
  m_analytics_ingest_lag_count :: "64 word"
  m_analytics_ingest_lag_total_ns :: "64 word"
  m_webhook_deliveries_success :: "64 word"
  m_webhook_deliveries_failed :: "64 word"
  m_webhook_deliveries_exhausted :: "64 word"
  m_webhook_retries :: "64 word"
  m_webhook_queue_depth :: "64 word"
  m_webhook_duration_count :: "64 word"
  m_webhook_duration_total_ns :: "64 word"

definition NewInMemory :: metrics where
  "NewInMemory = \<lparr>m_redirect_cache_hits = 0, m_redirect_cache_misses = 0,
     m_redirect_duration_count = 0, m_redirect_duration_total_ns = 0, m_links_created = 0,
     m_links_updated = 0, m_links_deleted = 0, m_analytics_events_published = 0,
     m_analytics_events_dropped = 0, m_analytics_events_processed = 0,
     m_analytics_events_failed = 0, m_analytics_events_skipped = 0, m_analytics_batch_count = 0,
     m_analytics_queue_depth = 0, m_analytics_batch_duration_count = 0,
     m_analytics_batch_duration_total_ns = 0, m_analytics_ingest_lag_count = 0,
     m_analytics_ingest_lag_total_ns = 0, m_webhook_deliveries_success = 0,
     m_webhook_deliveries_failed = 0, m_webhook_deliveries_exhausted = 0, m_webhook_retries = 0,
     m_webhook_queue_depth = 0, m_webhook_duration_count = 0, m_webhook_duration_total_ns = 0\<rparr>"

definition IncRedirectCacheHit :: "metrics \<Rightarrow> metrics" where
  "IncRedirectCacheHit m = m\<lparr>m_redirect_cache_hits := m_redirect_cache_hits m + 1\<rparr>"

definition IncRedirectCacheMiss :: "metrics \<Rightarrow> metrics" where
  "IncRedirectCacheMiss m = m\<lparr>m_redirect_cache_misses := m_redirect_cache_misses m + 1\<rparr>"

definition ObserveRedirectDuration :: "duration \<Rightarrow> metrics \<Rightarrow> metrics" where
  "ObserveRedirectDuration d m = m\<lparr>m_redirect_duration_count := m_redirect_duration_count m + 1,
     m_redirect_duration_total_ns := m_redirect_duration_total_ns m + word_of_int d\<rparr>"

definition IncLinkCreated :: "metrics \<Rightarrow> metrics" where
  "IncLinkCreated m = m\<lparr>m_links_created := m_links_created m + 1\<rparr>"

definition IncLinkUpdated :: "metrics \<Rightarrow> metrics" where
  "IncLinkUpdated m = m\<lparr>m_links_updated := m_links_updated m + 1\<rparr>"

definition IncLinkDeleted :: "metrics \<Rightarrow> metrics" where
  "IncLinkDeleted m = m\<lparr>m_links_deleted := m_links_deleted m + 1\<rparr>"

definition IncAnalyticsEventPublished :: "string \<Rightarrow> metrics \<Rightarrow> metrics" where
  "IncAnalyticsEventPublished status m =
     (if status = ''success'' then m\<lparr>m_analytics_events_published := m_analytics_events_published m + 1\<rparr>
      else m\<lparr>m_analytics_events_dropped := m_analytics_events_dropped m + 1\<rparr>)"

definition IncAnalyticsEventProcessed :: "string \<Rightarrow> metrics \<Rightarrow> metrics" where
  "IncAnalyticsEventProcessed status m =
     (if status = ''success'' then m\<lparr>m_analytics_events_processed := m_analytics_events_processed m + 1\<rparr>
      else if status = ''failed'' then m\<lparr>m_analytics_events_failed := m_analytics_events_failed m + 1\<rparr>
      else if status = ''skipped'' then m\<lparr>m_analytics_events_skipped := m_analytics_events_skipped m + 1\<rparr>
      else m)"

definition ObserveAnalyticsBatchSize :: "nat \<Rightarrow> metrics \<Rightarrow> metrics" where
  "ObserveAnalyticsBatchSize sz m = m\<lparr>m_analytics_batch_count := m_analytics_batch_count m + 1\<rparr>"

definition ObserveAnalyticsBatchDuration :: "duration \<Rightarrow> metrics \<Rightarrow> metrics" where
  "ObserveAnalyticsBatchDuration d m = m\<lparr>
     m_analytics_batch_duration_count := m_analytics_batch_duration_count m + 1,
     m_analytics_batch_duration_total_ns := m_analytics_batch_duration_total_ns m + word_of_int d\<rparr>"

definition SetAnalyticsQueueDepth :: "int \<Rightarrow> metrics \<Rightarrow> metrics" where
  "SetAnalyticsQueueDepth depth m = m\<lparr>m_analytics_queue_depth := word_of_int depth\<rparr>"

definition ObserveAnalyticsIngestLag :: "duration \<Rightarrow> metrics \<Rightarrow> metrics" where
  "ObserveAnalyticsIngestLag lag m = m\<lparr>
     m_analytics_ingest_lag_count := m_analytics_ingest_lag_count m + 1,
     m_analytics_ingest_lag_total_ns := m_analytics_ingest_lag_total_ns m + word_of_int lag\<rparr>"

definition IncWebhookDelivery :: "string \<Rightarrow> string \<Rightarrow> metrics \<Rightarrow> metrics" where
  "IncWebhookDelivery status endpointID m =
     (if status = ''success'' then m\<lparr>m_webhook_deliveries_success := m_webhook_deliveries_success m + 1\<rparr>
      else if status = ''failed'' then m\<lparr>m_webhook_deliveries_failed := m_webhook_deliveries_failed m + 1\<rparr>
      else if status = ''exhausted''
        then m\<lparr>m_webhook_deliveries_exhausted := m_webhook_deliveries_exhausted m + 1\<rparr>
      else m)"

definition ObserveWebhookDeliveryDuration :: "string \<Rightarrow> duration \<Rightarrow> metrics \<Rightarrow> metrics" where
  "ObserveWebhookDeliveryDuration endpointID d m = m\<lparr>
     m_webhook_duration_count := m_webhook_duration_count m + 1,
     m_webhook_duration_total_ns := m_webhook_duration_total_ns m + word_of_int d\<rparr>"

definition IncWebhookRetry :: "string \<Rightarrow> int \<Rightarrow> metrics \<Rightarrow> metrics" where
  "IncWebhookRetry endpointID attempt m = m\<lparr>m_webhook_retries := m_webhook_retries m + 1\<rparr>"

definition SetWebhookQueueDepth :: "int \<Rightarrow> metrics \<Rightarrow> metrics" where
  "SetWebhookQueueDepth depth m = m\<lparr>m_webhook_queue_depth := word_of_int depth\<rparr>"

end
