(* ===== verification/Redis_Interface.thy ===== *)
theory Redis_Interface imports Go_Strings begin

text \<open>
  The Redis commands the program issues, as a parameter. A record \<open>redis_ops\<close> holds one function
  per command over an abstract store \<open>'r\<close>; the locale \<open>redis_server\<close> states what the code relies on
  (the documented behaviour of the commands: a key read at a later time holds what it held or has
  expired, \<open>HSET\<close> merges fields into the hash, \<open>DEL\<close> removes keys, commands on one key leave the
  others alone). The reference store at the end satisfies the laws; witnesses run on it.
\<close>

record 'r redis_ops =
  r_hgetall :: "string \<Rightarrow> instant \<Rightarrow> 'r \<Rightarrow> error + (string \<times> string) list"
  r_hset :: "string \<Rightarrow> (string \<times> string) list \<Rightarrow> instant \<Rightarrow> 'r \<Rightarrow> error + 'r"
  r_expire :: "string \<Rightarrow> duration \<Rightarrow> instant \<Rightarrow> 'r \<Rightarrow> 'r"
  r_del :: "string list \<Rightarrow> 'r \<Rightarrow> 'r"
  r_exists :: "string \<Rightarrow> instant \<Rightarrow> 'r \<Rightarrow> bool"
  r_get :: "string \<Rightarrow> instant \<Rightarrow> 'r \<Rightarrow> string option"
  r_setex :: "string \<Rightarrow> string \<Rightarrow> duration \<Rightarrow> instant \<Rightarrow> 'r \<Rightarrow> 'r"
  r_incr :: "string \<Rightarrow> instant \<Rightarrow> 'r \<Rightarrow> 'r"

text \<open>What a hash read shows: the fields of an existing hash, \<open>None\<close> for an absent or foreign key.\<close>

definition hash_at :: "'r redis_ops \<Rightarrow> string \<Rightarrow> instant \<Rightarrow> 'r \<Rightarrow> (string \<times> string) list" where
  "hash_at R k t s = (case r_hgetall R k t s of Inl _ \<Rightarrow> [] | Inr fs \<Rightarrow> fs)"

locale redis_server =
  fixes R :: "'r redis_ops"
  assumes hash_fades: "t \<le> t' \<Longrightarrow> hash_at R k t' s = hash_at R k t s \<or> hash_at R k t' s = []"
    and exists_fades: "t \<le> t' \<Longrightarrow> r_exists R k t' s \<Longrightarrow> r_exists R k t s"
    and get_fades: "t \<le> t' \<Longrightarrow> r_get R k t' s = r_get R k t s \<or> r_get R k t' s = None"
    and hset_same: "r_hset R k fs t s = Inr s' \<Longrightarrow>
      map_of (hash_at R k t s') = map_of (hash_at R k t s) ++ map_of fs"
    and hset_other: "r_hset R k fs t s = Inr s' \<Longrightarrow> k' \<noteq> k \<Longrightarrow>
      hash_at R k' u s' = hash_at R k' u s \<and> r_exists R k' u s' = r_exists R k' u s
      \<and> r_get R k' u s' = r_get R k' u s"
    and expire_same: "hash_at R k u (r_expire R k d t s) = hash_at R k t s
      \<or> hash_at R k u (r_expire R k d t s) = []"
      "r_exists R k u (r_expire R k d t s) \<Longrightarrow> r_exists R k t s"
      "0 < d \<Longrightarrow> hash_at R k t (r_expire R k d t s) = hash_at R k t s"
    and expire_other: "k' \<noteq> k \<Longrightarrow> hash_at R k' u (r_expire R k d t s) = hash_at R k' u s
      \<and> r_exists R k' u (r_expire R k d t s) = r_exists R k' u s
      \<and> r_get R k' u (r_expire R k d t s) = r_get R k' u s"
    and del_hash: "hash_at R k u (r_del R ks s) = (if k \<in> set ks then [] else hash_at R k u s)"
    and del_exists: "r_exists R k u (r_del R ks s) = (k \<notin> set ks \<and> r_exists R k u s)"
    and del_get: "r_get R k u (r_del R ks s) = (if k \<in> set ks then None else r_get R k u s)"
    and setex_same: "0 < d \<Longrightarrow> r_exists R k t (r_setex R k v d t s)"
      "0 < d \<Longrightarrow> r_get R k t (r_setex R k v d t s) = Some v"
      "hash_at R k u (r_setex R k v d t s) = []"
      "r_get R k u (r_setex R k v d t s) \<in> {Some v, None}"
    and setex_other: "k' \<noteq> k \<Longrightarrow> hash_at R k' u (r_setex R k v d t s) = hash_at R k' u s
      \<and> r_exists R k' u (r_setex R k v d t s) = r_exists R k' u s
      \<and> r_get R k' u (r_setex R k v d t s) = r_get R k' u s"
    and incr_same: "(case r_get R k t s of None \<Rightarrow> Some 0 | Some v \<Rightarrow> parse_int64 v) = Some n \<Longrightarrow>
      (r_exists R k t s \<longrightarrow> r_get R k t s \<noteq> None) \<Longrightarrow> int64_ok (n + 1) \<Longrightarrow>
      r_get R k t (r_incr R k t s) = Some (format_int (n + 1))"
    and incr_other: "k' \<noteq> k \<Longrightarrow> hash_at R k' u (r_incr R k t s) = hash_at R k' u s
      \<and> r_exists R k' u (r_incr R k t s) = r_exists R k' u s
      \<and> r_get R k' u (r_incr R k t s) = r_get R k' u s"
begin

lemma hset_nonempty:
  "r_hset R k fs t s = Inr s' \<Longrightarrow> fs \<noteq> [] \<Longrightarrow> hash_at R k t s' \<noteq> []"
  using hset_same [of k fs t s s'] by (cases fs) (auto simp: fun_eq_iff split: if_splits)

lemma fades_nonempty: "t \<le> t' \<Longrightarrow> hash_at R k t' s \<noteq> [] \<Longrightarrow> hash_at R k t' s = hash_at R k t s"
  using hash_fades by blast

end

text \<open>A server that drops a string once its time to live has passed.\<close>

locale redis_expiry = redis_server +
  assumes setex_expires: "t + d \<le> u \<Longrightarrow> r_get R k u (r_setex R k v d t s) = None"

section \<open>A reference store\<close>

text \<open>Each key holds a hash or a string, with an optional deadline from which it is gone.\<close>

datatype redis_value = RHash "(string \<times> string) list" | RStr string

type_synonym ref_store = "string \<Rightarrow> (redis_value \<times> instant option) option"

definition ref_look :: "string \<Rightarrow> instant \<Rightarrow> ref_store \<Rightarrow> redis_value option" where
  "ref_look k t s = (case s k of None \<Rightarrow> None
     | Some (v, None) \<Rightarrow> Some v
     | Some (v, Some e) \<Rightarrow> if t < e then Some v else None)"

definition ref_wrongtype :: error where
  "ref_wrongtype = Text ''WRONGTYPE Operation against a key holding the wrong kind of value''"

definition ref_hgetall :: "string \<Rightarrow> instant \<Rightarrow> ref_store \<Rightarrow> error + (string \<times> string) list" where
  "ref_hgetall k t s = (case ref_look k t s of None \<Rightarrow> Inr [] | Some (RHash fs) \<Rightarrow> Inr fs
     | Some (RStr _) \<Rightarrow> Inl ref_wrongtype)"

definition ref_merge :: "(string \<times> string) list \<Rightarrow> (string \<times> string) list \<Rightarrow> (string \<times> string) list" where
  "ref_merge fs old = fs @ filter (\<lambda>p. fst p \<notin> set (map fst fs)) old"

definition ref_hset :: "string \<Rightarrow> (string \<times> string) list \<Rightarrow> instant \<Rightarrow> ref_store \<Rightarrow> error + ref_store" where
  "ref_hset k fs t s = (case ref_look k t s of
       None \<Rightarrow> Inr (s(k := Some (RHash (ref_merge fs []), None)))
     | Some (RHash old) \<Rightarrow> Inr (s(k := Some (RHash (ref_merge fs old), snd (the (s k)))))
     | Some (RStr _) \<Rightarrow> Inl ref_wrongtype)"

definition ref_expire :: "string \<Rightarrow> duration \<Rightarrow> instant \<Rightarrow> ref_store \<Rightarrow> ref_store" where
  "ref_expire k d t s = (case ref_look k t s of None \<Rightarrow> s(k := None)
     | Some v \<Rightarrow> s(k := Some (v, Some (t + d))))"

definition ref_del :: "string list \<Rightarrow> ref_store \<Rightarrow> ref_store" where
  "ref_del ks s = (\<lambda>k. if k \<in> set ks then None else s k)"

definition ref_exists :: "string \<Rightarrow> instant \<Rightarrow> ref_store \<Rightarrow> bool" where
  "ref_exists k t s = (ref_look k t s \<noteq> None)"

definition ref_get :: "string \<Rightarrow> instant \<Rightarrow> ref_store \<Rightarrow> string option" where
  "ref_get k t s = (case ref_look k t s of Some (RStr v) \<Rightarrow> Some v | _ \<Rightarrow> None)"

definition ref_setex :: "string \<Rightarrow> string \<Rightarrow> duration \<Rightarrow> instant \<Rightarrow> ref_store \<Rightarrow> ref_store" where
  "ref_setex k v d t s = s(k := Some (RStr v, Some (t + d)))"

definition ref_incr :: "string \<Rightarrow> instant \<Rightarrow> ref_store \<Rightarrow> ref_store" where
  "ref_incr k t s = (case ref_look k t s of
       None \<Rightarrow> s(k := Some (RStr ''1'', None))
     | Some (RStr v) \<Rightarrow> (case parse_int64 v of
           Some n \<Rightarrow> if int64_ok (n + 1) then s(k := Some (RStr (format_int (n + 1)), snd (the (s k)))) else s
         | None \<Rightarrow> s)
     | Some (RHash _) \<Rightarrow> s)"

definition ref_redis :: "ref_store redis_ops" where
  "ref_redis = \<lparr>r_hgetall = ref_hgetall, r_hset = ref_hset, r_expire = ref_expire, r_del = ref_del,
     r_exists = ref_exists, r_get = ref_get, r_setex = ref_setex, r_incr = ref_incr\<rparr>"

lemmas ref_redis_defs = ref_redis_def ref_hgetall_def ref_hset_def ref_expire_def ref_del_def
  ref_exists_def ref_get_def ref_setex_def ref_incr_def ref_look_def hash_at_def ref_merge_def

lemma ref_redis_ops [simp]:
  "r_hgetall ref_redis = ref_hgetall" "r_hset ref_redis = ref_hset"
  "r_expire ref_redis = ref_expire" "r_del ref_redis = ref_del" "r_exists ref_redis = ref_exists"
  "r_get ref_redis = ref_get" "r_setex ref_redis = ref_setex" "r_incr ref_redis = ref_incr"
  by (simp_all add: ref_redis_def)

definition ref_hash :: "redis_value option \<Rightarrow> (string \<times> string) list" where
  "ref_hash v = (case v of Some (RHash fs) \<Rightarrow> fs | _ \<Rightarrow> [])"

lemma hash_at_ref: "hash_at ref_redis k t s = ref_hash (ref_look k t s)"
  by (auto simp: hash_at_def ref_hgetall_def ref_hash_def split: option.split redis_value.split)

lemma ref_look_upd: "k' \<noteq> k \<Longrightarrow> ref_look k' t (s(k := v)) = ref_look k' t s"
  by (simp add: ref_look_def)

lemma ref_look_fades: "t \<le> t' \<Longrightarrow> ref_look k t' s = ref_look k t s \<or> ref_look k t' s = None"
  by (auto simp: ref_look_def split: option.splits prod.splits)

lemma ref_look_del: "ref_look k t (ref_del ks s) = (if k \<in> set ks then None else ref_look k t s)"
  by (simp add: ref_look_def ref_del_def)

lemma ref_look_setex: "ref_look k u (ref_setex k v d t s) = (if u < t + d then Some (RStr v) else None)"
  by (simp add: ref_look_def ref_setex_def)

lemma map_of_merge: "map_of (ref_merge fs old) = map_of old ++ map_of fs"
proof (rule ext)
  fix x
  show "map_of (ref_merge fs old) x = (map_of old ++ map_of fs) x"
  proof (cases "map_of fs x")
    case None
    then have "x \<notin> set (map fst fs)" by (simp add: map_of_eq_None_iff)
    then have "map_of (filter (\<lambda>p. fst p \<notin> set (map fst fs)) old) x = map_of old x"
      by (induction old) auto
    with None show ?thesis by (simp add: ref_merge_def map_add_def)
  qed (simp add: ref_merge_def map_add_def)
qed

lemma ref_other_keys:
  assumes "k' \<noteq> k"
  shows "ref_hset k fs t s = Inr s' \<Longrightarrow> ref_look k' u s' = ref_look k' u s"
    and "ref_look k' u (ref_expire k d t s) = ref_look k' u s"
    and "ref_look k' u (ref_setex k v d t s) = ref_look k' u s"
    and "ref_look k' u (ref_incr k t s) = ref_look k' u s"
  using assms
  by (auto simp: ref_hset_def ref_expire_def ref_setex_def ref_incr_def ref_look_upd
      split: option.splits redis_value.splits if_splits)

lemma ref_hset_same:
  "ref_hset k fs t s = Inr s' \<Longrightarrow> ref_hash (ref_look k t s') = ref_merge fs (ref_hash (ref_look k t s))"
  by (auto simp: ref_hset_def ref_hash_def ref_look_def split: option.splits redis_value.splits
      prod.splits if_splits)

lemma ref_expire_same:
  shows "ref_look k u (ref_expire k d t s) = ref_look k t s \<or> ref_look k u (ref_expire k d t s) = None"
    and "0 < d \<Longrightarrow> ref_look k t (ref_expire k d t s) = ref_look k t s"
  by (auto simp: ref_expire_def ref_look_def split: option.splits prod.splits if_splits)

lemma format_nat_one: "format_nat (Suc 0) = ''1''"
  by (simp add: format_nat.simps digit_char_def char_of_eq_iff)

text \<open>The reference store keeps the laws.\<close>

interpretation ref_server: redis_server ref_redis
proof (unfold_locales, goal_cases)
  case (1 t t' k s)
  then show ?case
    using ref_look_fades [of t t' k s] by (auto simp: hash_at_ref ref_hash_def)
next
  case (2 t t' k s)
  then show ?case
    using ref_look_fades [of t t' k s] by (auto simp: ref_exists_def)
next
  case (3 t t' k s)
  then show ?case
    using ref_look_fades [of t t' k s] by (auto simp: ref_get_def)
next
  case (4 k fs t s s')
  then show ?case by (simp add: hash_at_ref ref_hset_same map_of_merge)
next
  case (5 k fs t s s' k' u)
  then show ?case
    using ref_other_keys(1) [of k' k fs t s s' u] by (simp add: hash_at_ref ref_exists_def ref_get_def)
next
  case (6 k u d t s)
  then show ?case
    using ref_expire_same(1) [of k u d t s] by (auto simp: hash_at_ref ref_hash_def)
next
  case (7 k u d t s)
  then show ?case
    using ref_expire_same(1) [of k u d t s] by (auto simp: ref_exists_def)
next
  case (8 d k t s)
  then show ?case by (simp add: hash_at_ref ref_expire_same(2))
next
  case (9 k' k u d t s)
  then show ?case by (simp add: hash_at_ref ref_exists_def ref_get_def ref_other_keys)
next
  case (17 k' k u v d t s)
  then show ?case by (simp add: hash_at_ref ref_exists_def ref_get_def ref_other_keys)
next
  case (18 k t s n)
  then show ?case
    by (auto simp: ref_incr_def ref_get_def ref_exists_def ref_look_def format_int_def
        format_nat_one split: option.splits redis_value.splits prod.splits if_splits)
next
  case (19 k' k u t s)
  then show ?case by (simp add: hash_at_ref ref_exists_def ref_get_def ref_other_keys)
qed (auto simp: hash_at_ref ref_exists_def ref_get_def ref_look_del ref_look_setex ref_hash_def)

interpretation ref_expiry: redis_expiry ref_redis
  by unfold_locales (simp add: ref_get_def ref_look_setex)

end
