(* ===== verification/World.thy ===== *)
theory World imports Link_Model Key_Model Webhook_Model Metrics Redis_Interface begin

text \<open>
  The state that the components share: the PostgreSQL tables of the migrations, the Redis store and
  the metrics, on top of the environment of a request (\<open>Prelude\<close>).
\<close>

record 'r world = env +
  w_links :: "link list"
  w_users :: "user list"
  w_api_keys :: "api_key list"
  w_click_events :: "click_event list"
  w_daily_stats :: "daily_stats list"
  w_endpoints :: "endpoint list"
  w_deliveries :: "delivery list"
  w_redis :: 'r
  w_metrics :: metrics

text \<open>An empty database and store with every remote call up, at a given time.\<close>

definition empty_world :: "instant \<Rightarrow> 'r \<Rightarrow> 'r world" where
  "empty_world t r = \<lparr>clock = t, ticks = [], outcomes = [], rands = [], w_links = [], w_users = [],
     w_api_keys = [], w_click_events = [], w_daily_stats = [], w_endpoints = [], w_deliveries = [],
     w_redis = r, w_metrics = NewInMemory\<rparr>"

definition record_metric :: "(metrics \<Rightarrow> metrics) \<Rightarrow> 'r world \<Rightarrow> 'r world" where
  "record_metric f w = w\<lparr>w_metrics := f (w_metrics w)\<rparr>"

text \<open>Reading the clock and recording a metric touch no table and no key.\<close>

lemma time_now_frame [simp]:
  "w_links (snd (time_now w)) = w_links w" "w_users (snd (time_now w)) = w_users w"
  "w_api_keys (snd (time_now w)) = w_api_keys w"
  "w_click_events (snd (time_now w)) = w_click_events w"
  "w_daily_stats (snd (time_now w)) = w_daily_stats w"
  "w_endpoints (snd (time_now w)) = w_endpoints w"
  "w_deliveries (snd (time_now w)) = w_deliveries w"
  "w_redis (snd (time_now w)) = w_redis w" "w_metrics (snd (time_now w)) = w_metrics w"
  "outcomes (snd (time_now w)) = outcomes w" "rands (snd (time_now w)) = rands w"
  "clock (snd (time_now w)) = fst (time_now w)"
  by (simp_all add: time_now_def split: list.split)

lemma next_outcome_frame [simp]:
  "w_links (snd (next_outcome w)) = w_links w" "w_users (snd (next_outcome w)) = w_users w"
  "w_api_keys (snd (next_outcome w)) = w_api_keys w"
  "w_click_events (snd (next_outcome w)) = w_click_events w"
  "w_daily_stats (snd (next_outcome w)) = w_daily_stats w"
  "w_endpoints (snd (next_outcome w)) = w_endpoints w"
  "w_deliveries (snd (next_outcome w)) = w_deliveries w"
  "w_redis (snd (next_outcome w)) = w_redis w" "w_metrics (snd (next_outcome w)) = w_metrics w"
  "rands (snd (next_outcome w)) = rands w"
  by (simp_all add: next_outcome_def split: list.split)

lemma next_rand_frame [simp]:
  "w_links (snd (next_rand w)) = w_links w" "w_users (snd (next_rand w)) = w_users w"
  "w_api_keys (snd (next_rand w)) = w_api_keys w"
  "w_endpoints (snd (next_rand w)) = w_endpoints w"
  "w_deliveries (snd (next_rand w)) = w_deliveries w"
  "w_redis (snd (next_rand w)) = w_redis w" "w_metrics (snd (next_rand w)) = w_metrics w"
  "clock (snd (next_rand w)) = clock w" "outcomes (snd (next_rand w)) = outcomes w"
  by (simp_all add: next_rand_def split: list.split)

lemma record_metric_frame [simp]:
  "w_links (record_metric f w) = w_links w" "w_users (record_metric f w) = w_users w"
  "w_api_keys (record_metric f w) = w_api_keys w"
  "w_click_events (record_metric f w) = w_click_events w"
  "w_daily_stats (record_metric f w) = w_daily_stats w"
  "w_endpoints (record_metric f w) = w_endpoints w"
  "w_deliveries (record_metric f w) = w_deliveries w" "w_redis (record_metric f w) = w_redis w"
  "w_metrics (record_metric f w) = f (w_metrics w)" "clock (record_metric f w) = clock w"
  "outcomes (record_metric f w) = outcomes w" "ticks (record_metric f w) = ticks w"
  "rands (record_metric f w) = rands w"
  by (simp_all add: record_metric_def)

lemma empty_world_frame [simp]:
  "clock (empty_world t r) = t" "ticks (empty_world t r) = []" "outcomes (empty_world t r) = []"
  "rands (empty_world t r) = []" "w_links (empty_world t r) = []" "w_users (empty_world t r) = []"
  "w_api_keys (empty_world t r) = []" "w_click_events (empty_world t r) = []"
  "w_daily_stats (empty_world t r) = []" "w_endpoints (empty_world t r) = []"
  "w_deliveries (empty_world t r) = []" "w_redis (empty_world t r) = r"
  by (simp_all add: empty_world_def)

section \<open>Redis commands on the world\<close>

text \<open>Each runs at the clock of the request, on the store, through the operations \<open>R\<close> of the server.\<close>

definition rd_hgetall :: "'r redis_ops \<Rightarrow> string \<Rightarrow> 'r world \<Rightarrow> (error + (string \<times> string) list) \<times> 'r world" where
  "rd_hgetall R k w = (r_hgetall R k (clock w) (w_redis w), w)"

definition rd_hset :: "'r redis_ops \<Rightarrow> string \<Rightarrow> (string \<times> string) list \<Rightarrow> 'r world \<Rightarrow> (error + unit) \<times> 'r world" where
  "rd_hset R k fs w = (case r_hset R k fs (clock w) (w_redis w) of
       Inl e \<Rightarrow> (Inl e, w)
     | Inr s \<Rightarrow> (Inr (), w\<lparr>w_redis := s\<rparr>))"

definition rd_expire :: "'r redis_ops \<Rightarrow> string \<Rightarrow> duration \<Rightarrow> 'r world \<Rightarrow> (error + unit) \<times> 'r world" where
  "rd_expire R k d w = (Inr (), w\<lparr>w_redis := r_expire R k d (clock w) (w_redis w)\<rparr>)"

definition rd_del :: "'r redis_ops \<Rightarrow> string list \<Rightarrow> 'r world \<Rightarrow> (error + unit) \<times> 'r world" where
  "rd_del R ks w = (Inr (), w\<lparr>w_redis := r_del R ks (w_redis w)\<rparr>)"

definition rd_exists :: "'r redis_ops \<Rightarrow> string \<Rightarrow> 'r world \<Rightarrow> (error + nat) \<times> 'r world" where
  "rd_exists R k w = (Inr (if r_exists R k (clock w) (w_redis w) then 1 else 0), w)"

definition rd_get :: "'r redis_ops \<Rightarrow> string \<Rightarrow> 'r world \<Rightarrow> (error + string option) \<times> 'r world" where
  "rd_get R k w = (Inr (r_get R k (clock w) (w_redis w)), w)"

definition rd_getdel :: "'r redis_ops \<Rightarrow> string \<Rightarrow> 'r world \<Rightarrow> (error + string option) \<times> 'r world" where
  "rd_getdel R k w = (Inr (r_get R k (clock w) (w_redis w)), w\<lparr>w_redis := r_del R [k] (w_redis w)\<rparr>)"

definition rd_setex :: "'r redis_ops \<Rightarrow> string \<Rightarrow> string \<Rightarrow> duration \<Rightarrow> 'r world \<Rightarrow> (error + unit) \<times> 'r world" where
  "rd_setex R k v d w = (Inr (), w\<lparr>w_redis := r_setex R k v d (clock w) (w_redis w)\<rparr>)"

definition rd_incr :: "'r redis_ops \<Rightarrow> string \<Rightarrow> 'r world \<Rightarrow> (error + unit) \<times> 'r world" where
  "rd_incr R k w = (Inr (), w\<lparr>w_redis := r_incr R k (clock w) (w_redis w)\<rparr>)"

lemmas rd_defs = rd_hgetall_def rd_hset_def rd_expire_def rd_del_def rd_exists_def rd_get_def
  rd_getdel_def rd_setex_def rd_incr_def

text \<open>
  A pipeline sends its commands together; each has its own outcome, and \<open>Exec\<close> reports the first
  error. \<open>both a b\<close> is the pipeline of two commands.
\<close>

definition both :: "('r world \<Rightarrow> (error + unit) \<times> 'r world) \<Rightarrow> ('r world \<Rightarrow> (error + unit) \<times> 'r world)
    \<Rightarrow> 'r world \<Rightarrow> (error + unit) \<times> 'r world" where
  "both a b w = (case call a w of (r1, w1) \<Rightarrow> (case call b w1 of (r2, w2) \<Rightarrow>
     (case r1 of Inl e \<Rightarrow> (Inl e, w2) | Inr _ \<Rightarrow> (r2, w2))))"

lemma both_snd: "snd (both a b w) = snd (call b (snd (call a w)))"
  by (simp add: both_def split: prod.split sum.split)

end
