(* ===== verification/Link_Repo.thy ===== *)
theory Link_Repo imports World "HOL-Library.Product_Lexorder" "HOL-Library.List_Lexorder" begin

text \<open>
  \<open>internal/repository/link.go\<close> over the table that \<open>migrations/000002_links.up.sql\<close> creates. Each
  \<open>pg_\<close> definition is one SQL statement of a method, with the constraints and the trigger of the
  table; the method around it is the Go code, its error mapping included. Text is compared bytewise,
  and a statement reads the clock of the request for \<open>NOW()\<close>.

  Shown here: the table invariant (distinct ids, live short codes unique, valid rows) is kept by
  every statement; \<open>isUniqueViolation\<close> looks for its substrings exactly; following the cursors of
  \<open>ListLinks\<close> from the first page visits every row of the owner once, newest first.
\<close>

section \<open>The error of a violated constraint\<close>

definition quoted :: "string \<Rightarrow> string" where "quoted s = CHR 0x22 # s @ [CHR 0x22]"

definition pg_unique_violation :: "string \<Rightarrow> error" where
  "pg_unique_violation c = Text (''ERROR: duplicate key value violates unique constraint '' @ quoted c
     @ '' (SQLSTATE 23505)'')"

definition pg_check_violation :: "string \<Rightarrow> string \<Rightarrow> error" where
  "pg_check_violation t c = Text (''ERROR: new row for relation '' @ quoted t
     @ '' violates check constraint '' @ quoted c @ '' (SQLSTATE 23514)'')"

text \<open>\<open>contains\<close> and its search loop: the index \<open>i\<close> runs up to \<open>len(s) - len(substr)\<close>.\<close>

function search_from :: "string \<Rightarrow> string \<Rightarrow> nat \<Rightarrow> bool" where
  "search_from s substr i =
     (if int i \<le> int (length s) - int (length substr)
      then (if take (length substr) (drop i s) = substr then True else search_from s substr (i + 1))
      else False)"
  by auto
termination by (relation "measure (\<lambda>(s, p, i). length s + 1 - i)") auto

declare search_from.simps [simp del]

definition searchString :: "string \<Rightarrow> string \<Rightarrow> bool" where
  "searchString s substr = search_from s substr 0"

definition contains :: "string \<Rightarrow> string \<Rightarrow> bool" where
  "contains s substr = (length substr \<le> length s \<and> searchString s substr)"

definition isUniqueViolation :: "error option \<Rightarrow> bool" where
  "isUniqueViolation err = (case err of None \<Rightarrow> False
     | Some e \<Rightarrow> contains (error_text e) ''23505'' \<or> contains (error_text e) ''unique'')"

lemma ex_from_step: "(\<exists>k \<ge> i. P k) \<longleftrightarrow> P i \<or> (\<exists>k \<ge> Suc i. P k)"
  by (metis Suc_leD le_refl not_less_eq_eq le_antisym)

lemma search_from_iff:
  "search_from s p i \<longleftrightarrow> (\<exists>k \<ge> i. k + length p \<le> length s \<and> take (length p) (drop k s) = p)"
proof (induction s p i rule: search_from.induct)
  case (1 s p i)
  let ?hit = "\<lambda>k. k + length p \<le> length s \<and> take (length p) (drop k s) = p"
  show ?case
  proof (cases "i + length p \<le> length s")
    case True
    then have step: "search_from s p i \<longleftrightarrow> ?hit i \<or> search_from s p (Suc i)"
      by (subst search_from.simps) auto
    show ?thesis
    proof (cases "?hit i")
      case False
      with True "1.IH" have "search_from s p (Suc i) \<longleftrightarrow> (\<exists>k \<ge> Suc i. ?hit k)"
        by simp
      with step ex_from_step [of i ?hit] show ?thesis by simp
    qed (use step in blast)
  next
    case False
    then show ?thesis by (subst search_from.simps) auto
  qed
qed

lemma contains_iff: "contains s p \<longleftrightarrow> (\<exists>a b. s = a @ p @ b)"
proof
  assume "contains s p"
  then obtain k where "take (length p) (drop k s) = p"
    by (auto simp: contains_def searchString_def search_from_iff)
  then have "s = take k s @ p @ drop (length p) (drop k s)"
    by (metis append_take_drop_id)
  then show "\<exists>a b. s = a @ p @ b" by blast
next
  assume "\<exists>a b. s = a @ p @ b"
  then obtain a b where "s = a @ p @ b" by blast
  then show "contains s p"
    by (auto simp: contains_def searchString_def search_from_iff intro!: exI [of _ "length a"])
qed

section \<open>The statements\<close>

text \<open>\<open>LENGTH\<close> counts the characters of UTF-8 text, the bytes that are no continuation byte.\<close>

definition utf8_length :: "string \<Rightarrow> nat" where
  "utf8_length s = length (filter (\<lambda>c. (of_char c :: nat) div 64 \<noteq> 2) s)"

definition live_link :: "link \<Rightarrow> bool" where "live_link l = (l_deleted_at l = None)"

definition link_check :: "link \<Rightarrow> error option" where
  "link_check l =
     (if \<not> RedirectType_IsValid (l_redirect_type l)
        then Some (pg_check_violation ''links'' ''chk_redirect_type'')
      else if 2048 < utf8_length (l_destination l)
        then Some (pg_check_violation ''links'' ''chk_destination_length'')
      else if utf8_length (l_short_code l) < 3 \<or> 50 < utf8_length (l_short_code l)
        then Some (pg_check_violation ''links'' ''chk_short_code_length'')
      else None)"

definition pg_insert_link :: "link \<Rightarrow> 'r world \<Rightarrow> (error + unit) \<times> 'r world" where
  "pg_insert_link l w =
     (case link_check l of Some e \<Rightarrow> (Inl e, w) | None \<Rightarrow>
      if list_ex (\<lambda>r. l_id r = l_id l) (w_links w)
        then (Inl (pg_unique_violation ''links_pkey''), w)
      else if list_ex (\<lambda>r. l_short_code r = l_short_code l \<and> live_link r) (w_links w)
        then (Inl (pg_unique_violation ''idx_links_short_code''), w)
      else (Inr (), w\<lparr>w_links := w_links w @ [l\<lparr>l_deleted_at := None\<rparr>]\<rparr>))"

definition pg_link_by_id :: "string \<Rightarrow> 'r world \<Rightarrow> (error + link option) \<times> 'r world" where
  "pg_link_by_id i w = (Inr (find (\<lambda>r. l_id r = i \<and> live_link r) (w_links w)), w)"

definition pg_link_by_code :: "string \<Rightarrow> 'r world \<Rightarrow> (error + link option) \<times> 'r world" where
  "pg_link_by_code c w = (Inr (find (\<lambda>r. l_short_code r = c \<and> live_link r) (w_links w)), w)"

text \<open>An \<open>UPDATE\<close> runs the trigger, which stamps \<open>updated_at\<close>, and rechecks the constraints.\<close>

fun first_violation :: "link list \<Rightarrow> error option" where
  "first_violation [] = None"
| "first_violation (l # ls) = (case link_check l of Some e \<Rightarrow> Some e | None \<Rightarrow> first_violation ls)"

definition touch_link :: "instant \<Rightarrow> link \<Rightarrow> link" where
  "touch_link t r = r\<lparr>l_updated_at := t\<rparr>"

definition pg_update_links :: "(link \<Rightarrow> bool) \<Rightarrow> (link \<Rightarrow> link) \<Rightarrow> 'r world \<Rightarrow> (error + nat) \<times> 'r world" where
  "pg_update_links p f w =
     (case first_violation (map (\<lambda>r. touch_link (clock w) (f r)) (filter p (w_links w))) of
        Some e \<Rightarrow> (Inl e, w)
      | None \<Rightarrow> (Inr (fst (update_where p (\<lambda>r. touch_link (clock w) (f r)) (w_links w))),
          w\<lparr>w_links := snd (update_where p (\<lambda>r. touch_link (clock w) (f r)) (w_links w))\<rparr>))"

definition set_link_fields :: "link \<Rightarrow> link \<Rightarrow> link" where
  "set_link_fields l r = r\<lparr>l_destination := l_destination l, l_redirect_type := l_redirect_type l,
     l_enabled := l_enabled l, l_expires_at := l_expires_at l\<rparr>"

definition delete_link_row :: "instant \<Rightarrow> link \<Rightarrow> link" where
  "delete_link_row t r = r\<lparr>l_deleted_at := Some t\<rparr>"

definition pg_add_clicks :: "string \<Rightarrow> int \<Rightarrow> 'r world \<Rightarrow> (error + nat) \<times> 'r world" where
  "pg_add_clicks i n w =
     (if list_ex (\<lambda>r. l_id r = i \<and> \<not> int64_ok (l_click_count r + n)) (w_links w)
      then (Inl (Text ''ERROR: bigint out of range (SQLSTATE 22003)''), w)
      else pg_update_links (\<lambda>r. l_id r = i) (\<lambda>r. r\<lparr>l_click_count := l_click_count r + n\<rparr>) w)"

text \<open>
  The pages of an owner's live links, newest first: the keyset condition of the cursor, the range
  filters, \<open>ORDER BY created_at DESC, id DESC\<close>, \<open>LIMIT\<close>.
\<close>

record link_filter =
  f_owner_id :: string
  f_status :: link_status
  f_created_after :: "instant option"
  f_created_before :: "instant option"

record pagination_cursor =
  pc_id :: string
  pc_created_at :: instant

definition link_key :: "link \<Rightarrow> instant \<times> string" where
  "link_key l = (l_created_at l, l_id l)"

definition cursor_key :: "pagination_cursor \<Rightarrow> instant \<times> string" where
  "cursor_key c = (pc_created_at c, pc_id c)"

definition newest_first :: "link list \<Rightarrow> link list" where
  "newest_first ls = rev (sort_key link_key ls)"

definition in_filter :: "link_filter \<Rightarrow> link \<Rightarrow> bool" where
  "in_filter f l = (live_link l \<and> l_owner_id l = f_owner_id f
     \<and> (case f_created_after f of None \<Rightarrow> True | Some t \<Rightarrow> t \<le> l_created_at l)
     \<and> (case f_created_before f of None \<Rightarrow> True | Some t \<Rightarrow> l_created_at l \<le> t))"

definition before_cursor :: "pagination_cursor option \<Rightarrow> link \<Rightarrow> bool" where
  "before_cursor c l = (case c of None \<Rightarrow> True | Some k \<Rightarrow> link_key l < cursor_key k)"

definition pg_list_links :: "link_filter \<Rightarrow> pagination_cursor option \<Rightarrow> int \<Rightarrow> 'r world
    \<Rightarrow> (error + link list) \<times> 'r world" where
  "pg_list_links f c lim w =
     (if lim < 0 then (Inl (Text ''ERROR: LIMIT must not be negative (SQLSTATE 2201W)''), w)
      else (Inr (take (nat lim)
             (newest_first (filter (\<lambda>l. in_filter f l \<and> before_cursor c l) (w_links w)))), w))"

text \<open>
  \<open>ILIKE\<close>: a percent sign stands for any text, an underscore for one character, a backslash takes
  the next character literally; letters match in either case.
\<close>

fun ilike :: "string \<Rightarrow> string \<Rightarrow> bool" where
  "ilike [] [] = True"
| "ilike [] (c # s) = False"
| "ilike (p # ps) [] = (p = CHR 0x25 \<and> ilike ps [])"
| "ilike (p # ps) (c # s) =
     (if p = CHR 0x25 then ilike ps (c # s) \<or> ilike (p # ps) s
      else if p = CHR ''_'' then ilike ps s
      else if p = CHR 0x5C then (case ps of [] \<Rightarrow> False
        | q # qs \<Rightarrow> lower_char q = lower_char c \<and> ilike qs s)
      else lower_char p = lower_char c \<and> ilike ps s)"

definition pg_search_links :: "string \<Rightarrow> int \<Rightarrow> 'r world \<Rightarrow> (error + link list) \<times> 'r world" where
  "pg_search_links pattern lim w =
     (Inr (take (nat lim) (rev (sort_key l_created_at
        (filter (\<lambda>l. ilike pattern (l_destination l)) (w_links w))))), w)"

section \<open>The methods\<close>

definition Repository_CreateLink :: "link \<Rightarrow> 'r world \<Rightarrow> (error + unit) \<times> 'r world" where
  "Repository_CreateLink link w = (case call (pg_insert_link link) w of
       (Inr _, w') \<Rightarrow> (Inr (), w')
     | (Inl err, w') \<Rightarrow>
         (if isUniqueViolation (Some err) then (Inl (Sentinel Repo_ErrAliasExists), w')
          else (Inl (Wrap ''failed to create link'' err), w')))"

definition Repository_GetLinkByID :: "string \<Rightarrow> 'r world \<Rightarrow> (error + link) \<times> 'r world" where
  "Repository_GetLinkByID i w = (case call (pg_link_by_id i) w of
       (Inr (Some link), w') \<Rightarrow> (Inr link, w')
     | (Inr None, w') \<Rightarrow> (Inl (Sentinel Repo_ErrLinkNotFound), w')
     | (Inl err, w') \<Rightarrow> (Inl (Wrap ''failed to get link by ID'' err), w'))"

definition Repository_GetLinkByShortCode :: "string \<Rightarrow> 'r world \<Rightarrow> (error + link) \<times> 'r world" where
  "Repository_GetLinkByShortCode shortCode w = (case call (pg_link_by_code shortCode) w of
       (Inr (Some link), w') \<Rightarrow> (Inr link, w')
     | (Inr None, w') \<Rightarrow> (Inl (Sentinel Repo_ErrLinkNotFound), w')
     | (Inl err, w') \<Rightarrow> (Inl (Wrap ''failed to get link by short code'' err), w'))"

definition Repository_GetLinkByCode :: "string \<Rightarrow> 'r world \<Rightarrow> (error + link) \<times> 'r world" where
  "Repository_GetLinkByCode shortCode w = Repository_GetLinkByShortCode shortCode w"

text \<open>
  The pagination cursor is JSON in base64. The two encodings of the standard library are the fields
  of \<open>cursor_codec\<close>; a decoding gives \<open>None\<close> for its error.
\<close>

record cursor_codec =
  json_marshal :: "pagination_cursor \<Rightarrow> string"
  json_unmarshal :: "string \<Rightarrow> pagination_cursor option"
  base64_encode :: "string \<Rightarrow> string"
  base64_decode :: "string \<Rightarrow> string option"

definition encodeCursor :: "cursor_codec \<Rightarrow> pagination_cursor \<Rightarrow> string" where
  "encodeCursor C cursor = (let data = json_marshal C cursor in base64_encode C data)"

definition decodeCursor :: "cursor_codec \<Rightarrow> string \<Rightarrow> pagination_cursor option" where
  "decodeCursor C s = (case base64_decode C s of
       None \<Rightarrow> None
     | Some data \<Rightarrow> (case json_unmarshal C data of None \<Rightarrow> None | Some cursor \<Rightarrow> Some cursor))"

definition slice_panic :: error where
  "slice_panic = Panic ''runtime error: slice bounds out of range''"

definition Repository_ListLinks :: "cursor_codec \<Rightarrow> link_filter \<Rightarrow> string \<Rightarrow> int \<Rightarrow> 'r world
    \<Rightarrow> (error + link list \<times> string) \<times> 'r world" where
  "Repository_ListLinks C filt cursor limit w =
     (let cursorData = (if cursor \<noteq> [] then map_option Some (decodeCursor C cursor) else Some None)
      in case cursorData of
           None \<Rightarrow> (Inl (Sentinel Repo_ErrInvalidCursor), w)
         | Some c \<Rightarrow> (case call (pg_list_links filt c (limit + 1)) w of
               (Inl err, w') \<Rightarrow> (Inl (Wrap ''failed to list links'' err), w')
             | (Inr links, w') \<Rightarrow>
                 (if limit < int (length links) then
                    (if limit \<le> 0 then (Inl slice_panic, w')
                     else (let page = take (nat limit) links; lastLink = last page
                           in (Inr (page, encodeCursor C \<lparr>pc_id = l_id lastLink,
                                  pc_created_at = l_created_at lastLink\<rparr>), w')))
                  else (Inr (links, []), w'))))"

definition Repository_UpdateLink :: "link \<Rightarrow> 'r world \<Rightarrow> (error + unit) \<times> 'r world" where
  "Repository_UpdateLink link w =
     (case call (pg_update_links (\<lambda>r. l_id r = l_id link \<and> live_link r) (set_link_fields link)) w of
        (Inl err, w') \<Rightarrow> (Inl (Wrap ''failed to update link'' err), w')
      | (Inr n, w') \<Rightarrow>
          (if n = 0 then (Inl (Sentinel Repo_ErrLinkNotFound), w') else (Inr (), w')))"

definition Repository_DeleteLink :: "string \<Rightarrow> 'r world \<Rightarrow> (error + unit) \<times> 'r world" where
  "Repository_DeleteLink i w =
     (case call (\<lambda>u. pg_update_links (\<lambda>r. l_id r = i \<and> live_link r) (delete_link_row (clock u)) u) w of
        (Inl err, w') \<Rightarrow> (Inl (Wrap ''failed to delete link'' err), w')
      | (Inr n, w') \<Rightarrow>
          (if n = 0 then (Inl (Sentinel Repo_ErrLinkNotFound), w') else (Inr (), w')))"

definition Repository_IncrementClickCount :: "string \<Rightarrow> int \<Rightarrow> 'r world \<Rightarrow> (error + unit) \<times> 'r world" where
  "Repository_IncrementClickCount i count w = (case call (pg_add_clicks i count) w of
       (Inl err, w') \<Rightarrow> (Inl (Wrap ''failed to increment click count'' err), w')
     | (Inr n, w') \<Rightarrow> (Inr (), w'))"

definition Repository_ShortCodeExists :: "string \<Rightarrow> 'r world \<Rightarrow> (error + bool) \<times> 'r world" where
  "Repository_ShortCodeExists shortCode w =
     (case call (\<lambda>u. (Inr (list_ex (\<lambda>r. l_short_code r = shortCode \<and> live_link r) (w_links u)), u)) w of
        (Inl err, w') \<Rightarrow> (Inl (Wrap ''failed to check short code existence'' err), w')
      | (Inr ex, w') \<Rightarrow> (Inr ex, w'))"

definition Repository_SearchLinksByDestination :: "string \<Rightarrow> int \<Rightarrow> 'r world
    \<Rightarrow> (error + link list) \<times> 'r world" where
  "Repository_SearchLinksByDestination destination limit w =
     (let limit = (if limit \<le> 0 \<or> 50 < limit then 20 else limit);
          pattern = CHR 0x25 # destination @ [CHR 0x25]
      in case call (pg_search_links pattern limit) w of
           (Inl err, w') \<Rightarrow> (Inl (Wrap ''failed to search links by destination'' err), w')
         | (Inr links, w') \<Rightarrow> (Inr links, w'))"

section \<open>The invariant of the table\<close>

definition links_ok :: "link list \<Rightarrow> bool" where
  "links_ok ls = (distinct (map l_id ls) \<and> distinct (map l_short_code (filter live_link ls))
     \<and> (\<forall>l \<in> set ls. link_check l = None))"

lemma links_ok_nil [simp]: "links_ok []"
  by (simp add: links_ok_def)

interpretation link_table: lifecycle_table l_id live_link "\<lambda>t l. touch_link t (delete_link_row t l)"
  by unfold_locales (simp_all add: delete_link_row_def touch_link_def live_link_def)

lemma touch_link_keeps [simp]:
  "l_id (touch_link t r) = l_id r" "l_short_code (touch_link t r) = l_short_code r"
  "live_link (touch_link t r) = live_link r" "l_owner_id (touch_link t r) = l_owner_id r"
  "l_destination (touch_link t r) = l_destination r" "l_enabled (touch_link t r) = l_enabled r"
  "l_redirect_type (touch_link t r) = l_redirect_type r"
  "l_expires_at (touch_link t r) = l_expires_at r" "l_deleted_at (touch_link t r) = l_deleted_at r"
  by (simp_all add: touch_link_def live_link_def)

lemma first_violation_None: "first_violation ls = None \<longleftrightarrow> (\<forall>l \<in> set ls. link_check l = None)"
  by (induction ls) (auto split: option.split)

lemma pg_insert_link_ok: "links_ok (w_links w) \<Longrightarrow> links_ok (w_links (snd (pg_insert_link l w)))"
  by (auto simp: pg_insert_link_def links_ok_def live_link_def list_ex_iff link_check_def
      split: option.split)

lemma pg_update_links_cases:
  assumes "pg_update_links p f w = (r, w')"
  obtains e where "r = Inl e" and "w' = w"
  | "r = Inr (length (filter p (w_links w)))"
    and "w' = w\<lparr>w_links := map (\<lambda>r. if p r then touch_link (clock w) (f r) else r) (w_links w)\<rparr>"
    and "\<forall>r \<in> set (w_links w). p r \<longrightarrow> link_check (touch_link (clock w) (f r)) = None"
proof (cases "first_violation (map (\<lambda>r. touch_link (clock w) (f r)) (filter p (w_links w)))")
  case None
  show thesis
  proof (rule that(2))
    show "\<forall>r \<in> set (w_links w). p r \<longrightarrow> link_check (touch_link (clock w) (f r)) = None"
      using None by (simp add: first_violation_None)
  qed (use None assms in \<open>simp_all add: pg_update_links_def update_where_def\<close>)
next
  case (Some e)
  with assms have "Inl e = r" and "w' = w"
    by (simp_all add: pg_update_links_def)
  then show thesis by (rule that(1) [OF sym])
qed

lemma map_fields_kept:
  assumes "\<And>r. l_id (g r) = l_id r \<and> l_short_code (g r) = l_short_code r"
    and "\<And>r. live_link (g r) \<Longrightarrow> live_link r"
    and "links_ok ls" and "\<forall>r \<in> set ls. link_check (g r) = None"
  shows "links_ok (map g ls)"
proof -
  have code: "l_short_code (g r) = l_short_code r" for r
    using assms(1) by blast
  have sub: "l_short_code ` {r \<in> g ` R. live_link r} \<subseteq> l_short_code ` {r \<in> R. live_link r}" for R
    using assms(2) code by force
  have "distinct (map l_short_code (filter live_link (map g rs)))"
    if "distinct (map l_short_code (filter live_link rs))" for rs
    using that
  proof (induction rs)
    case (Cons a rs)
    then have tl: "distinct (map l_short_code (filter live_link (map g rs)))"
      by (simp split: if_splits)
    show ?case
    proof (cases "live_link (g a)")
      case True
      with Cons.prems assms(2) have "l_short_code a \<notin> l_short_code ` {r \<in> set rs. live_link r}"
        by auto
      with sub [of "set rs"] have "l_short_code a \<notin> l_short_code ` {r \<in> g ` set rs. live_link r}"
        by blast
      with True tl code show ?thesis by simp
    qed (use tl in simp)
  qed simp
  moreover have "l_id \<circ> g = l_id"
    using assms(1) by (simp add: fun_eq_iff)
  ultimately show ?thesis
    using assms(3,4) by (simp add: links_ok_def)
qed

lemma pg_update_links_ok:
  assumes "links_ok (w_links w)"
    and "\<And>r. l_id (f r) = l_id r \<and> l_short_code (f r) = l_short_code r"
    and "\<And>r. live_link (f r) \<Longrightarrow> live_link r"
  shows "links_ok (w_links (snd (pg_update_links p f w)))"
proof -
  obtain r w' where u: "pg_update_links p f w = (r, w')"
    by (cases "pg_update_links p f w")
  then show ?thesis
  proof (cases rule: pg_update_links_cases)
    case 1
    with u assms(1) show ?thesis by simp
  next
    case 2
    let ?g = "\<lambda>r. if p r then touch_link (clock w) (f r) else r"
    have "links_ok (map ?g (w_links w))"
      by (rule map_fields_kept)
        (use assms 2(3) in \<open>auto simp: links_ok_def split: if_splits\<close>)
    with u 2(2) show ?thesis by simp
  qed
qed

lemma set_link_fields_keeps:
  "l_id (set_link_fields l r) = l_id r" "l_short_code (set_link_fields l r) = l_short_code r"
  "live_link (set_link_fields l r) = live_link r" "l_owner_id (set_link_fields l r) = l_owner_id r"
  by (simp_all add: set_link_fields_def live_link_def)

lemma delete_link_row_keeps:
  "l_id (delete_link_row t r) = l_id r" "l_short_code (delete_link_row t r) = l_short_code r"
  "\<not> live_link (delete_link_row t r)"
  by (simp_all add: delete_link_row_def live_link_def)

text \<open>Every method keeps the invariant, whatever the outcomes of its calls.\<close>

definition links_inv :: "'r world \<Rightarrow> bool" where "links_inv w = links_ok (w_links w)"

text \<open>A method runs one statement: the world it leaves is the world that its call leaves.\<close>

lemma Repository_link_calls:
  shows "snd (Repository_CreateLink l w) = snd (call (pg_insert_link l) w)"
    and "snd (Repository_UpdateLink l w)
       = snd (call (pg_update_links (\<lambda>r. l_id r = l_id l \<and> live_link r) (set_link_fields l)) w)"
    and "snd (Repository_DeleteLink i w)
       = snd (call (\<lambda>u. pg_update_links (\<lambda>r. l_id r = i \<and> live_link r) (delete_link_row (clock u)) u) w)"
    and "snd (Repository_IncrementClickCount i n w) = snd (call (pg_add_clicks i n) w)"
    and "snd (Repository_GetLinkByID i w) = snd (call (pg_link_by_id i) w)"
    and "snd (Repository_GetLinkByShortCode c w) = snd (call (pg_link_by_code c) w)"
  by (simp_all add: Repository_CreateLink_def Repository_UpdateLink_def Repository_DeleteLink_def
      Repository_IncrementClickCount_def Repository_GetLinkByID_def
      Repository_GetLinkByShortCode_def split: prod.split sum.split unit.split option.split)

lemma call_links_inv:
  assumes "links_inv w" and "\<And>u. links_ok (w_links u) \<Longrightarrow> links_ok (w_links (snd (f u)))"
  shows "links_inv (snd (call f w))"
  using assms unfolding links_inv_def by (rule call_keeps [where P = "\<lambda>u. links_ok (w_links u)"]) simp_all

lemma pg_add_clicks_ok: "links_ok (w_links w) \<Longrightarrow> links_ok (w_links (snd (pg_add_clicks i n w)))"
  by (auto simp: pg_add_clicks_def live_link_def intro!: pg_update_links_ok)

lemma Repository_links_inv:
  assumes "links_inv w"
  shows "links_inv (snd (Repository_CreateLink l w))"
    and "links_inv (snd (Repository_UpdateLink l w))"
    and "links_inv (snd (Repository_DeleteLink i w))"
    and "links_inv (snd (Repository_IncrementClickCount i n w))"
  unfolding Repository_link_calls
  by (rule call_links_inv [OF assms];
      auto simp: set_link_fields_keeps delete_link_row_keeps
        intro!: pg_insert_link_ok pg_update_links_ok pg_add_clicks_ok)+

section \<open>Pages\<close>

text \<open>The rows of a filter, and what a client reads by following the cursors.\<close>

definition listing :: "link_filter \<Rightarrow> link list \<Rightarrow> link list" where
  "listing f ls = newest_first (filter (in_filter f) ls)"

fun all_pages :: "nat \<Rightarrow> cursor_codec \<Rightarrow> link_filter \<Rightarrow> string \<Rightarrow> int \<Rightarrow> 'r world \<Rightarrow> link list list option" where
  "all_pages 0 C f cursor limit w = None"
| "all_pages (Suc n) C f cursor limit w = (case Repository_ListLinks C f cursor limit w of
       (Inl e, w') \<Rightarrow> None
     | (Inr (page, next_cursor), w') \<Rightarrow>
         (if next_cursor = [] then Some [page]
          else map_option ((#) page) (all_pages n C f next_cursor limit w')))"

definition cursor_of :: "link \<Rightarrow> pagination_cursor" where
  "cursor_of l = \<lparr>pc_id = l_id l, pc_created_at = l_created_at l\<rparr>"

definition codec_ok :: "cursor_codec \<Rightarrow> link \<Rightarrow> bool" where
  "codec_ok C l = (encodeCursor C (cursor_of l) \<noteq> []
     \<and> decodeCursor C (encodeCursor C (cursor_of l)) = Some (cursor_of l))"

lemma link_key_inj: "distinct (map l_id ls) \<Longrightarrow> distinct (map link_key ls)"
  unfolding distinct_map by (auto simp: inj_on_def link_key_def)

lemma newest_first_strict:
  assumes "distinct (map l_id ls)"
  shows "sorted_wrt (\<lambda>a b. link_key b < link_key a) (newest_first ls)"
proof -
  have "sorted (map link_key (sort_key link_key ls))" by simp
  moreover have "distinct (map link_key (sort_key link_key ls))"
    using link_key_inj [OF assms] by (metis distinct_map distinct_sort set_sort)
  ultimately have "sorted_wrt (<) (map link_key (sort_key link_key ls))"
    by (simp add: strict_sorted_iff)
  then show ?thesis
    by (simp add: newest_first_def sorted_wrt_rev sorted_wrt_map)
qed

lemma newest_first_filter: "newest_first (filter p ls) = filter p (newest_first ls)"
  by (simp add: newest_first_def rev_filter [symmetric] filter_sort)

lemma set_newest_first [simp]: "set (newest_first ls) = set ls"
  by (simp add: newest_first_def)

lemma length_newest_first [simp]: "length (newest_first ls) = length ls"
  by (simp add: newest_first_def)

text \<open>In a strictly descending list, what lies below the last element of a prefix is the rest.\<close>

lemma below_last_of_take:
  assumes "sorted_wrt (\<lambda>a b. link_key b < link_key a) xs" and "0 < n" and "n \<le> length xs"
  shows "filter (\<lambda>l. link_key l < link_key (last (take n xs))) xs = drop n xs"
proof -
  let ?below = "\<lambda>l. link_key l < link_key (last (take n xs))"
  have "take n xs \<noteq> []"
    using assms(2,3) by auto
  with assms(2,3) have last: "last (take n xs) = xs ! (n - 1)"
    by (simp add: last_conv_nth min_absorb2)
  have "\<not> ?below l" if "l \<in> set (take n xs)" for l
  proof -
    from that obtain i where "i < n" and "l = xs ! i"
      using assms(3) by (auto simp: in_set_conv_nth)
    moreover from this have "i = n - 1 \<or> i < n - 1 \<and> n - 1 < length xs"
      using assms(2,3) by auto
    ultimately show ?thesis
      using sorted_wrt_nth_less [OF assms(1), of i "n - 1"] last
      by (metis less_asym)
  qed
  moreover have "?below l" if "l \<in> set (drop n xs)" for l
  proof -
    from that obtain i where "i < length xs - n" and "l = xs ! (n + i)"
      by (auto simp: in_set_conv_nth)
    then have "n - 1 < n + i" and "n + i < length xs"
      using assms(2) by auto
    with \<open>l = xs ! (n + i)\<close> show ?thesis
      using sorted_wrt_nth_less [OF assms(1), of "n - 1" "n + i"] last by simp
  qed
  ultimately have "filter ?below (take n xs) = []" and "filter ?below (drop n xs) = drop n xs"
    by (simp_all add: filter_empty_conv filter_id_conv)
  then show ?thesis
    by (metis append_Nil append_take_drop_id filter_append)
qed

lemma before_cursor_of: "before_cursor (Some (cursor_of k)) = (\<lambda>l. link_key l < link_key k)"
  by (simp add: before_cursor_def cursor_of_def cursor_key_def link_key_def fun_eq_iff)

lemma list_page:
  assumes "outcomes w = []" and "distinct (map l_id (w_links w))" and "0 < limit"
    and "cursor = [] \<and> k = 0 \<or> 0 < k \<and> k \<le> length (listing f (w_links w)) \<and> cursor \<noteq> []
       \<and> decodeCursor C cursor = Some (cursor_of (last (take k (listing f (w_links w)))))"
  defines "rest \<equiv> drop k (listing f (w_links w))"
  shows "Repository_ListLinks C f cursor limit w =
    (Inr (take (nat limit) rest,
       if limit < int (length rest) then encodeCursor C (cursor_of (last (take (nat limit) rest))) else []), w)"
proof -
  let ?xs = "listing f (w_links w)"
  have strict: "sorted_wrt (\<lambda>a b. link_key b < link_key a) ?xs"
    unfolding listing_def by (rule newest_first_strict) (use assms(2) in \<open>simp add: distinct_map_filter\<close>)
  obtain c where c: "(if cursor \<noteq> [] then map_option Some (decodeCursor C cursor) else Some None) = Some c"
    and rows: "filter (before_cursor c) ?xs = rest"
  proof (cases "cursor = []")
    case True
    with assms(4) that [of None] show thesis by (simp add: rest_def before_cursor_def)
  next
    case False
    with assms(4) have "0 < k" and "k \<le> length ?xs" by auto
    with False assms(4) that [of "Some (cursor_of (last (take k ?xs)))"]
      below_last_of_take [OF strict, of k]
    show thesis
      by (simp add: rest_def before_cursor_of)
  qed
  have "newest_first (filter (\<lambda>l. in_filter f l \<and> before_cursor c l) (w_links w)) = rest"
    using rows by (simp add: listing_def newest_first_filter [symmetric] conj_commute)
  then show ?thesis
    using assms(1,3) c
    by (auto simp: Repository_ListLinks_def pg_list_links_def cursor_of_def nat_add_distrib
        min_absorb2 Let_def split: if_splits)
qed

lemma all_pages_from:
  assumes "outcomes w = []" and "distinct (map l_id (w_links w))" and "0 < limit"
    and codec: "\<forall>l \<in> set (w_links w). codec_ok C l"
    and "cursor = [] \<and> k = 0 \<or> 0 < k \<and> k \<le> length (listing f (w_links w)) \<and> cursor \<noteq> []
       \<and> decodeCursor C cursor = Some (cursor_of (last (take k (listing f (w_links w)))))"
    and "length (listing f (w_links w)) - k < n"
  shows "\<exists>ps. all_pages n C f cursor limit w = Some ps \<and> concat ps = drop k (listing f (w_links w))
    \<and> (\<forall>p \<in> set ps. length p \<le> nat limit)"
  using assms(5,6)
proof (induction n arbitrary: cursor k)
  case (Suc n)
  let ?xs = "listing f (w_links w)"
  let ?rest = "drop k ?xs"
  note page = list_page [OF assms(1-3) Suc.prems(1)]
  show ?case
  proof (cases "limit < int (length ?rest)")
    case False
    then have "take (nat limit) ?rest = ?rest" and "length ?rest \<le> nat limit"
      using assms(3) by simp_all
    with page False show ?thesis by (simp add: min_def)
  next
    case True
    define k' where "k' = k + nat limit"
    let ?l = "last (take (nat limit) ?rest)"
    from True have k': "k' \<le> length ?xs" "0 < k'" "length ?xs - k' < n"
      using assms(3) Suc.prems(2) by (auto simp: k'_def)
    have "take k' ?xs = take k ?xs @ take (nat limit) ?rest"
      by (simp add: k'_def take_add)
    moreover have ne: "take (nat limit) ?rest \<noteq> []"
      using True assms(3) by auto
    ultimately have l: "last (take k' ?xs) = ?l"
      by simp
    have "?l \<in> set ?xs"
      using last_in_set [OF ne] in_set_dropD in_set_takeD by metis
    then have "codec_ok C ?l"
      using codec by (simp add: listing_def)
    then obtain ps where ps: "all_pages n C f (encodeCursor C (cursor_of ?l)) limit w = Some ps"
      and "concat ps = drop k' ?xs" and "\<forall>p \<in> set ps. length p \<le> nat limit"
      using Suc.IH [of "encodeCursor C (cursor_of ?l)" k'] k' l by (auto simp: codec_ok_def)
    moreover have "drop k' ?xs = drop (nat limit) ?rest"
      by (simp add: k'_def add.commute)
    then have "take (nat limit) ?rest @ drop k' ?xs = ?rest"
      by (metis append_take_drop_id)
    ultimately show ?thesis
      using page True \<open>codec_ok C ?l\<close> by (auto simp: codec_ok_def)
  qed
qed simp

section \<open>Properties\<close>

text \<open>Every write of the links table keeps its invariant, whatever its calls answer: ids are
  distinct, no two live links share a short code, every row passes the CHECK constraints.\<close>

theorem links_table_invariant:
  assumes "links_inv w"
  shows "links_inv (snd (Repository_CreateLink l w)) \<and> links_inv (snd (Repository_UpdateLink l w))
    \<and> links_inv (snd (Repository_DeleteLink i w))
    \<and> links_inv (snd (Repository_IncrementClickCount i n w))"
  using Repository_links_inv [OF assms] by blast

definition sample_link :: "string \<Rightarrow> string \<Rightarrow> instant \<Rightarrow> link" where
  "sample_link i c t = \<lparr>l_id = i, l_short_code = c, l_destination = ''https://example.org/a'',
     l_redirect_type = 302, l_owner_id = ''system'', l_enabled = True, l_expires_at = None,
     l_deleted_at = None, l_click_count = 0, l_created_at = t, l_updated_at = t\<rparr>"

definition sample_world :: "ref_store world" where
  "sample_world = (empty_world (100 * second) (\<lambda>_. None))
     \<lparr>w_links := [sample_link ''a1'' ''abc'' (3 * second), sample_link ''a2'' ''abd'' (5 * second),
        sample_link ''a3'' ''abe'' (4 * second)]\<rparr>"

lemma sample_link_check [simp]:
  "link_check (sample_link i ''abc'' t) = None" "link_check (sample_link i ''abd'' t) = None"
  "link_check (sample_link i ''abe'' t) = None"
  by (simp_all add: link_check_def sample_link_def RedirectType_IsValid_iff utf8_length_def)

lemma sample_world_facts [simp]:
  "w_links sample_world = [sample_link ''a1'' ''abc'' (3 * second),
     sample_link ''a2'' ''abd'' (5 * second), sample_link ''a3'' ''abe'' (4 * second)]"
  "outcomes sample_world = []" "ticks sample_world = []" "clock sample_world = 100 * second"
  "w_redis sample_world = (\<lambda>_. None)"
  by (simp_all add: sample_world_def empty_world_def)

lemma sample_world_inv [simp]: "links_inv sample_world"
  by (simp add: links_inv_def links_ok_def live_link_def) (simp add: sample_link_def)

theorem links_table_invariant_witness:
  "links_inv (snd (Repository_DeleteLink ''a2'' sample_world))"
  using links_table_invariant [of sample_world] by simp

text \<open>C4: Reading the list of links page by page, from the first page and along the cursors that the
  pages return, ends and visits exactly the live links of the filter, each once, newest first, and
  no page is longer than the limit. The cursors are only assumed to decode to what they encode.\<close>

theorem list_links_complete:
  assumes "outcomes w = []" and "links_inv w" and "0 < limit"
    and "\<forall>l \<in> set (w_links w). codec_ok C l"
  shows "\<exists>ps. all_pages (length (w_links w) + 1) C f [] limit w = Some ps
    \<and> concat ps = newest_first (filter (in_filter f) (w_links w))
    \<and> (\<forall>p \<in> set ps. length p \<le> nat limit)"
proof -
  have "distinct (map l_id (w_links w))"
    using assms(2) by (simp add: links_inv_def links_ok_def)
  moreover have "length (listing f (w_links w)) - 0 < length (w_links w) + 1"
    by (simp add: listing_def le_imp_less_Suc)
  ultimately show ?thesis
    using all_pages_from [of w limit C "[]" 0 f "length (w_links w) + 1"] assms(1,3,4)
    by (simp add: listing_def del: all_pages.simps)
qed

text \<open>A codec that satisfies the hypothesis: the creation time in decimal before the id.\<close>

definition sample_codec :: cursor_codec where
  "sample_codec = \<lparr>json_marshal = (\<lambda>c. format_int (pc_created_at c) @ '','' @ pc_id c),
     json_unmarshal = (\<lambda>s. map_option
        (\<lambda>t. \<lparr>pc_id = tl (dropWhile (\<lambda>x. x \<noteq> CHR '','') s), pc_created_at = t\<rparr>)
        (parse_int64 (takeWhile (\<lambda>x. x \<noteq> CHR '','') s))),
     base64_encode = (\<lambda>s. s), base64_decode = Some\<rparr>"

lemma no_comma_in_digits: "CHR '','' \<notin> set (format_int i)"
proof -
  have "CHR '','' \<notin> set (format_nat n)" for n
    using format_nat_digits [of n] by (auto simp: list_all_iff is_digit_def less_eq_char_def)
  then show ?thesis by (simp add: format_int_def)
qed

lemma sample_codec_ok: "int64_ok (l_created_at l) \<Longrightarrow> codec_ok sample_codec l"
  using no_comma_in_digits [of "l_created_at l"]
  by (auto simp: codec_ok_def sample_codec_def encodeCursor_def decodeCursor_def cursor_of_def
      takeWhile_append dropWhile_append parse_format_int)

abbreviation system_filter :: link_filter where
  "system_filter \<equiv> \<lparr>f_owner_id = ''system'', f_status = [], f_created_after = None,
     f_created_before = None\<rparr>"

lemma sample_codec_all: "\<forall>l \<in> set (w_links sample_world). codec_ok sample_codec l"
  by (simp add: sample_codec_ok sample_link_def int64_ok_def second_def)

lemma sample_listing:
  "newest_first (filter (in_filter system_filter) (w_links sample_world)) =
     [sample_link ''a2'' ''abd'' (5 * second), sample_link ''a3'' ''abe'' (4 * second),
      sample_link ''a1'' ''abc'' (3 * second)]"
proof -
  have "filter (in_filter system_filter) (w_links sample_world) = w_links sample_world"
    by (simp add: in_filter_def live_link_def sample_link_def)
  then show ?thesis
    by (simp add: newest_first_def link_key_def) (simp add: sample_link_def second_def)
qed

theorem list_links_complete_witness:
  "\<exists>ps. all_pages 4 sample_codec system_filter [] 2 sample_world = Some ps
     \<and> concat ps = [sample_link ''a2'' ''abd'' (5 * second), sample_link ''a3'' ''abe'' (4 * second),
         sample_link ''a1'' ''abc'' (3 * second)] \<and> (\<forall>p \<in> set ps. length p \<le> 2)"
proof -
  have "length (w_links sample_world) + 1 = 4" by simp
  moreover have "outcomes sample_world = []" and "links_inv sample_world" and "(0 :: int) < 2"
    by simp_all
  note list_links_complete [OF this sample_codec_all, of system_filter]
  ultimately show ?thesis
    unfolding sample_listing by (simp del: all_pages.simps sample_world_facts(1))
qed

end
