(* ===== verification/Click_Repo.thy ===== *)
theory Click_Repo imports Complex_Main Go_Time Link_Repo begin

text \<open>
  \<open>internal/repository/click_event.go\<close> over the tables of \<open>migrations/000005_analytics.up.sql\<close>: the raw
  click events, inserted in batches and at most once per stream message, and the statistics of a link
  and day, recomputed from the events. \<open>nullableString\<close> writes NULL for an empty string and every read
  coalesces NULL to the empty string, so a nullable column is a string here. The order of a Go map's
  iteration is a parameter \<open>Q\<close>. Sums and counts stay below \<open>2 ^ 63\<close>.

  Shown here: event ids are unique and inserting a batch again changes nothing; the statistics of a
  successful update are exactly those of the events of the day.
\<close>

section \<open>Inserting a batch\<close>

definition insert_click :: "instant \<Rightarrow> click_event \<Rightarrow> click_event list \<Rightarrow> error + click_event list" where
  "insert_click now e rows =
     (if list_ex (\<lambda>r. ce_event_id r = ce_event_id e) rows then Inr rows
      else if list_ex (\<lambda>r. ce_id r = ce_id e) rows then Inl (pg_unique_violation ''click_events_pkey'')
      else Inr (rows @ [e\<lparr>ce_owner_id := [], ce_created_at := now\<rparr>]))"

fun insert_clicks :: "instant \<Rightarrow> nat \<Rightarrow> click_event list \<Rightarrow> click_event list
    \<Rightarrow> (nat \<times> error) + click_event list" where
  "insert_clicks now i [] rows = Inr rows"
| "insert_clicks now i (e # es) rows = (case insert_click now e rows of
     Inl err \<Rightarrow> Inl (i, err) | Inr rows' \<Rightarrow> insert_clicks now (i + 1) es rows')"

text \<open>\<open>pgx\<close> runs a batch as one transaction: a failing statement undoes the others.\<close>

definition pg_send_batch :: "click_event list \<Rightarrow> 'r world \<Rightarrow> (error + (nat \<times> error) option) \<times> 'r world" where
  "pg_send_batch es w = (case insert_clicks (clock w) 0 es (w_click_events w) of
       Inl failure \<Rightarrow> (Inr (Some failure), w)
     | Inr rows \<Rightarrow> (Inr None, w\<lparr>w_click_events := rows\<rparr>))"

definition BulkInsert :: "click_event list \<Rightarrow> 'r world \<Rightarrow> (error + unit) \<times> 'r world" where
  "BulkInsert events w = (if events = [] then (Inr (), w)
     else (case call (pg_send_batch events) w of
         (Inl err, w') \<Rightarrow> (Inl (Wrap ''batch insert event 0'' err), w')
       | (Inr (Some (i, err)), w') \<Rightarrow> (Inl (Wrap (''batch insert event '' @ format_nat i) err), w')
       | (Inr None, w') \<Rightarrow> (Inr (), w')))"

section \<open>Daily statistics\<close>

record daily_acc =
  acc_link_id :: string
  acc_date :: instant
  acc_total_clicks :: int
  acc_unique_visitors :: int
  acc_referrers :: "(string \<times> int) list"
  acc_countries :: "(string \<times> int) list"
  acc_visitor_seen :: "string list"

text \<open>\<open>m[key]++\<close> on a map that is kept as an association list in the order of insertion.\<close>

fun bump :: "string \<Rightarrow> int \<Rightarrow> (string \<times> int) list \<Rightarrow> (string \<times> int) list" where
  "bump k n [] = [(k, n)]"
| "bump k n ((k', v) # m) = (if k' = k then (k, v + n) # m else (k', v) # bump k n m)"

text \<open>What follows the first \<open>://\<close>.\<close>

fun after_scheme :: "string \<Rightarrow> string option" where
  "after_scheme [] = None"
| "after_scheme (c # s) = (if take 3 (c # s) = ''://'' then Some (drop 3 (c # s)) else after_scheme s)"

definition extractDomain :: "string \<Rightarrow> string" where
  "extractDomain urlStr =
     (if length urlStr < 10 then ''(unknown)''
      else let rest = (case after_scheme urlStr of Some r \<Rightarrow> r | None \<Rightarrow> urlStr);
               host = takeWhile (\<lambda>c. c \<noteq> CHR ''/'') rest
           in if host = [] then ''(unknown)'' else host)"

definition accumulate_event :: "daily_acc \<Rightarrow> click_event \<Rightarrow> daily_acc" where
  "accumulate_event acc e =
     (let acc1 = acc\<lparr>acc_total_clicks := acc_total_clicks acc + 1\<rparr>;
          acc2 = (if ce_visitor_hash e \<noteq> [] \<and> ce_visitor_hash e \<notin> set (acc_visitor_seen acc1)
                  then acc1\<lparr>acc_visitor_seen := ce_visitor_hash e # acc_visitor_seen acc1,
                            acc_unique_visitors := acc_unique_visitors acc1 + 1\<rparr>
                  else acc1);
          acc3 = acc2\<lparr>acc_referrers := bump (if ce_referrer e \<noteq> [] then extractDomain (ce_referrer e)
                                             else ''(direct)'') 1 (acc_referrers acc2)\<rparr>
      in if ce_country_code e \<noteq> [] then acc3\<lparr>acc_countries := bump (ce_country_code e) 1 (acc_countries acc3)\<rparr>
         else acc3)"

definition accumulateDailyStats :: "click_event list \<Rightarrow> daily_acc" where
  "accumulateDailyStats events = foldl accumulate_event
     \<lparr>acc_link_id = [], acc_date = zero_time, acc_total_clicks = 0, acc_unique_visitors = 0,
      acc_referrers = [], acc_countries = [], acc_visitor_seen = []\<rparr> events"

definition on_day :: "string \<Rightarrow> instant \<Rightarrow> click_event \<Rightarrow> bool" where
  "on_day linkID start e = (ce_link_id e = linkID \<and> start \<le> ce_clicked_at e \<and> ce_clicked_at e < start + day)"

definition pg_events_of_day :: "string \<Rightarrow> instant \<Rightarrow> 'r world \<Rightarrow> (error + click_event list) \<times> 'r world" where
  "pg_events_of_day linkID start w = (Inr (filter (on_day linkID start) (w_click_events w)), w)"

definition recalculateDailyStat :: "string \<Rightarrow> instant \<Rightarrow> 'r world \<Rightarrow> (error + daily_acc) \<times> 'r world" where
  "recalculateDailyStat linkID date w = (let start = day_start date in
     (case call (pg_events_of_day linkID start) w of
        (Inl err, w') \<Rightarrow> (Inl (Wrap ''query click events'' err), w')
      | (Inr events, w') \<Rightarrow>
          (Inr ((accumulateDailyStats events)\<lparr>acc_link_id := linkID, acc_date := start\<rparr>), w')))"

definition stats_id :: "daily_acc \<Rightarrow> string" where
  "stats_id acc = acc_link_id acc @ '':'' @ format_date (acc_date acc)"

text \<open>The upsert of the row of a link and a date.\<close>

definition pg_upsert_stats :: "daily_acc \<Rightarrow> 'r world \<Rightarrow> (error + unit) \<times> 'r world" where
  "pg_upsert_stats acc w =
     (let hit = (\<lambda>r. ds_link_id r = acc_link_id acc \<and> ds_date r = acc_date acc) in
      if list_ex hit (w_daily_stats w)
        then (Inr (), w\<lparr>w_daily_stats := snd (update_where hit (\<lambda>r. r\<lparr>
            ds_total_clicks := acc_total_clicks acc, ds_unique_visitors := acc_unique_visitors acc,
            ds_referrers := acc_referrers acc, ds_countries := acc_countries acc,
            ds_updated_at := clock w\<rparr>) (w_daily_stats w))\<rparr>)
      else if list_ex (\<lambda>r. ds_id r = stats_id acc) (w_daily_stats w)
        then (Inl (pg_unique_violation ''daily_link_stats_pkey''), w)
      else (Inr (), w\<lparr>w_daily_stats := w_daily_stats w @ [\<lparr>ds_id = stats_id acc,
            ds_link_id = acc_link_id acc, ds_date = acc_date acc,
            ds_total_clicks = acc_total_clicks acc, ds_unique_visitors = acc_unique_visitors acc,
            ds_referrers = acc_referrers acc, ds_ua_families = [], ds_countries = acc_countries acc,
            ds_created_at = clock w, ds_updated_at = clock w\<rparr>]\<rparr>))"

definition upsertDailyStat :: "daily_acc \<Rightarrow> 'r world \<Rightarrow> (error + unit) \<times> 'r world" where
  "upsertDailyStat acc w = call (pg_upsert_stats acc) w"

type_synonym stats_key = "string \<times> instant"

definition daily_key :: "click_event \<Rightarrow> stats_key" where
  "daily_key e = (ce_link_id e, day_start (ce_clicked_at e))"

definition key_text :: "stats_key \<Rightarrow> string" where
  "key_text k = fst k @ '':'' @ format_date (snd k)"

type_synonym map_order = "stats_key list \<Rightarrow> stats_key list"

text \<open>The map from key texts to keys: an entry with the same text is overwritten.\<close>

fun put_seen :: "string \<Rightarrow> stats_key \<Rightarrow> (string \<times> stats_key) list \<Rightarrow> (string \<times> stats_key) list" where
  "put_seen t k [] = [(t, k)]"
| "put_seen t k ((t', k') # m) = (if t' = t then (t, k) # m else (t', k') # put_seen t k m)"

definition uniqueDailyKeys :: "map_order \<Rightarrow> click_event list \<Rightarrow> stats_key list" where
  "uniqueDailyKeys Q events =
     (let seen = foldl (\<lambda>m e. put_seen (key_text (daily_key e)) (daily_key e) m) [] events
      in Q (map snd seen))"

definition update_stat :: "stats_key \<Rightarrow> 'r world \<Rightarrow> (error + unit) \<times> 'r world" where
  "update_stat k w = (case recalculateDailyStat (fst k) (snd k) w of
       (Inl err, w') \<Rightarrow> (Inl (Wrap (''recalculate daily stat '' @ key_text k) err), w')
     | (Inr acc, w') \<Rightarrow> (case upsertDailyStat acc w' of
           (Inl err, w'') \<Rightarrow> (Inl (Wrap (''upsert daily stat '' @ key_text k) err), w'')
         | (Inr _, w'') \<Rightarrow> (Inr (), w'')))"

fun update_stats :: "stats_key list \<Rightarrow> 'r world \<Rightarrow> (error + unit) \<times> 'r world" where
  "update_stats [] w = (Inr (), w)"
| "update_stats (k # ks) w = (case update_stat k w of
     (Inl err, w') \<Rightarrow> (Inl err, w') | (Inr _, w') \<Rightarrow> update_stats ks w')"

definition UpdateDailyStats :: "map_order \<Rightarrow> click_event list \<Rightarrow> 'r world \<Rightarrow> (error + unit) \<times> 'r world" where
  "UpdateDailyStats Q events w =
     (if events = [] then (Inr (), w) else update_stats (uniqueDailyKeys Q events) w)"

section \<open>Queries\<close>

text \<open>A time bound on the DATE column is compared as a date.\<close>

definition in_period :: "string \<Rightarrow> instant \<Rightarrow> instant \<Rightarrow> daily_stats \<Rightarrow> bool" where
  "in_period linkID since until r = (ds_link_id r = linkID \<and> day_start since \<le> ds_date r
     \<and> ds_date r \<le> day_start until)"

definition pg_daily_stats :: "string \<Rightarrow> instant \<Rightarrow> instant \<Rightarrow> 'r world \<Rightarrow> (error + daily_stats list) \<times> 'r world" where
  "pg_daily_stats linkID since until w = (Inr (sort_key (\<lambda>r. - ds_date r)
     (filter (in_period linkID since until) (w_daily_stats w))), w)"

definition GetDailyStats :: "string \<Rightarrow> instant \<Rightarrow> instant \<Rightarrow> 'r world \<Rightarrow> (error + daily_stats list) \<times> 'r world" where
  "GetDailyStats linkID since until w = (case call (pg_daily_stats linkID since until) w of
       (Inl err, w') \<Rightarrow> (Inl (Wrap ''query daily stats'' err), w')
     | (Inr stats, w') \<Rightarrow> (Inr stats, w'))"

record analytics_summary =
  as_total_clicks :: int
  as_unique_visitors :: int
  as_avg_clicks_per_day :: rat

definition pg_summary :: "string \<Rightarrow> instant \<Rightarrow> instant \<Rightarrow> 'r world \<Rightarrow> (error + int \<times> int \<times> nat) \<times> 'r world" where
  "pg_summary linkID since until w =
     (let rows = filter (in_period linkID since until) (w_daily_stats w)
      in (Inr (sum_list (map ds_total_clicks rows), sum_list (map ds_unique_visitors rows), length rows), w))"

definition GetAnalyticsSummary :: "string \<Rightarrow> instant \<Rightarrow> instant \<Rightarrow> 'r world
    \<Rightarrow> (error + analytics_summary) \<times> 'r world" where
  "GetAnalyticsSummary linkID since until w = (case call (pg_summary linkID since until) w of
       (Inl err, w') \<Rightarrow> (Inl (Wrap ''query analytics summary'' err), w')
     | (Inr (totalClicks, uniqueVisitors, days), w') \<Rightarrow>
         (let avg = (if 0 < days then of_int totalClicks / of_nat days else 0)
          in (Inr \<lparr>as_total_clicks = totalClicks, as_unique_visitors = uniqueVisitors,
                as_avg_clicks_per_day = avg\<rparr>, w')))"

definition add_breakdown :: "(string \<times> int) list \<Rightarrow> (string \<times> int) list \<Rightarrow> (string \<times> int) list" where
  "add_breakdown m kvs = foldl (\<lambda>m (k, v). bump k v m) m kvs"

definition pg_top :: "(daily_stats \<Rightarrow> (string \<times> int) list) \<Rightarrow> string \<Rightarrow> instant \<Rightarrow> instant \<Rightarrow> nat \<Rightarrow> 'r world
    \<Rightarrow> (error + (string \<times> int) list) \<times> 'r world" where
  "pg_top column linkID since until limit w =
     (let rows = filter (in_period linkID since until) (w_daily_stats w);
          groups = foldl (\<lambda>m r. add_breakdown m (column r)) [] rows
      in (Inr (take limit (sort_key (\<lambda>kv. - snd kv) groups)), w))"

definition GetTopReferrers :: "string \<Rightarrow> instant \<Rightarrow> instant \<Rightarrow> nat \<Rightarrow> 'r world
    \<Rightarrow> (error + (string \<times> int) list) \<times> 'r world" where
  "GetTopReferrers linkID since until limit w =
     (case call (pg_top ds_referrers linkID since until limit) w of
        (Inl err, w') \<Rightarrow> (Inl (Wrap ''query top referrers'' err), w')
      | (Inr referrers, w') \<Rightarrow> (Inr referrers, w'))"

definition country_names :: "(string \<times> string) list" where
  "country_names = [(''US'', ''United States''), (''VN'', ''Vietnam''), (''GB'', ''United Kingdom''),
     (''DE'', ''Germany''), (''FR'', ''France''), (''JP'', ''Japan''), (''CN'', ''China''),
     (''KR'', ''South Korea''), (''IN'', ''India''), (''BR'', ''Brazil''), (''CA'', ''Canada''),
     (''AU'', ''Australia''), (''SG'', ''Singapore'')]"

definition countryName :: "string \<Rightarrow> string" where
  "countryName code = (case map_of country_names code of Some name \<Rightarrow> name | None \<Rightarrow> code)"

definition GetTopCountries :: "string \<Rightarrow> instant \<Rightarrow> instant \<Rightarrow> nat \<Rightarrow> 'r world
    \<Rightarrow> (error + (string \<times> string \<times> int) list) \<times> 'r world" where
  "GetTopCountries linkID since until limit w =
     (case call (pg_top ds_countries linkID since until limit) w of
        (Inl err, w') \<Rightarrow> (Inl (Wrap ''query top countries'' err), w')
      | (Inr cs, w') \<Rightarrow> (Inr (map (\<lambda>(code, clicks). (code, countryName code, clicks)) cs), w'))"

section \<open>Inserting is idempotent\<close>

definition clicks_ok :: "click_event list \<Rightarrow> bool" where
  "clicks_ok rows = (distinct (map ce_id rows) \<and> distinct (map ce_event_id rows))"

lemma insert_click_Inr:
  assumes "insert_click now e rows = Inr rows'"
  shows "\<exists>new. rows' = rows @ new \<and> (\<forall>r \<in> set new. r = e\<lparr>ce_owner_id := [], ce_created_at := now\<rparr>)"
    and "clicks_ok rows \<Longrightarrow> clicks_ok rows'"
    and "ce_event_id ` set rows' = insert (ce_event_id e) (ce_event_id ` set rows)"
proof -
  show "\<exists>new. rows' = rows @ new \<and> (\<forall>r \<in> set new. r = e\<lparr>ce_owner_id := [], ce_created_at := now\<rparr>)"
    using assms by (auto simp: insert_click_def split: if_splits)
  show "clicks_ok rows \<Longrightarrow> clicks_ok rows'"
    using assms by (auto simp: insert_click_def clicks_ok_def list_ex_key split: if_splits)
  show "ce_event_id ` set rows' = insert (ce_event_id e) (ce_event_id ` set rows)"
    using assms by (auto simp: insert_click_def list_ex_key split: if_splits)
qed

lemma insert_clicks_Inr:
  assumes "insert_clicks now i es rows = Inr rows'"
  shows "\<exists>new. rows' = rows @ new
      \<and> (\<forall>r \<in> set new. \<exists>e \<in> set es. r = e\<lparr>ce_owner_id := [], ce_created_at := now\<rparr>)"
    and "clicks_ok rows \<Longrightarrow> clicks_ok rows'"
    and "ce_event_id ` set rows' = ce_event_id ` set rows \<union> ce_event_id ` set es"
  using assms
proof (induction es arbitrary: i rows)
  case (Cons e es)
  {
    case 1
    then obtain r1 where "insert_click now e rows = Inr r1" "insert_clicks now (i + 1) es r1 = Inr rows'"
      by (auto split: sum.splits)
    with Cons.IH(1) insert_click_Inr(1) show ?case by fastforce
  next
    case 2
    then obtain r1 where "insert_click now e rows = Inr r1" "insert_clicks now (i + 1) es r1 = Inr rows'"
      by (auto split: sum.splits)
    with 2 Cons.IH(2) [of r1] insert_click_Inr(2) show ?case by blast
  next
    case 3
    then obtain r1 where "insert_click now e rows = Inr r1" "insert_clicks now (i + 1) es r1 = Inr rows'"
      by (auto split: sum.splits)
    from Cons.IH(3) [OF this(2)] insert_click_Inr(3) [OF this(1)] show ?case by simp
  }
qed auto

lemma insert_clicks_again:
  "ce_event_id ` set es \<subseteq> ce_event_id ` set rows \<Longrightarrow> insert_clicks now i es rows = Inr rows"
  by (induction es arbitrary: i) (auto simp: insert_click_def list_ex_key)

lemma BulkInsert_cases:
  assumes "BulkInsert events w = (r, w')"
  obtains (none) "w_click_events w' = w_click_events w" and "events = [] \<or> r \<noteq> Inr ()"
  | (all) rows where "insert_clicks (clock w) 0 events (w_click_events w) = Inr rows"
      and "w_click_events w' = rows"
proof (cases "events = []")
  case True
  with assms none show thesis by (simp add: BulkInsert_def)
next
  case False
  obtain x u where x: "next_outcome w = (x, u)" by fastforce
  note fr = next_outcome_frame [of w, unfolded x snd_conv] next_outcome_clock [of w, unfolded x snd_conv]
  show thesis
  proof (cases "insert_clicks (clock w) 0 events (w_click_events w)")
    case (Inl f)
    with assms False fr have "w_click_events w' = w_click_events w \<and> r \<noteq> Inr ()"
      by (cases x; cases f) (auto simp: BulkInsert_def call_def x pg_send_batch_def)
    with none show thesis by simp
  next
    case (Inr rows)
    then have s: "pg_send_batch events u = (Inr None, u\<lparr>w_click_events := rows\<rparr>)"
      using fr by (simp add: pg_send_batch_def)
    show thesis
    proof (cases "w_click_events w' = rows")
      case True
      with Inr all show thesis by blast
    next
      case False
      with assms \<open>events \<noteq> []\<close> fr s have "w_click_events w' = w_click_events w \<and> r \<noteq> Inr ()"
        by (cases x) (auto simp: BulkInsert_def call_def x)
      with none show thesis by simp
    qed
  qed
qed

lemma BulkInsert_again:
  assumes "ce_event_id ` set events \<subseteq> ce_event_id ` set (w_click_events v)"
  shows "w_click_events (snd (BulkInsert events v)) = w_click_events v"
proof -
  obtain r v' where b: "BulkInsert events v = (r, v')" by fastforce
  then show ?thesis
    by (cases rule: BulkInsert_cases) (simp_all add: b insert_clicks_again [OF assms])
qed

lemma BulkInsert_effect:
  assumes "BulkInsert events w = (r, w')"
  shows "\<exists>new. w_click_events w' = w_click_events w @ new \<and> (\<forall>row \<in> set new. \<exists>e \<in> set events.
      row = e\<lparr>ce_owner_id := [], ce_created_at := clock w\<rparr>)"
    and "clicks_ok (w_click_events w) \<Longrightarrow> clicks_ok (w_click_events w')"
    and "r = Inr () \<Longrightarrow> ce_event_id ` set (w_click_events w')
      = ce_event_id ` set (w_click_events w) \<union> ce_event_id ` set events"
  using assms
proof -
  show "\<exists>new. w_click_events w' = w_click_events w @ new \<and> (\<forall>row \<in> set new. \<exists>e \<in> set events.
      row = e\<lparr>ce_owner_id := [], ce_created_at := clock w\<rparr>)"
    using assms by (cases rule: BulkInsert_cases) (auto dest: insert_clicks_Inr(1))
  show "clicks_ok (w_click_events w) \<Longrightarrow> clicks_ok (w_click_events w')"
    using assms by (cases rule: BulkInsert_cases) (auto dest: insert_clicks_Inr(2))
  show "r = Inr () \<Longrightarrow> ce_event_id ` set (w_click_events w')
      = ce_event_id ` set (w_click_events w) \<union> ce_event_id ` set events"
    using assms by (cases rule: BulkInsert_cases) (simp_all add: insert_clicks_Inr(3))
qed

text \<open>C14: Inserting a batch of click events keeps ids and event ids unique and only appends rows of
  events of the batch; on success every event of the batch is in the table, exactly once, and
  inserting the batch again, at any later time and whatever the calls answer, changes nothing.\<close>

theorem bulk_insert_exactly_once:
  fixes w :: "'r world"
  assumes "clicks_ok (w_click_events w)" and "BulkInsert events w = (r, w')"
  shows "clicks_ok (w_click_events w')
    \<and> (\<exists>new. w_click_events w' = w_click_events w @ new
        \<and> (\<forall>row \<in> set new. \<exists>e \<in> set events. row = e\<lparr>ce_owner_id := [], ce_created_at := clock w\<rparr>))
    \<and> (r = Inr () \<longrightarrow> (\<forall>e \<in> set events. length (filter (\<lambda>row. ce_event_id row = ce_event_id e)
        (w_click_events w')) = 1)
      \<and> (\<forall>v :: 'r world. w_click_events v = w_click_events w'
        \<longrightarrow> w_click_events (snd (BulkInsert events v)) = w_click_events w'))"
proof -
  note b = BulkInsert_effect [OF assms(2)]
  have once: "length (filter (\<lambda>row. ce_event_id row = ce_event_id e) (w_click_events w')) = 1"
    if "r = Inr ()" and "e \<in> set events" for e
    using b(2) [OF assms(1)] b(3) [OF that(1)] that(2)
    by (intro once_of_distinct) (simp_all add: clicks_ok_def)
  have again: "w_click_events (snd (BulkInsert events v)) = w_click_events w'"
    if "r = Inr ()" and "w_click_events v = w_click_events w'" for v :: "'r world"
    using BulkInsert_again [of events v] b(3) [OF that(1)] that(2) by simp
  show ?thesis
    by (intro conjI impI ballI allI) (rule b(1) b(2) [OF assms(1)] once again; assumption)+
qed

theorem bulk_insert_exactly_once_witness:
  "let e = \<lparr>ce_id = ''1'', ce_event_id = ''5-0'', ce_short_code = ''abc'', ce_link_id = ''l1'',
       ce_owner_id = ''u1'', ce_referrer = [], ce_user_agent = [], ce_visitor_hash = ''0123456789abcdef'',
       ce_country_code = ''DE'', ce_clicked_at = 0, ce_created_at = zero_time\<rparr>;
     w' = snd (BulkInsert [e] (empty_world 7 ()))
   in length (filter (\<lambda>row. ce_event_id row = ''5-0'') (w_click_events w')) = 1
     \<and> w_click_events (snd (BulkInsert [e] w')) = w_click_events w'"
proof -
  define e where "e = \<lparr>ce_id = ''1'', ce_event_id = ''5-0'', ce_short_code = ''abc'', ce_link_id = ''l1'',
       ce_owner_id = ''u1'', ce_referrer = [], ce_user_agent = [], ce_visitor_hash = ''0123456789abcdef'',
       ce_country_code = ''DE'', ce_clicked_at = 0, ce_created_at = zero_time\<rparr>"
  have i: "ce_event_id e = ''5-0''" by (simp add: e_def)
  have "\<exists>w'. BulkInsert [e] (empty_world 7 ()) = (Inr (), w')"
    by (simp add: BulkInsert_def pg_send_batch_def insert_click_def)
  then obtain w' where run: "BulkInsert [e] (empty_world 7 ()) = (Inr (), w')" ..
  have "clicks_ok (w_click_events (empty_world 7 ()))" by (simp add: clicks_ok_def)
  note t = bulk_insert_exactly_once [OF this run]
  from t have "\<forall>e' \<in> set [e]. length (filter (\<lambda>row. ce_event_id row = ce_event_id e') (w_click_events w')) = 1"
    by blast
  then have "length (filter (\<lambda>row. ce_event_id row = ''5-0'') (w_click_events w')) = 1"
    by (simp add: i)
  moreover from t have "w_click_events (snd (BulkInsert [e] w')) = w_click_events w'" by blast
  ultimately show ?thesis
    by (simp only: e_def [symmetric] Let_def run snd_conv simp_thms)
qed

section \<open>Statistics are exact\<close>

text \<open>Counting into a map: the entry of a key is the number of elements with that key.\<close>

definition tally :: "('a \<Rightarrow> string option) \<Rightarrow> 'a list \<Rightarrow> (string \<times> int) list" where
  "tally f xs = foldl (\<lambda>m x. case f x of None \<Rightarrow> m | Some k \<Rightarrow> bump k 1 m) [] xs"

definition entry :: "(string \<times> int) list \<Rightarrow> string \<Rightarrow> int" where
  "entry m k = (case map_of m k of None \<Rightarrow> 0 | Some v \<Rightarrow> v)"

lemma bump_keys: "fst ` set (bump k n m) = insert k (fst ` set m)"
  by (induction k n m rule: bump.induct) auto

lemma bump_distinct: "distinct (map fst m) \<Longrightarrow> distinct (map fst (bump k n m))"
proof (induction k n m rule: bump.induct)
  case (2 k n k' v m)
  then show ?case using bump_keys [of k n m] by auto
qed simp

lemma bump_entry: "entry (bump k n m) k' = entry m k' + (if k' = k then n else 0)"
  by (induction k n m rule: bump.induct) (auto simp: entry_def)

lemma bump_sum: "sum_list (map snd (bump k n m)) = sum_list (map snd m) + n"
  by (induction k n m rule: bump.induct) auto

lemma tally_snoc: "tally f (xs @ [x]) = (case f x of None \<Rightarrow> tally f xs | Some k \<Rightarrow> bump k 1 (tally f xs))"
  unfolding tally_def by simp

lemma tally_exact:
  "distinct (map fst (tally f xs))"
  "entry (tally f xs) k = int (length (filter (\<lambda>x. f x = Some k) xs))"
  "sum_list (map snd (tally f xs)) = int (length (filter (\<lambda>x. f x \<noteq> None) xs))"
proof -
  show "distinct (map fst (tally f xs))"
    by (induction xs rule: rev_induct) (auto simp: tally_snoc bump_distinct tally_def [of _ "[]"] split: option.split)
  show "entry (tally f xs) k = int (length (filter (\<lambda>x. f x = Some k) xs))"
    by (induction xs rule: rev_induct)
      (auto simp: tally_snoc bump_entry tally_def [of _ "[]"] entry_def [of "[]"] split: option.split)
  show "sum_list (map snd (tally f xs)) = int (length (filter (\<lambda>x. f x \<noteq> None) xs))"
    by (induction xs rule: rev_induct) (auto simp: tally_snoc bump_sum tally_def [of _ "[]"] split: option.split)
qed

definition referrer_key :: "click_event \<Rightarrow> string option" where
  "referrer_key e = Some (if ce_referrer e \<noteq> [] then extractDomain (ce_referrer e) else ''(direct)'')"

definition country_key :: "click_event \<Rightarrow> string option" where
  "country_key e = (if ce_country_code e \<noteq> [] then Some (ce_country_code e) else None)"

definition visitors :: "click_event list \<Rightarrow> string set" where
  "visitors es = ce_visitor_hash ` set es - {[]}"

lemma accumulate_snoc: "accumulateDailyStats (es @ [e]) = accumulate_event (accumulateDailyStats es) e"
  by (simp add: accumulateDailyStats_def)

lemma accumulate_event_parts:
  "acc_total_clicks (accumulate_event acc e) = acc_total_clicks acc + 1"
  "set (acc_visitor_seen (accumulate_event acc e)) = set (acc_visitor_seen acc) \<union> ({ce_visitor_hash e} - {[]})"
  "acc_unique_visitors (accumulate_event acc e) = acc_unique_visitors acc
     + (if ce_visitor_hash e \<noteq> [] \<and> ce_visitor_hash e \<notin> set (acc_visitor_seen acc) then 1 else 0)"
  "acc_referrers (accumulate_event acc e) = (case referrer_key e of None \<Rightarrow> acc_referrers acc
     | Some k \<Rightarrow> bump k 1 (acc_referrers acc))"
  "acc_countries (accumulate_event acc e) = (case country_key e of None \<Rightarrow> acc_countries acc
     | Some k \<Rightarrow> bump k 1 (acc_countries acc))"
  by (auto simp: accumulate_event_def Let_def referrer_key_def country_key_def)

lemma accumulate_exact:
  "acc_total_clicks (accumulateDailyStats es) = int (length es)"
  "set (acc_visitor_seen (accumulateDailyStats es)) = visitors es"
  "acc_unique_visitors (accumulateDailyStats es) = int (card (visitors es))"
  "acc_referrers (accumulateDailyStats es) = tally referrer_key es"
  "acc_countries (accumulateDailyStats es) = tally country_key es"
proof -
  show t: "acc_total_clicks (accumulateDailyStats es) = int (length es)"
    by (induction es rule: rev_induct)
      (simp_all add: accumulate_snoc accumulate_event_parts accumulateDailyStats_def [of "[]"])
  have v: "set (acc_visitor_seen (accumulateDailyStats es)) = visitors es" for es
    by (induction es rule: rev_induct)
      (auto simp: accumulate_snoc accumulate_event_parts accumulateDailyStats_def [of "[]"] visitors_def)
  then show "set (acc_visitor_seen (accumulateDailyStats es)) = visitors es" .
  show "acc_unique_visitors (accumulateDailyStats es) = int (card (visitors es))"
  proof (induction es rule: rev_induct)
    case (snoc e es)
    have "visitors (es @ [e]) = (if ce_visitor_hash e \<noteq> [] then insert (ce_visitor_hash e) (visitors es)
        else visitors es)" by (auto simp: visitors_def)
    moreover have "finite (visitors es)" by (simp add: visitors_def)
    ultimately show ?case
      using snoc by (simp add: accumulate_snoc accumulate_event_parts v card_insert_if)
  qed (simp add: accumulateDailyStats_def visitors_def)
  show "acc_referrers (accumulateDailyStats es) = tally referrer_key es"
    by (induction es rule: rev_induct)
      (simp_all add: accumulate_snoc accumulate_event_parts tally_snoc accumulateDailyStats_def [of "[]"]
        tally_def [of _ "[]"] split: option.split)
  show "acc_countries (accumulateDailyStats es) = tally country_key es"
    by (induction es rule: rev_induct)
      (simp_all add: accumulate_snoc accumulate_event_parts tally_snoc accumulateDailyStats_def [of "[]"]
        tally_def [of _ "[]"] split: option.split)
qed

subsection \<open>The keys of the days\<close>

lemma format_date_no_colon: "CHR '':'' \<notin> set (format_date t)"
proof -
  have d: "CHR '':'' \<notin> set s" if "list_all is_digit s" for s
    using that by (auto simp: list_all_iff is_digit_def less_eq_char_def)
  have p: "CHR '':'' \<notin> set (pad_zero k (format_nat n))" for k n
    using d pad_zero_digits by blast
  obtain y m dd where "civil (t div day) = (y, m, dd)" using prod_cases3 by blast
  then show ?thesis
    using p by (auto simp: format_date_def format_year_def two_digits_def)
qed

lemma split_last_unique:
  "a @ c # x = b @ c # y \<Longrightarrow> c \<notin> set x \<Longrightarrow> c \<notin> set y \<Longrightarrow> a = b \<and> x = y"
proof (induction a arbitrary: b)
  case Nil
  then show ?case by (cases b) auto
next
  case (Cons z a)
  then show ?case by (cases b) auto
qed

lemma key_text_inj: "key_text (daily_key e) = key_text (daily_key e') \<Longrightarrow> daily_key e = daily_key e'"
  using split_last_unique [of "ce_link_id e" "CHR '':''" "format_date (day_start (ce_clicked_at e))"
      "ce_link_id e'" "format_date (day_start (ce_clicked_at e'))"]
    format_date_no_colon format_date_inj [of "day_start (ce_clicked_at e)" "day_start (ce_clicked_at e')"]
  by (simp add: key_text_def daily_key_def)

lemma put_seen_map: "map_of (put_seen t k m) = (map_of m)(t \<mapsto> k)"
  by (induction t k m rule: put_seen.induct) auto

lemma put_seen_set: "set (map snd (put_seen t k m)) \<subseteq> insert k (set (map snd m))"
  by (induction t k m rule: put_seen.induct) auto

definition seen_keys :: "click_event list \<Rightarrow> (string \<times> stats_key) list" where
  "seen_keys es = foldl (\<lambda>m e. put_seen (key_text (daily_key e)) (daily_key e) m) [] es"

lemma seen_keys_set: "set (map snd (seen_keys es)) = daily_key ` set es"
proof
  show "set (map snd (seen_keys es)) \<subseteq> daily_key ` set es"
  proof (induction es rule: rev_induct)
    case (snoc e es)
    moreover have "set (map snd (seen_keys (es @ [e]))) \<subseteq> insert (daily_key e) (set (map snd (seen_keys es)))"
      unfolding seen_keys_def foldl_append foldl_Cons foldl_Nil by (rule put_seen_set)
    ultimately show ?case by (simp del: set_map) blast
  qed (simp add: seen_keys_def)
  have "map_of (seen_keys es) (key_text (daily_key e)) = Some (daily_key e)" if "e \<in> set es" for e
    using that
  proof (induction es rule: rev_induct)
    case (snoc e' es)
    then show ?case
      using key_text_inj [of e e'] by (auto simp: seen_keys_def put_seen_map)
  qed simp
  then show "daily_key ` set es \<subseteq> set (map snd (seen_keys es))"
    by (force dest!: map_of_SomeD)
qed


subsection \<open>The rows of the days\<close>

definition row_key :: "daily_stats \<Rightarrow> stats_key" where "row_key r = (ds_link_id r, ds_date r)"

definition exact_stats :: "click_event list \<Rightarrow> daily_stats \<Rightarrow> bool" where
  "exact_stats clicks r = (let es = filter (on_day (ds_link_id r) (ds_date r)) clicks in
     ds_total_clicks r = int (length es) \<and> ds_unique_visitors r = int (card (visitors es))
     \<and> (\<forall>d. entry (ds_referrers r) d = int (length (filter (\<lambda>e. referrer_key e = Some d) es)))
     \<and> (\<forall>c. entry (ds_countries r) c = int (length (filter (\<lambda>e. country_key e = Some c) es)))
     \<and> sum_list (map snd (ds_referrers r)) = ds_total_clicks r)"

definition stats_good :: "click_event list \<Rightarrow> daily_stats list \<Rightarrow> stats_key \<Rightarrow> bool" where
  "stats_good clicks rows k =
     (k \<in> row_key ` set rows \<and> (\<forall>r \<in> set rows. row_key r = k \<longrightarrow> exact_stats clicks r))"

lemma upsert_rows:
  assumes "pg_upsert_stats acc w = (Inr u, w')"
  shows "w_click_events w' = w_click_events w"
    and "(acc_link_id acc, acc_date acc) \<in> row_key ` set (w_daily_stats w')"
    and "r \<in> set (w_daily_stats w') \<Longrightarrow> row_key r = (acc_link_id acc, acc_date acc) \<Longrightarrow>
      ds_total_clicks r = acc_total_clicks acc \<and> ds_unique_visitors r = acc_unique_visitors acc
      \<and> ds_referrers r = acc_referrers acc \<and> ds_countries r = acc_countries acc"
    and "k \<noteq> (acc_link_id acc, acc_date acc) \<Longrightarrow>
      filter (\<lambda>r. row_key r = k) (w_daily_stats w') = filter (\<lambda>r. row_key r = k) (w_daily_stats w)"
proof -
  show "w_click_events w' = w_click_events w"
    using assms by (auto simp: pg_upsert_stats_def Let_def split: if_splits)
  show "(acc_link_id acc, acc_date acc) \<in> row_key ` set (w_daily_stats w')"
  proof -
    let ?hit = "\<lambda>r. ds_link_id r = acc_link_id acc \<and> ds_date r = acc_date acc"
    have "list_ex ?hit (w_daily_stats w')"
    proof (cases "list_ex ?hit (w_daily_stats w)")
      case True
      let ?f = "\<lambda>r. r\<lparr>ds_total_clicks := acc_total_clicks acc, ds_unique_visitors := acc_unique_visitors acc,
            ds_referrers := acc_referrers acc, ds_countries := acc_countries acc,
            ds_updated_at := clock w\<rparr>"
      have "list_ex ?hit (map (\<lambda>r. if ?hit r then ?f r else r) rs)" if "list_ex ?hit rs" for rs :: "daily_stats list"
        using that by (induction rs) auto
      with True assms show ?thesis by (auto simp: pg_upsert_stats_def update_where_def)
    next
      case False
      with assms show ?thesis by (auto simp: pg_upsert_stats_def Let_def split: if_splits)
    qed
    then show ?thesis by (force simp: row_key_def list_ex_iff)
  qed
  show "r \<in> set (w_daily_stats w') \<Longrightarrow> row_key r = (acc_link_id acc, acc_date acc) \<Longrightarrow>
      ds_total_clicks r = acc_total_clicks acc \<and> ds_unique_visitors r = acc_unique_visitors acc
      \<and> ds_referrers r = acc_referrers acc \<and> ds_countries r = acc_countries acc"
    using assms by (auto simp: pg_upsert_stats_def Let_def row_key_def list_ex_iff update_where_def
        split: if_splits)
  have u: "filter (\<lambda>r. row_key r = k) (map (\<lambda>r. if hit r then f r else r) rows) = filter (\<lambda>r. row_key r = k) rows"
    if "\<And>r. hit r \<Longrightarrow> row_key r \<noteq> k \<and> row_key (f r) \<noteq> k" for hit f rows
    using that by (induction rows) auto
  show "k \<noteq> (acc_link_id acc, acc_date acc) \<Longrightarrow>
      filter (\<lambda>r. row_key r = k) (w_daily_stats w') = filter (\<lambda>r. row_key r = k) (w_daily_stats w)"
    using assms by (auto simp: pg_upsert_stats_def Let_def update_where_def row_key_def intro!: u [unfolded row_key_def]
        split: if_splits)
qed

lemma recalculate_exact:
  assumes "recalculateDailyStat l d w = (Inr acc, w')" and "day_start d = d"
  shows "\<exists>os. w' = w\<lparr>outcomes := os\<rparr>" and "acc_link_id acc = l" and "acc_date acc = d"
    and "acc_total_clicks acc = int (length (filter (on_day l d) (w_click_events w)))"
    and "acc_unique_visitors acc = int (card (visitors (filter (on_day l d) (w_click_events w))))"
    and "acc_referrers acc = tally referrer_key (filter (on_day l d) (w_click_events w))"
    and "acc_countries acc = tally country_key (filter (on_day l d) (w_click_events w))"
proof -
  obtain es where c: "call (pg_events_of_day l d) w = (Inr es, w')"
    and acc: "acc = (accumulateDailyStats es)\<lparr>acc_link_id := l, acc_date := d\<rparr>"
    using assms by (auto simp: recalculateDailyStat_def split: prod.splits sum.splits)
  from c obtain os where "pg_events_of_day l d (w\<lparr>outcomes := os\<rparr>) = (Inr es, w')"
    by (rule call_at) blast
  then have es: "es = filter (on_day l d) (w_click_events w)" and w': "w' = w\<lparr>outcomes := os\<rparr>"
    by (simp_all add: pg_events_of_day_def)
  from w' show "\<exists>os. w' = w\<lparr>outcomes := os\<rparr>" ..
  show "acc_link_id acc = l" and "acc_date acc = d"
    and "acc_total_clicks acc = int (length (filter (on_day l d) (w_click_events w)))"
    and "acc_unique_visitors acc = int (card (visitors (filter (on_day l d) (w_click_events w))))"
    and "acc_referrers acc = tally referrer_key (filter (on_day l d) (w_click_events w))"
    and "acc_countries acc = tally country_key (filter (on_day l d) (w_click_events w))"
    by (simp_all add: acc accumulate_exact es)
qed

lemma update_stat_good:
  assumes "update_stat k w = (Inr u, w')" and "day_start (snd k) = snd k"
  shows "w_click_events w' = w_click_events w" and "stats_good (w_click_events w) (w_daily_stats w') k"
    and "k' \<noteq> k \<Longrightarrow> filter (\<lambda>r. row_key r = k') (w_daily_stats w') = filter (\<lambda>r. row_key r = k') (w_daily_stats w)"
proof -
  obtain l d where k: "k = (l, d)" by (cases k)
  obtain acc w1 where 1: "recalculateDailyStat l d w = (Inr acc, w1)"
    and 2: "call (pg_upsert_stats acc) w1 = (Inr (), w')"
    using assms(1) by (auto simp: update_stat_def k upsertDailyStat_def split: prod.splits sum.splits)
  note a = recalculate_exact [OF 1 assms(2) [unfolded k snd_conv]]
  from a(1) obtain os where w1: "w1 = w\<lparr>outcomes := os\<rparr>" ..
  from 2 obtain os' where 3: "pg_upsert_stats acc (w1\<lparr>outcomes := os'\<rparr>) = (Inr (), w')"
    by (rule call_at) blast
  note r = upsert_rows [OF 3, unfolded a(2,3)]
  show "w_click_events w' = w_click_events w"
    using r(1) by (simp add: w1)
  show "stats_good (w_click_events w) (w_daily_stats w') k"
    using r(2) by (auto simp: stats_good_def exact_stats_def Let_def k a tally_exact row_key_def
        referrer_key_def [abs_def] dest!: r(3))
  show "filter (\<lambda>r. row_key r = k') (w_daily_stats w') = filter (\<lambda>r. row_key r = k') (w_daily_stats w)"
    if "k' \<noteq> k"
    using r(4) [of k'] that by (simp add: w1 k)
qed

lemma stats_good_rows:
  assumes "filter (\<lambda>r. row_key r = k) rows' = filter (\<lambda>r. row_key r = k) rows"
  shows "stats_good clicks rows' k \<longleftrightarrow> stats_good clicks rows k"
proof -
  have g: "stats_good clicks rs k \<longleftrightarrow> filter (\<lambda>r. row_key r = k) rs \<noteq> []
      \<and> list_all (exact_stats clicks) (filter (\<lambda>r. row_key r = k) rs)" for rs
    by (auto simp: stats_good_def filter_empty_conv list_all_iff)
  show ?thesis unfolding g assms ..
qed

lemma update_stats_good:
  assumes "update_stats ks w = (Inr (), w')" and "\<forall>k \<in> set ks. day_start (snd k) = snd k"
  shows "w_click_events w' = w_click_events w"
    and "k \<in> set ks \<or> stats_good (w_click_events w) (w_daily_stats w) k
      \<Longrightarrow> stats_good (w_click_events w) (w_daily_stats w') k"
  using assms
proof (induction ks arbitrary: w)
  case (Cons k0 ks)
  {
    case 1
    then obtain w1 where s: "update_stat k0 w = (Inr (), w1)" and t: "update_stats ks w1 = (Inr (), w')"
      by (auto split: prod.splits sum.splits)
    from 1 have d: "day_start (snd k0) = snd k0" "\<forall>k \<in> set ks. day_start (snd k) = snd k" by auto
    show ?case
      using Cons.IH(1) [OF t d(2)] update_stat_good(1) [OF s d(1)] by simp
  next
    case 2
    then obtain w1 where s: "update_stat k0 w = (Inr (), w1)" and t: "update_stats ks w1 = (Inr (), w')"
      by (auto split: prod.splits sum.splits)
    from 2 have d: "day_start (snd k0) = snd k0" "\<forall>k \<in> set ks. day_start (snd k) = snd k" by auto
    note u = update_stat_good [OF s d(1)]
    have "k \<in> set ks \<or> stats_good (w_click_events w1) (w_daily_stats w1) k"
    proof (cases "k = k0")
      case True
      with u(1,2) show ?thesis by simp
    next
      case False
      with 2(1) u(1) stats_good_rows [OF u(3) [OF False]] show ?thesis by auto
    qed
    from Cons.IH(2) [OF this t d(2)] u(1) show ?case by simp
  }
qed simp_all

text \<open>C13: After a successful update of the daily statistics, whatever the order of the map's iteration,
  every event of the batch has a row for its link and day, and its totals are those of the table
  of events: the clicks of the link on that day, their distinct visitors, and for each referrer
  domain and country the number of clicks; the referrers add up to the clicks.\<close>

theorem daily_stats_exact:
  assumes "UpdateDailyStats Q events w = (Inr (), w')" and "\<forall>ks. set (Q ks) = set ks" and "e \<in> set events"
  shows "w_click_events w' = w_click_events w
    \<and> (\<exists>r \<in> set (w_daily_stats w'). ds_link_id r = ce_link_id e \<and> ds_date r = day_start (ce_clicked_at e))
    \<and> (\<forall>r \<in> set (w_daily_stats w'). ds_link_id r = ce_link_id e \<and> ds_date r = day_start (ce_clicked_at e)
        \<longrightarrow> exact_stats (w_click_events w') r)"
proof -
  have keys: "set (uniqueDailyKeys Q events) = daily_key ` set events"
    using assms(2) seen_keys_set [of events] by (simp add: uniqueDailyKeys_def seen_keys_def)
  have u: "update_stats (uniqueDailyKeys Q events) w = (Inr (), w')"
    using assms(1,3) by (auto simp: UpdateDailyStats_def split: if_splits)
  have d: "\<forall>k \<in> set (uniqueDailyKeys Q events). day_start (snd k) = snd k"
    unfolding keys by (auto simp: daily_key_def)
  have "daily_key e \<in> set (uniqueDailyKeys Q events)"
    using keys assms(3) by simp
  then have "stats_good (w_click_events w) (w_daily_stats w') (daily_key e)"
    using update_stats_good(2) [OF u d] by blast
  then show ?thesis
    using update_stats_good(1) [OF u d] by (auto simp: stats_good_def row_key_def daily_key_def)
qed

theorem daily_stats_exact_witness:
  "let e = \<lparr>ce_id = ''1'', ce_event_id = ''5-0'', ce_short_code = ''abc'', ce_link_id = ''l1'',
       ce_owner_id = [], ce_referrer = [], ce_user_agent = [], ce_visitor_hash = ''0123456789abcdef'',
       ce_country_code = ''DE'', ce_clicked_at = 0, ce_created_at = zero_time\<rparr>;
     w = (empty_world 7 ())\<lparr>w_click_events := [e]\<rparr>;
     w' = snd (UpdateDailyStats rev [e] w)
   in \<forall>r \<in> set (w_daily_stats w'). ds_link_id r = ''l1'' \<and> ds_date r = 0 \<longrightarrow> ds_total_clicks r = 1"
proof -
  define e where "e = \<lparr>ce_id = ''1'', ce_event_id = ''5-0'', ce_short_code = ''abc'', ce_link_id = ''l1'',
       ce_owner_id = [], ce_referrer = [], ce_user_agent = [], ce_visitor_hash = ''0123456789abcdef'',
       ce_country_code = ''DE'', ce_clicked_at = 0, ce_created_at = zero_time\<rparr>"
  define w where "w = (empty_world 7 ())\<lparr>w_click_events := [e]\<rparr>"
  have "\<exists>w'. UpdateDailyStats rev [e] w = (Inr (), w')"
    by (simp add: UpdateDailyStats_def uniqueDailyKeys_def update_stat_def recalculateDailyStat_def
        pg_events_of_day_def upsertDailyStat_def pg_upsert_stats_def w_def Let_def)
  then obtain w' where run: "UpdateDailyStats rev [e] w = (Inr (), w')" ..
  have e: "ce_link_id e = ''l1''" "ce_clicked_at e = 0" "on_day ''l1'' 0 e" "day_start 0 = 0"
    by (simp_all add: e_def on_day_def day_start_def)
  from daily_stats_exact [OF run, of e] e
  have "w_click_events w' = [e]" and "\<forall>r \<in> set (w_daily_stats w'). ds_link_id r = ''l1'' \<and> ds_date r = 0
        \<longrightarrow> exact_stats (w_click_events w') r" by (auto simp: w_def)
  with e have "\<forall>r \<in> set (w_daily_stats w'). ds_link_id r = ''l1'' \<and> ds_date r = 0 \<longrightarrow> ds_total_clicks r = 1"
    by (auto simp: exact_stats_def)
  then show ?thesis
    by (simp only: e_def [symmetric] w_def [symmetric] Let_def run snd_conv)
qed

end
