(* ===== verification/Stream_Interface.thy ===== *)
theory Stream_Interface imports World begin

text \<open>
  The Redis stream commands that the analytics pipeline issues, as a parameter like those of
  \<open>Redis_Interface\<close>: \<open>XADD\<close>, \<open>XGROUP CREATE\<close>, \<open>XREADGROUP\<close>, \<open>XAUTOCLAIM\<close>, \<open>XACK\<close> and \<open>XINFO GROUPS\<close>.
  What the code relies on is stated over the messages a server owes a consumer group: those of the
  stream that the group has not acknowledged, whether they were delivered or not. Reading and
  claiming deliver owed messages and owe them still; only an acknowledgement ends that. The reference
  server at the end keeps these laws.
\<close>

record stream_message =
  sm_id :: string
  sm_values :: "(string \<times> string) list"

record 'r stream_ops =
  x_add :: "string \<Rightarrow> nat \<Rightarrow> (string \<times> string) list \<Rightarrow> instant \<Rightarrow> 'r \<Rightarrow> (error + string) \<times> 'r"
  x_group_create :: "string \<Rightarrow> string \<Rightarrow> 'r \<Rightarrow> (error + unit) \<times> 'r"
  x_read_group :: "string \<Rightarrow> string \<Rightarrow> string \<Rightarrow> nat \<Rightarrow> instant \<Rightarrow> 'r \<Rightarrow> (error + stream_message list) \<times> 'r"
  x_auto_claim :: "string \<Rightarrow> string \<Rightarrow> string \<Rightarrow> duration \<Rightarrow> string \<Rightarrow> nat \<Rightarrow> instant \<Rightarrow> 'r
    \<Rightarrow> (error + stream_message list \<times> string) \<times> 'r"
  x_ack :: "string \<Rightarrow> string \<Rightarrow> string list \<Rightarrow> 'r \<Rightarrow> (error + nat) \<times> 'r"
  x_info_groups :: "string \<Rightarrow> 'r \<Rightarrow> (error + (string \<times> int \<times> int) list) \<times> 'r"

locale stream_server =
  fixes X :: "'r stream_ops"
    and owed :: "string \<Rightarrow> string \<Rightarrow> 'r \<Rightarrow> stream_message set"
  assumes add_other: "s' \<noteq> s \<Longrightarrow> owed s' g (snd (x_add X s n vs t r)) = owed s' g r"
    and add_owed: "x_add X s n vs t r = (Inr i, r') \<Longrightarrow> 0 < n
      \<Longrightarrow> \<lparr>sm_id = i, sm_values = vs\<rparr> \<in> owed s g r'"
    and create_keeps: "owed s' g' (snd (x_group_create X s g r)) = owed s' g' r"
    and read_owed: "x_read_group X s g c n t r = (Inr ms, r') \<Longrightarrow> set ms \<subseteq> owed s g r"
    and read_keeps: "owed s' g' (snd (x_read_group X s g c n t r)) = owed s' g' r"
    and claim_owed: "x_auto_claim X s g c d st n t r = (Inr (ms, st'), r') \<Longrightarrow> set ms \<subseteq> owed s g r"
    and claim_keeps: "owed s' g' (snd (x_auto_claim X s g c d st n t r)) = owed s' g' r"
    and ack_owed: "\<exists>done. set done \<subseteq> set ids
      \<and> owed s g (snd (x_ack X s g ids r)) = {m \<in> owed s g r. sm_id m \<notin> set done}"
    and info_keeps: "owed s' g' (snd (x_info_groups X s r)) = owed s' g' r"

section \<open>Commands on the world\<close>

text \<open>The commands run on the store at the clock of the request.\<close>

definition on_store :: "(instant \<Rightarrow> 'r \<Rightarrow> (error + 'a) \<times> 'r) \<Rightarrow> 'r world \<Rightarrow> (error + 'a) \<times> 'r world" where
  "on_store f w = (case f (clock w) (w_redis w) of (x, r) \<Rightarrow> (x, w\<lparr>w_redis := r\<rparr>))"

text \<open>A command leaves the tables alone, whatever its outcome, and runs on the store or not at all.\<close>

lemma call_on_store:
  assumes "call (on_store f) w = (x, w')"
  shows "w_click_events w' = w_click_events w" "w_daily_stats w' = w_daily_stats w"
    "w_endpoints w' = w_endpoints w" "w_deliveries w' = w_deliveries w" "w_links w' = w_links w"
    "clock w' = clock w" "rands w' = rands w"
    "w_redis w' = w_redis w \<or> w_redis w' = snd (f (clock w) (w_redis w))"
    "x = Inr a \<Longrightarrow> f (clock w) (w_redis w) = (Inr a, w_redis w')"
proof -
  obtain o' u where n: "next_outcome w = (o', u)" by fastforce
  note fr = next_outcome_frame [of w, unfolded n snd_conv] next_outcome_clock [of w, unfolded n snd_conv]
  obtain y r where f: "f (clock u) (w_redis u) = (y, r)" by fastforce
  have o: "on_store f u = (y, u\<lparr>w_redis := r\<rparr>)" by (simp add: on_store_def f)
  show "w_click_events w' = w_click_events w" "w_daily_stats w' = w_daily_stats w"
    "w_endpoints w' = w_endpoints w" "w_deliveries w' = w_deliveries w" "w_links w' = w_links w"
    "clock w' = clock w" "rands w' = rands w"
    using assms fr by (cases o'; auto simp: call_def n o)+
  show "w_redis w' = w_redis w \<or> w_redis w' = snd (f (clock w) (w_redis w))"
    using assms fr f by (cases o') (auto simp: call_def n o)
  show "x = Inr a \<Longrightarrow> f (clock w) (w_redis w) = (Inr a, w_redis w')"
    using assms fr f by (cases o') (auto simp: call_def n o)
qed

section \<open>A reference server\<close>

record ref_streams =
  rs_log :: "(string \<times> stream_message) list"
  rs_next :: nat
  rs_groups :: "(string \<times> string) list"
  rs_delivered :: "(string \<times> string \<times> string) list"
  rs_acked :: "(string \<times> string \<times> string) list"

definition ref_streams_empty :: ref_streams where
  "ref_streams_empty = \<lparr>rs_log = [], rs_next = 0, rs_groups = [], rs_delivered = [], rs_acked = []\<rparr>"

definition ref_owed :: "string \<Rightarrow> string \<Rightarrow> ref_streams \<Rightarrow> stream_message set" where
  "ref_owed s g r = {m. (s, m) \<in> set (rs_log r) \<and> (s, g, sm_id m) \<notin> set (rs_acked r)}"

definition ref_pending :: "string \<Rightarrow> string \<Rightarrow> bool \<Rightarrow> ref_streams \<Rightarrow> stream_message list" where
  "ref_pending s g seen r = map snd (filter (\<lambda>(s', m). s' = s \<and> (s, g, sm_id m) \<notin> set (rs_acked r)
     \<and> ((s, g, sm_id m) \<in> set (rs_delivered r)) = seen) (rs_log r))"

definition no_group :: error where "no_group = Text ''NOGROUP No such key or consumer group''"

text \<open>Identifiers are fresh: greater than those acknowledged.\<close>

definition ref_new_id :: "ref_streams \<Rightarrow> string" where
  "ref_new_id r = concat (map (\<lambda>(_, _, i). i) (rs_acked r)) @ format_nat (rs_next r) @ ''-0''"

definition ref_stream_ops :: "ref_streams stream_ops" where
  "ref_stream_ops = \<lparr>
     x_add = (\<lambda>s n vs t r. let i = ref_new_id r in
       (Inr i, r\<lparr>rs_log := rs_log r @ [(s, \<lparr>sm_id = i, sm_values = vs\<rparr>)], rs_next := rs_next r + 1\<rparr>)),
     x_group_create = (\<lambda>s g r. if (s, g) \<in> set (rs_groups r)
       then (Inl (Text ''BUSYGROUP Consumer Group name already exists''), r)
       else (Inr (), r\<lparr>rs_groups := (s, g) # rs_groups r\<rparr>)),
     x_read_group = (\<lambda>s g c n t r. if (s, g) \<notin> set (rs_groups r) then (Inl no_group, r)
       else let ms = take n (ref_pending s g False r) in
         (Inr ms, r\<lparr>rs_delivered := map (\<lambda>m. (s, g, sm_id m)) ms @ rs_delivered r\<rparr>)),
     x_auto_claim = (\<lambda>s g c d st n t r. if (s, g) \<notin> set (rs_groups r) then (Inl no_group, r)
       else (Inr (take n (ref_pending s g True r), ''0-0''), r)),
     x_ack = (\<lambda>s g is r. (Inr (length is), r\<lparr>rs_acked := map (\<lambda>i. (s, g, i)) is @ rs_acked r\<rparr>)),
     x_info_groups = (\<lambda>s r. (Inr (map (\<lambda>(s', g). (g, int (length (ref_pending s g True r)),
       int (length (ref_pending s g False r)))) (filter (\<lambda>(s', g). s' = s) (rs_groups r))), r))\<rparr>"

lemma ref_pending_owed: "m \<in> set (ref_pending s g seen r) \<Longrightarrow> m \<in> ref_owed s g r"
  by (auto simp: ref_pending_def ref_owed_def)

lemma length_le_concat: "x \<in> set xs \<Longrightarrow> length x \<le> length (concat xs)"
  by (induction xs) auto

lemma ref_new_id_fresh: "(s, g, ref_new_id r) \<notin> set (rs_acked r)"
proof
  assume "(s, g, ref_new_id r) \<in> set (rs_acked r)"
  then have "ref_new_id r \<in> set (map (\<lambda>(_, _, i). i) (rs_acked r))" by force
  from length_le_concat [OF this] show False by (simp add: ref_new_id_def)
qed

interpretation ref_stream: stream_server ref_stream_ops ref_owed
proof (unfold_locales, goal_cases)
  case (2 s n vs t r i r' g)
  then show ?case
    using ref_new_id_fresh [of s g r] by (auto simp: ref_stream_ops_def ref_owed_def Let_def)
next
  case (8 ids s g r)
  have "ref_owed s g (snd (x_ack ref_stream_ops s g ids r)) = {m \<in> ref_owed s g r. sm_id m \<notin> set ids}"
    by (auto simp: ref_stream_ops_def ref_owed_def)
  then show ?case by blast
qed (auto simp: ref_stream_ops_def ref_owed_def Let_def dest!: in_set_takeD ref_pending_owed
    split: if_splits)

end
