(* ===== verification/Link_Cache.thy ===== *)
theory Link_Cache imports Link_Repo begin

text \<open>
  \<open>internal/cache/link.go\<close>: links as Redis hashes, the negative cache of unknown short codes, the
  click counters. The cache is coherent when every cached hash shows a live row of the table and no
  negatively cached code has one. Shown here: reads, backfills of a live row, negative entries of
  unknown codes, deletions and the passing of time keep it coherent, whatever the calls answer, for
  every Redis that keeps the laws of \<open>Redis_Interface\<close>.
\<close>

definition linkKeyPrefix :: string where "linkKeyPrefix = ''link:''"
definition negCacheKeySuffix :: string where "negCacheKeySuffix = '':neg''"
definition clicksKeyPrefix :: string where "clicksKeyPrefix = ''clicks:''"

definition DefaultLinkTTL :: duration where "DefaultLinkTTL = 24 * hour"
definition NegativeCacheTTL :: duration where "NegativeCacheTTL = 5 * minute"

definition link_hash_key :: "string \<Rightarrow> string" where "link_hash_key c = linkKeyPrefix @ c"
definition neg_key :: "string \<Rightarrow> string" where "neg_key c = linkKeyPrefix @ c @ negCacheKeySuffix"

text \<open>Indexing the field map gives the empty string for an absent field.\<close>

definition field :: "(string \<times> string) list \<Rightarrow> string \<Rightarrow> string" where
  "field fs f = (case map_of fs f of None \<Rightarrow> [] | Some v \<Rightarrow> v)"

definition cached_of :: "(string \<times> string) list \<Rightarrow> cached_link" where
  "cached_of fs = \<lparr>c_destination = field fs ''destination'', c_redirect_type = field fs ''redirect_type'',
     c_expires_at = field fs ''expires_at'', c_enabled = field fs ''enabled'',
     c_deleted_at = field fs ''deleted_at'', c_updated_at = field fs ''updated_at''\<rparr>"

definition Cache_GetLink :: "'r redis_ops \<Rightarrow> string \<Rightarrow> 'r world \<Rightarrow> (error + cached_link) \<times> 'r world" where
  "Cache_GetLink R shortCode w = (case call (rd_hgetall R (link_hash_key shortCode)) w of
       (Inl err, w') \<Rightarrow> (Inl (Wrap ''redis hgetall failed'' err), w')
     | (Inr result, w') \<Rightarrow>
         (if result = [] then (Inl (Sentinel Cache_ErrCacheMiss), w')
          else (Inr (cached_of result), w')))"

definition cache_fields :: "cached_link \<Rightarrow> (string \<times> string) list" where
  "cache_fields c =
     [(''destination'', c_destination c), (''redirect_type'', c_redirect_type c),
      (''enabled'', c_enabled c), (''updated_at'', c_updated_at c)]
     @ (if c_expires_at c \<noteq> [] then [(''expires_at'', c_expires_at c)] else [])
     @ (if c_deleted_at c \<noteq> [] then [(''deleted_at'', c_deleted_at c)] else [])"

definition store_hash :: "'r redis_ops \<Rightarrow> string \<Rightarrow> link \<Rightarrow> duration \<Rightarrow> 'r world \<Rightarrow> (error + unit) \<times> 'r world" where
  "store_hash R shortCode link ttl w =
     (case both (rd_hset R (link_hash_key shortCode) (cache_fields (ToCachedLink link)))
          (rd_expire R (link_hash_key shortCode) ttl) w of
        (Inl err, w') \<Rightarrow> (Inl (Wrap ''failed to cache link'' err), w')
      | (Inr _, w') \<Rightarrow> (Inr (), snd (call (rd_del R [neg_key shortCode]) w')))"

definition Cache_SetLink :: "'r redis_ops \<Rightarrow> string \<Rightarrow> link \<Rightarrow> 'r world \<Rightarrow> (error + unit) \<times> 'r world" where
  "Cache_SetLink R shortCode link w =
     (case l_expires_at link of
        None \<Rightarrow> store_hash R shortCode link DefaultLinkTTL w
      | Some e \<Rightarrow> (case time_now w of (now, w1) \<Rightarrow>
          let expiresIn = e - now in
          if expiresIn \<le> 0
            then (Inr (), snd (call (rd_del R [link_hash_key shortCode, neg_key shortCode]) w1))
          else if expiresIn < DefaultLinkTTL then store_hash R shortCode link expiresIn w1
          else store_hash R shortCode link DefaultLinkTTL w1))"

definition Cache_DeleteLink :: "'r redis_ops \<Rightarrow> string \<Rightarrow> 'r world \<Rightarrow> (error + unit) \<times> 'r world" where
  "Cache_DeleteLink R shortCode w =
     (case both (rd_del R [link_hash_key shortCode]) (rd_del R [neg_key shortCode]) w of
        (Inl err, w') \<Rightarrow> (Inl (Wrap ''failed to delete link from cache'' err), w')
      | (Inr _, w') \<Rightarrow> (Inr (), w'))"

definition Cache_IsNegativelyCached :: "'r redis_ops \<Rightarrow> string \<Rightarrow> 'r world \<Rightarrow> (error + bool) \<times> 'r world" where
  "Cache_IsNegativelyCached R shortCode w = (case call (rd_exists R (neg_key shortCode)) w of
       (Inl err, w') \<Rightarrow> (Inl (Wrap ''failed to check negative cache'' err), w')
     | (Inr n, w') \<Rightarrow> (Inr (0 < n), w'))"

definition Cache_SetNegativeCache :: "'r redis_ops \<Rightarrow> string \<Rightarrow> 'r world \<Rightarrow> (error + unit) \<times> 'r world" where
  "Cache_SetNegativeCache R shortCode w =
     (case call (rd_setex R (neg_key shortCode) [] NegativeCacheTTL) w of
        (Inl err, w') \<Rightarrow> (Inl (Wrap ''failed to set negative cache'' err), w')
      | (Inr _, w') \<Rightarrow> (Inr (), w'))"

definition Cache_IncrementClicks :: "'r redis_ops \<Rightarrow> string \<Rightarrow> 'r world \<Rightarrow> (error + unit) \<times> 'r world" where
  "Cache_IncrementClicks R shortCode w = (case call (rd_incr R (clicksKeyPrefix @ shortCode)) w of
       (Inl err, w') \<Rightarrow> (Inl (Wrap ''failed to increment clicks'' err), w')
     | (Inr _, w') \<Rightarrow> (Inr (), w'))"

definition Cache_GetAndResetClicks :: "'r redis_ops \<Rightarrow> string \<Rightarrow> 'r world \<Rightarrow> (error + int) \<times> 'r world" where
  "Cache_GetAndResetClicks R shortCode w = (case call (rd_getdel R (clicksKeyPrefix @ shortCode)) w of
       (Inl err, w') \<Rightarrow> (Inl (Wrap ''failed to get and reset clicks'' err), w')
     | (Inr None, w') \<Rightarrow> (Inr 0, w')
     | (Inr (Some result), w') \<Rightarrow> (case parse_int64 result of
           None \<Rightarrow> (Inl (Wrap ''failed to parse click count'' (Text ''invalid syntax'')), w')
         | Some count \<Rightarrow> (Inr count, w')))"

text \<open>
  The scan loop over the replies of \<open>SCAN\<close>, each a page of keys with the next cursor; cursor 0 ends
  it. \<open>None\<close>: the replies given here ended before the loop did.
\<close>

fun scan_keys :: "string list \<Rightarrow> (error + string list \<times> nat) list \<Rightarrow> (error + string list) option" where
  "scan_keys keys [] = None"
| "scan_keys keys (Inl err # rs) = Some (Inl (Wrap ''failed to scan click keys'' err))"
| "scan_keys keys (Inr (ks, cursor) # rs) =
     (if cursor = 0 then Some (Inr (keys @ ks)) else scan_keys (keys @ ks) rs)"

definition Cache_ScanClickKeys :: "(error + string list \<times> nat) list \<Rightarrow> (error + string list) option" where
  "Cache_ScanClickKeys replies = scan_keys [] replies"

definition ExtractShortCodeFromClickKey :: "string \<Rightarrow> string" where
  "ExtractShortCodeFromClickKey key =
     (if length clicksKeyPrefix < length key then drop (length clicksKeyPrefix) key else [])"

lemma ExtractShortCode_click_key: "ExtractShortCodeFromClickKey (clicksKeyPrefix @ c) = c"
  by (simp add: ExtractShortCodeFromClickKey_def)

section \<open>Coherence\<close>

text \<open>
  A hash agrees with a row on every field that a redirect reads (\<open>updated_at\<close> may lag behind: the
  click counter's \<open>UPDATE\<close> touches it). A code is coherent when its hash, if it has one, agrees with
  a live row of that code, and its negative entry excludes such a row.
\<close>

definition agrees :: "(string \<times> string) list \<Rightarrow> link \<Rightarrow> bool" where
  "agrees fs l = list_all (\<lambda>f. map_of fs f = map_of (cache_fields (ToCachedLink l)) f)
     [''destination'', ''redirect_type'', ''enabled'', ''expires_at'', ''deleted_at'']"

definition live_row :: "'r world \<Rightarrow> string \<Rightarrow> link \<Rightarrow> bool" where
  "live_row w c l = (l \<in> set (w_links w) \<and> live_link l \<and> l_short_code l = c)"

definition hash_now :: "'r redis_ops \<Rightarrow> 'r world \<Rightarrow> string \<Rightarrow> (string \<times> string) list" where
  "hash_now R w c = hash_at R (link_hash_key c) (clock w) (w_redis w)"

definition negative_now :: "'r redis_ops \<Rightarrow> 'r world \<Rightarrow> string \<Rightarrow> bool" where
  "negative_now R w c = r_exists R (neg_key c) (clock w) (w_redis w)"

definition coherent_at :: "'r redis_ops \<Rightarrow> 'r world \<Rightarrow> string \<Rightarrow> bool" where
  "coherent_at R w c = ((hash_now R w c \<noteq> [] \<longrightarrow> (\<exists>l. live_row w c l \<and> agrees (hash_now R w c) l))
     \<and> (negative_now R w c \<longrightarrow> (\<forall>l. \<not> live_row w c l)))"

definition coherent :: "'r redis_ops \<Rightarrow> 'r world \<Rightarrow> bool" where
  "coherent R w = (\<forall>c. coherent_at R w c)"

text \<open>No live code ends in the suffix of the negative keys, so that no hash is taken for one.\<close>

definition codes_clean :: "link list \<Rightarrow> bool" where
  "codes_clean ls = list_all (\<lambda>l. \<not> has_suffix (l_short_code l) negCacheKeySuffix) ls"

lemma negCacheKeySuffix_nonempty [simp]: "negCacheKeySuffix \<noteq> []"
  by (simp add: negCacheKeySuffix_def)

lemma key_facts [simp]:
  "link_hash_key c = link_hash_key c' \<longleftrightarrow> c = c'" "neg_key c = neg_key c' \<longleftrightarrow> c = c'"
  "neg_key c = link_hash_key c' \<longleftrightarrow> c' = c @ negCacheKeySuffix"
  "link_hash_key c' = neg_key c \<longleftrightarrow> c' = c @ negCacheKeySuffix"
  by (auto simp: link_hash_key_def neg_key_def)

lemma agrees_fields: "agrees (cache_fields (ToCachedLink l)) l"
  by (simp add: agrees_def)

lemma agrees_merge:
  assumes "fs \<noteq> [] \<longrightarrow> agrees fs l" and "map_of fs' = map_of fs ++ map_of (cache_fields (ToCachedLink l))"
  shows "agrees fs' l"
proof -
  have "map_of fs' f = map_of (cache_fields (ToCachedLink l)) f"
    if "fs \<noteq> [] \<longrightarrow> map_of fs f = map_of (cache_fields (ToCachedLink l)) f" for f
    using that assms(2) by (cases "fs = []") (auto simp: map_add_def split: option.split)
  then show ?thesis
    using assms(1) by (auto simp: agrees_def)
qed

lemma agrees_cached_of:
  assumes "agrees fs l"
  shows "(cached_of fs)\<lparr>c_updated_at := u\<rparr> = (ToCachedLink l)\<lparr>c_updated_at := u\<rparr>"
proof -
  have "field fs f = field (cache_fields (ToCachedLink l)) f"
    if "f \<in> {''destination'', ''redirect_type'', ''enabled'', ''expires_at'', ''deleted_at''}" for f
    using assms that by (auto simp: agrees_def field_def)
  then show ?thesis
    by (auto simp: cached_of_def field_def cache_fields_def)
qed

text \<open>Coherence at a later time, and under changes that leave the hash, the flag and the rows alone.\<close>

lemma Cache_calls:
  shows "snd (Cache_GetLink R c w) = snd (call (rd_hgetall R (link_hash_key c)) w)"
    and "snd (Cache_IsNegativelyCached R c w) = snd (call (rd_exists R (neg_key c)) w)"
    and "snd (Cache_SetNegativeCache R c w) = snd (call (rd_setex R (neg_key c) [] NegativeCacheTTL) w)"
    and "snd (Cache_DeleteLink R c w) = snd (both (rd_del R [link_hash_key c]) (rd_del R [neg_key c]) w)"
    and "snd (Cache_IncrementClicks R c w) = snd (call (rd_incr R (clicksKeyPrefix @ c)) w)"
  by (simp_all add: Cache_GetLink_def Cache_IsNegativelyCached_def Cache_SetNegativeCache_def
      Cache_DeleteLink_def Cache_IncrementClicks_def split: prod.split sum.split unit.split)

lemma store_hash_snd:
  "snd (store_hash R c l ttl w) = (let (r, v) = both (rd_hset R (link_hash_key c)
       (cache_fields (ToCachedLink l))) (rd_expire R (link_hash_key c) ttl) w
     in if isl r then v else snd (call (rd_del R [neg_key c]) v))"
  by (simp add: store_hash_def split: prod.split sum.split unit.split)

context redis_server begin

lemma coherent_at_later:
  assumes "coherent_at R w c" and "clock w \<le> clock w'" and "w_redis w' = w_redis w"
    and "w_links w' = w_links w"
  shows "coherent_at R w' c"
proof -
  have "hash_now R w' c = hash_now R w c \<or> hash_now R w' c = []"
    using hash_fades [OF assms(2)] assms(3) by (simp add: hash_now_def)
  moreover have "negative_now R w' c \<Longrightarrow> negative_now R w c"
    using exists_fades [OF assms(2)] assms(3) by (simp add: negative_now_def)
  moreover have "live_row w' c = live_row w c"
    using assms(4) by (simp add: live_row_def fun_eq_iff)
  ultimately show ?thesis
    using assms(1) by (auto simp: coherent_at_def)
qed

lemma coherent_later:
  assumes "coherent R w" and "clock w \<le> clock w'" and "w_redis w' = w_redis w"
    and "w_links w' = w_links w"
  shows "coherent R w'"
  using assms coherent_at_later unfolding coherent_def by blast

lemma coherent_time_now: "coherent R w \<Longrightarrow> coherent R (snd (time_now w))"
  by (rule coherent_later, assumption, cases "time_now w") (auto dest: time_now_mono)

lemma coherent_at_del:
  assumes "coherent_at R w c"
  shows "coherent_at R (snd (rd_del R ks w)) c"
  using assms
  by (auto simp: coherent_at_def hash_now_def negative_now_def live_row_def rd_del_def del_hash del_exists)

lemma coherent_at_expire:
  assumes "coherent_at R w d"
  shows "coherent_at R (snd (rd_expire R k ttl w)) d"
proof -
  let ?w' = "snd (rd_expire R k ttl w)"
  have "hash_now R ?w' d = hash_now R w d \<or> hash_now R ?w' d = []"
    using expire_same(1) [of k] expire_other [of "link_hash_key d" k]
    by (cases "k = link_hash_key d") (auto simp: hash_now_def rd_expire_def)
  moreover have "negative_now R ?w' d \<Longrightarrow> negative_now R w d"
    using expire_same(2) [of k] expire_other [of "neg_key d" k]
    by (cases "k = neg_key d") (auto simp: negative_now_def rd_expire_def)
  moreover have "live_row ?w' d = live_row w d"
    by (simp add: live_row_def fun_eq_iff rd_expire_def)
  ultimately show ?thesis
    using assms unfolding coherent_at_def by metis
qed

lemma coherent_at_hset:
  assumes "coherent_at R w d" and "codes_clean (w_links w)" and "live_row w c l"
    and unique: "\<And>l'. live_row w c l' \<Longrightarrow> l' = l"
  shows "coherent_at R (snd (rd_hset R (link_hash_key c) (cache_fields (ToCachedLink l)) w)) d"
proof (cases "r_hset R (link_hash_key c) (cache_fields (ToCachedLink l)) (clock w) (w_redis w)")
  case (Inl e)
  with assms(1) show ?thesis by (simp add: rd_hset_def)
next
  case (Inr s')
  let ?w' = "w\<lparr>w_redis := s'\<rparr>"
  have rows: "live_row ?w' e = live_row w e" for e
    by (simp add: live_row_def fun_eq_iff)
  have clean: "c \<noteq> e @ negCacheKeySuffix" for e
    using assms(2,3) by (auto simp: codes_clean_def live_row_def list_all_iff has_suffix_iff)
  have "coherent_at R ?w' d"
  proof (cases "d = c")
    case True
    have "map_of (hash_now R ?w' c) = map_of (hash_now R w c) ++ map_of (cache_fields (ToCachedLink l))"
      using hset_same [OF Inr] by (simp add: hash_now_def)
    moreover have "hash_now R w c \<noteq> [] \<longrightarrow> agrees (hash_now R w c) l"
      using assms(1) unique True by (auto simp: coherent_at_def)
    ultimately have "agrees (hash_now R ?w' c) l"
      using agrees_merge by blast
    moreover have "negative_now R ?w' c = negative_now R w c"
      using hset_other [OF Inr, of "neg_key c"] clean by (simp add: negative_now_def)
    ultimately show ?thesis
      using True assms(1,3) rows unfolding coherent_at_def by metis
  next
    case False
    then have "hash_now R ?w' d = hash_now R w d" and "negative_now R ?w' d = negative_now R w d"
      using hset_other [OF Inr, of "link_hash_key d"] hset_other [OF Inr, of "neg_key d"] clean
      by (simp_all add: hash_now_def negative_now_def)
    then show ?thesis
      using assms(1) rows unfolding coherent_at_def by metis
  qed
  with Inr show ?thesis by (simp add: rd_hset_def)
qed

lemma coherent_at_setex_neg:
  assumes "coherent_at R w e" and "\<And>l. \<not> live_row w c l"
  shows "coherent_at R (snd (rd_setex R (neg_key c) v d w)) e"
proof -
  let ?w' = "snd (rd_setex R (neg_key c) v d w)"
  have "live_row ?w' e = live_row w e"
    by (simp add: live_row_def fun_eq_iff rd_setex_def)
  moreover have "hash_now R ?w' e = hash_now R w e \<or> hash_now R ?w' e = []"
  proof (cases "link_hash_key e = neg_key c")
    case True
    have "hash_at R (link_hash_key e) t (r_setex R (neg_key c) v d t s) = []" for t s
      unfolding True by (rule setex_same(3))
    then show ?thesis by (simp add: hash_now_def rd_setex_def)
  qed (use setex_other [of "link_hash_key e" "neg_key c"] in \<open>simp add: hash_now_def rd_setex_def\<close>)
  moreover have "negative_now R ?w' e \<Longrightarrow> negative_now R w e \<or> e = c"
    using setex_other [of "neg_key e" "neg_key c"]
    by (cases "e = c") (auto simp: negative_now_def rd_setex_def)
  ultimately show ?thesis
    using assms unfolding coherent_at_def by metis
qed

text \<open>
  A method leaves the world that its calls leave: \<open>kept D w u\<close> says that \<open>u\<close> is coherent at the codes
  of \<open>D\<close> and has the rows of \<open>w\<close>.
\<close>

definition kept :: "string set \<Rightarrow> 'r world \<Rightarrow> 'r world \<Rightarrow> bool" where
  "kept D w u = ((\<forall>d \<in> D. coherent_at R u d) \<and> w_links u = w_links w)"

lemma kept_coherent: "kept UNIV w u \<longleftrightarrow> coherent R u \<and> w_links u = w_links w"
  by (simp add: kept_def coherent_def)

lemma kept_later:
  assumes "kept D w u" and "clock u \<le> clock v" and "w_redis v = w_redis u" and "w_links v = w_links u"
  shows "kept D w v"
  using assms coherent_at_later unfolding kept_def by metis

lemma kept_call:
  assumes "kept D w u" and "\<And>v. kept D w v \<Longrightarrow> kept D w (snd (f v))"
  shows "kept D w (snd (call f u))"
  using assms
proof (rule call_keeps [where P = "kept D w"])
  show "kept D w (snd (next_outcome v))" if "kept D w v" for v
    using that by (rule kept_later) simp_all
qed

lemma kept_both:
  assumes "kept D w u" and "\<And>v. kept D w v \<Longrightarrow> kept D w (snd (f v))" and "\<And>v. kept D w v \<Longrightarrow> kept D w (snd (g v))"
  shows "kept D w (snd (both f g u))"
  unfolding both_snd by (intro kept_call assms)

lemma rd_links [simp]:
  "w_links (snd (rd_hgetall R k v)) = w_links v" "w_links (snd (rd_hset R k fs v)) = w_links v"
  "w_links (snd (rd_expire R k d v)) = w_links v" "w_links (snd (rd_del R ks v)) = w_links v"
  "w_links (snd (rd_exists R k v)) = w_links v" "w_links (snd (rd_setex R k x d v)) = w_links v"
  "snd (rd_hgetall R k v) = v" "snd (rd_exists R k v) = v"
  by (simp_all add: rd_defs split: sum.split)

lemma kept_del: "kept D w u \<Longrightarrow> kept D w (snd (rd_del R ks u))"
  using coherent_at_del by (simp add: kept_def)

lemma kept_expire: "kept D w u \<Longrightarrow> kept D w (snd (rd_expire R k d u))"
  using coherent_at_expire by (simp add: kept_def)

lemma kept_time_now: "kept D w u \<Longrightarrow> kept D w (snd (time_now u))"
  by (rule kept_later, assumption, cases "time_now u") (auto dest: time_now_mono)

lemma GetLink_kept: "kept D w u \<Longrightarrow> kept D w (snd (Cache_GetLink R c u))"
  unfolding Cache_calls by (erule kept_call) simp

lemma IsNegativelyCached_kept: "kept D w u \<Longrightarrow> kept D w (snd (Cache_IsNegativelyCached R c u))"
  unfolding Cache_calls by (erule kept_call) simp

lemma SetNegativeCache_kept:
  assumes "kept D w u" and "\<And>l. \<not> live_row w c l"
  shows "kept D w (snd (Cache_SetNegativeCache R c u))"
  unfolding Cache_calls
proof (rule kept_call [OF assms(1)])
  fix v assume "kept D w v"
  then show "kept D w (snd (rd_setex R (neg_key c) [] NegativeCacheTTL v))"
    using coherent_at_setex_neg [of v _ c] assms(2) by (simp add: kept_def live_row_def)
qed

lemma Cache_DeleteLink_kept: "kept D w u \<Longrightarrow> kept D w (snd (Cache_DeleteLink R c u))"
  unfolding Cache_calls by (erule kept_both) (simp_all add: kept_del)

lemma store_hash_kept:
  assumes "kept D w u" and "codes_clean (w_links w)" and "live_row w c l"
    and "\<And>l'. live_row w c l' \<Longrightarrow> l' = l"
  shows "kept D w (snd (store_hash R c l ttl u))"
proof -
  let ?p = "both (rd_hset R (link_hash_key c) (cache_fields (ToCachedLink l))) (rd_expire R (link_hash_key c) ttl)"
  have "kept D w (snd (?p u))"
  proof (rule kept_both [OF assms(1)])
    fix v assume v: "kept D w v"
    then show "kept D w (snd (rd_expire R (link_hash_key c) ttl v))" by (rule kept_expire)
    have rows: "w_links v = w_links w" and "live_row v = live_row w"
      using v by (simp_all add: kept_def live_row_def fun_eq_iff)
    then have "coherent_at R (snd (rd_hset R (link_hash_key c) (cache_fields (ToCachedLink l)) v)) d"
      if "coherent_at R v d" for d
      using that by (intro coherent_at_hset) (simp_all add: assms(2,3), rule assms(4))
    with rows v show "kept D w (snd (rd_hset R (link_hash_key c) (cache_fields (ToCachedLink l)) v))"
      by (simp add: kept_def)
  qed
  moreover obtain r v where "?p u = (r, v)" by (cases "?p u")
  ultimately show ?thesis
    using kept_call [of D w v "rd_del R [neg_key c]"] kept_del by (simp add: store_hash_snd)
qed

lemma SetLink_kept:
  assumes "kept D w u" and "codes_clean (w_links w)" and "live_row w c l"
    and "\<And>l'. live_row w c l' \<Longrightarrow> l' = l"
  shows "kept D w (snd (Cache_SetLink R c l u))"
proof -
  have store: "kept D w (snd (store_hash R c l ttl v))" if "kept D w v" for v ttl
    using store_hash_kept [OF that assms(2,3)] assms(4) by blast
  have del: "kept D w (snd (call (rd_del R ks) v))" if "kept D w v" for v ks
    using kept_call [OF that] kept_del by blast
  have t: "kept D w (snd (time_now u))"
    using assms(1) by (rule kept_time_now)
  show ?thesis
  proof (cases "l_expires_at l")
    case None
    with store [OF assms(1)] show ?thesis by (simp add: Cache_SetLink_def)
  next
    case (Some e)
    with store [OF t] del [OF t] show ?thesis
      by (cases "time_now u") (simp add: Cache_SetLink_def Let_def)
  qed
qed

end

section \<open>What the cache leaves alone\<close>

text \<open>
  The contract of a predicate that no Redis command can break: it survives the passing of time, a
  consumed outcome, a metric and any change of the store. Every method of the cache keeps it.
\<close>

locale redis_frame =
  fixes P :: "'r world \<Rightarrow> bool"
  assumes P_outcomes: "P u \<Longrightarrow> P (snd (next_outcome u))"
    and P_time: "P u \<Longrightarrow> P (snd (time_now u))"
    and P_metric: "P u \<Longrightarrow> P (record_metric f u)"
    and P_redis: "P u \<Longrightarrow> P (u\<lparr>w_redis := s\<rparr>)"
begin

lemma P_time_now: "P u \<Longrightarrow> time_now u = (t, v) \<Longrightarrow> P v"
  using P_time [of u] by simp

lemma P_call: "P u \<Longrightarrow> (\<And>v. P v \<Longrightarrow> P (snd (f v))) \<Longrightarrow> P (snd (call f u))"
  by (rule call_keeps) (auto intro: P_outcomes)

lemma P_rd:
  assumes "P u"
  shows "P (snd (rd_hgetall R k u))" "P (snd (rd_hset R k fs u))" "P (snd (rd_expire R k d u))"
    "P (snd (rd_del R ks u))" "P (snd (rd_exists R k u))" "P (snd (rd_get R k u))"
    "P (snd (rd_getdel R k u))" "P (snd (rd_setex R k v d u))" "P (snd (rd_incr R k u))"
  using assms P_redis by (auto simp: rd_defs split: sum.split)

lemma P_both: "P u \<Longrightarrow> (\<And>v. P v \<Longrightarrow> P (snd (f v))) \<Longrightarrow> (\<And>v. P v \<Longrightarrow> P (snd (g v))) \<Longrightarrow> P (snd (both f g u))"
  unfolding both_snd by (intro P_call)

lemma P_cache:
  assumes "P u"
  shows "P (snd (Cache_GetLink R c u))" "P (snd (Cache_IsNegativelyCached R c u))"
    "P (snd (Cache_SetNegativeCache R c u))" "P (snd (Cache_DeleteLink R c u))"
    "P (snd (Cache_IncrementClicks R c u))"
  unfolding Cache_calls by (auto intro!: P_call P_both P_rd assms)

lemma P_store_hash: "P u \<Longrightarrow> P (snd (store_hash R c l ttl u))"
proof -
  assume u: "P u"
  obtain r v where rv: "both (rd_hset R (link_hash_key c) (cache_fields (ToCachedLink l)))
      (rd_expire R (link_hash_key c) ttl) u = (r, v)" by fastforce
  have "P (snd (both (rd_hset R (link_hash_key c) (cache_fields (ToCachedLink l)))
      (rd_expire R (link_hash_key c) ttl) u))"
    using u by (intro P_both P_rd)
  with rv have "P v" by simp
  then have "P (snd (call (rd_del R [neg_key c]) v))"
    by (intro P_call P_rd)
  with rv \<open>P v\<close> show ?thesis by (simp add: store_hash_snd)
qed

lemma P_SetLink:
  assumes "P u"
  shows "P (snd (Cache_SetLink R c l u))"
proof -
  obtain now v where t: "time_now u = (now, v)" by fastforce
  with P_time [OF assms] have v: "P v" by simp
  then have "P (snd (call (rd_del R ks) v))" for ks
    by (intro P_call P_rd)
  with v assms show ?thesis
    by (simp add: Cache_SetLink_def Let_def t P_store_hash split: option.split)
qed

end

interpretation clock_frame: redis_frame "\<lambda>u. t \<le> clock u" for t
proof (unfold_locales, goal_cases)
  case (2 u)
  then show ?case by (cases "time_now u") (auto dest: time_now_mono)
qed simp_all

text \<open>With every call answered, every further call is answered.\<close>

interpretation up_frame: redis_frame "\<lambda>u. outcomes u = []"
  by unfold_locales simp_all

interpretation links_frame: redis_frame "\<lambda>u. w_links u = L" for L
  by unfold_locales simp_all

end
