(* ===== verification/Link_Service.thy ===== *)
theory Link_Service imports Link_Cache begin

text \<open>
  \<open>internal/service/link.go\<close>: creating, listing, updating, deleting links and resolving redirects.
  The parameters are the Redis server \<open>R\<close>, the cursor codec \<open>C\<close> and \<open>P\<close>, the \<open>url.Parse\<close> of the
  standard library (\<open>None\<close> for its error). The theories \<open>Link_Redirect\<close> and \<open>Link_Writes\<close> hold what
  is proved of these definitions.
\<close>

record parsed_url =
  url_scheme :: string
  url_host :: string

type_synonym url_parser = "string \<Rightarrow> parsed_url option"

section \<open>Aliases and ids\<close>

definition alias_char :: "char \<Rightarrow> bool" where
  "alias_char c = ((CHR ''a'' \<le> c \<and> c \<le> CHR ''z'') \<or> (CHR ''A'' \<le> c \<and> c \<le> CHR ''Z'')
     \<or> is_digit c \<or> c = CHR ''-'')"

text \<open>\<open>aliasRegex\<close>, \<open>^[a-zA-Z0-9-]{3,50}$\<close>\<close>

definition aliasRegex_MatchString :: "string \<Rightarrow> bool" where
  "aliasRegex_MatchString s = (3 \<le> length s \<and> length s \<le> 50 \<and> list_all alias_char s)"

definition maxDestinationLength :: nat where "maxDestinationLength = 2048"
definition aliasLength :: nat where "aliasLength = 7"
definition aliasAlphabet :: string where
  "aliasAlphabet = ''ABCDEFGHIJKLMNOPQRSTUVWXYZabcdefghijklmnopqrstuvwxyz0123456789''"
definition maxAliasRetries :: nat where "maxAliasRetries = 3"

definition cryptoRandInt :: "nat \<Rightarrow> 'r world \<Rightarrow> (error + nat) \<times> 'r world" where
  "cryptoRandInt mx w = (case next_rand w of
       (None, w') \<Rightarrow> (Inl (Text ''crypto/rand''), w')
     | (Some n, w') \<Rightarrow> (Inr (n mod mx), w'))"

fun random_chars :: "nat \<Rightarrow> 'r world \<Rightarrow> string \<times> 'r world" where
  "random_chars 0 w = ([], w)"
| "random_chars (Suc n) w = (case cryptoRandInt (length aliasAlphabet) w of (r, w1) \<Rightarrow>
     let idx = (case r of Inl _ \<Rightarrow> 0 | Inr i \<Rightarrow> i)
     in case random_chars n w1 of (cs, w2) \<Rightarrow> (aliasAlphabet ! idx # cs, w2))"

definition generateRandomAlias :: "'r world \<Rightarrow> string \<times> 'r world" where
  "generateRandomAlias w = random_chars aliasLength w"

definition generateULID :: "'r world \<Rightarrow> string \<times> 'r world" where
  "generateULID w = (case time_now w of (timestamp, w1) \<Rightarrow>
     (case generateRandomAlias w1 of (randomPart, w2) \<Rightarrow> (hex016 timestamp @ randomPart, w2)))"

fun alias_retries :: "nat \<Rightarrow> 'r world \<Rightarrow> (error + string) \<times> 'r world" where
  "alias_retries 0 w = (Inl (Text ''failed to generate unique alias after retries''), w)"
| "alias_retries (Suc n) w = (case generateRandomAlias w of (alias, w1) \<Rightarrow>
     (case Repository_ShortCodeExists alias w1 of
        (Inl err, w2) \<Rightarrow> (Inl err, w2)
      | (Inr ex, w2) \<Rightarrow> (if \<not> ex then (Inr alias, w2) else alias_retries n w2)))"

definition generateUniqueAlias :: "'r world \<Rightarrow> (error + string) \<times> 'r world" where
  "generateUniqueAlias w = alias_retries maxAliasRetries w"

section \<open>The operations\<close>

definition validateDestination :: "url_parser \<Rightarrow> string \<Rightarrow> error option" where
  "validateDestination P dest =
     (if dest = [] then Some (Sentinel Svc_ErrInvalidDestination)
      else if maxDestinationLength < length dest then Some (Sentinel Svc_ErrURLTooLong)
      else case P dest of
        None \<Rightarrow> Some (Sentinel Svc_ErrInvalidDestination)
      | Some parsed \<Rightarrow>
          (if url_scheme parsed \<noteq> ''http'' \<and> url_scheme parsed \<noteq> ''https''
             then Some (Sentinel Svc_ErrInvalidDestination)
           else if url_host parsed = [] then Some (Sentinel Svc_ErrInvalidDestination)
           else None))"

record create_link_input =
  ci_destination :: string
  ci_alias :: string
  ci_redirect_type :: int
  ci_expires_at :: "instant option"
  ci_owner_id :: string

definition past :: "instant option \<Rightarrow> 'r world \<Rightarrow> bool \<times> 'r world" where
  "past e w = (case e of None \<Rightarrow> (False, w)
     | Some t \<Rightarrow> (case time_now w of (now, w') \<Rightarrow> (t < now, w')))"

definition choose_alias :: "string \<Rightarrow> 'r world \<Rightarrow> (error + string) \<times> 'r world" where
  "choose_alias alias w =
     (if alias \<noteq> [] then
        (if \<not> aliasRegex_MatchString alias then (Inl (Sentinel Svc_ErrInvalidAlias), w)
         else (Inr alias, w))
      else (case generateUniqueAlias w of
          (Inl err, w') \<Rightarrow> (Inl (Wrap ''failed to generate alias'' err), w')
        | (Inr a, w') \<Rightarrow> (Inr a, w')))"

definition insert_new_link :: "create_link_input \<Rightarrow> redirect_type \<Rightarrow> string \<Rightarrow> 'r world
    \<Rightarrow> (error + link) \<times> 'r world" where
  "insert_new_link input redirectType alias w =
     (let ownerID = (if ci_owner_id input = [] then ''system'' else ci_owner_id input) in
      case generateULID w of (i, w1) \<Rightarrow>
      case time_now w1 of (created, w2) \<Rightarrow>
      case time_now w2 of (updated, w3) \<Rightarrow>
      let link = \<lparr>l_id = i, l_short_code = alias, l_destination = ci_destination input,
            l_redirect_type = redirectType, l_owner_id = ownerID, l_enabled = True,
            l_expires_at = ci_expires_at input, l_deleted_at = None, l_click_count = 0,
            l_created_at = created, l_updated_at = updated\<rparr>
      in (case Repository_CreateLink link w3 of
           (Inl err, w4) \<Rightarrow>
             (if errors_is err Repo_ErrAliasExists then (Inl (Sentinel Svc_ErrAliasExists), w4)
              else (Inl (Wrap ''failed to create link'' err), w4))
         | (Inr _, w4) \<Rightarrow> (Inr link, record_metric IncLinkCreated w4)))"

definition LinkService_CreateLink :: "url_parser \<Rightarrow> create_link_input \<Rightarrow> 'r world
    \<Rightarrow> (error + link) \<times> 'r world" where
  "LinkService_CreateLink P input w =
     (case validateDestination P (ci_destination input) of
        Some err \<Rightarrow> (Inl err, w)
      | None \<Rightarrow>
        let redirectType = (if ci_redirect_type input \<noteq> 0 then ci_redirect_type input
              else RedirectTemporary) in
        if ci_redirect_type input \<noteq> 0 \<and> \<not> RedirectType_IsValid redirectType
          then (Inl (Sentinel Svc_ErrInvalidRedirectType), w)
        else case past (ci_expires_at input) w of (isPast, w1) \<Rightarrow>
          if isPast then (Inl (Sentinel Svc_ErrExpiresInPast), w1)
          else (case choose_alias (ci_alias input) w1 of
              (Inl err, w2) \<Rightarrow> (Inl err, w2)
            | (Inr alias, w2) \<Rightarrow> insert_new_link input redirectType alias w2))"

definition LinkService_GetLink :: "string \<Rightarrow> 'r world \<Rightarrow> (error + link) \<times> 'r world" where
  "LinkService_GetLink i w = (case Repository_GetLinkByID i w of
       (Inl err, w') \<Rightarrow> (if errors_is err Repo_ErrLinkNotFound
          then (Inl (Sentinel Svc_ErrLinkNotFound), w') else (Inl err, w'))
     | (Inr link, w') \<Rightarrow> (Inr link, w'))"

record list_links_input =
  li_owner_id :: string
  li_cursor :: string
  li_limit :: int
  li_status :: string
  li_created_after :: "instant option"
  li_created_before :: "instant option"

record list_links_output =
  lo_links :: "link list"
  lo_next_cursor :: string
  lo_has_more :: bool

text \<open>\<open>link.Status()\<close> reads the clock for a link that is neither deleted nor disabled and expires.\<close>

definition status_now :: "link \<Rightarrow> 'r world \<Rightarrow> link_status \<times> 'r world" where
  "status_now l w =
     (if l_deleted_at l = None \<and> l_enabled l \<and> l_expires_at l \<noteq> None
      then (case time_now w of (now, w') \<Rightarrow> (Link_Status now l, w'))
      else (Link_Status zero_time l, w))"

fun filter_status :: "link_status \<Rightarrow> link list \<Rightarrow> 'r world \<Rightarrow> link list \<times> 'r world" where
  "filter_status target [] w = ([], w)"
| "filter_status target (l # ls) w = (case status_now l w of (s, w1) \<Rightarrow>
     (case filter_status target ls w1 of (rest, w2) \<Rightarrow>
        (if s = target then l # rest else rest, w2)))"

definition LinkService_ListLinks :: "cursor_codec \<Rightarrow> list_links_input \<Rightarrow> 'r world
    \<Rightarrow> (error + list_links_output) \<times> 'r world" where
  "LinkService_ListLinks C input w =
     (let limit = (if li_limit input \<le> 0 \<or> 100 < li_limit input then 20 else li_limit input);
          owner = (if li_owner_id input = [] then ''system'' else li_owner_id input);
          filt = \<lparr>f_owner_id = owner, f_status = [], f_created_after = li_created_after input,
                  f_created_before = li_created_before input\<rparr>
      in case Repository_ListLinks C filt (li_cursor input) limit w of
           (Inl err, w') \<Rightarrow> (Inl err, w')
         | (Inr (links, nextCursor), w') \<Rightarrow>
             (case (if li_status input \<noteq> [] then filter_status (li_status input) links w'
                    else (links, w')) of (ls, w'') \<Rightarrow>
               (Inr \<lparr>lo_links = ls, lo_next_cursor = nextCursor, lo_has_more = (nextCursor \<noteq> [])\<rparr>, w'')))"

record update_link_input =
  ui_id :: string
  ui_destination :: "string option"
  ui_redirect_type :: "int option"
  ui_expires_at :: "instant option"
  ui_enabled :: "bool option"
  ui_clear_expiry :: bool

text \<open>The field updates, in the order of the code, each with its early return.\<close>

definition apply_destination :: "url_parser \<Rightarrow> string option \<Rightarrow> link \<Rightarrow> error + link" where
  "apply_destination P d link = (case d of None \<Rightarrow> Inr link
     | Some dest \<Rightarrow> (case validateDestination P dest of
          Some err \<Rightarrow> Inl err
        | None \<Rightarrow> Inr (link\<lparr>l_destination := dest\<rparr>)))"

definition apply_redirect_type :: "int option \<Rightarrow> link \<Rightarrow> error + link" where
  "apply_redirect_type t link = (case t of None \<Rightarrow> Inr link
     | Some rt \<Rightarrow> (if \<not> RedirectType_IsValid rt then Inl (Sentinel Svc_ErrInvalidRedirectType)
          else Inr (link\<lparr>l_redirect_type := rt\<rparr>)))"

definition apply_expiry :: "bool \<Rightarrow> instant option \<Rightarrow> link \<Rightarrow> 'r world \<Rightarrow> (error + link) \<times> 'r world" where
  "apply_expiry clear e link w =
     (if clear then (Inr (link\<lparr>l_expires_at := None\<rparr>), w)
      else if e \<noteq> None then
        (case past e w of (isPast, w') \<Rightarrow>
           (if isPast then (Inl (Sentinel Svc_ErrExpiresInPast), w')
            else (Inr (link\<lparr>l_expires_at := e\<rparr>), w')))
      else (Inr link, w))"

definition apply_enabled :: "bool option \<Rightarrow> link \<Rightarrow> link" where
  "apply_enabled b link = (case b of None \<Rightarrow> link | Some e \<Rightarrow> link\<lparr>l_enabled := e\<rparr>)"

definition is_expired_now :: "link \<Rightarrow> 'r world \<Rightarrow> bool \<times> 'r world" where
  "is_expired_now l w = (case l_expires_at l of None \<Rightarrow> (False, w)
     | Some e \<Rightarrow> (case time_now w of (now, w') \<Rightarrow> (Link_IsExpired now l, w')))"

definition save_and_invalidate :: "'r redis_ops \<Rightarrow> link \<Rightarrow> 'r world \<Rightarrow> (error + link) \<times> 'r world" where
  "save_and_invalidate R link w = (case Repository_UpdateLink link w of
       (Inl err, w1) \<Rightarrow> (Inl err, w1)
     | (Inr _, w1) \<Rightarrow>
         (Inr link, snd (Cache_DeleteLink R (l_short_code link) (record_metric IncLinkUpdated w1))))"

definition LinkService_UpdateLink :: "'r redis_ops \<Rightarrow> url_parser \<Rightarrow> update_link_input \<Rightarrow> 'r world
    \<Rightarrow> (error + link) \<times> 'r world" where
  "LinkService_UpdateLink R P input w =
     (case LinkService_GetLink (ui_id input) w of
        (Inl err, w1) \<Rightarrow> (Inl err, w1)
      | (Inr link, w1) \<Rightarrow> (case is_expired_now link w1 of (expired, w2) \<Rightarrow>
          if expired then (Inl (Sentinel Svc_ErrLinkExpired), w2)
          else (case apply_destination P (ui_destination input) link of
              Inl err \<Rightarrow> (Inl err, w2)
            | Inr link2 \<Rightarrow> (case apply_redirect_type (ui_redirect_type input) link2 of
                Inl err \<Rightarrow> (Inl err, w2)
              | Inr link3 \<Rightarrow>
                  (case apply_expiry (ui_clear_expiry input) (ui_expires_at input) link3 w2 of
                     (Inl err, w3) \<Rightarrow> (Inl err, w3)
                   | (Inr link4, w3) \<Rightarrow>
                       save_and_invalidate R (apply_enabled (ui_enabled input) link4) w3)))))"

definition LinkService_DeleteLink :: "'r redis_ops \<Rightarrow> string \<Rightarrow> 'r world \<Rightarrow> (error + unit) \<times> 'r world" where
  "LinkService_DeleteLink R i w =
     (case LinkService_GetLink i w of
        (Inl err, w1) \<Rightarrow> (Inl err, w1)
      | (Inr link, w1) \<Rightarrow> (case Repository_DeleteLink i w1 of
            (Inl err, w2) \<Rightarrow> (Inl err, w2)
          | (Inr _, w2) \<Rightarrow>
              (Inr (), snd (Cache_DeleteLink R (l_short_code link) (record_metric IncLinkDeleted w2)))))"

definition validateRedirectLink :: "'r redis_ops \<Rightarrow> link \<Rightarrow> string \<Rightarrow> 'r world \<Rightarrow> (error + link) \<times> 'r world" where
  "validateRedirectLink R link shortCode w =
     (if l_deleted_at link \<noteq> None then (Inl (Sentinel Svc_ErrLinkNotFound), w)
      else if \<not> l_enabled link then (Inl (Sentinel Svc_ErrLinkDisabled), w)
      else (case is_expired_now link w of (expired, w1) \<Rightarrow>
        if expired then (Inl (Sentinel Svc_ErrLinkExpired), snd (Cache_DeleteLink R shortCode w1))
        else (Inr link, w1)))"

text \<open>The lookup in the table behind a cache miss, with its two cache writes.\<close>

definition resolve_from_table :: "'r redis_ops \<Rightarrow> string \<Rightarrow> 'r world \<Rightarrow> (error + link) \<times> 'r world" where
  "resolve_from_table R shortCode w = (case Repository_GetLinkByShortCode shortCode w of
       (Inl err, w1) \<Rightarrow>
         (if errors_is err Repo_ErrLinkNotFound
          then (Inl (Sentinel Svc_ErrLinkNotFound), snd (Cache_SetNegativeCache R shortCode w1))
          else (Inl err, w1))
     | (Inr link, w1) \<Rightarrow>
         validateRedirectLink R link shortCode (snd (Cache_SetLink R shortCode link w1)))"

definition resolve :: "'r redis_ops \<Rightarrow> string \<Rightarrow> 'r world \<Rightarrow> ((error + link) \<times> bool) \<times> 'r world" where
  "resolve R shortCode w = (case Cache_GetLink R shortCode w of
       (Inr cached, w1) \<Rightarrow>
         (case validateRedirectLink R (ToLink shortCode cached) shortCode
              (record_metric IncRedirectCacheHit w1) of (r, w2) \<Rightarrow> ((r, True), w2))
     | (Inl err, w1) \<Rightarrow>
         (if \<not> errors_is err Cache_ErrCacheMiss
          then (case resolve_from_table R shortCode w1 of (r, w2) \<Rightarrow> ((r, False), w2))
          else (case Cache_IsNegativelyCached R shortCode (record_metric IncRedirectCacheMiss w1) of
              (neg, w2) \<Rightarrow>
                (if neg = Inr True then ((Inl (Sentinel Svc_ErrLinkNotFound), False), w2)
                 else (case resolve_from_table R shortCode w2 of (r, w3) \<Rightarrow> ((r, False), w3))))))"

text \<open>The deferred observation reads the clock again when the function returns.\<close>

definition LinkService_ResolveRedirect :: "'r redis_ops \<Rightarrow> string \<Rightarrow> 'r world
    \<Rightarrow> ((error + link) \<times> bool) \<times> 'r world" where
  "LinkService_ResolveRedirect R shortCode w =
     (case time_now w of (start, w1) \<Rightarrow>
      case resolve R shortCode w1 of (res, w2) \<Rightarrow>
      case time_now w2 of (stop, w3) \<Rightarrow>
        (res, record_metric (ObserveRedirectDuration (stop - start)) w3))"

definition IncrementClickAsync :: "'r redis_ops \<Rightarrow> string \<Rightarrow> 'r world \<Rightarrow> 'r world" where
  "IncrementClickAsync R shortCode w = snd (Cache_IncrementClicks R shortCode w)"

record link_service =
  ls_base_url :: string

definition NewLinkService :: "string \<Rightarrow> link_service" where
  "NewLinkService baseURL = \<lparr>ls_base_url = trim_suffix baseURL ''/''\<rparr>"

definition LinkService_BaseURL :: "link_service \<Rightarrow> string" where
  "LinkService_BaseURL s = ls_base_url s"

end
