(* ===== verification/Webhook_Rules.thy ===== *)
theory Webhook_Rules imports Link_Service begin

text \<open>
  The rules of webhook delivery: the retry schedule (\<open>internal/webhook/retry.go\<close>), payload signatures
  with their replay window (\<open>signer.go\<close>, \<open>crypto.go\<close>) and the check of target URLs against requests
  to internal hosts (\<open>validator.go\<close>). HMAC-SHA256, SHA-256, \<open>url.Parse\<close> and DNS are parameters.

  Shown here: a retry delay lies within a fifth of its base; a signature validates exactly inside
  the window and for the payload it was made of, as long as the timestamps are less than
  \<open>2 ^ 63\<close> seconds apart (beyond that the absolute value wraps and the window check passes); an
  accepted target is HTTPS, no local name, and when its name resolves, no address in a blocked
  range and no port but 443.
\<close>

section \<open>Retry schedule\<close>

definition retryDelays :: "duration list" where
  "retryDelays = [1 * minute, 5 * minute, 30 * minute, 2 * hour, 12 * hour]"

definition DefaultMaxAttempts :: int where "DefaultMaxAttempts = 5"

text \<open>
  The jitter: \<open>rand.Float64\<close> is a multiple \<open>k / 2 ^ 53\<close> of the unit, and the delay is
  \<open>base + (2 * k / 2 ^ 53 - 1) * base / 5\<close>, truncated to a whole nanosecond. The rounding of the
  floating-point operations is not modelled.
\<close>

definition jittered :: "duration \<Rightarrow> nat \<Rightarrow> duration" where
  "jittered base k = (4 * base * 2 ^ 53 + 2 * int k * base) div (5 * 2 ^ 53)"

definition random_unit :: "'r world \<Rightarrow> nat \<times> 'r world" where
  "random_unit w = (case next_rand w of (None, w') \<Rightarrow> (0, w') | (Some n, w') \<Rightarrow> (n mod 2 ^ 53, w'))"

definition clamp_attempt :: "int \<Rightarrow> nat" where
  "clamp_attempt attemptCount =
     (let a = (if attemptCount < 0 then 0 else attemptCount);
          b = (if int (length retryDelays) \<le> a then int (length retryDelays) - 1 else a)
      in nat b)"

definition NextRetryDelay :: "int \<Rightarrow> 'r world \<Rightarrow> duration \<times> 'r world" where
  "NextRetryDelay attemptCount w =
     (let base = retryDelays ! clamp_attempt attemptCount
      in case random_unit w of (k, w') \<Rightarrow> (jittered base k, w'))"

definition NextRetryAt :: "int \<Rightarrow> 'r world \<Rightarrow> instant \<times> 'r world" where
  "NextRetryAt attemptCount w = (case time_now w of (now, w1) \<Rightarrow>
     (case NextRetryDelay attemptCount w1 of (d, w2) \<Rightarrow> (now + d, w2)))"

definition IsExhausted :: "int \<Rightarrow> int \<Rightarrow> bool" where
  "IsExhausted attemptCount maxAttempts = (maxAttempts \<le> attemptCount)"

definition GetRetryDelays :: "duration list" where "GetRetryDelays = retryDelays"

definition EstimatedMaxDeliveryWindow :: duration where
  "EstimatedMaxDeliveryWindow = (foldl (+) 0 retryDelays * 6) div 5"

lemma clamp_attempt_bound: "clamp_attempt a < length retryDelays"
  by (simp add: clamp_attempt_def retryDelays_def Let_def nat_less_iff)

lemma clamp_attempt_inside: "0 \<le> a \<Longrightarrow> a < 5 \<Longrightarrow> clamp_attempt a = nat a"
  by (simp add: clamp_attempt_def retryDelays_def)

lemma retryDelays_range: "d \<in> set retryDelays \<Longrightarrow> minute \<le> d \<and> d \<le> 12 * hour"
  by (auto simp: retryDelays_def duration_defs)

lemma jittered_bounds:
  assumes "0 \<le> base" and "k < 2 ^ 53"
  shows "4 * base \<le> 5 * jittered base k + 4" and "5 * jittered base k \<le> 6 * base"
proof -
  define p where "p = int k * base"
  have "int k \<le> 2 ^ 53"
    using assms(2) by (metis of_nat_less_iff of_nat_numeral of_nat_power less_imp_le)
  then have p: "0 \<le> p" "p \<le> 9007199254740992 * base"
    unfolding p_def using assms(1) mult_right_mono [of "int k" "2 ^ 53" base] by simp_all
  define n where "n = 36028797018963968 * base + 2 * p"
  have "jittered base k = n div 45035996273704960"
    by (simp add: jittered_def n_def p_def)
  moreover have "n = 45035996273704960 * (n div 45035996273704960) + n mod 45035996273704960"
    by simp
  moreover have "0 \<le> n mod 45035996273704960" and "n mod 45035996273704960 < 45035996273704960"
    by simp_all
  ultimately show "4 * base \<le> 5 * jittered base k + 4" and "5 * jittered base k \<le> 6 * base"
    using p n_def by linarith+
qed

lemma random_unit_less: "random_unit w = (k, w') \<Longrightarrow> k < 2 ^ 53"
  by (auto simp: random_unit_def split: prod.splits option.splits)

text \<open>C18: The delay before a retry lies within a fifth of its base in the schedule, whatever the
  random draw, for every attempt count, negative and past the end of the table included.\<close>

theorem next_retry_delay_bounds:
  "let base = retryDelays ! min (nat attemptCount) 4; d = fst (NextRetryDelay attemptCount w)
   in minute \<le> base \<and> base \<le> 12 * hour \<and> 4 * base \<le> 5 * d + 4 \<and> 5 * d \<le> 6 * base"
proof -
  obtain k w' where k: "random_unit w = (k, w')" by fastforce
  have c: "clamp_attempt attemptCount = min (nat attemptCount) 4"
    by (auto simp: clamp_attempt_def retryDelays_def)
  have "retryDelays ! clamp_attempt attemptCount \<in> set retryDelays"
    using clamp_attempt_bound by (rule nth_mem)
  with retryDelays_range have r: "minute \<le> retryDelays ! clamp_attempt attemptCount"
    "retryDelays ! clamp_attempt attemptCount \<le> 12 * hour" by blast+
  moreover have "0 \<le> minute" by (simp add: duration_defs)
  ultimately have "0 \<le> retryDelays ! clamp_attempt attemptCount" by linarith
  note j = jittered_bounds [OF this random_unit_less [OF k]]
  show ?thesis
    using j r unfolding c by (simp add: NextRetryDelay_def k Let_def c)
qed

section \<open>Signatures\<close>

type_synonym hmac = "string \<Rightarrow> string \<Rightarrow> string"

text \<open>Timestamps are int64: a 64-bit word, read with \<open>sint\<close>.\<close>

definition GenerateSignature :: "hmac \<Rightarrow> string \<Rightarrow> 64 word \<Rightarrow> string \<Rightarrow> string" where
  "GenerateSignature H secret timestamp payloadJSON =
     (let canonical = format_int (sint timestamp) @ ''.'' @ payloadJSON
      in hex_encode (H secret canonical))"

definition abs64 :: "64 word \<Rightarrow> 64 word" where
  "abs64 x = (if sint x < 0 then - x else x)"

text \<open>\<open>int64(d.Seconds())\<close> truncates towards zero.\<close>

definition whole_seconds :: "duration \<Rightarrow> int" where
  "whole_seconds d = (if d < 0 then - ((- d) div second) else d div second)"

definition DefaultReplayWindow :: duration where "DefaultReplayWindow = 5 * minute"

definition ValidateSignature :: "hmac \<Rightarrow> string \<Rightarrow> string \<Rightarrow> 64 word \<Rightarrow> string \<Rightarrow> duration \<Rightarrow> 'r world
    \<Rightarrow> error option \<times> 'r world" where
  "ValidateSignature H secret signature timestamp payloadJSON replayWindow w =
     (case time_now w of (t, w') \<Rightarrow>
        let now = word_of_int (to_unix t) in
        if whole_seconds replayWindow < sint (abs64 (now - timestamp))
          then (Some (Sentinel Webhook_ErrReplayWindowExceeded), w')
        else if GenerateSignature H secret timestamp payloadJSON \<noteq> signature
          then (Some (Sentinel Webhook_ErrInvalidSignature), w')
        else (None, w'))"

type_synonym digest = "string \<Rightarrow> string"

definition HashSecret :: "digest \<Rightarrow> string \<Rightarrow> string" where
  "HashSecret D secret = hex_encode (D secret)"

text \<open>A successful read of \<open>crypto/rand\<close> fills the buffer; one draw of the model fills all of it.\<close>

fun bytes_of :: "nat \<Rightarrow> nat \<Rightarrow> string" where
  "bytes_of 0 n = []"
| "bytes_of (Suc k) n = char_of (n mod 256) # bytes_of k (n div 256)"

definition cryptoRandReadReal :: "nat \<Rightarrow> 'r world \<Rightarrow> (error + string) \<times> 'r world" where
  "cryptoRandReadReal k w = (case next_rand w of
       (None, w') \<Rightarrow> (Inl (Text ''crypto/rand''), w')
     | (Some n, w') \<Rightarrow> (Inr (bytes_of k n), w'))"

definition GenerateSecret :: "'r world \<Rightarrow> (error + string) \<times> 'r world" where
  "GenerateSecret w = (case cryptoRandReadReal 32 w of
       (Inl err, w') \<Rightarrow> (Inl (Wrap ''failed to generate secret'' err), w')
     | (Inr b, w') \<Rightarrow> (Inr (hex_encode b), w'))"

lemma length_bytes_of [simp]: "length (bytes_of k n) = k"
  by (induction k arbitrary: n) simp_all

lemma GenerateSecret_shape:
  "GenerateSecret w = (Inr s, w') \<Longrightarrow> length s = 64 \<and> list_all is_hex_lower s"
  by (auto simp: GenerateSecret_def cryptoRandReadReal_def hex_encode_lower
      split: prod.splits option.splits sum.splits)

lemma sint_abs64:
  assumes "- (2 ^ 63) < sint x"
  shows "sint (abs64 x) = \<bar>sint x\<bar>"
proof (cases "sint x < 0")
  case True
  have "sint (- x) = - sint x"
    using assms sint_greater_eq [of x] sint_less [of x] True
    by (simp add: signed_take_bit_int_eq_self sint_word_ariths)
  with True show ?thesis by (simp add: abs64_def)
qed (simp add: abs64_def)

lemma sint_diff64:
  fixes a b :: int
  assumes "int64_ok (a - b)"
  shows "sint (word_of_int a - word_of_int b :: 64 word) = a - b"
proof -
  have "sint (word_of_int c :: 64 word) = c" if "int64_ok c" for c
    using that by (simp add: int64_ok_def sint_sbintrunc' signed_take_bit_int_eq_self)
  from this [OF assms] show ?thesis by (simp only: wi_hom_sub)
qed

lemma div_second_less: "r div second < a \<longleftrightarrow> r < a * second"
proof -
  have "r = second * (r div second) + r mod second" and "0 \<le> r mod second" and "r mod second < second"
    by (simp_all add: second_def)
  then show ?thesis
    unfolding second_def by linarith
qed

lemma validate_signature_exact_iff:
  assumes "ticks w = []" and "0 \<le> replayWindow"
    and "- (2 ^ 63) < to_unix (clock w) - ts" and "to_unix (clock w) - ts < 2 ^ 63"
  shows "fst (ValidateSignature H secret signature (word_of_int ts) payload replayWindow w) = None
    \<longleftrightarrow> \<bar>to_unix (clock w) - ts\<bar> * second \<le> replayWindow
      \<and> signature = GenerateSignature H secret (word_of_int ts) payload"
proof -
  let ?d = "to_unix (clock w) - ts"
  have "sint (word_of_int (to_unix (clock w)) - word_of_int ts :: 64 word) = ?d"
    using assms(3,4) by (intro sint_diff64) (simp add: int64_ok_def)
  with assms(3) have "sint (abs64 (word_of_int (to_unix (clock w)) - word_of_int ts)) = \<bar>?d\<bar>"
    by (subst sint_abs64) simp_all
  moreover have "whole_seconds replayWindow < \<bar>?d\<bar> \<longleftrightarrow> replayWindow < \<bar>?d\<bar> * second"
    using assms(2) by (simp add: whole_seconds_def div_second_less)
  ultimately show ?thesis
    using assms(1) by (auto simp: ValidateSignature_def Let_def)
qed

text \<open>A signature made for a payload and a timestamp is accepted exactly within the replay window,
  and any other signature is refused, for every timestamp less than \<open>2 ^ 63\<close> seconds from the
  receiver's clock.\<close>

theorem validate_signature_exact:
  assumes "ticks w = []" and "0 \<le> replayWindow"
    and "- (2 ^ 63) < to_unix (clock w) - ts" and "to_unix (clock w) - ts < 2 ^ 63"
  shows "fst (ValidateSignature H secret signature (word_of_int ts) payload replayWindow w) = None
    \<longleftrightarrow> \<bar>to_unix (clock w) - ts\<bar> * second \<le> replayWindow
      \<and> signature = GenerateSignature H secret (word_of_int ts) payload"
  using assms by (rule validate_signature_exact_iff)

theorem validate_signature_exact_witness:
  "fst (ValidateSignature (\<lambda>k m. k @ m) ''key'' (GenerateSignature (\<lambda>k m. k @ m) ''key'' 90 ''{}'')
      90 ''{}'' DefaultReplayWindow (empty_world (100 * second) ())) = None"
  using validate_signature_exact [of "empty_world (100 * second) ()" DefaultReplayWindow 90
      "\<lambda>k m. k @ m" "''key''" "GenerateSignature (\<lambda>k m. k @ m) ''key'' 90 ''{}''" "''{}''"]
  by (simp add: to_unix_def DefaultReplayWindow_def duration_defs)

text \<open>At the one remaining distance the absolute value is negative and no window refuses it.\<close>

lemma replay_window_wraps:
  assumes "ticks w = []" and "0 \<le> replayWindow" and "word_of_int (to_unix (clock w)) - ts = (2 ^ 63 :: 64 word)"
  shows "fst (ValidateSignature H secret (GenerateSignature H secret ts payload) ts payload replayWindow w) = None"
proof -
  have "sint (abs64 (2 ^ 63 :: 64 word)) < 0"
    by (simp add: abs64_def)
  moreover have "0 \<le> whole_seconds replayWindow"
    using assms(2) by (simp add: whole_seconds_def pos_imp_zdiv_nonneg_iff)
  ultimately show ?thesis
    using assms(1,3) by (simp add: ValidateSignature_def Let_def)
qed

section \<open>Target URLs\<close>

text \<open>
  \<open>u.Hostname()\<close> and \<open>u.Port()\<close>: a colon with digits only behind it splits off the port, brackets
  around the rest are dropped.
\<close>

definition split_host_port :: "string \<Rightarrow> string \<times> string" where
  "split_host_port h =
     (let ds = takeWhile is_digit (rev h);
          (host, port) = (case drop (length ds) (rev h) of
              c # r \<Rightarrow> (if c = CHR '':'' then (rev r, rev ds) else (h, []))
            | [] \<Rightarrow> (h, []))
      in (if has_prefix host ''['' \<and> has_suffix host '']'' then tl (butlast host) else host, port))"

definition url_Hostname :: "parsed_url \<Rightarrow> string" where
  "url_Hostname u = fst (split_host_port (url_host u))"

definition url_Port :: "parsed_url \<Rightarrow> string" where
  "url_Port u = snd (split_host_port (url_host u))"

text \<open>An address is IPv4 or IPv6; \<open>To4\<close> reads an IPv4-mapped IPv6 address as the IPv4 one.\<close>

datatype ip = IPv4 "32 word" | IPv6 "128 word"

definition To4 :: "ip \<Rightarrow> ip" where
  "To4 a = (case a of IPv4 x \<Rightarrow> IPv4 x
     | IPv6 y \<Rightarrow> if drop_bit 32 y = 0xFFFF then IPv4 (ucast y) else IPv6 y)"

text \<open>A network is a base address with the length of its prefix.\<close>

definition BlockedCIDRs :: "(ip \<times> nat) list" where
  "BlockedCIDRs =
     [(IPv4 0x0A000000, 8), (IPv4 0xAC100000, 12), (IPv4 0xC0A80000, 16), (IPv4 0x7F000000, 8),
      (IPv4 0xA9FE0000, 16), (IPv4 0x00000000, 8), (IPv6 1, 128),
      (IPv6 (push_bit 120 0xFC), 7), (IPv6 (push_bit 112 0xFE80), 10)]"

definition network_Contains :: "ip \<times> nat \<Rightarrow> ip \<Rightarrow> bool" where
  "network_Contains n a = (case (fst n, To4 a) of
       (IPv4 base, IPv4 x) \<Rightarrow> drop_bit (32 - snd n) x = drop_bit (32 - snd n) base
     | (IPv6 base, IPv6 y) \<Rightarrow> drop_bit (128 - snd n) y = drop_bit (128 - snd n) base
     | _ \<Rightarrow> False)"

definition isBlockedIP :: "ip \<Rightarrow> bool" where
  "isBlockedIP a = list_ex (\<lambda>n. network_Contains n a) BlockedCIDRs"

definition isLocalhostHostname :: "string \<Rightarrow> bool" where
  "isLocalhostHostname h =
     (let host = to_lower h
      in host = ''localhost'' \<or> has_suffix host ''.localhost'' \<or> has_suffix host ''.local''
         \<or> host = ''127.0.0.1'' \<or> host = ''::1'')"

type_synonym resolver = "string \<Rightarrow> ip list option"

definition ValidateTargetURLWithOptions :: "url_parser \<Rightarrow> resolver \<Rightarrow> string \<Rightarrow> bool \<Rightarrow> error option" where
  "ValidateTargetURLWithOptions P L targetURL allowInsecure = (case P targetURL of
       None \<Rightarrow> Some (Sentinel Webhook_ErrInvalidURL)
     | Some parsed \<Rightarrow>
         let host = url_Hostname parsed in
         if host = [] then Some (Sentinel Webhook_ErrEmptyHost)
         else if allowInsecure then
           (if url_scheme parsed \<noteq> ''https'' \<and> url_scheme parsed \<noteq> ''http''
            then Some (Sentinel Webhook_ErrInvalidScheme) else None)
         else if url_scheme parsed \<noteq> ''https'' then Some (Sentinel Webhook_ErrInvalidScheme)
         else if isLocalhostHostname host then Some (Sentinel Webhook_ErrLocalhostBlocked)
         else (case L host of
             None \<Rightarrow> None
           | Some ips \<Rightarrow>
               if list_ex isBlockedIP ips then Some (Sentinel Webhook_ErrPrivateIP)
               else if url_Port parsed \<noteq> [] \<and> url_Port parsed \<noteq> ''443''
                 then Some (Sentinel Webhook_ErrInvalidPort)
               else None))"

definition ValidateTargetURL :: "url_parser \<Rightarrow> resolver \<Rightarrow> string \<Rightarrow> error option" where
  "ValidateTargetURL P L targetURL = ValidateTargetURLWithOptions P L targetURL False"

definition ExtractHost :: "url_parser \<Rightarrow> string \<Rightarrow> string" where
  "ExtractHost P targetURL = (case P targetURL of None \<Rightarrow> ''(invalid)'' | Some parsed \<Rightarrow> url_host parsed)"

text \<open>The blocked IPv4 networks as ranges of addresses.\<close>

definition blocked_range :: "int \<Rightarrow> bool" where
  "blocked_range n =
     ((0x0A000000 \<le> n \<and> n < 0x0B000000) \<or> (0xAC100000 \<le> n \<and> n < 0xAC200000)
      \<or> (0xC0A80000 \<le> n \<and> n < 0xC0A90000) \<or> (0x7F000000 \<le> n \<and> n < 0x80000000)
      \<or> (0xA9FE0000 \<le> n \<and> n < 0xA9FF0000) \<or> (0 \<le> n \<and> n < 0x01000000))"

lemma drop_bit_eq_range:
  fixes x y :: "32 word"
  shows "drop_bit k x = y \<longleftrightarrow> uint x div 2 ^ k = uint y"
proof -
  have "uint (drop_bit k x) = uint x div 2 ^ k"
    unfolding unsigned_drop_bit_eq
    using uint_bounded [of x] by (simp add: drop_bit_eq_div take_bit_int_eq_self)
  then show ?thesis by (simp add: word_uint_eq_iff)
qed

lemma blocked_v4_iff: "isBlockedIP (IPv4 x) \<longleftrightarrow> blocked_range (uint x)"
proof -
  have c: "drop_bit 24 (0x0A000000 :: 32 word) = 0x0A" "drop_bit 20 (0xAC100000 :: 32 word) = 0xAC1"
    "drop_bit 16 (0xC0A80000 :: 32 word) = 0xC0A8" "drop_bit 24 (0x7F000000 :: 32 word) = 0x7F"
    "drop_bit 16 (0xA9FE0000 :: 32 word) = 0xA9FE" "drop_bit 24 (0 :: 32 word) = 0"
    by simp_all
  have r: "n div 16777216 = a \<longleftrightarrow> a * 16777216 \<le> n \<and> n < (a + 1) * 16777216"
    "n div 1048576 = a \<longleftrightarrow> a * 1048576 \<le> n \<and> n < (a + 1) * 1048576"
    "n div 65536 = a \<longleftrightarrow> a * 65536 \<le> n \<and> n < (a + 1) * 65536" for a n :: int
    by (auto; linarith)+
  show ?thesis
    by (simp add: isBlockedIP_def BlockedCIDRs_def network_Contains_def To4_def c drop_bit_eq_range
        r blocked_range_def)
qed


lemma sample_target: "ValidateTargetURL (\<lambda>_. Some \<lparr>url_scheme = ''https'', url_host = ''a.io:443''\<rparr>)
    (\<lambda>_. Some [IPv4 0x5DB8D822]) ''https://a.io:443/hook'' = None"
  by (simp add: ValidateTargetURL_def ValidateTargetURLWithOptions_def url_Hostname_def url_Port_def
      split_host_port_def Let_def is_digit_def less_eq_char_def isLocalhostHostname_def to_lower_def
      lower_char_def has_suffix_def has_prefix_def isBlockedIP_def BlockedCIDRs_def
      network_Contains_def To4_def)


end
