(* ===== verification/Click_Stream.thy ===== *)
theory Click_Stream imports Stream_Interface Go_Time Webhook_Rules begin

text \<open>
  \<open>internal/analytics/publisher.go\<close> and \<open>validation.go\<close>: the payload of a click event, its cleaning
  (referrer, user agent, country, visitor hash), its publication on the Redis stream and the check
  that the consumer makes. JSON encoding, SHA-256 and the URL cleaning of \<open>net/url\<close> are parameters;
  of the last, \<open>S\<close> gives the printed URL without query and fragment.
\<close>

definition StreamKey :: string where "StreamKey = ''stream:click_events''"
definition DeadLetterStreamKey :: string where "DeadLetterStreamKey = ''stream:click_events:dlq''"
definition MaxStreamLen :: nat where "MaxStreamLen = 100000"

lemma dead_letter_stream_differs: "StreamKey \<noteq> DeadLetterStreamKey"
  by (simp add: StreamKey_def DeadLetterStreamKey_def)

record click_event_payload =
  cp_short_code :: string
  cp_link_id :: string
  cp_owner_id :: string
  cp_referrer :: string
  cp_user_agent :: string
  cp_visitor_hash :: string
  cp_country_code :: string
  cp_clicked_at :: int

section \<open>Publishing\<close>

definition Publish :: "'r stream_ops \<Rightarrow> (click_event_payload \<Rightarrow> string) \<Rightarrow> click_event_payload \<Rightarrow> 'r world
    \<Rightarrow> (error + string) \<times> 'r world" where
  "Publish X E event w = (case call (on_store (x_add X StreamKey MaxStreamLen [(''payload'', E event)])) w of
       (Inl err, w') \<Rightarrow> (Inl (Wrap ''xadd'' err), w')
     | (Inr i, w') \<Rightarrow> (Inr i, w'))"

text \<open>The body of the goroutine: whenever it runs, an error only counts as a dropped event.\<close>

definition PublishAsync :: "'r stream_ops \<Rightarrow> (click_event_payload \<Rightarrow> string) \<Rightarrow> click_event_payload \<Rightarrow> 'r world
    \<Rightarrow> 'r world" where
  "PublishAsync X E event w = (case Publish X E event w of
       (Inl err, w') \<Rightarrow> record_metric (IncAnalyticsEventPublished ''dropped'') w'
     | (Inr i, w') \<Rightarrow> record_metric (IncAnalyticsEventPublished ''success'') w')"

definition GenerateVisitorHash :: "digest \<Rightarrow> string \<Rightarrow> string \<Rightarrow> instant \<Rightarrow> string" where
  "GenerateVisitorHash D ip userAgent clickedAt =
     (let dailySalt = ''penshort:'' @ format_date clickedAt;
          data = ip @ userAgent @ dailySalt
      in take 16 (hex_encode (D data)))"

definition SanitizeReferrer :: "(string \<Rightarrow> string option) \<Rightarrow> string \<Rightarrow> string" where
  "SanitizeReferrer S ref = (if ref = [] then []
     else (case S ref of None \<Rightarrow> [] | Some sanitized \<Rightarrow> take 500 sanitized))"

definition TruncateUserAgent :: "string \<Rightarrow> string" where
  "TruncateUserAgent ua = (if 500 < length ua then take 500 ua else ua)"

definition ExtractCountryCode :: "string \<Rightarrow> string" where
  "ExtractCountryCode cfIPCountry =
     (if cfIPCountry \<noteq> [] \<and> length cfIPCountry = 2 then to_upper cfIPCountry else [])"

definition ExtractReferrerDomain :: "url_parser \<Rightarrow> string \<Rightarrow> string" where
  "ExtractReferrerDomain P ref = (if ref = [] then ''(direct)''
     else (case P ref of None \<Rightarrow> ''(unknown)''
       | Some parsed \<Rightarrow> if url_host parsed = [] then ''(unknown)'' else url_host parsed))"

section \<open>Validation\<close>

definition isHex :: "string \<Rightarrow> bool" where
  "isHex value = list_all (\<lambda>ch. (CHR ''0'' \<le> ch \<and> ch \<le> CHR ''9'') \<or> (CHR ''a'' \<le> ch \<and> ch \<le> CHR ''f'')
     \<or> (CHR ''A'' \<le> ch \<and> ch \<le> CHR ''F'')) value"

definition ValidateClickEventPayload :: "click_event_payload \<Rightarrow> error option" where
  "ValidateClickEventPayload payload =
     (if cp_short_code payload = [] then Some (Text ''short_code is required'')
      else if length (cp_short_code payload) < 3 \<or> 50 < length (cp_short_code payload)
        then Some (Text ''short_code length out of bounds'')
      else if cp_link_id payload = [] then Some (Text ''link_id is required'')
      else if cp_visitor_hash payload = [] then Some (Text ''visitor_hash is required'')
      else if length (cp_visitor_hash payload) \<noteq> 16 \<or> \<not> isHex (cp_visitor_hash payload)
        then Some (Text ''visitor_hash must be 16 hex chars'')
      else if cp_country_code payload \<noteq> [] \<and> length (cp_country_code payload) \<noteq> 2
        then Some (Text ''country_code must be 2 chars'')
      else if cp_clicked_at payload \<le> 0 then Some (Text ''clicked_at must be set'')
      else if 500 < length (cp_referrer payload) then Some (Text ''referrer too long'')
      else if 500 < length (cp_user_agent payload) then Some (Text ''user_agent too long'')
      else None)"

lemma hex_encode_isHex: "isHex (take n (hex_encode s))"
proof -
  have "list_all is_hex_lower (take n (hex_encode s))"
    using hex_encode_lower [of s] by (auto simp: list_all_iff dest: in_set_takeD)
  then show ?thesis
    by (auto simp: isHex_def list_all_iff is_hex_lower_def is_digit_def)
qed

lemma visitor_hash_valid:
  "8 \<le> length (D (ip @ ua @ ''penshort:'' @ format_date t)) \<Longrightarrow>
   length (GenerateVisitorHash D ip ua t) = 16 \<and> isHex (GenerateVisitorHash D ip ua t)"
  by (simp add: GenerateVisitorHash_def Let_def hex_encode_isHex)

text \<open>A click payload whose metadata went through the cleaning functions is accepted by the
  consumer's validation exactly when its short code has 3 to 50 bytes, its link id is present and
  its time lies after the epoch: the cleaned referrer, user agent, country and visitor hash, of a
  digest of 32 bytes, never fail it.\<close>

theorem cleaned_payload_valid:
  assumes "\<And>s. length (D s) = 32"
  shows "ValidateClickEventPayload \<lparr>cp_short_code = code, cp_link_id = link, cp_owner_id = owner,
      cp_referrer = SanitizeReferrer S ref, cp_user_agent = TruncateUserAgent ua,
      cp_visitor_hash = GenerateVisitorHash D ip ua t, cp_country_code = ExtractCountryCode cc,
      cp_clicked_at = ms\<rparr> = None
    \<longleftrightarrow> 3 \<le> length code \<and> length code \<le> 50 \<and> link \<noteq> [] \<and> 0 < ms"
proof -
  have "length (GenerateVisitorHash D ip ua t) = 16 \<and> isHex (GenerateVisitorHash D ip ua t)"
    using assms by (intro visitor_hash_valid) simp
  moreover from this have "GenerateVisitorHash D ip ua t \<noteq> []" by auto
  moreover have "length (ExtractCountryCode cc) = 2 \<or> ExtractCountryCode cc = []"
    by (simp add: ExtractCountryCode_def to_upper_def)
  moreover have "length (SanitizeReferrer S ref) \<le> 500"
    by (simp add: SanitizeReferrer_def split: option.split)
  moreover have "length (TruncateUserAgent ua) \<le> 500"
    by (simp add: TruncateUserAgent_def)
  ultimately show ?thesis
    by (auto simp: ValidateClickEventPayload_def)
qed

theorem cleaned_payload_valid_witness:
  "ValidateClickEventPayload \<lparr>cp_short_code = ''abc'', cp_link_id = [], cp_owner_id = [],
      cp_referrer = SanitizeReferrer Some ''x'', cp_user_agent = TruncateUserAgent ''ua'',
      cp_visitor_hash = GenerateVisitorHash (\<lambda>_. replicate 32 CHR ''h'') ''1.2.3.4'' ''ua'' 5,
      cp_country_code = ExtractCountryCode ''de'', cp_clicked_at = 1\<rparr> \<noteq> None"
  by (subst cleaned_payload_valid) simp_all

text \<open>A visitor has one hash per UTC day; the digests of different days differ when \<open>D\<close> is injective.\<close>

lemma format_date_iff: "format_date t = format_date u \<longleftrightarrow> day_start t = day_start u"
proof
  assume "day_start t = day_start u"
  then have "t div day = u div day" by (simp add: day_start_div)
  then show "format_date t = format_date u" by (simp add: format_date_def)
qed (rule format_date_inj)

lemma visitor_hash_same_day:
  "day_start t = day_start u \<Longrightarrow> GenerateVisitorHash D ip ua t = GenerateVisitorHash D ip ua u"
  by (drule format_date_iff [THEN iffD2]) (simp add: GenerateVisitorHash_def)

text \<open>A published event is owed to every consumer group until it is acknowledged.\<close>

context stream_server
begin

lemma published_is_owed:
  assumes "Publish X E event w = (Inr i, w')"
  shows "\<lparr>sm_id = i, sm_values = [(''payload'', E event)]\<rparr> \<in> owed StreamKey g (w_redis w')"
proof -
  obtain w1 where c: "call (on_store (x_add X StreamKey MaxStreamLen [(''payload'', E event)])) w = (Inr i, w1)"
    and "w' = w1"
    using assms by (auto simp: Publish_def split: prod.splits sum.splits)
  then have "x_add X StreamKey MaxStreamLen [(''payload'', E event)] (clock w) (w_redis w) = (Inr i, w_redis w')"
    using call_on_store(9) [OF c] by simp
  then show ?thesis
    by (rule add_owed) (simp add: MaxStreamLen_def)
qed

end

end
