(* ===== verification/Webhook_Repo.thy ===== *)
theory Webhook_Repo imports Link_Repo begin

text \<open>
  \<open>internal/webhook/repository.go\<close> over the tables of \<open>migrations/000006_webhooks.up.sql\<close>: endpoints,
  soft-deleted, and the deliveries that serve as an outbox. As in \<open>Link_Repo\<close>, a \<open>pg_\<close> definition is a
  SQL statement and the method around it is the Go code.

  Scanning is where the tables and the code disagree: \<open>last_error\<close> is NULL in a fresh delivery, and
  \<open>database/sql\<close> refuses to scan NULL into the string field \<open>LastError\<close>. The model keeps the column
  an option and the scan fails on \<open>None\<close>.
\<close>

section \<open>Endpoints\<close>

definition live_endpoint :: "endpoint \<Rightarrow> bool" where "live_endpoint e = (e_deleted_at e = None)"

definition pg_insert_endpoint :: "endpoint \<Rightarrow> 'r world \<Rightarrow> (error + unit) \<times> 'r world" where
  "pg_insert_endpoint e w =
     (if list_ex (\<lambda>r. e_id r = e_id e) (w_endpoints w)
        then (Inl (pg_unique_violation ''webhook_endpoints_pkey''), w)
      else (Inr (), w\<lparr>w_endpoints := w_endpoints w @ [e\<lparr>e_deleted_at := None\<rparr>]\<rparr>))"

definition Repository_CreateEndpoint :: "endpoint \<Rightarrow> 'r world \<Rightarrow> (error + unit) \<times> 'r world" where
  "Repository_CreateEndpoint e w = (case call (pg_insert_endpoint e) w of
       (Inl err, w') \<Rightarrow> (Inl (Wrap ''insert webhook endpoint'' err), w')
     | (Inr _, w') \<Rightarrow> (Inr (), w'))"

definition pg_endpoint_by_id :: "string \<Rightarrow> 'r world \<Rightarrow> (error + endpoint option) \<times> 'r world" where
  "pg_endpoint_by_id i w = (Inr (find (\<lambda>e. e_id e = i \<and> live_endpoint e) (w_endpoints w)), w)"

definition Repository_GetEndpoint :: "string \<Rightarrow> 'r world \<Rightarrow> (error + endpoint) \<times> 'r world" where
  "Repository_GetEndpoint i w = (case call (pg_endpoint_by_id i) w of
       (Inr None, w') \<Rightarrow> (Inl (Sentinel Webhook_ErrEndpointNotFound), w')
     | (Inl err, w') \<Rightarrow> (Inl (Wrap ''query webhook endpoint'' err), w')
     | (Inr (Some e), w') \<Rightarrow> (Inr e, w'))"

definition pg_endpoints_by_user :: "string \<Rightarrow> 'r world \<Rightarrow> (error + endpoint list) \<times> 'r world" where
  "pg_endpoints_by_user userID w = (Inr (rev (sort_key e_created_at
     (filter (\<lambda>e. e_user_id e = userID \<and> live_endpoint e) (w_endpoints w)))), w)"

definition Repository_ListEndpointsByUser :: "string \<Rightarrow> 'r world \<Rightarrow> (error + endpoint list) \<times> 'r world" where
  "Repository_ListEndpointsByUser userID w = (case call (pg_endpoints_by_user userID) w of
       (Inl err, w') \<Rightarrow> (Inl (Wrap ''query webhooks by user'' err), w')
     | (Inr es, w') \<Rightarrow> (Inr es, w'))"

definition wants :: "string \<Rightarrow> event_type \<Rightarrow> endpoint \<Rightarrow> bool" where
  "wants userID et e = (e_user_id e = userID \<and> live_endpoint e \<and> e_enabled e \<and> et \<in> set (e_event_types e))"

definition pg_active_endpoints :: "string \<Rightarrow> event_type \<Rightarrow> 'r world \<Rightarrow> (error + endpoint list) \<times> 'r world" where
  "pg_active_endpoints userID et w =
     (Inr (sort_key e_created_at (filter (wants userID et) (w_endpoints w))), w)"

definition Repository_ListActiveEndpointsByUserAndEvent :: "string \<Rightarrow> event_type \<Rightarrow> 'r world
    \<Rightarrow> (error + endpoint list) \<times> 'r world" where
  "Repository_ListActiveEndpointsByUserAndEvent userID et w =
     (case call (pg_active_endpoints userID et) w of
        (Inl err, w') \<Rightarrow> (Inl (Wrap ''query active webhooks'' err), w')
      | (Inr es, w') \<Rightarrow> (Inr es, w'))"

definition pg_update_endpoints :: "(endpoint \<Rightarrow> bool) \<Rightarrow> (endpoint \<Rightarrow> endpoint) \<Rightarrow> 'r world
    \<Rightarrow> (error + nat) \<times> 'r world" where
  "pg_update_endpoints p f w = (Inr (fst (update_where p f (w_endpoints w))),
     w\<lparr>w_endpoints := snd (update_where p f (w_endpoints w))\<rparr>)"

definition set_endpoint_fields :: "endpoint \<Rightarrow> instant \<Rightarrow> endpoint \<Rightarrow> endpoint" where
  "set_endpoint_fields e now r = r\<lparr>e_target_url := e_target_url e, e_enabled := e_enabled e,
     e_event_types := e_event_types e, e_name := e_name e, e_description := e_description e,
     e_updated_at := now\<rparr>"

definition exec_on_endpoint :: "string \<Rightarrow> string \<Rightarrow> (instant \<Rightarrow> endpoint \<Rightarrow> endpoint) \<Rightarrow> 'r world
    \<Rightarrow> (error + unit) \<times> 'r world" where
  "exec_on_endpoint msg i f w = (case time_now w of (now, w1) \<Rightarrow>
     (case call (pg_update_endpoints (\<lambda>r. e_id r = i \<and> live_endpoint r) (f now)) w1 of
        (Inl err, w2) \<Rightarrow> (Inl (Wrap msg err), w2)
      | (Inr n, w2) \<Rightarrow>
          (if n = 0 then (Inl (Sentinel Webhook_ErrEndpointNotFound), w2) else (Inr (), w2))))"

definition Repository_UpdateEndpoint :: "endpoint \<Rightarrow> 'r world \<Rightarrow> (error + unit) \<times> 'r world" where
  "Repository_UpdateEndpoint e w =
     exec_on_endpoint ''update webhook endpoint'' (e_id e) (set_endpoint_fields e) w"

definition Repository_UpdateEndpointSecret :: "string \<Rightarrow> string \<Rightarrow> 'r world \<Rightarrow> (error + unit) \<times> 'r world" where
  "Repository_UpdateEndpointSecret i secretHash w =
     exec_on_endpoint ''update endpoint secret'' i
       (\<lambda>now r. r\<lparr>e_secret_hash := secretHash, e_updated_at := now\<rparr>) w"

definition delete_endpoint_row :: "instant \<Rightarrow> endpoint \<Rightarrow> endpoint" where
  "delete_endpoint_row now r = r\<lparr>e_deleted_at := Some now, e_updated_at := now\<rparr>"

definition Repository_DeleteEndpoint :: "string \<Rightarrow> 'r world \<Rightarrow> (error + unit) \<times> 'r world" where
  "Repository_DeleteEndpoint i w = exec_on_endpoint ''delete webhook endpoint'' i delete_endpoint_row w"

section \<open>Deliveries\<close>

definition pg_fk_violation :: error where
  "pg_fk_violation = Text (''ERROR: insert or update on table '' @ quoted ''webhook_deliveries''
     @ '' violates foreign key constraint (SQLSTATE 23503)'')"

text \<open>
  \<open>ON CONFLICT (event_id, endpoint_id) DO NOTHING\<close> looks at that index only; a taken id is still a
  violation of the primary key.
\<close>

definition pg_insert_delivery :: "delivery \<Rightarrow> 'r world \<Rightarrow> (error + unit) \<times> 'r world" where
  "pg_insert_delivery d w =
     (if list_ex (\<lambda>r. d_event_id r = d_event_id d \<and> d_endpoint_id r = d_endpoint_id d) (w_deliveries w)
        then (Inr (), w)
      else if list_ex (\<lambda>r. d_id r = d_id d) (w_deliveries w)
        then (Inl (pg_unique_violation ''webhook_deliveries_pkey''), w)
      else if \<not> list_ex (\<lambda>e. e_id e = d_endpoint_id d) (w_endpoints w)
        then (Inl pg_fk_violation, w)
      else (Inr (), w\<lparr>w_deliveries := w_deliveries w
              @ [d\<lparr>d_last_attempt_at := None, d_last_http_status := None, d_last_error := None\<rparr>]\<rparr>))"

definition Repository_CreateDelivery :: "delivery \<Rightarrow> 'r world \<Rightarrow> (error + unit) \<times> 'r world" where
  "Repository_CreateDelivery d w = (case call (pg_insert_delivery d) w of
       (Inl err, w') \<Rightarrow> (Inl (Wrap ''insert webhook delivery'' err), w')
     | (Inr _, w') \<Rightarrow> (Inr (), w'))"

definition scan_null_error :: error where
  "scan_null_error = Text ''sql: Scan error on column last_error: converting NULL to string is unsupported''"

fun scanDeliveries :: "delivery list \<Rightarrow> error + delivery list" where
  "scanDeliveries [] = Inr []"
| "scanDeliveries (d # ds) = (if d_last_error d = None then Inl (Wrap ''scan delivery'' scan_null_error)
     else (case scanDeliveries ds of Inl err \<Rightarrow> Inl err | Inr rest \<Rightarrow> Inr (d # rest)))"

definition open_delivery :: "delivery \<Rightarrow> bool" where
  "open_delivery d = (d_status d = Pending \<or> d_status d = Failed)"

definition due :: "instant \<Rightarrow> endpoint list \<Rightarrow> delivery \<Rightarrow> bool" where
  "due now es d = (open_delivery d \<and> d_next_retry_at d \<le> now
     \<and> list_ex (\<lambda>e. e_id e = d_endpoint_id d \<and> live_endpoint e \<and> e_enabled e) es)"

definition pg_pending :: "instant \<Rightarrow> nat \<Rightarrow> 'r world \<Rightarrow> (error + delivery list) \<times> 'r world" where
  "pg_pending now limit w = (Inr (take limit (sort_key d_next_retry_at
     (filter (due now (w_endpoints w)) (w_deliveries w)))), w)"

definition Repository_GetPendingDeliveries :: "nat \<Rightarrow> 'r world \<Rightarrow> (error + delivery list) \<times> 'r world" where
  "Repository_GetPendingDeliveries limit w = (case time_now w of (now, w1) \<Rightarrow>
     (case call (pg_pending now limit) w1 of
        (Inl err, w2) \<Rightarrow> (Inl (Wrap ''query pending deliveries'' err), w2)
      | (Inr rows, w2) \<Rightarrow> (scanDeliveries rows, w2)))"

definition pg_update_deliveries :: "(delivery \<Rightarrow> bool) \<Rightarrow> (delivery \<Rightarrow> delivery) \<Rightarrow> 'r world
    \<Rightarrow> (error + nat) \<times> 'r world" where
  "pg_update_deliveries p f w = (Inr (fst (update_where p f (w_deliveries w))),
     w\<lparr>w_deliveries := snd (update_where p f (w_deliveries w))\<rparr>)"

definition succeed_row :: "instant \<Rightarrow> int \<Rightarrow> delivery \<Rightarrow> delivery" where
  "succeed_row now httpStatus d = d\<lparr>d_status := Success, d_attempt_count := d_attempt_count d + 1,
     d_last_attempt_at := Some now, d_last_http_status := Some httpStatus, d_last_error := None,
     d_updated_at := now\<rparr>"

definition Repository_UpdateDeliverySuccess :: "string \<Rightarrow> int \<Rightarrow> 'r world \<Rightarrow> (error + unit) \<times> 'r world" where
  "Repository_UpdateDeliverySuccess i httpStatus w = (case time_now w of (now, w1) \<Rightarrow>
     (case call (pg_update_deliveries (\<lambda>d. d_id d = i) (succeed_row now httpStatus)) w1 of
        (Inl err, w2) \<Rightarrow> (Inl (Wrap ''update delivery success'' err), w2)
      | (Inr _, w2) \<Rightarrow> (Inr (), w2)))"

definition fail_row :: "instant \<Rightarrow> int option \<Rightarrow> string \<Rightarrow> instant \<Rightarrow> bool \<Rightarrow> delivery \<Rightarrow> delivery" where
  "fail_row now httpStatus errMsg nextRetryAt exhausted d =
     d\<lparr>d_status := (if exhausted then Exhausted else Failed), d_attempt_count := d_attempt_count d + 1,
       d_last_attempt_at := Some now, d_last_http_status := httpStatus, d_last_error := Some errMsg,
       d_next_retry_at := nextRetryAt, d_updated_at := now\<rparr>"

definition Repository_UpdateDeliveryFailure :: "string \<Rightarrow> int option \<Rightarrow> string \<Rightarrow> instant \<Rightarrow> bool
    \<Rightarrow> 'r world \<Rightarrow> (error + unit) \<times> 'r world" where
  "Repository_UpdateDeliveryFailure i httpStatus errMsg nextRetryAt exhausted w =
     (let msg = (if 500 < length errMsg then take 500 errMsg else errMsg) in
      case time_now w of (now, w1) \<Rightarrow>
        (case call (pg_update_deliveries (\<lambda>d. d_id d = i)
                (fail_row now httpStatus msg nextRetryAt exhausted)) w1 of
           (Inl err, w2) \<Rightarrow> (Inl (Wrap ''update delivery failure'' err), w2)
         | (Inr _, w2) \<Rightarrow> (Inr (), w2)))"

definition pg_delivery_by_id :: "string \<Rightarrow> 'r world \<Rightarrow> (error + delivery option) \<times> 'r world" where
  "pg_delivery_by_id i w = (case find (\<lambda>d. d_id d = i) (w_deliveries w) of
       None \<Rightarrow> (Inr None, w)
     | Some d \<Rightarrow> (if d_last_error d = None then (Inl scan_null_error, w) else (Inr (Some d), w)))"

definition Repository_GetDeliveryWithEndpoint :: "string \<Rightarrow> 'r world
    \<Rightarrow> (error + delivery \<times> endpoint) \<times> 'r world" where
  "Repository_GetDeliveryWithEndpoint i w = (case call (pg_delivery_by_id i) w of
       (Inr None, w1) \<Rightarrow> (Inl (Sentinel Webhook_ErrDeliveryNotFound), w1)
     | (Inl err, w1) \<Rightarrow> (Inl (Wrap ''query delivery'' err), w1)
     | (Inr (Some d), w1) \<Rightarrow> (case Repository_GetEndpoint (d_endpoint_id d) w1 of
           (Inl err, w2) \<Rightarrow> (Inl err, w2)
         | (Inr e, w2) \<Rightarrow> (Inr (d, e), w2)))"

definition in_listing :: "string \<Rightarrow> string list \<Rightarrow> delivery \<Rightarrow> bool" where
  "in_listing endpointID statuses d = (d_endpoint_id d = endpointID
     \<and> (statuses \<noteq> [] \<longrightarrow> status_text (d_status d) \<in> set statuses))"

definition pg_count_deliveries :: "(delivery \<Rightarrow> bool) \<Rightarrow> 'r world \<Rightarrow> (error + int) \<times> 'r world" where
  "pg_count_deliveries p w = (Inr (int (length (filter p (w_deliveries w)))), w)"

definition pg_list_deliveries :: "(delivery \<Rightarrow> bool) \<Rightarrow> int \<Rightarrow> int \<Rightarrow> 'r world
    \<Rightarrow> (error + delivery list) \<times> 'r world" where
  "pg_list_deliveries p limit offset w =
     (if limit < 0 then (Inl (Text ''ERROR: LIMIT must not be negative (SQLSTATE 2201W)''), w)
      else if offset < 0 then (Inl (Text ''ERROR: OFFSET must not be negative (SQLSTATE 2201X)''), w)
      else (Inr (take (nat limit) (drop (nat offset)
             (rev (sort_key d_created_at (filter p (w_deliveries w)))))), w))"

definition Repository_ListDeliveriesByEndpoint :: "string \<Rightarrow> string list \<Rightarrow> int \<Rightarrow> int \<Rightarrow> 'r world
    \<Rightarrow> (error + delivery list \<times> int) \<times> 'r world" where
  "Repository_ListDeliveriesByEndpoint endpointID statuses limit offset w =
     (case call (pg_count_deliveries (in_listing endpointID statuses)) w of
        (Inl err, w1) \<Rightarrow> (Inl (Wrap ''count deliveries'' err), w1)
      | (Inr cnt, w1) \<Rightarrow>
          (case call (pg_list_deliveries (in_listing endpointID statuses) limit offset) w1 of
             (Inl err, w2) \<Rightarrow> (Inl (Wrap ''query deliveries'' err), w2)
           | (Inr rows, w2) \<Rightarrow> (case scanDeliveries rows of
                Inl err \<Rightarrow> (Inl err, w2)
              | Inr ds \<Rightarrow> (Inr (ds, cnt), w2))))"

definition reset_row :: "instant \<Rightarrow> delivery \<Rightarrow> delivery" where
  "reset_row now d = d\<lparr>d_status := Pending, d_next_retry_at := now, d_updated_at := now\<rparr>"

definition Repository_ResetDeliveryForRetry :: "string \<Rightarrow> 'r world \<Rightarrow> (error + unit) \<times> 'r world" where
  "Repository_ResetDeliveryForRetry i w = (case time_now w of (now, w1) \<Rightarrow>
     (case call (pg_update_deliveries (\<lambda>d. d_id d = i \<and> d_status d = Exhausted) (reset_row now)) w1 of
        (Inl err, w2) \<Rightarrow> (Inl (Wrap ''reset delivery'' err), w2)
      | (Inr n, w2) \<Rightarrow>
          (if n = 0 then (Inl (Sentinel Webhook_ErrDeliveryNotFound), w2) else (Inr (), w2))))"

definition Repository_GetQueueDepth :: "'r world \<Rightarrow> (error + int) \<times> 'r world" where
  "Repository_GetQueueDepth w = (case call (pg_count_deliveries open_delivery) w of
       (Inl err, w') \<Rightarrow> (Inl (Wrap ''count queue depth'' err), w')
     | (Inr n, w') \<Rightarrow> (Inr n, w'))"

end
