(* ===== verification/Webhook_Worker.thy ===== *)
theory Webhook_Worker imports Webhook_Repo Webhook_Rules begin

text \<open>
  \<open>internal/webhook/publisher.go\<close> and \<open>worker.go\<close>: a click event fans out to one delivery per
  subscribed endpoint; the worker polls the due deliveries and attempts each once. The JSON encoder
  \<open>J\<close>, the HMAC \<open>H\<close>, \<open>url.Parse\<close> \<open>P\<close> and the HTTP client \<open>X\<close> (a request and the time give a
  status or an error) are parameters. The theory \<open>Webhook_Lifecycle\<close> holds what is proved.
\<close>

section \<open>Publisher\<close>

definition extractReferrerDomain :: "string \<Rightarrow> string" where
  "extractReferrerDomain ref = (if ref = [] then [] else ref)"

definition webhook_generateULID :: "'r world \<Rightarrow> string \<times> 'r world" where
  "webhook_generateULID w = (case time_now w of (timestamp, w') \<Rightarrow> (hex016 timestamp, w'))"

definition click_payload :: "click_event \<Rightarrow> webhook_payload" where
  "click_payload click = \<lparr>wp_event_type = EventTypeClick, wp_event_id = ce_id click,
     wp_timestamp = ce_clicked_at click, wp_short_code = ce_short_code click,
     wp_link_id = ce_link_id click, wp_referrer = extractReferrerDomain (ce_referrer click),
     wp_country_code = ce_country_code click\<rparr>"

definition new_delivery :: "string \<Rightarrow> endpoint \<Rightarrow> click_event \<Rightarrow> string \<Rightarrow> instant \<Rightarrow> delivery" where
  "new_delivery i e click payloadJSON now = \<lparr>d_id = i, d_endpoint_id = e_id e, d_event_id = ce_id click,
     d_event_type = EventTypeClick, d_payload_json = payloadJSON, d_status = Pending,
     d_attempt_count = 0, d_max_attempts = DefaultMaxAttempts, d_next_retry_at = now,
     d_last_attempt_at = None, d_last_http_status = None, d_last_error = None,
     d_created_at = now, d_updated_at = now\<rparr>"

text \<open>The loop goes on when a delivery cannot be created.\<close>

fun fan_out :: "endpoint list \<Rightarrow> click_event \<Rightarrow> string \<Rightarrow> instant \<Rightarrow> 'r world \<Rightarrow> 'r world" where
  "fan_out [] click payloadJSON now w = w"
| "fan_out (e # es) click payloadJSON now w = (case webhook_generateULID w of (i, w1) \<Rightarrow>
     fan_out es click payloadJSON now
       (snd (Repository_CreateDelivery (new_delivery i e click payloadJSON now) w1)))"

definition PublishClickEvent :: "(webhook_payload \<Rightarrow> string) \<Rightarrow> string \<Rightarrow> click_event \<Rightarrow> 'r world
    \<Rightarrow> (error + unit) \<times> 'r world" where
  "PublishClickEvent J userID click w =
     (case Repository_ListActiveEndpointsByUserAndEvent userID EventTypeClick w of
        (Inl err, w1) \<Rightarrow> (Inl (Wrap ''list active endpoints'' err), w1)
      | (Inr endpoints, w1) \<Rightarrow>
          (if endpoints = [] then (Inr (), w1)
           else let payloadJSON = J (click_payload click) in
             (case time_now w1 of (now, w2) \<Rightarrow> (Inr (), fan_out endpoints click payloadJSON now w2))))"

section \<open>Worker\<close>

record http_request =
  rq_url :: string
  rq_body :: string
  rq_headers :: "(string \<times> string) list"

type_synonym http_client = "http_request \<Rightarrow> instant \<Rightarrow> string + int"

record http_headers =
  hh_signature :: string
  hh_timestamp :: string
  hh_delivery_id :: string

definition SetWebhookHeaders :: "http_request \<Rightarrow> http_headers \<Rightarrow> http_request" where
  "SetWebhookHeaders req headers = req\<lparr>rq_headers := rq_headers req @
     [(''Content-Type'', ''application/json''), (''X-Penshort-Signature'', hh_signature headers),
      (''X-Penshort-Timestamp'', hh_timestamp headers),
      (''X-Penshort-Delivery-Id'', hh_delivery_id headers), (''User-Agent'', ''Penshort-Webhook/1.0'')]\<rparr>"

definition build_request :: "hmac \<Rightarrow> delivery \<Rightarrow> endpoint \<Rightarrow> int \<Rightarrow> http_request" where
  "build_request H d e timestamp =
     (let signature = GenerateSignature H (e_secret_hash e) (word_of_int timestamp) (d_payload_json d);
          req = \<lparr>rq_url = e_target_url e, rq_body = d_payload_json d, rq_headers = []\<rparr>
      in SetWebhookHeaders req \<lparr>hh_signature = signature, hh_timestamp = format_int timestamp,
           hh_delivery_id = d_id d\<rparr>)"

definition handleDeliveryError :: "delivery \<Rightarrow> int option \<Rightarrow> string \<Rightarrow> 'r world \<Rightarrow> (error + unit) \<times> 'r world" where
  "handleDeliveryError d httpStatus errMsg w =
     (let nextAttempt = d_attempt_count d + 1;
          exhausted = IsExhausted nextAttempt (d_max_attempts d);
          status = (if exhausted then ''exhausted'' else ''failed'');
          w1 = record_metric (IncWebhookRetry (d_endpoint_id d) nextAttempt)
                 (record_metric (IncWebhookDelivery status (d_endpoint_id d)) w)
      in case NextRetryAt nextAttempt w1 of (nextRetryAt, w2) \<Rightarrow>
           Repository_UpdateDeliveryFailure (d_id d) httpStatus errMsg nextRetryAt exhausted w2)"

definition give_up :: "delivery \<Rightarrow> string \<Rightarrow> 'r world \<Rightarrow> (error + unit) \<times> 'r world" where
  "give_up d msg w = (case time_now w of (now, w1) \<Rightarrow>
     Repository_UpdateDeliveryFailure (d_id d) None msg now True w1)"

definition send_delivery :: "hmac \<Rightarrow> url_parser \<Rightarrow> http_client \<Rightarrow> delivery \<Rightarrow> endpoint \<Rightarrow> 'r world
    \<Rightarrow> (error + unit) \<times> 'r world" where
  "send_delivery H P X d e w = (case time_now w of (t, w1) \<Rightarrow>
     let timestamp = to_unix t
     in if P (e_target_url e) = None
        then (Inl (Wrap ''create request'' (Text ''net/url: invalid'')), w1)
        else let req = build_request H d e timestamp
             in (case time_now w1 of (start, w2) \<Rightarrow>
                let resp = X req start in
                (case time_now w2 of (stop, w3) \<Rightarrow>
                let w4 = record_metric (ObserveWebhookDeliveryDuration (e_id e) (stop - start)) w3 in
                (case resp of
                   Inl msg \<Rightarrow> handleDeliveryError d None msg w4
                 | Inr status \<Rightarrow>
                     (if 200 \<le> status \<and> status < 300
                      then Repository_UpdateDeliverySuccess (d_id d) status
                             (record_metric (IncWebhookDelivery ''success'' (e_id e)) w4)
                      else handleDeliveryError d (Some status) (''HTTP '' @ format_int status) w4)))))"

definition deliver :: "hmac \<Rightarrow> url_parser \<Rightarrow> http_client \<Rightarrow> delivery \<Rightarrow> 'r world
    \<Rightarrow> (error + unit) \<times> 'r world" where
  "deliver H P X d w = (case Repository_GetEndpoint (d_endpoint_id d) w of
       (Inl err, w1) \<Rightarrow>
         (if errors_is err Webhook_ErrEndpointNotFound then give_up d ''endpoint deleted'' w1
          else (Inl err, w1))
     | (Inr e, w1) \<Rightarrow>
         (if \<not> Endpoint_IsActive e then give_up d ''endpoint disabled'' w1
          else send_delivery H P X d e w1))"

record worker =
  wk_batch_size :: nat
  wk_poll_interval :: duration
  wk_metrics_interval :: duration
  wk_last_metrics :: instant
  wk_started :: bool

definition NewWorker :: worker where
  "NewWorker = \<lparr>wk_batch_size = 50, wk_poll_interval = 5 * second, wk_metrics_interval = 10 * second,
     wk_last_metrics = zero_time, wk_started = False\<rparr>"

definition maybeUpdateQueueDepth :: "worker \<Rightarrow> 'r world \<Rightarrow> worker \<times> 'r world" where
  "maybeUpdateQueueDepth k w = (case time_now w of (now, w1) \<Rightarrow>
     if now - wk_last_metrics k < wk_metrics_interval k then (k, w1)
     else (case time_now w1 of (now2, w2) \<Rightarrow>
       (case Repository_GetQueueDepth w2 of
          (Inl err, w3) \<Rightarrow> (k\<lparr>wk_last_metrics := now2\<rparr>, w3)
        | (Inr depth, w3) \<Rightarrow>
            (k\<lparr>wk_last_metrics := now2\<rparr>, record_metric (SetWebhookQueueDepth depth) w3))))"

text \<open>A failed delivery is logged and the next one attempted.\<close>

fun deliver_all :: "hmac \<Rightarrow> url_parser \<Rightarrow> http_client \<Rightarrow> delivery list \<Rightarrow> 'r world \<Rightarrow> 'r world" where
  "deliver_all H P X [] w = w"
| "deliver_all H P X (d # ds) w = deliver_all H P X ds (snd (deliver H P X d w))"

definition processOnce :: "hmac \<Rightarrow> url_parser \<Rightarrow> http_client \<Rightarrow> worker \<Rightarrow> 'r world
    \<Rightarrow> (error + unit) \<times> worker \<times> 'r world" where
  "processOnce H P X k w = (case maybeUpdateQueueDepth k w of (k1, w1) \<Rightarrow>
     (case Repository_GetPendingDeliveries (wk_batch_size k1) w1 of
        (Inl err, w2) \<Rightarrow> (Inl (Wrap ''get pending deliveries'' err), k1, w2)
      | (Inr ds, w2) \<Rightarrow> (Inr (), k1, deliver_all H P X ds w2)))"

text \<open>
  The loop of \<open>Run\<close> over the events that its \<open>select\<close> sees, a tick or the end of the context;
  \<open>None\<close>: the loop is still running when the events end.
\<close>

datatype loop_event = Tick | Done

fun run_loop :: "hmac \<Rightarrow> url_parser \<Rightarrow> http_client \<Rightarrow> loop_event list \<Rightarrow> worker \<Rightarrow> 'r world
    \<Rightarrow> (error + unit) option \<times> worker \<times> 'r world" where
  "run_loop H P X [] k w = (None, k, w)"
| "run_loop H P X (Done # es) k w = (Some (Inl (Sentinel Ctx_Canceled)), k, w)"
| "run_loop H P X (Tick # es) k w = (case processOnce H P X k w of
     (Inl err, k1, w1) \<Rightarrow> (if errors_is err Ctx_Canceled then (Some (Inr ()), k1, w1)
        else run_loop H P X es k1 w1)
   | (Inr _, k1, w1) \<Rightarrow> run_loop H P X es k1 w1)"

definition Worker_Run :: "hmac \<Rightarrow> url_parser \<Rightarrow> http_client \<Rightarrow> loop_event list \<Rightarrow> worker \<Rightarrow> 'r world
    \<Rightarrow> (error + unit) option \<times> worker \<times> 'r world" where
  "Worker_Run H P X events k w =
     (if wk_started k then (Some (Inl (Text ''worker already started'')), k, w)
      else run_loop H P X events (k\<lparr>wk_started := True\<rparr>) w)"

definition SetBatchSize :: "int \<Rightarrow> worker \<Rightarrow> worker" where
  "SetBatchSize sz k = (if 0 < sz then k\<lparr>wk_batch_size := nat sz\<rparr> else k)"

definition SetPollInterval :: "duration \<Rightarrow> worker \<Rightarrow> worker" where
  "SetPollInterval interval k = (if 0 < interval then k\<lparr>wk_poll_interval := interval\<rparr> else k)"

end
