(* ===== verification/Webhook_Lifecycle.thy ===== *)
theory Webhook_Lifecycle imports Webhook_Worker begin

text \<open>
  The life of a webhook delivery as a step relation, and what the publisher and the worker promise in
  its terms: a pass of the worker attempts a delivery at most once, only when it is due and open, and
  every change of a row is a step; the attempts of a delivery are bounded; a publication only appends
  fresh deliveries; a sent request verifies at the receiver. And what the NULL of \<open>last_error\<close> does:
  one fresh delivery in the batch stops every delivery of the batch.
\<close>

section \<open>Steps of a delivery\<close>

inductive attempt_step :: "delivery \<Rightarrow> delivery \<Rightarrow> bool" where
  Succeed: "open_delivery d \<Longrightarrow> 200 \<le> status \<Longrightarrow> status < 300 \<Longrightarrow> attempt_step d (succeed_row now status d)"
| Fail: "open_delivery d \<Longrightarrow> d_attempt_count d + 1 < d_max_attempts d \<Longrightarrow> length msg \<le> 500
    \<Longrightarrow> attempt_step d (fail_row now status msg at False d)"
| Exhaust: "open_delivery d \<Longrightarrow> d_max_attempts d \<le> d_attempt_count d + 1 \<Longrightarrow> length msg \<le> 500
    \<Longrightarrow> attempt_step d (fail_row now status msg at True d)"
| Abandon: "open_delivery d \<Longrightarrow> msg \<in> {''endpoint deleted'', ''endpoint disabled''}
    \<Longrightarrow> attempt_step d (fail_row now None msg at True d)"

inductive_cases attempt_stepE: "attempt_step d d'"

inductive_simps attempt_step_terminal: "attempt_step d (fail_row now status msg at True d)"

lemma rows_keep [simp]:
  "d_id (succeed_row now st d) = d_id d" "d_id (fail_row now st' msg at ex d) = d_id d"
  "d_attempt_count (succeed_row now st d) = d_attempt_count d + 1"
  "d_attempt_count (fail_row now st' msg at ex d) = d_attempt_count d + 1"
  "d_max_attempts (succeed_row now st d) = d_max_attempts d"
  "d_max_attempts (fail_row now st' msg at ex d) = d_max_attempts d"
  "d_status (succeed_row now st d) = Success"
  "d_status (fail_row now st' msg at ex d) = (if ex then Exhausted else Failed)"
  by (simp_all add: succeed_row_def fail_row_def)

lemma attempt_step_facts:
  assumes "attempt_step d d'"
  shows "open_delivery d" and "d_id d' = d_id d" and "d_attempt_count d' = d_attempt_count d + 1"
    and "d_max_attempts d' = d_max_attempts d"
    and "open_delivery d' \<Longrightarrow> d_attempt_count d' < d_max_attempts d'"
  using assms by (auto elim!: attempt_stepE simp: open_delivery_def)

text \<open>What is left to attempt: nothing in a terminal state, at least one attempt in an open one.\<close>

definition attempts_left :: "delivery \<Rightarrow> nat" where
  "attempts_left d = (if open_delivery d then max 1 (nat (d_max_attempts d - d_attempt_count d)) else 0)"

lemma attempt_step_uses_one: "attempt_step d d' \<Longrightarrow> attempts_left d' < attempts_left d"
  using attempt_step_facts [of d d'] by (auto simp: attempts_left_def)


definition sample_endpoint :: endpoint where
  "sample_endpoint = \<lparr>e_id = ''ep1'', e_user_id = ''u1'', e_target_url = ''https://a.io/hook'',
     e_secret_hash = ''key'', e_enabled = True, e_event_types = [EventTypeClick], e_name = [],
     e_description = [], e_created_at = 0, e_updated_at = 0, e_deleted_at = None\<rparr>"

definition sample_click :: click_event where
  "sample_click = \<lparr>ce_id = ''c1'', ce_event_id = ''1-1'', ce_short_code = ''abd'', ce_link_id = ''a2'',
     ce_owner_id = ''u1'', ce_referrer = [], ce_user_agent = [], ce_visitor_hash = ''h'',
     ce_country_code = [], ce_clicked_at = 0, ce_created_at = 0\<rparr>"

definition sample_delivery :: delivery where
  "sample_delivery = new_delivery ''d1'' sample_endpoint sample_click ''{}'' 0"


section \<open>A pass of the worker\<close>

lemma call_update_deliveries:
  "w_deliveries (snd (call (pg_update_deliveries p f) w)) = w_deliveries w
   \<or> w_deliveries (snd (call (pg_update_deliveries p f) w)) = map (\<lambda>d. if p d then f d else d) (w_deliveries w)"
proof -
  obtain x u where x: "next_outcome w = (x, u)" by fastforce
  then have "w_deliveries u = w_deliveries w"
    using next_outcome_frame [of w] by simp
  with x show ?thesis
    by (cases x) (simp_all add: call_def pg_update_deliveries_def update_where_def)
qed

lemma UpdateDeliverySuccess_effect:
  "\<exists>now. w_deliveries (snd (Repository_UpdateDeliverySuccess i st w)) = w_deliveries w
     \<or> w_deliveries (snd (Repository_UpdateDeliverySuccess i st w))
       = map (\<lambda>d. if d_id d = i then succeed_row now st d else d) (w_deliveries w)"
proof -
  obtain now w1 where t: "time_now w = (now, w1)" by fastforce
  then have w1: "w_deliveries w1 = w_deliveries w"
    using time_now_frame [of w] by simp
  have "snd (Repository_UpdateDeliverySuccess i st w)
      = snd (call (pg_update_deliveries (\<lambda>d. d_id d = i) (succeed_row now st)) w1)"
    by (simp add: Repository_UpdateDeliverySuccess_def t split: prod.split sum.split)
  with call_update_deliveries [of "\<lambda>d. d_id d = i" "succeed_row now st" w1] w1 show ?thesis
    by auto
qed

lemma UpdateDeliveryFailure_effect:
  "\<exists>now msg'. length msg' \<le> 500 \<and> (length msg \<le> 500 \<longrightarrow> msg' = msg)
     \<and> (w_deliveries (snd (Repository_UpdateDeliveryFailure i st msg at ex w)) = w_deliveries w
       \<or> w_deliveries (snd (Repository_UpdateDeliveryFailure i st msg at ex w))
         = map (\<lambda>d. if d_id d = i then fail_row now st msg' at ex d else d) (w_deliveries w))"
proof -
  obtain now w1 where t: "time_now w = (now, w1)" by fastforce
  then have w1: "w_deliveries w1 = w_deliveries w"
    using time_now_frame [of w] by simp
  let ?msg = "if 500 < length msg then take 500 msg else msg"
  have "snd (Repository_UpdateDeliveryFailure i st msg at ex w)
      = snd (call (pg_update_deliveries (\<lambda>d. d_id d = i) (fail_row now st ?msg at ex)) w1)"
    by (simp add: Repository_UpdateDeliveryFailure_def t Let_def split: prod.split sum.split)
  with call_update_deliveries [of "\<lambda>d. d_id d = i" "fail_row now st ?msg at ex" w1] w1 show ?thesis
    by (intro exI [of _ now] exI [of _ ?msg]) auto
qed

text \<open>\<open>one_step i w w'\<close>: the rows of \<open>w'\<close> are those of \<open>w\<close>, with at most a step of the row \<open>i\<close>.\<close>

definition one_step :: "delivery \<Rightarrow> delivery list \<Rightarrow> delivery list \<Rightarrow> bool" where
  "one_step d ds ds' = (\<exists>g. ds' = map (\<lambda>x. if d_id x = d_id d then g x else x) ds
     \<and> (g d = d \<or> attempt_step d (g d)) \<and> (\<forall>x. d_id (g x) = d_id x))"

lemma one_step_same: "one_step d ds ds"
  unfolding one_step_def by (intro exI [of _ "\<lambda>x. x"]) simp

lemma one_step_row:
  assumes "w' = ds \<or> w' = map (\<lambda>x. if d_id x = d_id d then g x else x) ds"
    and "attempt_step d (g d)" and "\<forall>x. d_id (g x) = d_id x"
  shows "one_step d ds w'"
  using assms one_step_same unfolding one_step_def by blast

lemma GetEndpoint_frame: "w_deliveries (snd (Repository_GetEndpoint i w)) = w_deliveries w"
proof -
  have "snd (Repository_GetEndpoint i w) = snd (call (pg_endpoint_by_id i) w)"
    by (simp add: Repository_GetEndpoint_def split: prod.split sum.split option.split)
  moreover have "w_deliveries (snd (call (pg_endpoint_by_id i) w)) = w_deliveries w"
    by (rule call_keeps [where P = "\<lambda>u. w_deliveries u = w_deliveries w"])
      (simp_all add: pg_endpoint_by_id_def)
  ultimately show ?thesis by simp
qed

lemma NextRetryAt_frame: "NextRetryAt n w = (t, w') \<Longrightarrow> w_deliveries w' = w_deliveries w"
proof -
  obtain t1 w1 where 1: "time_now w = (t1, w1)" by fastforce
  obtain r w2 where 2: "next_rand w1 = (r, w2)" by fastforce
  have "w_deliveries w2 = w_deliveries w"
    using time_now_frame [of w] next_rand_frame [of w1] by (simp add: 1 2)
  then show "NextRetryAt n w = (t, w') \<Longrightarrow> w_deliveries w' = w_deliveries w"
    by (auto simp: NextRetryAt_def NextRetryDelay_def random_unit_def Let_def 1 2 split: option.splits)
qed

lemma give_up_step:
  assumes "open_delivery d" and "msg \<in> {''endpoint deleted'', ''endpoint disabled''}"
  shows "one_step d (w_deliveries w) (w_deliveries (snd (give_up d msg w)))"
proof -
  obtain t w1 where t: "time_now w = (t, w1)" by fastforce
  then have w1: "w_deliveries w1 = w_deliveries w"
    using time_now_frame [of w] by simp
  have "length msg \<le> 500" using assms(2) by auto
  with UpdateDeliveryFailure_effect [of msg "d_id d" None t True w1] obtain now where
    "w_deliveries (snd (give_up d msg w)) = w_deliveries w
     \<or> w_deliveries (snd (give_up d msg w))
       = map (\<lambda>x. if d_id x = d_id d then fail_row now None msg t True x else x) (w_deliveries w)"
    by (auto simp: give_up_def t w1)
  then show ?thesis
    by (rule one_step_row) (rule Abandon [OF assms], simp)
qed

lemma handleDeliveryError_step:
  assumes "open_delivery d"
  shows "one_step d (w_deliveries w) (w_deliveries (snd (handleDeliveryError d st msg w)))"
proof -
  let ?ex = "IsExhausted (d_attempt_count d + 1) (d_max_attempts d)"
  let ?w1 = "record_metric (IncWebhookRetry (d_endpoint_id d) (d_attempt_count d + 1))
      (record_metric (IncWebhookDelivery (if ?ex then ''exhausted'' else ''failed'') (d_endpoint_id d)) w)"
  obtain at w2 where at: "NextRetryAt (d_attempt_count d + 1) ?w1 = (at, w2)" by fastforce
  then have w2: "w_deliveries w2 = w_deliveries w"
    using NextRetryAt_frame [OF at] by simp
  have run: "handleDeliveryError d st msg w = Repository_UpdateDeliveryFailure (d_id d) st msg at ?ex w2"
    using at by (simp add: handleDeliveryError_def Let_def)
  from UpdateDeliveryFailure_effect [of msg "d_id d" st at ?ex w2] obtain now m where "length m \<le> 500"
    and eff: "w_deliveries (snd (handleDeliveryError d st msg w)) = w_deliveries w
      \<or> w_deliveries (snd (handleDeliveryError d st msg w))
        = map (\<lambda>x. if d_id x = d_id d then fail_row now st m at ?ex x else x) (w_deliveries w)"
    unfolding run w2 by blast
  have "attempt_step d (fail_row now st m at ?ex d)"
    using assms \<open>length m \<le> 500\<close> by (cases ?ex) (auto simp: IsExhausted_def intro: Fail Exhaust)
  with eff show ?thesis
    by (rule one_step_row) simp
qed

lemma send_delivery_step:
  assumes "open_delivery d"
  shows "one_step d (w_deliveries w) (w_deliveries (snd (send_delivery H P X d e w)))"
proof -
  obtain t w1 where 1: "time_now w = (t, w1)" by fastforce
  obtain start w2 where 2: "time_now w1 = (start, w2)" by fastforce
  obtain stop w3 where 3: "time_now w2 = (stop, w3)" by fastforce
  let ?w4 = "record_metric (ObserveWebhookDeliveryDuration (e_id e) (stop - start)) w3"
  have w: "w_deliveries w1 = w_deliveries w" "w_deliveries ?w4 = w_deliveries w"
    using 1 2 3 time_now_frame [of w] time_now_frame [of w1] time_now_frame [of w2] by simp_all
  note err = handleDeliveryError_step [OF assms, of ?w4, unfolded w(2)]
  have ok: "one_step d (w_deliveries w)
      (w_deliveries (snd (Repository_UpdateDeliverySuccess (d_id d) st (record_metric m ?w4))))"
    if "200 \<le> st" "st < 300" for st m
  proof -
    from UpdateDeliverySuccess_effect [of "d_id d" st "record_metric m ?w4"] obtain now where
      "w_deliveries (snd (Repository_UpdateDeliverySuccess (d_id d) st (record_metric m ?w4))) = w_deliveries w
       \<or> w_deliveries (snd (Repository_UpdateDeliverySuccess (d_id d) st (record_metric m ?w4)))
        = map (\<lambda>x. if d_id x = d_id d then succeed_row now st x else x) (w_deliveries w)"
      using w(2) by auto
    then show ?thesis
      by (rule one_step_row) (use that assms in \<open>auto intro: Succeed\<close>)
  qed
  show ?thesis
    using err ok w(1) one_step_same
    by (auto simp: send_delivery_def 1 2 3 Let_def split: sum.split)
qed

lemma deliver_step:
  assumes "open_delivery d"
  shows "one_step d (w_deliveries w) (w_deliveries (snd (deliver H P X d w)))"
proof -
  obtain r w1 where r: "Repository_GetEndpoint (d_endpoint_id d) w = (r, w1)" by fastforce
  then have w1: "w_deliveries w1 = w_deliveries w"
    using GetEndpoint_frame [of "d_endpoint_id d" w] by simp
  show ?thesis
    using give_up_step [OF assms, of _ w1] send_delivery_step [OF assms, of w1 H P X] w1 one_step_same
    by (auto simp: deliver_def r split: sum.split)
qed

text \<open>Over a batch of distinct rows each row makes at most one step.\<close>

definition pass_rel :: "delivery list \<Rightarrow> delivery \<Rightarrow> delivery \<Rightarrow> bool" where
  "pass_rel batch a b = (d_id b = d_id a \<and> (b = a \<or> a \<in> set batch \<and> attempt_step a b))"

lemma deliver_all_pass:
  assumes "distinct (map d_id (w_deliveries w))" and "set batch \<subseteq> set (w_deliveries w)"
    and "distinct (map d_id batch)" and "\<forall>d \<in> set batch. open_delivery d"
  shows "list_all2 (pass_rel batch) (w_deliveries w) (w_deliveries (deliver_all H P X batch w))"
  using assms
proof (induction batch arbitrary: w)
  case Nil
  then show ?case by (simp add: pass_rel_def list_all2_same)
next
  case (Cons d batch)
  let ?w1 = "snd (deliver H P X d w)"
  from Cons.prems(4) have "open_delivery d" by simp
  from deliver_step [OF this, of w H P X] obtain g where g: "w_deliveries ?w1 = map (\<lambda>x. if d_id x = d_id d then g x else x) (w_deliveries w)"
    and gd: "g d = d \<or> attempt_step d (g d)" and gid: "\<And>x. d_id (g x) = d_id x"
    unfolding one_step_def by blast
  let ?h = "\<lambda>x. if d_id x = d_id d then g x else x"
  have ids: "map d_id (w_deliveries ?w1) = map d_id (w_deliveries w)"
    unfolding g by (simp add: gid)
  have "set batch \<subseteq> set (w_deliveries ?w1)"
  proof
    fix x assume x: "x \<in> set batch"
    with Cons.prems(2) have "x \<in> set (w_deliveries w)" by auto
    moreover have "d_id x \<noteq> d_id d"
      using x Cons.prems(3) by (metis distinct.simps(2) image_eqI list.set_map list.simps(9))
    ultimately
    show "x \<in> set (w_deliveries ?w1)" unfolding g by force
  qed
  moreover have "distinct (map d_id (w_deliveries ?w1))"
    using Cons.prems(1) by (simp only: ids)
  moreover have "distinct (map d_id batch)" and "\<forall>d \<in> set batch. open_delivery d"
    using Cons.prems(3,4) by simp_all
  ultimately have "list_all2 (pass_rel batch) (w_deliveries ?w1) (w_deliveries (deliver_all H P X batch ?w1))"
    by (intro Cons.IH)
  then have rest: "list_all2 (pass_rel batch) (map ?h (w_deliveries w))
      (w_deliveries (deliver_all H P X batch ?w1))"
    by (simp only: g)
  have "pass_rel (d # batch) a c" if a: "a \<in> set (w_deliveries w)" and c: "pass_rel batch (?h a) c" for a c
  proof (cases "d_id a = d_id d")
    case True
    with a Cons.prems(1,2) have "a = d"
      by (auto simp: distinct_map inj_on_def)
    moreover have "g d \<notin> set batch"
      using Cons.prems(3) gid by (metis distinct.simps(2) image_eqI list.set_map list.simps(9))
    ultimately show ?thesis
      using c gd gid by (auto simp: pass_rel_def)
  next
    case False
    with c show ?thesis by (auto simp: pass_rel_def)
  qed
  with rest show ?case
    by (auto simp: list_all2_map1 list.rel_mono_strong)
qed

lemma scanDeliveries_Inr: "scanDeliveries ds = Inr ds' \<Longrightarrow> ds' = ds \<and> (\<forall>d \<in> set ds. d_last_error d \<noteq> None)"
  by (induction ds arbitrary: ds') (auto split: if_splits sum.splits)

lemma scanDeliveries_null: "d \<in> set ds \<Longrightarrow> d_last_error d = None \<Longrightarrow> \<exists>e. scanDeliveries ds = Inl e \<and> \<not> errors_is e Ctx_Canceled"
  by (induction ds) (auto simp: scan_null_error_def split: sum.split)

lemma call_read:
  assumes "call f w = (r, w')" and "\<And>u. snd (f u) = u"
  shows "w_deliveries w' = w_deliveries w" "w_endpoints w' = w_endpoints w" "clock w' = clock w"
    "r = Inr x \<Longrightarrow> \<exists>u. fst (f u) = Inr x \<and> w_deliveries u = w_deliveries w \<and> w_endpoints u = w_endpoints w"
proof -
  obtain y u where y: "next_outcome w = (y, u)" by fastforce
  then have u: "w_deliveries u = w_deliveries w" "w_endpoints u = w_endpoints w" "clock u = clock w"
    using next_outcome_frame [of w] next_outcome_clock [of w] by simp_all
  moreover have "snd (f u) = u" by (rule assms(2))
  ultimately show "w_deliveries w' = w_deliveries w" "w_endpoints w' = w_endpoints w" "clock w' = clock w"
    "r = Inr x \<Longrightarrow> \<exists>u. fst (f u) = Inr x \<and> w_deliveries u = w_deliveries w \<and> w_endpoints u = w_endpoints w"
    using assms(1) y by (cases y; force simp: call_def)+
qed

lemma maybeUpdateQueueDepth_frame:
  assumes "maybeUpdateQueueDepth k w = (k', w')"
  shows "w_deliveries w' = w_deliveries w" "w_endpoints w' = w_endpoints w" "clock w \<le> clock w'"
    "wk_batch_size k' = wk_batch_size k" "outcomes w = [] \<Longrightarrow> outcomes w' = []"
proof -
  obtain t1 w1 where 1: "time_now w = (t1, w1)" by fastforce
  obtain t2 w2 where 2: "time_now w1 = (t2, w2)" by fastforce
  obtain r w3 where 3: "call (pg_count_deliveries open_delivery) w2 = (r, w3)" by fastforce
  note c = call_read [OF 3, unfolded pg_count_deliveries_def, simplified]
  have f: "w_deliveries w1 = w_deliveries w" "w_endpoints w1 = w_endpoints w" "clock w \<le> clock w1"
    "w_deliveries w3 = w_deliveries w" "w_endpoints w3 = w_endpoints w" "clock w \<le> clock w3"
    "outcomes w = [] \<Longrightarrow> outcomes w1 = []" "outcomes w = [] \<Longrightarrow> outcomes w3 = []"
    using time_now_frame [of w] time_now_frame [of w1] time_now_mono [OF 1] time_now_mono [OF 2] c 3
    by (auto simp: 1 2 pg_count_deliveries_def)
  from assms f show "w_deliveries w' = w_deliveries w" "w_endpoints w' = w_endpoints w" "clock w \<le> clock w'"
    "wk_batch_size k' = wk_batch_size k" "outcomes w = [] \<Longrightarrow> outcomes w' = []"
    by (auto simp: maybeUpdateQueueDepth_def Repository_GetQueueDepth_def 1 2 3 split: if_splits sum.splits)
qed

lemma GetPendingDeliveries_Inr:
  assumes "Repository_GetPendingDeliveries n w = (r, w')"
  shows "w_deliveries w' = w_deliveries w"
    and "r = Inr ds \<Longrightarrow> \<exists>now \<ge> clock w. ds = take n (sort_key d_next_retry_at
      (filter (due now (w_endpoints w)) (w_deliveries w)))"
proof -
  obtain now w1 where 1: "time_now w = (now, w1)" by fastforce
  then have f: "w_deliveries w1 = w_deliveries w" "w_endpoints w1 = w_endpoints w" "clock w \<le> now"
    using time_now_frame [of w] time_now_mono [OF 1] by simp_all
  obtain x w2 where 2: "call (pg_pending now n) w1 = (x, w2)" by fastforce
  note c = call_read [OF 2, unfolded pg_pending_def, simplified]
  have run: "(r, w') = (case x of Inl err \<Rightarrow> (Inl (Wrap ''query pending deliveries'' err), w2)
      | Inr rows \<Rightarrow> (scanDeliveries rows, w2))"
    using assms by (simp add: Repository_GetPendingDeliveries_def 1 2)
  then show "w_deliveries w' = w_deliveries w"
    using c(1) f(1) by (auto split: sum.splits)
  show "\<exists>now \<ge> clock w. ds = take n (sort_key d_next_retry_at
      (filter (due now (w_endpoints w)) (w_deliveries w)))" if r: "r = Inr ds"
  proof -
    obtain rows where "x = Inr rows" and "scanDeliveries rows = Inr ds"
      using run unfolding r by (auto split: sum.splits)
    with scanDeliveries_Inr have "x = Inr ds" by blast
    with c(4) f show ?thesis by fastforce
  qed
qed

text \<open>C9: A pass of the worker changes a delivery only by one step of its life cycle, and only a delivery
  that was due: open, its retry time reached, its endpoint live and enabled. Terminal deliveries and
  deliveries of disabled or deleted endpoints are left alone, no delivery is attempted twice in a
  pass, none appears or disappears, whatever the calls answer and the receivers respond.\<close>

theorem worker_pass_follows_lifecycle:
  assumes "distinct (map d_id (w_deliveries w))"
    and "processOnce H P X k w = (r, k', w')"
  shows "list_all2 (\<lambda>a b. d_id b = d_id a \<and> (b = a \<or> attempt_step a b
      \<and> (\<exists>now \<ge> clock w. due now (w_endpoints w) a))) (w_deliveries w) (w_deliveries w')"
proof -
  obtain k1 w1 where 1: "maybeUpdateQueueDepth k w = (k1, w1)" by fastforce
  note f1 = maybeUpdateQueueDepth_frame [OF 1]
  obtain x w2 where 2: "Repository_GetPendingDeliveries (wk_batch_size k1) w1 = (x, w2)" by fastforce
  note f2 = GetPendingDeliveries_Inr [OF 2]
  show ?thesis
  proof (cases x)
    case (Inl e)
    then have "w_deliveries w' = w_deliveries w"
      using assms(2) 1 2 f1 f2(1) by (simp add: processOnce_def)
    then show ?thesis by (simp add: list_all2_same)
  next
    case (Inr ds)
    with f2(2) obtain now where now: "clock w1 \<le> now" and ds: "ds = take (wk_batch_size k1)
        (sort_key d_next_retry_at (filter (due now (w_endpoints w1)) (w_deliveries w1)))" by blast
    have w': "w' = deliver_all H P X ds w2"
      using assms(2) 1 2 Inr by (simp add: processOnce_def)
    have due: "\<forall>d \<in> set ds. due now (w_endpoints w) d \<and> d \<in> set (w_deliveries w)"
      using f1 by (auto simp: ds dest!: in_set_takeD)
    have "distinct (map d_id (sort_key d_next_retry_at (filter (due now (w_endpoints w1)) (w_deliveries w1))))"
      using assms(1) f1(1) by (auto simp: distinct_map inj_on_def)
    then have "distinct (map d_id ds)"
      unfolding ds take_map [symmetric] by (rule distinct_take)
    then have "list_all2 (pass_rel ds) (w_deliveries w) (w_deliveries w')"
      using deliver_all_pass [of w2 ds H P X] assms(1) due f1(1) f2(1) w'
      by (auto simp: due_def)
    moreover have "clock w \<le> now"
      using now f1(3) by simp
    ultimately show ?thesis
      using due by (elim list_all2_mono) (auto simp: pass_rel_def)
  qed
qed

definition sample_client :: http_client where "sample_client = (\<lambda>_ _. Inr 503)"

definition webhook_world :: "ref_store world" where
  "webhook_world = (empty_world (100 * second) (\<lambda>_. None))
     \<lparr>w_endpoints := [sample_endpoint], w_deliveries := [sample_delivery\<lparr>d_last_error := Some []\<rparr>]\<rparr>"

theorem worker_pass_follows_lifecycle_witness:
  "d_id (w_deliveries (snd (snd (processOnce (\<lambda>k m. k @ m) (\<lambda>_. None) sample_client NewWorker webhook_world))) ! 0)
   = ''d1''"
proof -
  obtain r k' w' where run: "processOnce (\<lambda>k m. k @ m) (\<lambda>_. None) sample_client NewWorker webhook_world
      = (r, k', w')" by (metis prod.exhaust)
  have "list_all2 (\<lambda>a b. d_id b = d_id a \<and> (b = a \<or> attempt_step a b
      \<and> (\<exists>now \<ge> clock webhook_world. due now (w_endpoints webhook_world) a)))
      (w_deliveries webhook_world) (w_deliveries w')"
    by (rule worker_pass_follows_lifecycle [OF _ run]) (simp add: webhook_world_def)
  then have "d_id (w_deliveries w' ! 0) = ''d1''"
    by (auto simp: webhook_world_def list_all2_Cons1 sample_delivery_def new_delivery_def)
  then show ?thesis by (simp only: run snd_conv)
qed

section \<open>Fresh deliveries and NULL\<close>

text \<open>Time only makes more deliveries due.\<close>

lemma due_mono: "due now es d \<Longrightarrow> now \<le> now' \<Longrightarrow> due now' es d"
  by (simp add: due_def)

lemma processOnce_null:
  assumes "d \<in> set (w_deliveries w)" and "d_last_error d = None" and "due (clock w) (w_endpoints w) d"
    and "length (w_deliveries w) \<le> wk_batch_size k" and "outcomes w = []"
    and "processOnce H P X k w = (r, k', w')"
  shows "(\<exists>e. r = Inl e \<and> \<not> errors_is e Ctx_Canceled) \<and> w_deliveries w' = w_deliveries w
    \<and> w_endpoints w' = w_endpoints w \<and> clock w \<le> clock w' \<and> wk_batch_size k' = wk_batch_size k
    \<and> outcomes w' = []"
proof -
  obtain k1 w1 where 1: "maybeUpdateQueueDepth k w = (k1, w1)" by fastforce
  note f1 = maybeUpdateQueueDepth_frame [OF 1]
  obtain now w2 where 2: "time_now w1 = (now, w2)" by fastforce
  have f2: "w_deliveries w2 = w_deliveries w" "w_endpoints w2 = w_endpoints w" "clock w \<le> now"
    "clock w2 = now" "outcomes w2 = []"
    using time_now_frame [of w1] time_now_mono [OF 2] f1 assms(5) by (simp_all add: 2)
  let ?rows = "sort_key d_next_retry_at (filter (due now (w_endpoints w)) (w_deliveries w))"
  have "length ?rows \<le> wk_batch_size k1"
    using assms(4) f1(4) le_trans [OF length_filter_le] by simp
  moreover have "d \<in> set ?rows"
    using assms(1,3) due_mono f2(3) by auto
  ultimately have "d \<in> set (take (wk_batch_size k1) ?rows)" by simp
  with scanDeliveries_null assms(2) obtain e where
    "scanDeliveries (take (wk_batch_size k1) ?rows) = Inl e" "\<not> errors_is e Ctx_Canceled" by blast
  then show ?thesis
    using assms(6) f1 f2
    by (auto simp: processOnce_def 1 2 Repository_GetPendingDeliveries_def pg_pending_def)
qed

text \<open>C11: One due delivery whose last_error is NULL, as every freshly published one has it, stops the
  worker: while the deliveries fit a batch, every pass fails to scan them and no delivery is ever
  attempted, over any number of polls, with all calls answered and every receiver reachable.\<close>

theorem null_last_error_stops_worker:
  assumes "d \<in> set (w_deliveries w)" and "d_last_error d = None" and "due (clock w) (w_endpoints w) d"
    and "length (w_deliveries w) \<le> wk_batch_size k" and "outcomes w = []"
  shows "w_deliveries (snd (snd (run_loop H P X events k w))) = w_deliveries w"
  using assms
proof (induction events arbitrary: k w)
  case (Cons ev events)
  show ?case
  proof (cases ev)
    case Tick
    obtain r k1 w1 where run: "processOnce H P X k w = (r, k1, w1)" by (metis prod.exhaust)
    note n = processOnce_null [OF Cons.prems run]
    then have "due (clock w1) (w_endpoints w1) d"
      using Cons.prems(3) due_mono by auto
    with n Cons.IH [of w1 k1] Cons.prems have "w_deliveries (snd (snd (run_loop H P X events k1 w1)))
        = w_deliveries w" by simp
    with n run Tick show ?thesis by auto
  qed simp
qed simp

theorem null_last_error_stops_worker_witness:
  "w_deliveries (snd (snd (run_loop (\<lambda>k m. k @ m) (\<lambda>_. None) sample_client [Tick, Tick, Tick] NewWorker
     (webhook_world\<lparr>w_deliveries := [sample_delivery]\<rparr>)))) = [sample_delivery]"
  using null_last_error_stops_worker [of sample_delivery "webhook_world\<lparr>w_deliveries := [sample_delivery]\<rparr>"
      NewWorker "\<lambda>k m. k @ m" "\<lambda>_. None" sample_client "[Tick, Tick, Tick]"]
  by (simp add: webhook_world_def sample_delivery_def new_delivery_def due_def open_delivery_def
      NewWorker_def sample_endpoint_def live_endpoint_def second_def empty_world_def
      del: run_loop.simps)

section \<open>Publication\<close>

definition fresh_for :: "click_event \<Rightarrow> string \<Rightarrow> endpoint list \<Rightarrow> delivery \<Rightarrow> bool" where
  "fresh_for click payloadJSON es d = (d_event_id d = ce_id click \<and> d_payload_json d = payloadJSON
     \<and> d_status d = Pending \<and> d_attempt_count d = 0 \<and> d_max_attempts d = 5 \<and> d_last_error d = None
     \<and> d_endpoint_id d \<in> e_id ` set es)"

definition deliveries_ok :: "delivery list \<Rightarrow> bool" where
  "deliveries_ok ds = (distinct (map d_id ds) \<and> distinct (map (\<lambda>d. (d_event_id d, d_endpoint_id d)) ds))"

lemma pg_insert_delivery_cases:
  obtains (skip) "w_deliveries (snd (pg_insert_delivery d w)) = w_deliveries w"
  | (insert) "w_deliveries (snd (pg_insert_delivery d w)) = w_deliveries w
      @ [d\<lparr>d_last_attempt_at := None, d_last_http_status := None, d_last_error := None\<rparr>]"
    and "\<forall>r \<in> set (w_deliveries w). d_id r \<noteq> d_id d
      \<and> (d_event_id r, d_endpoint_id r) \<noteq> (d_event_id d, d_endpoint_id d)"
  by (cases "w_deliveries (snd (pg_insert_delivery d w)) = w_deliveries w")
    (auto simp: pg_insert_delivery_def list_ex_iff split: if_splits)

lemma CreateDelivery_cases:
  obtains (skip) "w_deliveries (snd (Repository_CreateDelivery d w)) = w_deliveries w"
  | (insert) "w_deliveries (snd (Repository_CreateDelivery d w)) = w_deliveries w
      @ [d\<lparr>d_last_attempt_at := None, d_last_http_status := None, d_last_error := None\<rparr>]"
    and "\<forall>r \<in> set (w_deliveries w). d_id r \<noteq> d_id d
      \<and> (d_event_id r, d_endpoint_id r) \<noteq> (d_event_id d, d_endpoint_id d)"
proof -
  obtain x u where x: "next_outcome w = (x, u)" by fastforce
  then have u: "w_deliveries u = w_deliveries w"
    using next_outcome_frame [of w] by simp
  have run: "snd (Repository_CreateDelivery d w) = snd (call (pg_insert_delivery d) w)"
    by (simp add: Repository_CreateDelivery_def split: prod.split sum.split)
  have eff: "w_deliveries (snd (call (pg_insert_delivery d) w)) = w_deliveries w
      \<or> w_deliveries (snd (call (pg_insert_delivery d) w)) = w_deliveries (snd (pg_insert_delivery d u))"
    using x u by (cases x) (simp_all add: call_def)
  note unchanged = skip and appended = insert
  show thesis
  proof (cases rule: pg_insert_delivery_cases [of d u])
    case skip
    with eff u run show thesis by (intro unchanged) auto
  next
    case insert
    from eff show thesis
    proof
      assume "w_deliveries (snd (call (pg_insert_delivery d) w)) = w_deliveries w"
      then show thesis by (intro unchanged) (simp add: run)
    next
      assume "w_deliveries (snd (call (pg_insert_delivery d) w)) = w_deliveries (snd (pg_insert_delivery d u))"
      with insert u show thesis by (intro appended) (simp_all add: run)
    qed
  qed
qed

lemma deliveries_ok_snoc:
  "deliveries_ok ds \<Longrightarrow> \<forall>r \<in> set ds. d_id r \<noteq> d_id d
      \<and> (d_event_id r, d_endpoint_id r) \<noteq> (d_event_id d, d_endpoint_id d) \<Longrightarrow> deliveries_ok (ds @ [d])"
  by (auto simp: deliveries_ok_def)

lemma fan_out_appends:
  "\<exists>new. w_deliveries (fan_out es click p now w) = w_deliveries w @ new
     \<and> (\<forall>d \<in> set new. fresh_for click p es d)
     \<and> (deliveries_ok (w_deliveries w) \<longrightarrow> deliveries_ok (w_deliveries (fan_out es click p now w)))"
proof (induction es arbitrary: w)
  case (Cons e es)
  obtain i w1 where i: "webhook_generateULID w = (i, w1)" by fastforce
  obtain t u where t: "time_now w = (t, u)" by fastforce
  then have w1: "w_deliveries w1 = w_deliveries w"
    using time_now_frame [of w] i by (simp add: webhook_generateULID_def)
  let ?d = "new_delivery i e click p now"
  let ?w2 = "snd (Repository_CreateDelivery ?d w1)"
  obtain n2 where 2: "w_deliveries ?w2 = w_deliveries w @ n2" and "\<forall>d \<in> set n2. fresh_for click p (e # es) d"
    and ok: "deliveries_ok (w_deliveries w) \<Longrightarrow> deliveries_ok (w_deliveries ?w2)"
  proof (cases rule: CreateDelivery_cases [of ?d w1])
    case skip
    with w1 that [of "[]"] show thesis by simp
  next
    case insert
    have "?d\<lparr>d_last_attempt_at := None, d_last_http_status := None, d_last_error := None\<rparr> = ?d"
      by (simp add: new_delivery_def)
    with insert w1 that [of "[?d]"] deliveries_ok_snoc [of "w_deliveries w" ?d] show thesis
      by (simp add: fresh_for_def) (simp add: new_delivery_def DefaultMaxAttempts_def)
  qed
  moreover obtain n3 where "w_deliveries (fan_out es click p now ?w2) = w_deliveries ?w2 @ n3"
    and "\<forall>d \<in> set n3. fresh_for click p es d"
    and "deliveries_ok (w_deliveries ?w2) \<Longrightarrow> deliveries_ok (w_deliveries (fan_out es click p now ?w2))"
    using Cons.IH [of ?w2] by blast
  ultimately show ?case
    by (intro exI [of _ "n2 @ n3"]) (auto simp: i fresh_for_def)
qed simp

lemma ListActive_Inr:
  assumes "Repository_ListActiveEndpointsByUserAndEvent u et w = (r, w')"
  shows "w_deliveries w' = w_deliveries w" "w_endpoints w' = w_endpoints w" "clock w' = clock w"
    "r = Inr es \<Longrightarrow> es = sort_key e_created_at (filter (wants u et) (w_endpoints w))"
proof -
  obtain x w1 where 1: "call (pg_active_endpoints u et) w = (x, w1)" by fastforce
  note c = call_read [OF 1, unfolded pg_active_endpoints_def, simplified]
  have run: "(r, w') = (case x of Inl err \<Rightarrow> (Inl (Wrap ''query active webhooks'' err), w1) | Inr es \<Rightarrow> (Inr es, w1))"
    using assms by (simp add: Repository_ListActiveEndpointsByUserAndEvent_def 1)
  with c(1-3) show "w_deliveries w' = w_deliveries w" "w_endpoints w' = w_endpoints w" "clock w' = clock w"
    by (auto split: sum.splits)
  show "es = sort_key e_created_at (filter (wants u et) (w_endpoints w))" if r: "r = Inr es"
    using run c(4) unfolding r by (fastforce split: sum.splits)
qed

text \<open>C12: Publishing a click event only appends deliveries, each pending, unattempted and addressed to a live
  and enabled endpoint of that user subscribed to clicks; no endpoint gets a second delivery of the
  event and ids stay unique, whatever the calls answer and however often the event is published.\<close>

theorem publish_appends_fresh_deliveries:
  assumes "deliveries_ok (w_deliveries w)" and "PublishClickEvent J u click w = (r, w')"
  shows "deliveries_ok (w_deliveries w') \<and> (\<exists>new. w_deliveries w' = w_deliveries w @ new
    \<and> (\<forall>d \<in> set new. fresh_for click (J (click_payload click)) (filter (wants u EventTypeClick) (w_endpoints w)) d))"
proof -
  obtain x w1 where 1: "Repository_ListActiveEndpointsByUserAndEvent u EventTypeClick w = (x, w1)" by fastforce
  note l = ListActive_Inr [OF 1]
  show ?thesis
  proof (cases "\<exists>es. x = Inr es \<and> es \<noteq> []")
    case False
    then have "w' = w1"
      using assms(2) 1 by (auto simp: PublishClickEvent_def split: sum.splits list.splits)
    with l(1) assms(1) show ?thesis by simp
  next
    case True
    then obtain es where es: "x = Inr es" "es \<noteq> []" by blast
    obtain now w2 where 2: "time_now w1 = (now, w2)" by fastforce
    then have w2: "w_deliveries w2 = w_deliveries w"
      using time_now_frame [of w1] l(1) by simp
    have "w' = fan_out es click (J (click_payload click)) now w2"
      using assms(2) es by (simp add: PublishClickEvent_def 1 2)
    moreover have "set es = set (filter (wants u EventTypeClick) (w_endpoints w))"
      using l(4) [OF es(1)] by simp
    ultimately show ?thesis
      using fan_out_appends [of es click "J (click_payload click)" now w2] w2 assms(1)
      by (auto simp: fresh_for_def)
  qed
qed

theorem publish_appends_fresh_deliveries_witness:
  "let w' = snd (PublishClickEvent wp_event_id ''u1'' sample_click webhook_world)
   in deliveries_ok (w_deliveries w') \<and> length (w_deliveries w') = 1"
proof -
  obtain r w' where run: "PublishClickEvent wp_event_id ''u1'' sample_click webhook_world = (r, w')"
    by fastforce
  have ok: "deliveries_ok (w_deliveries webhook_world)"
    by (simp add: webhook_world_def deliveries_ok_def)
  note p = publish_appends_fresh_deliveries [OF ok run]
  then obtain new where new: "w_deliveries w' = w_deliveries webhook_world @ new"
    "\<forall>d \<in> set new. d_event_id d = ce_id sample_click \<and> d_endpoint_id d = e_id sample_endpoint"
    by (auto simp: fresh_for_def webhook_world_def split: if_splits)
  have "(d_event_id sample_delivery, d_endpoint_id sample_delivery)
      = (ce_id sample_click, e_id sample_endpoint)"
    by (simp add: sample_delivery_def new_delivery_def)
  then have "new = []"
    using p new by (cases new) (auto simp: deliveries_ok_def webhook_world_def)
  with p new(1) run show ?thesis
    by (simp add: webhook_world_def)
qed

section \<open>Requests\<close>

text \<open>C16: The request of a delivery carries headers that a receiver holding the endpoint's stored
  secret accepts: the timestamp header parses back to the time of signing and the signature
  validates for the body sent, as long as the receiver reads it within the replay window.\<close>

theorem webhook_request_verifies:
  assumes "ticks w = []" and "int64_ok ts" and "\<bar>to_unix (clock w) - ts\<bar> * second \<le> replayWindow"
    and "\<bar>to_unix (clock w) - ts\<bar> < 2 ^ 63"
  shows "let req = build_request H d e ts in
    rq_url req = e_target_url e \<and> rq_body req = d_payload_json d
    \<and> map_of (rq_headers req) ''X-Penshort-Delivery-Id'' = Some (d_id d)
    \<and> map_option parse_int64 (map_of (rq_headers req) ''X-Penshort-Timestamp'') = Some (Some ts)
    \<and> map_option (\<lambda>sig. fst (ValidateSignature H (e_secret_hash e) sig (word_of_int ts) (rq_body req) replayWindow w))
        (map_of (rq_headers req) ''X-Penshort-Signature'') = Some None"
proof -
  have "0 \<le> replayWindow"
    using assms(3) by (smt (verit) mult_nonneg_nonneg second_pos)
  then have "fst (ValidateSignature H (e_secret_hash e)
      (GenerateSignature H (e_secret_hash e) (word_of_int ts) (d_payload_json d)) (word_of_int ts)
      (d_payload_json d) replayWindow w) = None"
    using validate_signature_exact_iff [of w replayWindow ts] assms by auto
  with assms(2) show ?thesis
    by (simp add: build_request_def SetWebhookHeaders_def Let_def parse_format_int)
qed

theorem webhook_request_verifies_witness:
  "let req = build_request (\<lambda>k m. k @ m) sample_delivery sample_endpoint 90 in
    map_option (\<lambda>sig. fst (ValidateSignature (\<lambda>k m. k @ m) (e_secret_hash sample_endpoint) sig 90
        (rq_body req) DefaultReplayWindow (empty_world (100 * second) ())))
      (map_of (rq_headers req) ''X-Penshort-Signature'') = Some None"
proof -
  let ?w = "empty_world (100 * second) ()"
  have "ticks ?w = []" and "int64_ok 90" and "\<bar>to_unix (clock ?w) - 90\<bar> * second \<le> DefaultReplayWindow"
    and "\<bar>to_unix (clock ?w) - 90\<bar> < 2 ^ 63"
    by (simp_all add: to_unix_def DefaultReplayWindow_def duration_defs int64_ok_def)
  from webhook_request_verifies [OF this, of "\<lambda>k m. k @ m" sample_delivery sample_endpoint]
  show ?thesis unfolding Let_def by (elim conjE) simp
qed

end
