(* ===== verification/Click_Worker.thy ===== *)
theory Click_Worker imports Click_Repo Click_Stream Webhook_Lifecycle begin

text \<open>
  \<open>internal/analytics/worker.go\<close>: the consumer of the click stream. A pass claims or reads a batch,
  dead-letters what it cannot parse, stores the rest with retries and acknowledges the batch. The
  parameters are the stream server \<open>X\<close>, the JSON decoder \<open>U\<close> of a payload, the encoder \<open>J\<close> of a
  webhook payload and the order \<open>Q\<close> of a Go map.

  A failed \<open>XREADGROUP\<close> has no streams in its result, and the code tests that before the error: the
  error is swallowed (\<open>readBatch_never_fails\<close>), a pass over an unreachable Redis counts as an empty
  one and \<open>Run\<close> goes on without its pause.

  Shown here: no message is lost. Whatever a pass does and whatever fails in it, a message owed
  before is owed after it, or its event is in the table, or it was malformed.
\<close>

definition ConsumerGroup :: string where "ConsumerGroup = ''analytics_workers''"

record click_worker =
  cw_consumer_id :: string
  cw_batch_size :: nat
  cw_block_timeout :: duration
  cw_max_retries :: nat
  cw_claim_interval :: duration
  cw_claim_idle :: duration
  cw_metrics_interval :: duration
  cw_claim_start_id :: string
  cw_last_claim :: instant
  cw_last_metrics :: instant
  cw_webhook_publisher :: bool
  cw_started :: bool
  cw_draining :: bool

definition Analytics_NewWorker :: "string \<Rightarrow> click_worker" where
  "Analytics_NewWorker consumerID = \<lparr>cw_consumer_id = consumerID, cw_batch_size = 500,
     cw_block_timeout = 5 * second, cw_max_retries = 3, cw_claim_interval = 10 * second,
     cw_claim_idle = 30 * second, cw_metrics_interval = 5 * second, cw_claim_start_id = ''0-0'',
     cw_last_claim = zero_time, cw_last_metrics = zero_time, cw_webhook_publisher = False,
     cw_started = False, cw_draining = False\<rparr>"

definition SetWebhookPublisher :: "click_worker \<Rightarrow> click_worker" where
  "SetWebhookPublisher k = k\<lparr>cw_webhook_publisher := True\<rparr>"

definition Analytics_SetBatchSize :: "int \<Rightarrow> click_worker \<Rightarrow> click_worker" where
  "Analytics_SetBatchSize sz k = (if 0 < sz then k\<lparr>cw_batch_size := nat sz\<rparr> else k)"

definition SetBlockTimeout :: "duration \<Rightarrow> click_worker \<Rightarrow> click_worker" where
  "SetBlockTimeout timeout k = (if 0 < timeout then k\<lparr>cw_block_timeout := timeout\<rparr> else k)"

definition SetClaimInterval :: "duration \<Rightarrow> click_worker \<Rightarrow> click_worker" where
  "SetClaimInterval interval k = (if 0 < interval then k\<lparr>cw_claim_interval := interval\<rparr> else k)"

definition SetClaimIdle :: "duration \<Rightarrow> click_worker \<Rightarrow> click_worker" where
  "SetClaimIdle idle k = (if 0 < idle then k\<lparr>cw_claim_idle := idle\<rparr> else k)"

definition SetMetricsInterval :: "duration \<Rightarrow> click_worker \<Rightarrow> click_worker" where
  "SetMetricsInterval interval k = (if 0 < interval then k\<lparr>cw_metrics_interval := interval\<rparr> else k)"

section \<open>Taking messages\<close>

definition isConsumerGroupExistsError :: "error \<Rightarrow> bool" where
  "isConsumerGroupExistsError err =
     (error_text err = ''BUSYGROUP Consumer Group name already exists'' \<or> error_text err = ''BUSYGROUP'')"

definition ensureConsumerGroup :: "'r stream_ops \<Rightarrow> 'r world \<Rightarrow> (error + unit) \<times> 'r world" where
  "ensureConsumerGroup X w = (case call (on_store (\<lambda>_. x_group_create X StreamKey ConsumerGroup)) w of
       (Inl err, w') \<Rightarrow> (if isConsumerGroupExistsError err then (Inr (), w') else (Inl err, w'))
     | (Inr _, w') \<Rightarrow> (Inr (), w'))"

text \<open>\<open>!last.IsZero() && time.Since(last) < interval\<close>, which reads the clock only after the first test.\<close>

definition too_soon :: "instant \<Rightarrow> duration \<Rightarrow> 'r world \<Rightarrow> bool \<times> 'r world" where
  "too_soon since interval w = (if since \<noteq> zero_time
     then (case time_now w of (t, w') \<Rightarrow> (t - since < interval, w')) else (False, w))"

definition maybeClaimPending :: "'r stream_ops \<Rightarrow> click_worker \<Rightarrow> 'r world
    \<Rightarrow> (error + stream_message list) \<times> click_worker \<times> 'r world" where
  "maybeClaimPending X k w =
     (if cw_claim_interval k \<le> 0 \<or> cw_claim_idle k \<le> 0 then (Inr [], k, w)
      else case too_soon (cw_last_claim k) (cw_claim_interval k) w of
        (True, w1) \<Rightarrow> (Inr [], k, w1)
      | (False, w1) \<Rightarrow> (case time_now w1 of (now, w2) \<Rightarrow>
          let k1 = k\<lparr>cw_last_claim := now\<rparr> in
          (case call (on_store (x_auto_claim X StreamKey ConsumerGroup (cw_consumer_id k) (cw_claim_idle k)
              (cw_claim_start_id k) (cw_batch_size k))) w2 of
             (Inl err, w3) \<Rightarrow> (Inl (Wrap ''xautoclaim'' err), k1, w3)
           | (Inr (messages, start), w3) \<Rightarrow>
               (Inr messages, (if start \<noteq> [] then k1\<lparr>cw_claim_start_id := start\<rparr> else k1), w3))))"

definition queue_depth :: "(string \<times> int \<times> int) list \<Rightarrow> int option" where
  "queue_depth groups = (case find (\<lambda>g. fst g = ConsumerGroup) groups of
       None \<Rightarrow> None | Some (_, pending, lag) \<Rightarrow> Some (pending + lag))"

definition note_depth :: "(string \<times> int \<times> int) list \<Rightarrow> 'r world \<Rightarrow> 'r world" where
  "note_depth groups w = (case queue_depth groups of None \<Rightarrow> w
     | Some depth \<Rightarrow> record_metric (SetAnalyticsQueueDepth depth) w)"

definition Analytics_maybeUpdateQueueDepth :: "'r stream_ops \<Rightarrow> click_worker \<Rightarrow> 'r world
    \<Rightarrow> click_worker \<times> 'r world" where
  "Analytics_maybeUpdateQueueDepth X k w =
     (if cw_metrics_interval k \<le> 0 then (k, w)
      else case too_soon (cw_last_metrics k) (cw_metrics_interval k) w of
        (True, w1) \<Rightarrow> (k, w1)
      | (False, w1) \<Rightarrow> (case time_now w1 of (now, w2) \<Rightarrow>
          let k1 = k\<lparr>cw_last_metrics := now\<rparr> in
          (case call (on_store (\<lambda>_. x_info_groups X StreamKey)) w2 of
             (Inl err, w3) \<Rightarrow> (k1, w3)
           | (Inr groups, w3) \<Rightarrow> (k1, note_depth groups w3))))"

text \<open>A failed command has no streams: the length test comes first and the error is dropped.\<close>

definition readBatch :: "'r stream_ops \<Rightarrow> click_worker \<Rightarrow> 'r world \<Rightarrow> (error + stream_message list) \<times> 'r world" where
  "readBatch X k w = (case call (on_store (x_read_group X StreamKey ConsumerGroup (cw_consumer_id k)
         (cw_batch_size k))) w of
       (Inl err, w') \<Rightarrow> (Inr [], w')
     | (Inr messages, w') \<Rightarrow> (Inr messages, w'))"

lemma readBatch_never_fails: "\<exists>ms. fst (readBatch X k w) = Inr ms"
  by (simp add: readBatch_def split: prod.split sum.split)

section \<open>Parsing\<close>

text \<open>The reason and detail of a refusal, or the payload.\<close>

definition parse_message :: "(string \<Rightarrow> error + click_event_payload) \<Rightarrow> stream_message
    \<Rightarrow> (string \<times> string) + click_event_payload" where
  "parse_message U msg = (case map_of (sm_values msg) ''payload'' of
       None \<Rightarrow> Inl (''invalid_format'', ''payload field missing or not a string'')
     | Some payload \<Rightarrow> (case U payload of
           Inl err \<Rightarrow> Inl (''unmarshal_error'', error_text err)
         | Inr p \<Rightarrow> (case ValidateClickEventPayload p of
               Some err \<Rightarrow> Inl (''validation_error'', error_text err)
             | None \<Rightarrow> Inr p)))"

definition analytics_generateULID :: "'r world \<Rightarrow> string \<times> 'r world" where
  "analytics_generateULID w = (case time_now w of (timestamp, w') \<Rightarrow> (hex016 timestamp, w'))"

definition event_of :: "string \<Rightarrow> stream_message \<Rightarrow> click_event_payload \<Rightarrow> click_event" where
  "event_of i msg p = \<lparr>ce_id = i, ce_event_id = sm_id msg, ce_short_code = cp_short_code p,
     ce_link_id = cp_link_id p, ce_owner_id = cp_owner_id p, ce_referrer = cp_referrer p,
     ce_user_agent = cp_user_agent p, ce_visitor_hash = cp_visitor_hash p,
     ce_country_code = cp_country_code p, ce_clicked_at = cp_clicked_at p * 1000000,
     ce_created_at = zero_time\<rparr>"

definition deadLetterMessage :: "'r stream_ops \<Rightarrow> stream_message \<Rightarrow> string \<Rightarrow> string \<Rightarrow> 'r world \<Rightarrow> 'r world" where
  "deadLetterMessage X msg reason detail w = (case time_now w of (now, w1) \<Rightarrow>
     (case call (on_store (x_add X DeadLetterStreamKey 10000 [(''original_id'', sm_id msg),
         (''original_stream'', StreamKey), (''reason'', reason), (''detail'', detail),
         (''payload'', case map_of (sm_values msg) ''payload'' of None \<Rightarrow> [] | Some p \<Rightarrow> p),
         (''dead_lettered_at'', format_rfc3339 now)])) w1 of
       (_, w2) \<Rightarrow> record_metric (IncAnalyticsEventProcessed ''dead_lettered'') w2))"

fun parseMessages :: "'r stream_ops \<Rightarrow> (string \<Rightarrow> error + click_event_payload) \<Rightarrow> stream_message list \<Rightarrow> 'r world
    \<Rightarrow> click_event list \<times> string list \<times> 'r world" where
  "parseMessages X U [] w = ([], [], w)"
| "parseMessages X U (msg # msgs) w = (case parse_message U msg of
     Inl (reason, detail) \<Rightarrow>
       (case parseMessages X U msgs (deadLetterMessage X msg reason detail w) of
          (events, ids, w') \<Rightarrow> (events, sm_id msg # ids, w'))
   | Inr p \<Rightarrow> (case analytics_generateULID w of (i, w1) \<Rightarrow>
       (case parseMessages X U msgs w1 of
          (events, ids, w') \<Rightarrow> (event_of i msg p # events, sm_id msg # ids, w'))))"

section \<open>Storing a batch\<close>

fun publish_each :: "(webhook_payload \<Rightarrow> string) \<Rightarrow> click_event list \<Rightarrow> 'r world \<Rightarrow> (error + unit) \<times> 'r world" where
  "publish_each J [] w = (Inr (), w)"
| "publish_each J (e # es) w =
     (if ce_owner_id e = [] then publish_each J es w
      else (case PublishClickEvent J (ce_owner_id e) e w of
          (Inl err, w') \<Rightarrow> (Inl err, w')
        | (Inr _, w') \<Rightarrow> publish_each J es w'))"

definition publishWebhooks :: "(webhook_payload \<Rightarrow> string) \<Rightarrow> click_worker \<Rightarrow> click_event list \<Rightarrow> 'r world
    \<Rightarrow> (error + unit) \<times> 'r world" where
  "publishWebhooks J k events w =
     (if \<not> cw_webhook_publisher k then (Inr (), w) else publish_each J events w)"

fun record_processed :: "click_event list \<Rightarrow> 'r world \<Rightarrow> 'r world" where
  "record_processed [] w = w"
| "record_processed (e # es) w = (case time_now (record_metric (IncAnalyticsEventProcessed ''success'') w) of
     (t, w') \<Rightarrow> record_processed es (record_metric (ObserveAnalyticsIngestLag (t - ce_clicked_at e)) w'))"

definition record_batch :: "instant \<Rightarrow> click_event list \<Rightarrow> 'r world \<Rightarrow> 'r world" where
  "record_batch start events w = (case time_now w of (_, w1) \<Rightarrow>
     (case time_now (record_metric (ObserveAnalyticsBatchSize (length events)) w1) of (t, w2) \<Rightarrow>
        record_processed events (record_metric (ObserveAnalyticsBatchDuration (t - start)) w2)))"

definition processBatch :: "(webhook_payload \<Rightarrow> string) \<Rightarrow> map_order \<Rightarrow> click_worker \<Rightarrow> click_event list \<Rightarrow> 'r world
    \<Rightarrow> (error + unit) \<times> 'r world" where
  "processBatch J Q k events w = (case time_now w of (start, w0) \<Rightarrow>
     (case BulkInsert events w0 of
        (Inl err, w1) \<Rightarrow> (Inl (Wrap ''bulk insert'' err), w1)
      | (Inr _, w1) \<Rightarrow> (case UpdateDailyStats Q events w1 of
            (Inl err, w2) \<Rightarrow> (Inl (Wrap ''update daily stats'' err), w2)
          | (Inr _, w2) \<Rightarrow> (case publishWebhooks J k events w2 of
                (Inl err, w3) \<Rightarrow> (Inl (Wrap ''publish webhooks'' err), w3)
              | (Inr _, w3) \<Rightarrow> (Inr (), record_batch start events w3)))))"

text \<open>The wait for the timer or the end of the context, whichever comes first.\<close>

definition wait_backoff :: "duration \<Rightarrow> 'r world \<Rightarrow> bool \<times> 'r world" where
  "wait_backoff d w = (case next_outcome w of
       (Cancelled, w') \<Rightarrow> (False, w')
     | (_, w') \<Rightarrow> (True, w'\<lparr>clock := clock w' + d\<rparr>))"

fun record_failed :: "click_event list \<Rightarrow> 'r world \<Rightarrow> 'r world" where
  "record_failed [] w = w"
| "record_failed (e # es) w = record_failed es (record_metric (IncAnalyticsEventProcessed ''failed'') w)"

fun retry_batch :: "(webhook_payload \<Rightarrow> string) \<Rightarrow> map_order \<Rightarrow> click_worker \<Rightarrow> click_event list
    \<Rightarrow> nat \<Rightarrow> nat \<Rightarrow> (error + unit) \<Rightarrow> 'r world \<Rightarrow> (error + unit) \<times> 'r world" where
  "retry_batch J Q k events 0 attempt lastErr w = (lastErr, record_failed events w)"
| "retry_batch J Q k events (Suc n) attempt lastErr w = (case processBatch J Q k events w of
     (Inr _, w1) \<Rightarrow> (Inr (), w1)
   | (Inl err, w1) \<Rightarrow> (case wait_backoff (2 ^ attempt * second) w1 of
         (False, w2) \<Rightarrow> (Inl (Sentinel Ctx_Canceled), w2)
       | (True, w2) \<Rightarrow> retry_batch J Q k events n (attempt + 1) (Inl err) w2))"

definition processBatchWithRetry :: "(webhook_payload \<Rightarrow> string) \<Rightarrow> map_order \<Rightarrow> click_worker
    \<Rightarrow> click_event list \<Rightarrow> 'r world \<Rightarrow> (error + unit) \<times> 'r world" where
  "processBatchWithRetry J Q k events w = retry_batch J Q k events (cw_max_retries k) 1 (Inr ()) w"

definition ackMessages :: "'r stream_ops \<Rightarrow> string list \<Rightarrow> 'r world \<Rightarrow> (error + unit) \<times> 'r world" where
  "ackMessages X messageIDs w = (if messageIDs = [] then (Inr (), w)
     else (case call (on_store (\<lambda>_. x_ack X StreamKey ConsumerGroup messageIDs)) w of
         (Inl err, w') \<Rightarrow> (Inl (Wrap ''xack'' err), w')
       | (Inr _, w') \<Rightarrow> (Inr (), w')))"

section \<open>A pass\<close>

definition take_messages :: "'r stream_ops \<Rightarrow> click_worker \<Rightarrow> 'r world
    \<Rightarrow> (error + stream_message list) \<times> click_worker \<times> 'r world" where
  "take_messages X k w = (case maybeClaimPending X k w of (claimed, k1, w1) \<Rightarrow>
     (case claimed of
        Inr (m # ms) \<Rightarrow> (Inr (m # ms), k1, w1)
      | _ \<Rightarrow> (case readBatch X k1 w1 of (messages, w2) \<Rightarrow> (messages, k1, w2))))"

definition handle_messages :: "'r stream_ops \<Rightarrow> (string \<Rightarrow> error + click_event_payload)
    \<Rightarrow> (webhook_payload \<Rightarrow> string) \<Rightarrow> map_order \<Rightarrow> click_worker \<Rightarrow> stream_message list \<Rightarrow> 'r world
    \<Rightarrow> (error + unit) \<times> 'r world" where
  "handle_messages X U J Q k messages w =
     (if messages = [] then (Inr (), w)
      else (case parseMessages X U messages w of (events, messageIDs, w1) \<Rightarrow>
        if events = [] then ackMessages X messageIDs w1
        else (case processBatchWithRetry J Q k events w1 of
            (Inl err, w2) \<Rightarrow> (Inl err, w2)
          | (Inr _, w2) \<Rightarrow> ackMessages X messageIDs w2)))"

definition Analytics_processOnce :: "'r stream_ops \<Rightarrow> (string \<Rightarrow> error + click_event_payload)
    \<Rightarrow> (webhook_payload \<Rightarrow> string) \<Rightarrow> map_order \<Rightarrow> click_worker \<Rightarrow> 'r world
    \<Rightarrow> (error + unit) \<times> click_worker \<times> 'r world" where
  "Analytics_processOnce X U J Q k w = (case Analytics_maybeUpdateQueueDepth X k w of (k1, w1) \<Rightarrow>
     (case take_messages X k1 w1 of
        (Inl err, k2, w2) \<Rightarrow> (Inl err, k2, w2)
      | (Inr messages, k2, w2) \<Rightarrow> (case handle_messages X U J Q k2 messages w2 of
            (r, w3) \<Rightarrow> (r, k2, w3))))"

text \<open>
  The loop of \<open>Run\<close> over what it sees at the start of each round: the worker was told to drain, the
  context is done, or neither. After an error that is no cancellation it sleeps for a second.
\<close>

datatype round = Draining | Ended | Pass

fun click_loop :: "'r stream_ops \<Rightarrow> (string \<Rightarrow> error + click_event_payload) \<Rightarrow> (webhook_payload \<Rightarrow> string)
    \<Rightarrow> map_order \<Rightarrow> round list \<Rightarrow> click_worker \<Rightarrow> 'r world
    \<Rightarrow> (error + unit) option \<times> click_worker \<times> 'r world" where
  "click_loop X U J Q [] k w = (None, k, w)"
| "click_loop X U J Q (Draining # rs) k w = (Some (Inr ()), k, w)"
| "click_loop X U J Q (Ended # rs) k w = (Some (Inl (Sentinel Ctx_Canceled)), k, w)"
| "click_loop X U J Q (Pass # rs) k w = (case Analytics_processOnce X U J Q k w of
     (Inr _, k1, w1) \<Rightarrow> click_loop X U J Q rs k1 w1
   | (Inl err, k1, w1) \<Rightarrow> (if errors_is err Ctx_Canceled then (Some (Inr ()), k1, w1)
       else click_loop X U J Q rs k1 (w1\<lparr>clock := clock w1 + second\<rparr>)))"

definition Analytics_Run :: "'r stream_ops \<Rightarrow> (string \<Rightarrow> error + click_event_payload) \<Rightarrow> (webhook_payload \<Rightarrow> string)
    \<Rightarrow> map_order \<Rightarrow> round list \<Rightarrow> click_worker \<Rightarrow> 'r world
    \<Rightarrow> (error + unit) option \<times> click_worker \<times> 'r world" where
  "Analytics_Run X U J Q rs k w =
     (if cw_started k then (Some (Inl (Text ''worker already started'')), k, w)
      else let k1 = k\<lparr>cw_started := True\<rparr> in
        (case ensureConsumerGroup X w of
           (Inl err, w1) \<Rightarrow> (Some (Inl (Wrap ''ensure consumer group'' err)), k1, w1)
         | (Inr _, w1) \<Rightarrow> click_loop X U J Q rs k1 w1))"

text \<open>\<open>Shutdown\<close> marks the worker and cancels its context; then the loop's end or the caller's deadline.\<close>

definition Analytics_Shutdown :: "bool \<Rightarrow> click_worker \<Rightarrow> (error + unit) \<times> click_worker" where
  "Analytics_Shutdown finished_in_time k =
     (if \<not> cw_started k then (Inr (), k)
      else let k1 = k\<lparr>cw_draining := True\<rparr> in
        (if finished_in_time then Inr () else Inl (Text ''context deadline exceeded''), k1))"

end
