(* ===== verification/Click_Delivery.thy ===== *)
theory Click_Delivery imports Click_Worker begin

text \<open>
  At-least-once processing of clicks: what a pass of the analytics worker does to the messages that
  the stream owes the consumer group and to the table of events.
\<close>

section \<open>What storing a batch changes\<close>

definition event_ids :: "'r world \<Rightarrow> string set" where
  "event_ids w = ce_event_id ` set (w_click_events w)"

text \<open>The stream is left alone and no event disappears.\<close>

definition grows :: "'r world \<Rightarrow> 'r world \<Rightarrow> bool" where
  "grows w w' = (w_redis w' = w_redis w \<and> event_ids w \<subseteq> event_ids w')"

lemma grows_refl [simp]: "grows w w"
  by (simp add: grows_def)

lemma grows_trans: "grows u v \<Longrightarrow> grows v w \<Longrightarrow> grows u w"
  by (auto simp: grows_def)

lemma grows_same: "w_redis w' = w_redis w \<Longrightarrow> w_click_events w' = w_click_events w \<Longrightarrow> grows w w'"
  by (simp add: grows_def event_ids_def)

lemma grows_time [simp]: "grows w (snd (time_now w))"
  by (simp add: grows_same)

lemma grows_now: "time_now w = (t, w') \<Longrightarrow> grows w w'"
  using grows_time [of w] by (simp del: grows_time)

lemma grows_metric [simp]: "grows w (record_metric f w)"
  by (simp add: grows_same)

lemma grows_call:
  assumes "\<And>u. w_redis (snd (f u)) = w_redis u" and "\<And>u. w_click_events (snd (f u)) = w_click_events u"
  shows "grows w (snd (call f w))"
  by (intro grows_same call_same) (simp_all add: assms)

lemma grows_BulkInsert:
  assumes "BulkInsert es w = (r, w')"
  shows "grows w w'" and "r = Inr () \<Longrightarrow> ce_event_id ` set es \<subseteq> event_ids w'"
proof -
  have "w_redis (snd (pg_send_batch es u)) = w_redis u" for u :: "'a world"
    by (simp add: pg_send_batch_def split: sum.split)
  then have "w_redis (snd (call (pg_send_batch es) w)) = w_redis w"
    by (intro call_same) simp_all
  then have "w_redis w' = w_redis w"
    using assms by (auto simp: BulkInsert_def split: if_splits prod.splits sum.splits option.splits)
  then show "grows w w'"
    using BulkInsert_effect(1) [OF assms] by (auto simp: grows_def event_ids_def)
  show "r = Inr () \<Longrightarrow> ce_event_id ` set es \<subseteq> event_ids w'"
    using BulkInsert_effect(3) [OF assms] by (auto simp: event_ids_def)
qed

lemma grows_update_stat: "grows w (snd (update_stat k w))"
proof -
  obtain l d where k: "k = (l, d)" by (cases k)
  have r: "grows w (snd (recalculateDailyStat l d w))"
  proof -
    have "grows w (snd (call (pg_events_of_day l (day_start d)) w))"
      by (rule grows_call) (simp_all add: pg_events_of_day_def)
    then show ?thesis
      by (auto simp: recalculateDailyStat_def Let_def split: prod.split sum.split)
  qed
  have u: "grows v (snd (upsertDailyStat acc v))" for acc and v :: "'a world"
    unfolding upsertDailyStat_def by (rule grows_call) (simp_all add: pg_upsert_stats_def Let_def)
  obtain x w1 where 1: "recalculateDailyStat l d w = (x, w1)" by fastforce
  with r have g: "grows w w1" by simp
  show ?thesis
  proof (cases x)
    case (Inr acc)
    obtain y w2 where 2: "upsertDailyStat acc w1 = (y, w2)" by fastforce
    with u [of w1 acc] g have "grows w w2" by (auto intro: grows_trans)
    with 1 2 Inr show ?thesis by (cases y) (simp_all add: update_stat_def k)
  qed (use 1 g in \<open>simp add: update_stat_def k\<close>)
qed

lemma grows_UpdateDailyStats: "grows w (snd (UpdateDailyStats Q es w))"
proof -
  have "grows w (snd (update_stats ks w))" for ks
  proof (induction ks arbitrary: w)
    case (Cons k ks)
    then show ?case
      using grows_update_stat [of w k] grows_trans by (fastforce split: prod.split sum.split)
  qed simp
  then show ?thesis by (simp add: UpdateDailyStats_def)
qed

lemma grows_publish: "grows w (snd (PublishClickEvent J u e w))"
proof -
  have c: "grows v (snd (Repository_CreateDelivery d v))" for d and v :: "'a world"
  proof -
    have "grows v (snd (call (pg_insert_delivery d) v))"
      by (rule grows_call) (simp_all add: pg_insert_delivery_def)
    then show ?thesis
      by (auto simp: Repository_CreateDelivery_def split: prod.split sum.split)
  qed
  have f: "grows v (fan_out es e p now v)" for es p now and v :: "'a world"
  proof (induction es arbitrary: v)
    case (Cons a es)
    obtain i v1 where i: "webhook_generateULID v = (i, v1)" by fastforce
    then have "grows v v1"
      by (auto simp: webhook_generateULID_def split: prod.splits dest: grows_now)
    then have "grows v (snd (Repository_CreateDelivery (new_delivery i a e p now) v1))"
      using c by (rule grows_trans)
    with Cons show ?case
      by (auto simp: i intro: grows_trans)
  qed simp
  have l: "grows w (snd (Repository_ListActiveEndpointsByUserAndEvent u EventTypeClick w))"
  proof -
    have "grows w (snd (call (pg_active_endpoints u EventTypeClick) w))"
      by (rule grows_call) (simp_all add: pg_active_endpoints_def)
    then show ?thesis
      by (auto simp: Repository_ListActiveEndpointsByUserAndEvent_def split: prod.split sum.split)
  qed
  note t = grows_now
  obtain x w1 where 1: "Repository_ListActiveEndpointsByUserAndEvent u EventTypeClick w = (x, w1)" by fastforce
  obtain now w2 where 2: "time_now w1 = (now, w2)" by fastforce
  from l have g1: "grows w w1" by (simp add: 1)
  then have "grows w w2" using t [OF 2] by (rule grows_trans)
  then have "grows w (fan_out es e p now w2)" for es p using f by (rule grows_trans)
  with g1 show ?thesis
    by (cases x) (simp_all add: PublishClickEvent_def Let_def 1 2)
qed

lemma grows_publishWebhooks: "grows w (snd (publishWebhooks J k es w))"
proof -
  have "grows w (snd (publish_each J es w))"
  proof (induction es arbitrary: w)
    case (Cons e es)
    then show ?case
      using grows_publish [of w J "ce_owner_id e" e] grows_trans by (fastforce split: prod.split sum.split)
  qed simp
  then show ?thesis by (simp add: publishWebhooks_def)
qed

lemma grows_record_batch: "grows w (record_batch start es w)"
proof -
  note t = grows_now
  have p: "grows v (record_processed es v)" for es and v :: "'a world"
  proof (induction es arbitrary: v)
    case (Cons e es)
    obtain now u where u: "time_now (record_metric (IncAnalyticsEventProcessed ''success'') v) = (now, u)"
      by fastforce
    have "grows v u"
      using grows_metric t [OF u] by (rule grows_trans)
    then have "grows v (record_metric (ObserveAnalyticsIngestLag (now - ce_clicked_at e)) u)"
      using grows_metric by (rule grows_trans)
    with Cons show ?case
      by (auto simp: u intro: grows_trans)
  qed simp
  obtain t1 w1 where 1: "time_now w = (t1, w1)" by fastforce
  obtain t2 w2 where 2: "time_now (record_metric (ObserveAnalyticsBatchSize (length es)) w1) = (t2, w2)"
    by fastforce
  have "grows w w2"
    using t [OF 1] grows_metric t [OF 2] grows_trans by blast
  then have "grows w (record_metric (ObserveAnalyticsBatchDuration (t2 - start)) w2)"
    using grows_metric by (rule grows_trans)
  then show ?thesis
    using p grows_trans by (fastforce simp: record_batch_def 1 2)
qed

lemma processBatch_stores:
  assumes "processBatch J Q k es w = (r, w')"
  shows "grows w w'" and "r = Inr () \<Longrightarrow> ce_event_id ` set es \<subseteq> event_ids w'"
proof -
  obtain start w0 where 0: "time_now w = (start, w0)" by fastforce
  obtain r1 w1 where 1: "BulkInsert es w0 = (r1, w1)" by fastforce
  obtain r2 w2 where 2: "UpdateDailyStats Q es w1 = (r2, w2)" by fastforce
  obtain r3 w3 where 3: "publishWebhooks J k es w2 = (r3, w3)" by fastforce
  have g: "grows w w0" "grows w0 w1" "grows w1 w2" "grows w2 w3" "grows w3 (record_batch start es w3)"
    using grows_time [of w] grows_BulkInsert(1) [OF 1] grows_UpdateDailyStats [of w1 Q es]
      grows_publishWebhooks [of w2 J k es] grows_record_batch by (simp_all add: 0 2 3)
  note run = assms [unfolded processBatch_def, simplified 0 1 2 3 prod.case]
  have g': "grows w w1" "grows w w2" "grows w w3" "grows w (record_batch start es w3)"
    using g grows_trans by blast+
  show "grows w w'"
    using run g' by (auto split: sum.splits)
  show "r = Inr () \<Longrightarrow> ce_event_id ` set es \<subseteq> event_ids w'"
    using run grows_BulkInsert(2) [OF 1] g(3-5) by (auto simp: grows_def split: sum.splits)
qed

lemma retry_batch_stores:
  assumes "retry_batch J Q k es n attempt e w = (r, w')"
  shows "grows w w' \<and> (r = Inr () \<longrightarrow> (\<exists>err. e = Inl err) \<or> 0 < n \<longrightarrow> ce_event_id ` set es \<subseteq> event_ids w')"
  using assms
proof (induction n arbitrary: attempt e w)
  case 0
  have "grows v (record_failed es v)" for es and v :: "'a world"
    by (induction es arbitrary: v) (auto intro: grows_trans [OF grows_metric])
  with 0 show ?case by auto
next
  case (Suc n)
  obtain r1 w1 where run: "processBatch J Q k es w = (r1, w1)" by fastforce
  note p = processBatch_stores [OF run]
  obtain b w2 where wait: "wait_backoff (2 ^ attempt * second) w1 = (b, w2)" by fastforce
  obtain x u where u: "next_outcome w1 = (x, u)" by fastforce
  from wait next_outcome_frame [of w1, unfolded u snd_conv] have "grows w1 w2"
    by (intro grows_same) (auto simp: wait_backoff_def u split: outcome.splits)
  with p(1) have g: "grows w w2" by (rule grows_trans)
  show ?case
  proof (cases "\<exists>e1. r1 = Inl e1 \<and> b")
    case True
    then obtain e1 where "r1 = Inl e1" and b by blast
    with Suc.prems have "retry_batch J Q k es n (attempt + 1) (Inl e1) w2 = (r, w')"
      by (simp add: run wait)
    from Suc.IH [OF this] g grows_trans show ?thesis by blast
  next
    case False
    then show ?thesis
      using Suc.prems p g by (auto simp: run wait split: sum.splits bool.splits)
  qed
qed

section \<open>What a pass does to the stream\<close>

abbreviation "group_owed owed w \<equiv> owed StreamKey ConsumerGroup (w_redis w)"

context stream_server
begin

lemma call_owed:
  assumes "call (on_store f) w = (x, w')" and "\<And>t r. owed s g (snd (f t r)) = owed s g r"
  shows "owed s g (w_redis w') = owed s g (w_redis w)"
  using call_on_store(8) [OF assms(1)] assms(2) by auto

lemma time_owed: "time_now w = (t, w') \<Longrightarrow> w_redis w' = w_redis w \<and> w_click_events w' = w_click_events w"
  using time_now_frame(4,8) [of w] by simp

lemma too_soon_owed:
  assumes "too_soon since interval w = (b, w')"
  shows "w_redis w' = w_redis w" and "w_click_events w' = w_click_events w"
proof -
  obtain t v where "time_now w = (t, v)" by fastforce
  with assms time_owed [OF this] show "w_redis w' = w_redis w" and "w_click_events w' = w_click_events w"
    by (auto simp: too_soon_def split: if_splits)
qed

lemma queue_depth_owed:
  assumes "Analytics_maybeUpdateQueueDepth X k w = (k', w')"
  shows "group_owed owed w' = group_owed owed w" and "w_click_events w' = w_click_events w"
    and "cw_max_retries k' = cw_max_retries k"
proof -
  obtain skip v where s: "too_soon (cw_last_metrics k) (cw_metrics_interval k) w = (skip, v)" by fastforce
  note v = too_soon_owed [OF s]
  obtain now w2 where 2: "time_now v = (now, w2)" by fastforce
  obtain x w3 where 3: "call (on_store (\<lambda>_. x_info_groups X StreamKey)) w2 = (x, w3)" by fastforce
  have "group_owed owed w3 = group_owed owed w2" and "w_click_events w3 = w_click_events w2"
    using call_owed [OF 3] info_keeps call_on_store(1) [OF 3] by blast+
  with v time_owed [OF 2] have f: "group_owed owed w3 = group_owed owed w"
    "w_click_events w3 = w_click_events w" by auto
  have n: "w_redis (note_depth gs w3) = w_redis w3" "w_click_events (note_depth gs w3) = w_click_events w3" for gs
    by (simp_all add: note_depth_def split: option.split)
  show "group_owed owed w' = group_owed owed w" and "w_click_events w' = w_click_events w"
    and "cw_max_retries k' = cw_max_retries k"
    using assms v f n unfolding Analytics_maybeUpdateQueueDepth_def s prod.case 2 Let_def 3
    by (cases skip; cases x; auto split: if_splits)+
qed

lemma claim_result:
  assumes "maybeClaimPending X k w = (x, k', w')"
  shows "group_owed owed w' = group_owed owed w" and "w_click_events w' = w_click_events w"
    and "cw_max_retries k' = cw_max_retries k" and "x = Inr ms \<Longrightarrow> set ms \<subseteq> group_owed owed w"
proof -
  obtain skip v where s: "too_soon (cw_last_claim k) (cw_claim_interval k) w = (skip, v)" by fastforce
  note v = too_soon_owed [OF s]
  obtain now w2 where 2: "time_now v = (now, w2)" by fastforce
  let ?f = "x_auto_claim X StreamKey ConsumerGroup (cw_consumer_id k) (cw_claim_idle k)
      (cw_claim_start_id k) (cw_batch_size k)"
  obtain y w3 where 3: "call (on_store ?f) w2 = (y, w3)" by fastforce
  have "group_owed owed w3 = group_owed owed w2" and "w_click_events w3 = w_click_events w2"
    using call_owed [OF 3] claim_keeps call_on_store(1) [OF 3] by blast+
  moreover have "set ms \<subseteq> group_owed owed w2" if "y = Inr (ms, st)" for st
    using call_on_store(9) [OF 3 that] claim_owed by blast
  ultimately have f: "group_owed owed w3 = group_owed owed w" "w_click_events w3 = w_click_events w"
    "\<And>st. y = Inr (ms, st) \<Longrightarrow> set ms \<subseteq> group_owed owed w"
    using v time_owed [OF 2] by auto
  show "group_owed owed w' = group_owed owed w" and "w_click_events w' = w_click_events w"
    and "cw_max_retries k' = cw_max_retries k" and "x = Inr ms \<Longrightarrow> set ms \<subseteq> group_owed owed w"
    using assms v f by (cases skip; cases y; auto simp: maybeClaimPending_def s 2 3 Let_def split: if_splits)+
qed

lemma readBatch_result:
  assumes "readBatch X k w = (x, w')"
  shows "group_owed owed w' = group_owed owed w" and "w_click_events w' = w_click_events w"
    and "x = Inr ms \<Longrightarrow> set ms \<subseteq> group_owed owed w"
proof -
  let ?f = "x_read_group X StreamKey ConsumerGroup (cw_consumer_id k) (cw_batch_size k)"
  obtain y w1 where c: "call (on_store ?f) w = (y, w1)" by fastforce
  have "set l \<subseteq> group_owed owed w" if "y = Inr l" for l
    using call_on_store(9) [OF c that] read_owed by blast
  moreover have "group_owed owed w1 = group_owed owed w" and "w_click_events w1 = w_click_events w"
    using call_owed [OF c] read_keeps call_on_store(1) [OF c] by blast+
  ultimately show "group_owed owed w' = group_owed owed w" and "w_click_events w' = w_click_events w"
    and "x = Inr ms \<Longrightarrow> set ms \<subseteq> group_owed owed w"
    using assms by (auto simp: readBatch_def c split: sum.splits)
qed

lemma take_messages_result:
  assumes "take_messages X k w = (x, k', w')"
  shows "group_owed owed w' = group_owed owed w" and "w_click_events w' = w_click_events w"
    and "cw_max_retries k' = cw_max_retries k" and "x = Inr ms \<Longrightarrow> set ms \<subseteq> group_owed owed w"
proof -
  obtain c k1 w1 where 1: "maybeClaimPending X k w = (c, k1, w1)" by (metis prod.exhaust)
  obtain y w2 where 2: "readBatch X k1 w1 = (y, w2)" by fastforce
  note cl = claim_result [OF 1] and rb = readBatch_result [OF 2]
  show "group_owed owed w' = group_owed owed w" and "w_click_events w' = w_click_events w"
    and "cw_max_retries k' = cw_max_retries k" and "x = Inr ms \<Longrightarrow> set ms \<subseteq> group_owed owed w"
    using assms cl(1-3) rb(1,2) cl(4) [of ms] rb(3) [of ms]
    by (auto simp: take_messages_def 1 2 split: sum.splits list.splits)
qed

lemma dead_letter_keeps:
  "group_owed owed (deadLetterMessage X m reason detail w) = group_owed owed w"
  "w_click_events (deadLetterMessage X m reason detail w) = w_click_events w"
proof -
  obtain now w1 where 1: "time_now w = (now, w1)" by fastforce
  let ?f = "x_add X DeadLetterStreamKey 10000 [(''original_id'', sm_id m),
         (''original_stream'', StreamKey), (''reason'', reason), (''detail'', detail),
         (''payload'', case map_of (sm_values m) ''payload'' of None \<Rightarrow> [] | Some p \<Rightarrow> p),
         (''dead_lettered_at'', format_rfc3339 now)]"
  obtain y w2 where 2: "call (on_store ?f) w1 = (y, w2)" by fastforce
  have "group_owed owed w2 = group_owed owed w1" and "w_click_events w2 = w_click_events w1"
    using call_owed [OF 2] add_other [OF dead_letter_stream_differs] call_on_store(1) [OF 2] by blast+
  with time_owed [OF 1] show "group_owed owed (deadLetterMessage X m reason detail w) = group_owed owed w"
    "w_click_events (deadLetterMessage X m reason detail w) = w_click_events w"
    unfolding deadLetterMessage_def 1 prod.case 2 by simp_all
qed

lemma parseMessages_result:
  assumes "parseMessages X U ms w = (events, ids, w')"
  shows "group_owed owed w' = group_owed owed w \<and> w_click_events w' = w_click_events w
    \<and> ids = map sm_id ms \<and> (\<forall>m \<in> set ms. (\<exists>why. parse_message U m = Inl why) \<or> sm_id m \<in> ce_event_id ` set events)"
  using assms
proof (induction ms arbitrary: w events ids)
  case (Cons m ms)
  show ?case
  proof (cases "parse_message U m")
    case (Inl why)
    obtain reason detail where why: "why = (reason, detail)" by (cases why)
    obtain ids' where "parseMessages X U ms (deadLetterMessage X m reason detail w) = (events, ids', w')"
      and "ids = sm_id m # ids'"
      using Cons.prems by (auto simp: Inl why split: prod.splits)
    with Cons.IH dead_letter_keeps Inl show ?thesis by auto
  next
    case (Inr p)
    obtain i w1 where i: "analytics_generateULID w = (i, w1)" by fastforce
    then have "w_redis w1 = w_redis w \<and> w_click_events w1 = w_click_events w"
      by (auto simp: analytics_generateULID_def split: prod.splits dest: time_owed)
    moreover obtain events' ids' where "parseMessages X U ms w1 = (events', ids', w')"
      and "ids = sm_id m # ids'" and "events = event_of i m p # events'"
      using Cons.prems by (auto simp: Inr i split: prod.splits)
    moreover have "ce_event_id (event_of i m p) = sm_id m" by (simp add: event_of_def)
    ultimately show ?thesis using Cons.IH [of w1 events' ids'] by auto
  qed
qed simp

lemma ackMessages_result:
  assumes "ackMessages X ids w = (r, w')"
  shows "w_click_events w' = w_click_events w"
    and "m \<in> group_owed owed w \<Longrightarrow> m \<in> group_owed owed w' \<or> sm_id m \<in> set ids"
proof -
  let ?f = "\<lambda>_. x_ack X StreamKey ConsumerGroup ids"
  obtain y w1 where c: "call (on_store ?f) w = (y, w1)" by fastforce
  have w': "w' = w \<or> w' = w1"
    using assms by (auto simp: ackMessages_def c split: if_splits sum.splits)
  with call_on_store(1) [OF c] show "w_click_events w' = w_click_events w" by auto
  show "m \<in> group_owed owed w \<Longrightarrow> m \<in> group_owed owed w' \<or> sm_id m \<in> set ids"
    using w' call_on_store(8) [OF c] ack_owed [of ids StreamKey ConsumerGroup "w_redis w"] by auto
qed

lemma handle_messages_keeps:
  assumes "handle_messages X U J Q k ms w = (r, w')" and "0 < cw_max_retries k"
  shows "event_ids w \<subseteq> event_ids w'"
    and "m \<in> group_owed owed w \<Longrightarrow> m \<in> group_owed owed w' \<or> sm_id m \<in> event_ids w'
      \<or> (\<exists>m' \<in> set ms. sm_id m' = sm_id m \<and> (\<exists>why. parse_message U m' = Inl why))"
proof -
  obtain events ids w1 where 1: "parseMessages X U ms w = (events, ids, w1)" by (metis prod.exhaust)
  note p = parseMessages_result [OF 1]
  obtain x w2 where 2: "processBatchWithRetry J Q k events w1 = (x, w2)" by fastforce
  note b = retry_batch_stores [OF 2 [unfolded processBatchWithRetry_def]]
  have "event_ids w \<subseteq> event_ids w' \<and> (m \<in> group_owed owed w \<longrightarrow> m \<in> group_owed owed w' \<or> sm_id m \<in> event_ids w'
      \<or> (\<exists>m' \<in> set ms. sm_id m' = sm_id m \<and> (\<exists>why. parse_message U m' = Inl why)))"
  proof (cases "ms = [] \<or> (events \<noteq> [] \<and> x \<noteq> Inr ())")
    case True
    then have "w' = w \<or> w' = w2"
      using assms(1) by (auto simp: handle_messages_def 1 2 split: if_splits sum.splits)
    with p b show ?thesis by (auto simp: grows_def event_ids_def)
  next
    case False
    then obtain v where a: "ackMessages X ids v = (r, w')" and v: "v = w1 \<and> events = [] \<or> v = w2 \<and> x = Inr ()"
      using assms(1) by (auto simp: handle_messages_def 1 2 split: if_splits sum.splits)
    have "grows w1 v" and "ce_event_id ` set events \<subseteq> event_ids v"
      using v b assms(2) by auto
    with p have "group_owed owed v = group_owed owed w" "event_ids w \<subseteq> event_ids v"
      "ce_event_id ` set events \<subseteq> event_ids v" by (auto simp: grows_def event_ids_def)
    moreover have "event_ids w' = event_ids v"
      using ackMessages_result(1) [OF a] by (simp add: event_ids_def)
    moreover have "(\<exists>m' \<in> set ms. sm_id m' = i \<and> (\<exists>why. parse_message U m' = Inl why)) \<or> i \<in> event_ids v"
      if "i \<in> set ids" for i
    proof -
      from that p obtain m' where "m' \<in> set ms" "sm_id m' = i" by auto
      with p calculation(3) show ?thesis by blast
    qed
    ultimately show ?thesis
      using ackMessages_result(2) [OF a, of m] by blast
  qed
  then show "event_ids w \<subseteq> event_ids w'"
    and "m \<in> group_owed owed w \<Longrightarrow> m \<in> group_owed owed w' \<or> sm_id m \<in> event_ids w'
      \<or> (\<exists>m' \<in> set ms. sm_id m' = sm_id m \<and> (\<exists>why. parse_message U m' = Inl why))"
    by auto
qed

end

text \<open>C8: No click is lost in a pass of the analytics worker, whatever fails in it: a message owed to
  the consumer group before the pass is owed after it, or its event is stored, or a message of its id
  was malformed; and stored events stay stored.\<close>

theorem no_click_lost:
  assumes "stream_server X owed" and "0 < cw_max_retries k"
    and "Analytics_processOnce X U J Q k w = (r, k', w')"
  shows "ce_event_id ` set (w_click_events w) \<subseteq> ce_event_id ` set (w_click_events w')
    \<and> (\<forall>m \<in> owed StreamKey ConsumerGroup (w_redis w).
        m \<in> owed StreamKey ConsumerGroup (w_redis w')
        \<or> sm_id m \<in> ce_event_id ` set (w_click_events w')
        \<or> (\<exists>m' \<in> owed StreamKey ConsumerGroup (w_redis w). sm_id m' = sm_id m
            \<and> (\<exists>why. parse_message U m' = Inl why)))"
proof -
  note server = stream_server.queue_depth_owed [OF assms(1)] stream_server.take_messages_result [OF assms(1)]
    and handle = stream_server.handle_messages_keeps [OF assms(1)]
  obtain k1 w1 where 1: "Analytics_maybeUpdateQueueDepth X k w = (k1, w1)" by fastforce
  obtain x k2 w2 where 2: "take_messages X k1 w1 = (x, k2, w2)" by (metis prod.exhaust)
  note f = server(1-3) [OF 1] and t = server(4-7) [OF 2]
  show ?thesis
  proof (cases x)
    case (Inl err)
    with assms(3) 1 2 f t(1-3) show ?thesis by (simp add: Analytics_processOnce_def)
  next
    case (Inr ms)
    obtain r3 w3 where 3: "handle_messages X U J Q k2 ms w2 = (r3, w3)" by fastforce
    have w': "w' = w3"
      using assms(3) 1 2 3 Inr by (simp add: Analytics_processOnce_def)
    have "0 < cw_max_retries k2" using assms(2) f(3) t(3) by simp
    note h = handle [OF 3 this]
    have ms: "set ms \<subseteq> group_owed owed w" and o: "group_owed owed w2 = group_owed owed w"
      and e: "event_ids w2 = event_ids w"
      using f(1,2) t(1,2) t(4) [OF Inr] by (simp_all add: event_ids_def)
    have "m \<in> group_owed owed w3 \<or> sm_id m \<in> event_ids w3 \<or> (\<exists>m' \<in> group_owed owed w.
        sm_id m' = sm_id m \<and> (\<exists>why. parse_message U m' = Inl why))" if "m \<in> group_owed owed w" for m
      using h(2) [of m] that ms unfolding o by blast
    then show ?thesis
      using h(1) unfolding w' e unfolding event_ids_def by (intro conjI ballI)
  qed
qed

definition sample_message :: stream_message where
  "sample_message = \<lparr>sm_id = ''1-0'', sm_values = [(''payload'', ''{}'')]\<rparr>"

definition sample_payload :: click_event_payload where
  "sample_payload = \<lparr>cp_short_code = ''abc'', cp_link_id = ''l1'', cp_owner_id = [], cp_referrer = [],
     cp_user_agent = [], cp_visitor_hash = ''0123456789abcdef'', cp_country_code = ''DE'', cp_clicked_at = 1\<rparr>"

definition click_world :: "ref_streams world" where
  "click_world = empty_world 7 (ref_streams_empty\<lparr>rs_log := [(StreamKey, sample_message)],
     rs_groups := [(StreamKey, ConsumerGroup)]\<rparr>)"

theorem no_click_lost_witness:
  "let w' = snd (snd (Analytics_processOnce ref_stream_ops (\<lambda>_. Inr sample_payload) wp_event_id rev
       (Analytics_NewWorker ''c'') click_world))
   in sample_message \<in> ref_owed StreamKey ConsumerGroup (w_redis w')
     \<or> ''1-0'' \<in> ce_event_id ` set (w_click_events w')"
proof -
  obtain r k' w' where run: "Analytics_processOnce ref_stream_ops (\<lambda>_. Inr sample_payload) wp_event_id rev
       (Analytics_NewWorker ''c'') click_world = (r, k', w')" by (metis prod.exhaust)
  have k: "0 < cw_max_retries (Analytics_NewWorker ''c'')" by (simp add: Analytics_NewWorker_def)
  have o: "ref_owed StreamKey ConsumerGroup (w_redis click_world) = {sample_message}"
    by (auto simp: click_world_def ref_owed_def ref_streams_empty_def)
  have "parse_message (\<lambda>_. Inr sample_payload) sample_message = Inr sample_payload"
    by (simp add: parse_message_def sample_message_def sample_payload_def ValidateClickEventPayload_def
        isHex_def)
  with no_click_lost [OF ref_stream.stream_server_axioms k run] o
  have "sample_message \<in> ref_owed StreamKey ConsumerGroup (w_redis w')
     \<or> sm_id sample_message \<in> ce_event_id ` set (w_click_events w')" by auto
  then show ?thesis
    unfolding run Let_def snd_conv by (simp add: sample_message_def)
qed

end
