(* ===== verification/Key_Gen.thy ===== *)
theory Key_Gen imports Webhook_Rules begin

text \<open>
  \<open>internal/auth\<close>: the format of API keys, their generation, the Argon2id hashes that are stored and
  their verification, and the authenticated context of a request. \<open>argon2.IDKey\<close> of
  golang.org/x/crypto and the unpadded base64 of the standard library are parameters; \<open>argon_ok\<close>
  states what is relied on. A generated key parses back into its parts, its hash verifies it, and
  verifying any other password compares the two derived keys.
\<close>

section \<open>Argon2id hashes\<close>

text \<open>\<open>IDKey password salt time memory threads keyLen\<close>; it panics (\<open>None\<close>) without rounds or threads.\<close>

record hash_suite =
  idkey :: "string \<Rightarrow> string \<Rightarrow> nat \<Rightarrow> nat \<Rightarrow> nat \<Rightarrow> nat \<Rightarrow> string option"
  raw_encode :: "string \<Rightarrow> string"
  raw_decode :: "string \<Rightarrow> string option"

definition argon2Time :: nat where "argon2Time = 3"
definition argon2Memory :: nat where "argon2Memory = 64 * 1024"
definition argon2Threads :: nat where "argon2Threads = 4"
definition argon2KeyLen :: nat where "argon2KeyLen = 32"
definition argon2SaltLen :: nat where "argon2SaltLen = 16"
definition argon2_Version :: nat where "argon2_Version = 19"

lemmas argon2_defs = argon2Time_def argon2Memory_def argon2Threads_def argon2KeyLen_def
  argon2SaltLen_def argon2_Version_def

definition dollar :: char where "dollar = CHR 0x24"

definition idkey_panic :: error where "idkey_panic = Panic ''argon2: invalid parameters''"

definition HashPassword :: "hash_suite \<Rightarrow> string \<Rightarrow> 'r world \<Rightarrow> (error + string) \<times> 'r world" where
  "HashPassword A password w = (case cryptoRandReadReal argon2SaltLen w of
       (Inl err, w') \<Rightarrow> (Inl (Wrap ''generate salt'' err), w')
     | (Inr salt, w') \<Rightarrow>
         (case idkey A password salt argon2Time argon2Memory argon2Threads argon2KeyLen of
            None \<Rightarrow> (Inl idkey_panic, w')
          | Some hash \<Rightarrow>
              let b64Salt = raw_encode A salt; b64Hash = raw_encode A hash in
              (Inr (dollar # ''argon2id'' @ dollar # ''v='' @ format_nat argon2_Version
                 @ dollar # ''m='' @ format_nat argon2Memory @ '',t='' @ format_nat argon2Time
                 @ '',p='' @ format_nat argon2Threads @ dollar # b64Salt @ dollar # b64Hash), w')))"

text \<open>
  \<open>fmt.Sscanf\<close> for the two formats of a stored hash: literal text must match, a \<open>%d\<close> skips blanks
  and reads digits (with a sign for a signed variable) within the range of its variable. Text left
  over at the end is ignored.
\<close>

definition scan_literal :: "string \<Rightarrow> string \<Rightarrow> string option" where
  "scan_literal p s = (if has_prefix s p then Some (drop (length p) s) else None)"

definition skip_blanks :: "string \<Rightarrow> string" where
  "skip_blanks s = dropWhile (\<lambda>c. is_space c \<and> c \<noteq> CHR 0x0A) s"

definition scan_digits :: "nat \<Rightarrow> string \<Rightarrow> (nat \<times> string) option" where
  "scan_digits bound s = (case parse_nat (takeWhile is_digit s) of
       None \<Rightarrow> None
     | Some n \<Rightarrow> if n < bound then Some (n, dropWhile is_digit s) else None)"

definition scan_uint :: "nat \<Rightarrow> string \<Rightarrow> (nat \<times> string) option" where
  "scan_uint bits s = scan_digits (2 ^ bits) (skip_blanks s)"

definition scan_int :: "string \<Rightarrow> (int \<times> string) option" where
  "scan_int s = (case skip_blanks s of
       [] \<Rightarrow> None
     | c # cs \<Rightarrow>
         if c = CHR ''-'' then map_option (map_prod (\<lambda>n. - int n) id) (scan_digits (2 ^ 63 + 1) cs)
         else if c = CHR ''+'' then map_option (map_prod int id) (scan_digits (2 ^ 63) cs)
         else map_option (map_prod int id) (scan_digits (2 ^ 63) (c # cs)))"

definition Sscanf_version :: "string \<Rightarrow> int option" where
  "Sscanf_version s = Option.bind (scan_literal ''v='' s) (\<lambda>r. map_option fst (scan_int r))"

definition Sscanf_params :: "string \<Rightarrow> (nat \<times> nat \<times> nat) option" where
  "Sscanf_params s =
     Option.bind (scan_literal ''m='' s) (\<lambda>r1.
     Option.bind (scan_uint 32 r1) (\<lambda>(memory, r2).
     Option.bind (scan_literal '',t='' r2) (\<lambda>r3.
     Option.bind (scan_uint 32 r3) (\<lambda>(time, r4).
     Option.bind (scan_literal '',p='' r4) (\<lambda>r5.
     map_option (\<lambda>(threads, r6). (memory, time, threads)) (scan_uint 8 r5))))))"

text \<open>\<open>subtle.ConstantTimeCompare\<close> is 1 for equal contents and 0 otherwise, lengths included.\<close>

definition ConstantTimeCompare :: "string \<Rightarrow> string \<Rightarrow> int" where
  "ConstantTimeCompare x y = (if length x \<noteq> length y then 0 else if x = y then 1 else 0)"

definition VerifyPassword :: "hash_suite \<Rightarrow> string \<Rightarrow> string \<Rightarrow> error + bool" where
  "VerifyPassword A password encodedHash =
     (let parts = split_on dollar encodedHash in
      if length parts \<noteq> 6 then Inl (Sentinel Auth_ErrInvalidHash)
      else if parts ! 1 \<noteq> ''argon2id'' then Inl (Sentinel Auth_ErrInvalidHash)
      else case Sscanf_version (parts ! 2) of
        None \<Rightarrow> Inl (Sentinel Auth_ErrInvalidHash)
      | Some version \<Rightarrow>
          if version \<noteq> int argon2_Version then Inl (Sentinel Auth_ErrIncompatibleVersion)
          else (case Sscanf_params (parts ! 3) of
            None \<Rightarrow> Inl (Sentinel Auth_ErrInvalidHash)
          | Some (memory, time, threads) \<Rightarrow>
              (case raw_decode A (parts ! 4) of
                 None \<Rightarrow> Inl (Sentinel Auth_ErrInvalidHash)
               | Some salt \<Rightarrow> (case raw_decode A (parts ! 5) of
                     None \<Rightarrow> Inl (Sentinel Auth_ErrInvalidHash)
                   | Some expectedHash \<Rightarrow>
                       (case idkey A password salt time memory threads
                              (length expectedHash mod 2 ^ 32) of
                          None \<Rightarrow> Inl idkey_panic
                        | Some computedHash \<Rightarrow>
                            Inr (ConstantTimeCompare computedHash expectedHash = 1))))))"

definition QuickHash :: "digest \<Rightarrow> string \<Rightarrow> string" where
  "QuickHash D s = hex_encode (take 16 (D s))"

section \<open>The key format\<close>

definition KeyPrefixLen :: nat where "KeyPrefixLen = 6"
definition KeySecretLen :: nat where "KeySecretLen = 32"
definition EnvLive :: string where "EnvLive = ''live''"
definition EnvTest :: string where "EnvTest = ''test''"

lemmas key_env_defs = EnvLive_def EnvTest_def

record generated_key =
  gk_plaintext :: string
  gk_hash :: string
  gk_prefix :: string

record parsed_key =
  pk_env :: string
  pk_prefix :: string
  pk_secret :: string

text \<open>
  \<open>keyFormatRegex\<close>, \<open>^pk_(live|test)_([a-f0-9]{6})_([a-f0-9]{32})$\<close>: every part has a fixed length,
  so a match has its groups at fixed positions of the 47 bytes.
\<close>

definition keyFormatRegex_groups :: "string \<Rightarrow> (string \<times> string \<times> string) option" where
  "keyFormatRegex_groups key =
     (let env = take 4 (drop 3 key); prefix = take 6 (drop 8 key); secret = drop 15 key in
      if length key = 47 \<and> take 3 key = ''pk_'' \<and> (env = ''live'' \<or> env = ''test'')
         \<and> take 1 (drop 7 key) = ''_'' \<and> list_all is_hex_lower prefix
         \<and> take 1 (drop 14 key) = ''_'' \<and> list_all is_hex_lower secret
      then Some (env, prefix, secret) else None)"

definition format_key :: "string \<Rightarrow> string \<Rightarrow> string \<Rightarrow> string" where
  "format_key env prefix secret = ''pk_'' @ env @ ''_'' @ prefix @ ''_'' @ secret"

definition GenerateAPIKey :: "hash_suite \<Rightarrow> string \<Rightarrow> 'r world \<Rightarrow> (error + generated_key) \<times> 'r world" where
  "GenerateAPIKey A env w =
     (let env = (if env \<noteq> EnvLive \<and> env \<noteq> EnvTest then EnvLive else env) in
      case cryptoRandReadReal 3 w of
        (Inl err, w1) \<Rightarrow> (Inl (Wrap ''generate prefix'' err), w1)
      | (Inr prefixBytes, w1) \<Rightarrow>
          let prefix = hex_encode prefixBytes in
          (case cryptoRandReadReal 16 w1 of
             (Inl err, w2) \<Rightarrow> (Inl (Wrap ''generate secret'' err), w2)
           | (Inr secretBytes, w2) \<Rightarrow>
               let secret = hex_encode secretBytes; plaintext = format_key env prefix secret in
               (case HashPassword A plaintext w2 of
                  (Inl err, w3) \<Rightarrow>
                    (Inl (case err of Panic m \<Rightarrow> Panic m | _ \<Rightarrow> Wrap ''hash key'' err), w3)
                | (Inr hash, w3) \<Rightarrow>
                    (Inr \<lparr>gk_plaintext = plaintext, gk_hash = hash, gk_prefix = prefix\<rparr>, w3))))"

definition ParseAPIKey :: "string \<Rightarrow> error + parsed_key" where
  "ParseAPIKey key = (case keyFormatRegex_groups key of
       None \<Rightarrow> Inl (Sentinel Auth_ErrInvalidKeyFormat)
     | Some (env, prefix, secret) \<Rightarrow>
         Inr \<lparr>pk_env = env, pk_prefix = prefix, pk_secret = secret\<rparr>)"

definition ValidateKeyFormat :: "string \<Rightarrow> bool" where
  "ValidateKeyFormat key = (keyFormatRegex_groups key \<noteq> None)"

text \<open>What the regular expression says, without positions.\<close>

definition key_parts_ok :: "string \<Rightarrow> string \<Rightarrow> string \<Rightarrow> bool" where
  "key_parts_ok env prefix secret = ((env = EnvLive \<or> env = EnvTest)
     \<and> length prefix = KeyPrefixLen \<and> list_all is_hex_lower prefix
     \<and> length secret = KeySecretLen \<and> list_all is_hex_lower secret)"

lemma groups_format_key:
  assumes "key_parts_ok env prefix secret"
  shows "keyFormatRegex_groups (format_key env prefix secret) = Some (env, prefix, secret)"
proof -
  have "length env = 4" using assms by (auto simp: key_parts_ok_def key_env_defs)
  with assms show ?thesis
    by (auto simp: keyFormatRegex_groups_def key_parts_ok_def format_key_def key_env_defs
        KeyPrefixLen_def KeySecretLen_def Let_def)
qed

lemma groups_SomeD:
  assumes "keyFormatRegex_groups key = Some (env, prefix, secret)"
  shows "key = format_key env prefix secret \<and> key_parts_ok env prefix secret"
proof -
  have len: "length key = 47" and parts: "env = take 4 (drop 3 key)" "prefix = take 6 (drop 8 key)"
      "secret = drop 15 key"
    and lit: "take 3 key = ''pk_''" "take 1 (drop 7 key) = ''_''" "take 1 (drop 14 key) = ''_''"
    and ok: "env = ''live'' \<or> env = ''test''" "list_all is_hex_lower prefix"
      "list_all is_hex_lower secret"
    using assms by (auto simp: keyFormatRegex_groups_def Let_def split: if_splits)
  have "take 15 key = ''pk_'' @ env @ ''_'' @ prefix @ ''_''"
    using take_add [of 3 4 key] take_add [of 7 1 key] take_add [of 8 6 key] take_add [of 14 1 key]
    by (simp add: parts lit [simplified])
  then have "take 15 key @ drop 15 key = format_key env prefix secret"
    unfolding format_key_def parts(3) by simp
  then have "key = format_key env prefix secret"
    unfolding append_take_drop_id .
  moreover have "length prefix = 6" and "length secret = 32"
    using len by (simp_all add: parts)
  ultimately show ?thesis
    using ok by (simp add: key_parts_ok_def key_env_defs KeyPrefixLen_def KeySecretLen_def)
qed

text \<open>The positions accept exactly the keys the regular expression describes.\<close>

lemma ParseAPIKey_iff:
  "ParseAPIKey key = Inr p \<longleftrightarrow> key = format_key (pk_env p) (pk_prefix p) (pk_secret p)
     \<and> key_parts_ok (pk_env p) (pk_prefix p) (pk_secret p)"
proof
  assume "ParseAPIKey key = Inr p"
  then show "key = format_key (pk_env p) (pk_prefix p) (pk_secret p)
      \<and> key_parts_ok (pk_env p) (pk_prefix p) (pk_secret p)"
    by (auto simp: ParseAPIKey_def split: option.splits dest: groups_SomeD)
next
  assume *: "key = format_key (pk_env p) (pk_prefix p) (pk_secret p)
      \<and> key_parts_ok (pk_env p) (pk_prefix p) (pk_secret p)"
  then have "keyFormatRegex_groups key = Some (pk_env p, pk_prefix p, pk_secret p)"
    using groups_format_key by blast
  then show "ParseAPIKey key = Inr p"
    by (simp add: ParseAPIKey_def)
qed

lemma ValidateKeyFormat_iff: "ValidateKeyFormat key \<longleftrightarrow> (\<exists>p. ParseAPIKey key = Inr p)"
  by (auto simp: ValidateKeyFormat_def ParseAPIKey_def split: option.split)

section \<open>A stored hash is read back\<close>

text \<open>What is relied on of base64 and of Argon2id.\<close>

definition argon_ok :: "hash_suite \<Rightarrow> bool" where
  "argon_ok A = ((\<forall>s. raw_decode A (raw_encode A s) = Some s) \<and> (\<forall>s. dollar \<notin> set (raw_encode A s))
     \<and> (\<forall>p s t m n k. 0 < t \<longrightarrow> 0 < n \<longrightarrow> 0 < k \<longrightarrow> (\<exists>h. idkey A p s t m n k = Some h \<and> length h = k)))"

lemma split_on_no_dollar: "d \<notin> set s \<Longrightarrow> split_on d s = [s]"
  by (induction s) auto

lemma split_on_append: "d \<notin> set s \<Longrightarrow> split_on d (s @ d # t) = s # split_on d t"
  by (induction s) auto

lemma digits_no_dollar: "dollar \<notin> set (format_nat n)"
proof
  assume "dollar \<in> set (format_nat n)"
  then have "is_digit dollar" using format_nat_digits [of n] by (auto simp: list_all_iff)
  then show False by (simp add: dollar_def is_digit_def less_eq_char_def)
qed

lemma scan_digits_format:
  assumes "n < bound" and "\<And>c r'. r = c # r' \<Longrightarrow> \<not> is_digit c"
  shows "scan_digits bound (format_nat n @ r) = Some (n, r)"
proof -
  have "\<forall>c \<in> set (format_nat n). is_digit c"
    using format_nat_digits [of n] by (simp add: list_all_iff)
  moreover have "takeWhile is_digit r = []" and "dropWhile is_digit r = r"
    using assms(2) by (cases r; simp)+
  ultimately have "takeWhile is_digit (format_nat n @ r) = format_nat n"
    and "dropWhile is_digit (format_nat n @ r) = r"
    by (simp_all)
  with assms(1) show ?thesis by (simp add: scan_digits_def)
qed

lemma digit_no_blank: "is_digit c \<Longrightarrow> \<not> is_space c"
  by (auto simp: is_digit_def is_space_def less_eq_char_def)

lemma skip_blanks_digits [simp]: "skip_blanks (format_nat n @ r) = format_nat n @ r"
proof -
  obtain d ds where "format_nat n = d # ds" and "is_digit d"
    using format_nat_hd [of n] digit_char_digit(1) by auto
  then show ?thesis using digit_no_blank by (simp add: skip_blanks_def)
qed

lemma scan_uint_format:
  "n < 2 ^ bits \<Longrightarrow> (\<And>c r'. r = c # r' \<Longrightarrow> \<not> is_digit c) \<Longrightarrow>
   scan_uint bits (format_nat n @ r) = Some (n, r)"
  by (simp add: scan_uint_def scan_digits_format)

lemma scan_int_format: "n < 2 ^ 63 \<Longrightarrow> scan_int (format_nat n) = Some (int n, [])"
proof -
  assume n: "n < 2 ^ 63"
  obtain d ds where f: "format_nat n = digit_char d # ds" and d: "d < 10"
    using format_nat_hd by blast
  have "skip_blanks (digit_char d # ds) = digit_char d # ds"
    using skip_blanks_digits [of n "[]"] f by simp
  moreover have "scan_digits (2 ^ 63) (digit_char d # ds) = Some (n, [])"
    using scan_digits_format [OF n, of "[]"] f by simp
  ultimately show ?thesis
    using digit_char_digit(3,4) [OF d] by (simp add: scan_int_def f)
qed

lemma scan_literal_append [simp]: "scan_literal p (p @ s) = Some s"
  by (simp add: scan_literal_def has_prefix_def)

lemma Sscanf_version_format: "n < 2 ^ 63 \<Longrightarrow> Sscanf_version (''v='' @ format_nat n) = Some (int n)"
  unfolding Sscanf_version_def scan_literal_append by (simp add: scan_int_format)

lemma Sscanf_params_format:
  assumes "m < 2 ^ 32" and "t < 2 ^ 32" and "p < 2 ^ 8"
  shows "Sscanf_params (''m='' @ format_nat m @ '',t='' @ format_nat t @ '',p='' @ format_nat p)
    = Some (m, t, p)"
proof -
  have comma: "\<And>c r' s. '','' @ s = c # r' \<Longrightarrow> \<not> is_digit c"
    by (auto simp: is_digit_def less_eq_char_def)
  have 1: "scan_uint 32 (format_nat m @ '',t='' @ s) = Some (m, '',t='' @ s)" for s
    using assms(1) comma [of "''t='' @ s"] by (intro scan_uint_format) auto
  have 2: "scan_uint 32 (format_nat t @ '',p='' @ s) = Some (t, '',p='' @ s)" for s
    using assms(2) comma [of "''p='' @ s"] by (intro scan_uint_format) auto
  have 3: "scan_uint 8 (format_nat p) = Some (p, [])"
    using scan_uint_format [OF assms(3), of "[]"] by simp
  show ?thesis
    unfolding Sscanf_params_def
    by (simp only: scan_literal_append 1 2 3 Option.bind.simps option.map prod.case)
qed

lemma hash_parts:
  assumes "argon_ok A"
  shows "split_on dollar (dollar # ''argon2id'' @ dollar # ''v='' @ format_nat argon2_Version
      @ dollar # ''m='' @ format_nat argon2Memory @ '',t='' @ format_nat argon2Time
      @ '',p='' @ format_nat argon2Threads @ dollar # raw_encode A s @ dollar # raw_encode A h)
    = [[], ''argon2id'', ''v='' @ format_nat argon2_Version,
       ''m='' @ format_nat argon2Memory @ '',t='' @ format_nat argon2Time
         @ '',p='' @ format_nat argon2Threads, raw_encode A s, raw_encode A h]"
proof -
  have free: "dollar \<notin> set (raw_encode A s)" "dollar \<notin> set (raw_encode A h)"
    using assms by (simp_all add: argon_ok_def)
  have "dollar \<notin> set (''v='' @ format_nat argon2_Version)"
    and "dollar \<notin> set (''m='' @ format_nat argon2Memory @ '',t='' @ format_nat argon2Time
         @ '',p='' @ format_nat argon2Threads)" and "dollar \<notin> set ''argon2id''"
    using digits_no_dollar by (simp_all add: dollar_def)
  note free = free this
  note step = free [THEN split_on_append] split_on_no_dollar [OF free(2)]
  show ?thesis
    using step(3) step(4) step(5) by (simp add: step(1) step(6))
qed

text \<open>Verifying a password against a fresh hash compares the two derived keys under its salt.\<close>

lemma verify_fresh_hash:
  assumes "argon_ok A" and "HashPassword A password w = (Inr stored, w')"
  obtains salt where "\<And>other. VerifyPassword A other stored = Inr
    (idkey A other salt argon2Time argon2Memory argon2Threads argon2KeyLen
     = idkey A password salt argon2Time argon2Memory argon2Threads argon2KeyLen)"
proof -
  obtain salt hash where
    h: "idkey A password salt argon2Time argon2Memory argon2Threads argon2KeyLen = Some hash"
    and stored: "stored = dollar # ''argon2id'' @ dollar # ''v='' @ format_nat argon2_Version
      @ dollar # ''m='' @ format_nat argon2Memory @ '',t='' @ format_nat argon2Time
      @ '',p='' @ format_nat argon2Threads @ dollar # raw_encode A salt @ dollar # raw_encode A hash"
    using assms(2) by (auto simp: HashPassword_def Let_def split: prod.splits sum.splits option.splits)
  note parts = hash_parts [OF assms(1), of salt hash, folded stored]
  have dec: "raw_decode A (raw_encode A s) = Some s" for s
    using assms(1) by (simp add: argon_ok_def)
  have derived: "\<exists>k. idkey A p s argon2Time argon2Memory argon2Threads argon2KeyLen = Some k
      \<and> length k = argon2KeyLen" for p s
    using assms(1) by (simp add: argon_ok_def argon2_defs)
  have len: "length hash mod 4294967296 = argon2KeyLen" "length hash = argon2KeyLen"
    using derived [of password salt] h by (auto simp: argon2_defs)
  have v: "Sscanf_version (''v='' @ format_nat argon2_Version) = Some (int argon2_Version)"
    by (rule Sscanf_version_format) (simp add: argon2_defs)
  have p: "Sscanf_params (''m='' @ format_nat argon2Memory @ '',t='' @ format_nat argon2Time
      @ '',p='' @ format_nat argon2Threads) = Some (argon2Memory, argon2Time, argon2Threads)"
    by (rule Sscanf_params_format) (simp_all add: argon2_defs)
  show thesis
  proof (rule that [of salt])
    fix other
    obtain k where k: "idkey A other salt argon2Time argon2Memory argon2Threads argon2KeyLen = Some k"
      and "length k = argon2KeyLen" using derived by blast
    then have "(ConstantTimeCompare k hash = 1) = (k = hash)"
      using len by (simp add: ConstantTimeCompare_def)
    then show "VerifyPassword A other stored = Inr
        (idkey A other salt argon2Time argon2Memory argon2Threads argon2KeyLen
         = idkey A password salt argon2Time argon2Memory argon2Threads argon2KeyLen)"
      unfolding VerifyPassword_def Let_def parts
      by (simp add: v [simplified] p [simplified] dec len(1) k h)
  qed
qed

section \<open>A generated key\<close>

lemma GenerateAPIKey_parts:
  assumes "GenerateAPIKey A env w = (Inr g, w')"
  obtains secret u where
    "gk_plaintext g = format_key (if env = EnvTest then EnvTest else EnvLive) (gk_prefix g) secret"
    and "key_parts_ok (if env = EnvTest then EnvTest else EnvLive) (gk_prefix g) secret"
    and "HashPassword A (gk_plaintext g) u = (Inr (gk_hash g), w')"
proof -
  let ?env = "if env = EnvTest then EnvTest else EnvLive"
  have env: "(if env \<noteq> EnvLive \<and> env \<noteq> EnvTest then EnvLive else env) = ?env" by simp
  obtain pb w1 where 1: "cryptoRandReadReal 3 w = (Inr pb, w1)"
    using assms by (auto simp: GenerateAPIKey_def Let_def split: prod.splits sum.splits)
  obtain sb w2 where 2: "cryptoRandReadReal 16 w1 = (Inr sb, w2)"
    using assms by (auto simp: GenerateAPIKey_def Let_def 1 split: prod.splits sum.splits)
  let ?key = "format_key ?env (hex_encode pb) (hex_encode sb)"
  obtain hash where 3: "HashPassword A ?key w2 = (Inr hash, w')"
    and g: "g = \<lparr>gk_plaintext = ?key, gk_hash = hash, gk_prefix = hex_encode pb\<rparr>"
    using assms unfolding GenerateAPIKey_def Let_def env 1 2 prod.case sum.case
    by (auto split: prod.splits sum.splits)
  have len: "length pb = 3" "length sb = 16"
    using 1 2 by (auto simp: cryptoRandReadReal_def split: prod.splits option.splits)
  have "key_parts_ok ?env (hex_encode pb) (hex_encode sb)"
    by (simp add: key_parts_ok_def hex_encode_lower len KeyPrefixLen_def KeySecretLen_def)
  with g 3 show thesis by (intro that [of "hex_encode sb" w2]) simp_all
qed

text \<open>A hash suite that keeps the laws: the key is the padded password, the code escapes the dollar.\<close>

fun ref_encode :: "string \<Rightarrow> string" where
  "ref_encode [] = []"
| "ref_encode (c # s) = (if c = dollar then ''xd'' else [CHR ''y'', c]) @ ref_encode s"

fun ref_decode :: "string \<Rightarrow> string option" where
  "ref_decode [] = Some []"
| "ref_decode [a] = None"
| "ref_decode (a # b # s) = map_option ((#) (if a = CHR ''x'' then dollar else b)) (ref_decode s)"

definition ref_suite :: hash_suite where
  "ref_suite = \<lparr>idkey = \<lambda>p s t m n k. if 0 < t \<and> 0 < n
       then Some (take k (p @ replicate k CHR ''.'')) else None,
     raw_encode = ref_encode, raw_decode = ref_decode\<rparr>"

lemma ref_suite_ok: "argon_ok ref_suite"
proof -
  have "ref_decode (ref_encode s) = Some s" for s
    by (induction s) auto
  moreover have "dollar \<notin> set (ref_encode s)" for s
    by (induction s) (auto simp: dollar_def)
  ultimately show ?thesis by (auto simp: argon_ok_def ref_suite_def)
qed

text \<open>C25: A generated API key has the format the API accepts, parses back into its environment and
  the visible prefix stored beside its hash, and the stored hash verifies it.\<close>

theorem generated_key_verifies:
  assumes "argon_ok A" and "GenerateAPIKey A env w = (Inr g, w')"
  shows "ParseAPIKey (gk_plaintext g) = Inr \<lparr>pk_env = (if env = EnvTest then EnvTest else EnvLive),
      pk_prefix = gk_prefix g, pk_secret = drop 15 (gk_plaintext g)\<rparr>
    \<and> ValidateKeyFormat (gk_plaintext g) \<and> length (gk_prefix g) = 6
    \<and> VerifyPassword A (gk_plaintext g) (gk_hash g) = Inr True"
proof -
  obtain secret u where
    key: "gk_plaintext g = format_key (if env = EnvTest then EnvTest else EnvLive) (gk_prefix g) secret"
    and parts: "key_parts_ok (if env = EnvTest then EnvTest else EnvLive) (gk_prefix g) secret"
    and hash: "HashPassword A (gk_plaintext g) u = (Inr (gk_hash g), w')"
    by (rule GenerateAPIKey_parts [OF assms(2)])
  have groups: "keyFormatRegex_groups (gk_plaintext g)
      = Some (if env = EnvTest then EnvTest else EnvLive, gk_prefix g, secret)"
    unfolding key by (rule groups_format_key [OF parts])
  then have "secret = drop 15 (gk_plaintext g)"
    by (simp add: keyFormatRegex_groups_def Let_def split: if_splits)
  with groups have "ParseAPIKey (gk_plaintext g) = Inr \<lparr>pk_env = (if env = EnvTest then EnvTest
      else EnvLive), pk_prefix = gk_prefix g, pk_secret = drop 15 (gk_plaintext g)\<rparr>"
    by (simp add: ParseAPIKey_def)
  moreover have "VerifyPassword A (gk_plaintext g) (gk_hash g) = Inr True"
    by (rule verify_fresh_hash [OF assms(1) hash]) simp
  ultimately show ?thesis
    using parts by (simp add: ValidateKeyFormat_iff key_parts_ok_def KeyPrefixLen_def)
qed

definition three_draws :: "unit world" where
  "three_draws = (empty_world 0 ())\<lparr>rands := [Some 1, Some 2, Some 3]\<rparr>"

theorem generated_key_verifies_witness:
  "\<exists>g. fst (GenerateAPIKey ref_suite EnvTest three_draws) = Inr g
     \<and> VerifyPassword ref_suite (gk_plaintext g) (gk_hash g) = Inr True"
proof -
  have "\<exists>g w'. GenerateAPIKey ref_suite EnvTest three_draws = (Inr g, w')"
    by (simp add: GenerateAPIKey_def HashPassword_def cryptoRandReadReal_def three_draws_def
        next_rand_def ref_suite_def argon2_defs Let_def)
  then show ?thesis
    using generated_key_verifies [OF ref_suite_ok] by fastforce
qed

text \<open>A key that the suite above issues, for the examples.\<close>

definition issued :: generated_key where
  "issued = (case fst (GenerateAPIKey ref_suite EnvLive three_draws) of Inr g \<Rightarrow> g
     | Inl e \<Rightarrow> \<lparr>gk_plaintext = [], gk_hash = [], gk_prefix = []\<rparr>)"

lemma issued_ok:
  "VerifyPassword ref_suite (gk_plaintext issued) (gk_hash issued) = Inr True"
  "\<exists>p. ParseAPIKey (gk_plaintext issued) = Inr p \<and> pk_prefix p = gk_prefix issued"
  "gk_plaintext issued \<noteq> []" "length (gk_prefix issued) = 6" "list_all is_hex_lower (gk_prefix issued)"
proof -
  obtain g w' where "GenerateAPIKey ref_suite EnvLive three_draws = (Inr g, w')"
    by (auto simp: GenerateAPIKey_def HashPassword_def cryptoRandReadReal_def three_draws_def
        next_rand_def ref_suite_def argon2_defs Let_def)
  then have g: "GenerateAPIKey ref_suite EnvLive three_draws = (Inr issued, w')"
    by (simp add: issued_def)
  obtain secret u where key: "gk_plaintext issued = format_key EnvLive (gk_prefix issued) secret"
    and ok: "key_parts_ok EnvLive (gk_prefix issued) secret"
    and hash: "HashPassword ref_suite (gk_plaintext issued) u = (Inr (gk_hash issued), w')"
    by (rule GenerateAPIKey_parts [OF g]) (auto simp: key_env_defs)
  show "VerifyPassword ref_suite (gk_plaintext issued) (gk_hash issued) = Inr True"
    by (rule verify_fresh_hash [OF ref_suite_ok hash]) simp
  show "\<exists>p. ParseAPIKey (gk_plaintext issued) = Inr p \<and> pk_prefix p = gk_prefix issued"
    using groups_format_key [OF ok] by (simp add: ParseAPIKey_def key)
  show "gk_plaintext issued \<noteq> []" by (simp add: key format_key_def)
  show "length (gk_prefix issued) = 6" "list_all is_hex_lower (gk_prefix issued)"
    using ok by (simp_all add: key_parts_ok_def KeyPrefixLen_def)
qed

end
