(* ===== verification/Key_Repo.thy ===== *)
theory Key_Repo imports Key_Gen begin

text \<open>
  \<open>internal/repository/apikey.go\<close> and \<open>user.go\<close> over the tables of migrations 000003 and 000004, in
  the style of \<open>Link_Repo\<close>: a \<open>pg_\<close> definition is one statement with the constraints of its table.
  Shown: the invariant of the two tables is kept by every statement, a revoked key stays revoked
  and is no longer a candidate for its prefix, and the candidates for a prefix are live keys of it.
\<close>

section \<open>API keys\<close>

definition live_key :: "api_key \<Rightarrow> bool" where "live_key k = (k_revoked_at k = None)"

definition key_check :: "api_key \<Rightarrow> error option" where
  "key_check k =
     (if utf8_length (k_key_prefix k) \<noteq> 6
        then Some (pg_check_violation ''api_keys'' ''chk_key_prefix_length'')
      else if k_rate_limit_tier k \<notin> {TierFree, TierPro, TierUnlimited}
        then Some (pg_check_violation ''api_keys'' ''chk_rate_limit_tier'')
      else if \<not> list_all (\<lambda>s. s \<in> set ValidScopes) (k_scopes k)
        then Some (pg_check_violation ''api_keys'' ''chk_scopes_valid'')
      else None)"

definition pg_key_fk_violation :: error where
  "pg_key_fk_violation = Text (''ERROR: insert or update on table '' @ quoted ''api_keys''
     @ '' violates foreign key constraint (SQLSTATE 23503)'')"

text \<open>The columns that the \<open>INSERT\<close> does not name start as NULL.\<close>

definition pg_insert_key :: "api_key \<Rightarrow> 'r world \<Rightarrow> (error + unit) \<times> 'r world" where
  "pg_insert_key k w =
     (case key_check k of Some e \<Rightarrow> (Inl e, w) | None \<Rightarrow>
      if list_ex (\<lambda>r. k_id r = k_id k) (w_api_keys w)
        then (Inl (pg_unique_violation ''api_keys_pkey''), w)
      else if \<not> list_ex (\<lambda>u. u_id u = k_user_id k) (w_users w) then (Inl pg_key_fk_violation, w)
      else (Inr (), w\<lparr>w_api_keys := w_api_keys w
              @ [k\<lparr>k_revoked_at := None, k_last_used_at := None\<rparr>]\<rparr>))"

definition pg_update_keys :: "(api_key \<Rightarrow> bool) \<Rightarrow> (api_key \<Rightarrow> api_key) \<Rightarrow> 'r world
    \<Rightarrow> (error + nat) \<times> 'r world" where
  "pg_update_keys p f w = (Inr (fst (update_where p f (w_api_keys w))),
     w\<lparr>w_api_keys := snd (update_where p f (w_api_keys w))\<rparr>)"

definition Repository_CreateAPIKey :: "api_key \<Rightarrow> 'r world \<Rightarrow> (error + unit) \<times> 'r world" where
  "Repository_CreateAPIKey k w = (case call (pg_insert_key k) w of
       (Inl err, w') \<Rightarrow> (Inl (Wrap ''failed to create API key'' err), w')
     | (Inr _, w') \<Rightarrow> (Inr (), w'))"

definition scanAPIKey :: "error + api_key option \<Rightarrow> error + api_key" where
  "scanAPIKey row = (case row of
       Inl err \<Rightarrow> Inl (Wrap ''failed to scan API key'' err)
     | Inr None \<Rightarrow> Inl (Sentinel Repo_ErrAPIKeyNotFound)
     | Inr (Some k) \<Rightarrow> Inr k)"

definition Repository_GetAPIKeyByID :: "string \<Rightarrow> 'r world \<Rightarrow> (error + api_key) \<times> 'r world" where
  "Repository_GetAPIKeyByID i w =
     (case call (\<lambda>u. (Inr (find (\<lambda>k. k_id k = i) (w_api_keys u)), u)) w of (row, w') \<Rightarrow>
        (scanAPIKey row, w'))"

definition Repository_GetAPIKeysByPrefix :: "string \<Rightarrow> 'r world \<Rightarrow> (error + api_key list) \<times> 'r world" where
  "Repository_GetAPIKeysByPrefix prefix w =
     (case call (\<lambda>u. (Inr (filter (\<lambda>k. k_key_prefix k = prefix \<and> live_key k) (w_api_keys u)), u)) w of
        (Inl err, w') \<Rightarrow> (Inl (Wrap ''failed to get API keys by prefix'' err), w')
      | (Inr ks, w') \<Rightarrow> (Inr ks, w'))"

definition Repository_ListAPIKeysByUserID :: "string \<Rightarrow> 'r world \<Rightarrow> (error + api_key list) \<times> 'r world" where
  "Repository_ListAPIKeysByUserID userID w =
     (case call (\<lambda>u. (Inr (sort_key (\<lambda>k. - k_created_at k)
                (filter (\<lambda>k. k_user_id k = userID) (w_api_keys u))), u)) w of
        (Inl err, w') \<Rightarrow> (Inl (Wrap ''failed to list API keys'' err), w')
      | (Inr ks, w') \<Rightarrow> (Inr ks, w'))"

definition revoke_row :: "instant \<Rightarrow> api_key \<Rightarrow> api_key" where
  "revoke_row t k = k\<lparr>k_revoked_at := Some t\<rparr>"

definition Repository_RevokeAPIKey :: "string \<Rightarrow> 'r world \<Rightarrow> (error + unit) \<times> 'r world" where
  "Repository_RevokeAPIKey i w = (case time_now w of (now, w1) \<Rightarrow>
     (case call (pg_update_keys (\<lambda>k. k_id k = i \<and> live_key k) (revoke_row now)) w1 of
        (Inl err, w') \<Rightarrow> (Inl (Wrap ''failed to revoke API key'' err), w')
      | (Inr n, w') \<Rightarrow> if n = 0 then (Inl (Sentinel Repo_ErrAPIKeyNotFound), w') else (Inr (), w')))"

definition use_row :: "instant \<Rightarrow> api_key \<Rightarrow> api_key" where
  "use_row t k = k\<lparr>k_last_used_at := Some t\<rparr>"

definition Repository_UpdateAPIKeyLastUsed :: "string \<Rightarrow> 'r world \<Rightarrow> (error + unit) \<times> 'r world" where
  "Repository_UpdateAPIKeyLastUsed i w = (case time_now w of (now, w1) \<Rightarrow>
     (case call (pg_update_keys (\<lambda>k. k_id k = i) (use_row now)) w1 of
        (Inl err, w') \<Rightarrow> (Inl (Wrap ''failed to update API key last used'' err), w')
      | (Inr n, w') \<Rightarrow> (Inr (), w')))"

section \<open>Users\<close>

definition pg_insert_user :: "user \<Rightarrow> 'r world \<Rightarrow> (error + unit) \<times> 'r world" where
  "pg_insert_user u w =
     (if list_ex (\<lambda>r. u_id r = u_id u) (w_users w)
        then (Inl (pg_unique_violation ''users_pkey''), w)
      else if list_ex (\<lambda>r. u_email r = u_email u) (w_users w)
        then (Inl (pg_unique_violation ''users_email_key''), w)
      else (Inr (), w\<lparr>w_users := w_users w @ [u]\<rparr>))"

definition Repository_CreateUser :: "user \<Rightarrow> 'r world \<Rightarrow> (error + unit) \<times> 'r world" where
  "Repository_CreateUser u w = (case call (pg_insert_user u) w of
       (Inr _, w') \<Rightarrow> (Inr (), w')
     | (Inl err, w') \<Rightarrow>
         if isUniqueViolation (Some err) then (Inl (Sentinel Repo_ErrEmailExists), w')
         else (Inl (Wrap ''failed to create user'' err), w'))"

definition get_user :: "(user \<Rightarrow> bool) \<Rightarrow> string \<Rightarrow> 'r world \<Rightarrow> (error + user) \<times> 'r world" where
  "get_user p msg w = (case call (\<lambda>v. (Inr (find p (w_users v)), v)) w of
       (Inl err, w') \<Rightarrow> (Inl (Wrap msg err), w')
     | (Inr None, w') \<Rightarrow> (Inl (Sentinel Repo_ErrUserNotFound), w')
     | (Inr (Some u), w') \<Rightarrow> (Inr u, w'))"

definition Repository_GetUserByID :: "string \<Rightarrow> 'r world \<Rightarrow> (error + user) \<times> 'r world" where
  "Repository_GetUserByID i w = get_user (\<lambda>u. u_id u = i) ''failed to get user by ID'' w"

definition Repository_GetUserByEmail :: "string \<Rightarrow> 'r world \<Rightarrow> (error + user) \<times> 'r world" where
  "Repository_GetUserByEmail email w =
     get_user (\<lambda>u. u_email u = email) ''failed to get user by email'' w"

definition Repository_GetOrCreateUser :: "user \<Rightarrow> 'r world \<Rightarrow> (error + user) \<times> 'r world" where
  "Repository_GetOrCreateUser u w = (case Repository_GetUserByEmail (u_email u) w of
       (Inr existing, w1) \<Rightarrow> (Inr existing, w1)
     | (Inl err, w1) \<Rightarrow>
         if \<not> errors_is err Repo_ErrUserNotFound then (Inl err, w1)
         else (case time_now w1 of (now, w2) \<Rightarrow>
           let u' = u\<lparr>u_created_at := now\<rparr> in
           (case Repository_CreateUser u' w2 of
              (Inr _, w3) \<Rightarrow> (Inr u', w3)
            | (Inl err, w3) \<Rightarrow>
                if errors_is err Repo_ErrEmailExists then Repository_GetUserByEmail (u_email u) w3
                else (Inl err, w3))))"

section \<open>The invariant\<close>

definition keys_ok :: "user list \<Rightarrow> api_key list \<Rightarrow> bool" where
  "keys_ok us ks = (distinct (map k_id ks) \<and> (\<forall>k \<in> set ks. key_check k = None)
     \<and> k_user_id ` set ks \<subseteq> u_id ` set us)"

definition users_ok :: "user list \<Rightarrow> bool" where
  "users_ok us = (distinct (map u_id us) \<and> distinct (map u_email us))"

definition accounts_inv :: "'r world \<Rightarrow> bool" where
  "accounts_inv w = (users_ok (w_users w) \<and> keys_ok (w_users w) (w_api_keys w))"

interpretation key_table: lifecycle_table k_id live_key revoke_row
  by unfold_locales (simp_all add: revoke_row_def live_key_def)

lemma accounts_inv_frame:
  "w_users w' = w_users w \<Longrightarrow> w_api_keys w' = w_api_keys w \<Longrightarrow> accounts_inv w' = accounts_inv w"
  by (simp add: accounts_inv_def)

lemma key_check_simps [simp]:
  "key_check (k\<lparr>k_revoked_at := r, k_last_used_at := l\<rparr>) = key_check k"
  "key_check (revoke_row t k) = key_check k" "key_check (use_row t k) = key_check k"
  by (simp_all add: key_check_def revoke_row_def use_row_def)

lemma key_rows_user [simp]:
  "k_user_id (revoke_row t k) = k_user_id k" "k_user_id (use_row t k) = k_user_id k"
  "k_id (use_row t k) = k_id k"
  by (simp_all add: revoke_row_def use_row_def)

lemma insert_key_inv:
  assumes "accounts_inv w"
  shows "accounts_inv (snd (pg_insert_key k w))"
  using assms
  by (auto simp: pg_insert_key_def accounts_inv_def keys_ok_def list_ex_key split: option.split)

lemma insert_user_inv:
  assumes "accounts_inv w"
  shows "accounts_inv (snd (pg_insert_user u w))"
  using assms
  by (auto simp: pg_insert_user_def accounts_inv_def keys_ok_def users_ok_def list_ex_key)

lemma update_keys_inv:
  assumes "accounts_inv w" and "\<And>k. k_id (f k) = k_id k" "\<And>k. k_user_id (f k) = k_user_id k"
    and "\<And>k. key_check (f k) = key_check k"
  shows "accounts_inv (snd (pg_update_keys p f w))"
  using assms
  by (auto simp: pg_update_keys_def accounts_inv_def keys_ok_def set_update_where map_update_where
      image_subset_iff)

lemma time_now_inv: "accounts_inv w \<Longrightarrow> accounts_inv (snd (time_now w))"
  by (simp add: accounts_inv_def)

lemma call_inv:
  assumes "accounts_inv w" and "\<And>u. accounts_inv u \<Longrightarrow> accounts_inv (snd (f u))"
  shows "accounts_inv (snd (call f w))"
  using assms by (rule call_keeps [where P = accounts_inv]) (simp_all add: accounts_inv_def)

text \<open>The world a method leaves is the one its statement leaves.\<close>

lemma repository_calls:
  "snd (Repository_CreateAPIKey k w) = snd (call (pg_insert_key k) w)"
  "snd (Repository_GetAPIKeyByID i w)
   = snd (call (\<lambda>u. (Inr (find (\<lambda>k. k_id k = i) (w_api_keys u)), u)) w)"
  "snd (Repository_GetAPIKeysByPrefix p w) = snd (call (\<lambda>u.
     (Inr (filter (\<lambda>k. k_key_prefix k = p \<and> live_key k) (w_api_keys u)), u)) w)"
  "snd (Repository_RevokeAPIKey i w) = snd (call (pg_update_keys (\<lambda>k. k_id k = i \<and> live_key k)
     (revoke_row (fst (time_now w)))) (snd (time_now w)))"
  "snd (Repository_UpdateAPIKeyLastUsed i w) = snd (call (pg_update_keys (\<lambda>k. k_id k = i)
     (use_row (fst (time_now w)))) (snd (time_now w)))"
  "snd (Repository_CreateUser u w) = snd (call (pg_insert_user u) w)"
  by (simp_all add: Repository_CreateAPIKey_def Repository_GetAPIKeyByID_def
      Repository_GetAPIKeysByPrefix_def Repository_RevokeAPIKey_def
      Repository_UpdateAPIKeyLastUsed_def Repository_CreateUser_def case_prod_beta split: sum.split)

lemma get_user_inv: "accounts_inv w \<Longrightarrow> accounts_inv (snd (get_user p m w))"
proof -
  assume "accounts_inv w"
  then have "accounts_inv (snd (call (\<lambda>v. (Inr (find p (w_users v)), v)) w))"
    by (rule call_inv) simp
  moreover have "snd (get_user p m w) = snd (call (\<lambda>v. (Inr (find p (w_users v)), v)) w)"
    by (simp add: get_user_def case_prod_beta split: sum.split option.split)
  ultimately show ?thesis by simp
qed

lemma Repository_accounts_inv:
  assumes "accounts_inv w"
  shows "accounts_inv (snd (Repository_CreateAPIKey k w))"
    and "accounts_inv (snd (Repository_RevokeAPIKey i w))"
    and "accounts_inv (snd (Repository_UpdateAPIKeyLastUsed i w))"
    and "accounts_inv (snd (Repository_CreateUser u w))"
    and "accounts_inv (snd (Repository_GetAPIKeyByID i w))"
    and "accounts_inv (snd (Repository_GetAPIKeysByPrefix p w))"
  unfolding repository_calls
  by (simp_all add: call_inv [OF assms] call_inv [OF time_now_inv [OF assms]] insert_key_inv
      insert_user_inv update_keys_inv)

lemma GetOrCreateUser_inv:
  assumes "accounts_inv w"
  shows "accounts_inv (snd (Repository_GetOrCreateUser u w))"
proof -
  obtain r w1 where 1: "Repository_GetUserByEmail (u_email u) w = (r, w1)" by fastforce
  then have "w1 = snd (get_user (\<lambda>v. u_email v = u_email u) ''failed to get user by email'' w)"
    by (metis Repository_GetUserByEmail_def snd_conv)
  then have inv1: "accounts_inv w1" using get_user_inv [OF assms] by simp
  obtain now w2 where 2: "time_now w1 = (now, w2)" by fastforce
  then have inv2: "accounts_inv w2" using time_now_inv [OF inv1] by simp
  obtain s w3 where 3: "Repository_CreateUser (u\<lparr>u_created_at := now\<rparr>) w2 = (s, w3)" by fastforce
  then have "accounts_inv w3"
    using Repository_accounts_inv(4) [OF inv2] by (metis snd_conv)
  then have "accounts_inv (snd (Repository_GetUserByEmail (u_email u) w3))"
    unfolding Repository_GetUserByEmail_def by (rule get_user_inv)
  with inv1 \<open>accounts_inv w3\<close> show ?thesis
    by (simp add: Repository_GetOrCreateUser_def 1 2 3 split: sum.split)
qed

text \<open>The tables of users and API keys keep their invariant (distinct ids and emails, every key
  owned by a user, with a six-character prefix, known scopes and a known tier) under every method of
  the two repositories that writes, whatever the calls answer.\<close>

theorem accounts_invariant:
  assumes "accounts_inv w"
  shows "accounts_inv (snd (Repository_CreateAPIKey k w)) \<and> accounts_inv (snd (Repository_RevokeAPIKey i w))
    \<and> accounts_inv (snd (Repository_UpdateAPIKeyLastUsed i w))
    \<and> accounts_inv (snd (Repository_CreateUser u w))
    \<and> accounts_inv (snd (Repository_GetOrCreateUser u w))"
  using Repository_accounts_inv [OF assms] GetOrCreateUser_inv [OF assms] by blast

definition sample_key :: "string \<Rightarrow> string \<Rightarrow> api_key" where
  "sample_key i u = \<lparr>k_id = i, k_user_id = u, k_key_hash = ''h'', k_key_prefix = ''a1b2c3'',
     k_scopes = [ScopeRead], k_rate_limit_tier = TierFree, k_name = ''n'', k_revoked_at = None,
     k_last_used_at = None, k_created_at = 5\<rparr>"

definition key_world :: "ref_store world" where
  "key_world = (empty_world 10 (\<lambda>_. None))\<lparr>
     w_users := [\<lparr>u_id = ''u1'', u_email = ''a'', u_created_at = 1\<rparr>,
                 \<lparr>u_id = ''u2'', u_email = ''b'', u_created_at = 2\<rparr>],
     w_api_keys := [sample_key ''k1'' ''u1'', sample_key ''k2'' ''u2'']\<rparr>"

lemma key_world_inv: "accounts_inv key_world"
  by (simp add: accounts_inv_def users_ok_def keys_ok_def key_world_def key_check_def sample_key_def
      utf8_length_def tier_defs ValidScopes_def scope_defs)

theorem accounts_invariant_witness:
  "accounts_inv (snd (Repository_RevokeAPIKey ''k1'' key_world))"
  using accounts_invariant [OF key_world_inv] by blast

section \<open>What the reads and the revocation give\<close>

lemma GetAPIKeysByPrefix_live:
  assumes "Repository_GetAPIKeysByPrefix p w = (Inr ks, w')"
  shows "ks = filter (\<lambda>k. k_key_prefix k = p \<and> live_key k) (w_api_keys w)"
    and "w_api_keys w' = w_api_keys w"
proof -
  have "call (\<lambda>u. (Inr (filter (\<lambda>k. k_key_prefix k = p \<and> live_key k) (w_api_keys u)), u)) w = (Inr ks, w')"
    using assms by (auto simp: Repository_GetAPIKeysByPrefix_def split: prod.splits sum.splits)
  then obtain os where "w' = w\<lparr>outcomes := os\<rparr>"
    and "ks = filter (\<lambda>k. k_key_prefix k = p \<and> live_key k) (w_api_keys w)"
    by (elim call_at) auto
  then show "ks = filter (\<lambda>k. k_key_prefix k = p \<and> live_key k) (w_api_keys w)"
    and "w_api_keys w' = w_api_keys w" by simp_all
qed

text \<open>After a successful revocation no live row has the id, so the key is no candidate any more.\<close>

lemma RevokeAPIKey_revokes:
  assumes "Repository_RevokeAPIKey i w = (Inr x, w')"
  shows "find (\<lambda>k. k_id k = i \<and> live_key k) (w_api_keys w') = None"
    and "filter (\<lambda>k. k_id k \<noteq> i) (w_api_keys w') = filter (\<lambda>k. k_id k \<noteq> i) (w_api_keys w)"
proof -
  obtain now w1 where t: "time_now w = (now, w1)" by fastforce
  have same: "w_api_keys w1 = w_api_keys w"
    using time_now_frame(3) [of w] by (simp add: t)
  obtain n where "call (pg_update_keys (\<lambda>k. k_id k = i \<and> live_key k) (revoke_row now)) w1 = (Inr n, w')"
    using assms by (auto simp: Repository_RevokeAPIKey_def t split: prod.splits sum.splits if_splits)
  then obtain os where "w' = snd (pg_update_keys (\<lambda>k. k_id k = i \<and> live_key k) (revoke_row now)
      (w1\<lparr>outcomes := os\<rparr>))"
    by (metis call_at snd_conv)
  then have rows: "w_api_keys w' = snd (update_where (\<lambda>k. k_id k = i \<and> live_key k) (revoke_row now)
      (w_api_keys w))"
    by (simp add: pg_update_keys_def same)
  show "find (\<lambda>k. k_id k = i \<and> live_key k) (w_api_keys w') = None"
    unfolding rows by (rule key_table.none_live_after_retire)
  show "filter (\<lambda>k. k_id k \<noteq> i) (w_api_keys w') = filter (\<lambda>k. k_id k \<noteq> i) (w_api_keys w)"
    unfolding rows by (rule key_table.rest_after_retire)
qed

text \<open>What a method leaves of the keys, the clock and the store.\<close>

lemma update_keys_world:
  assumes "w' = snd (call (pg_update_keys p f) (snd (time_now w)))"
  shows "w_redis w' = w_redis w" "clock w \<le> clock w'"
    "w_api_keys w' = w_api_keys w \<or> w_api_keys w' = snd (update_where p f (w_api_keys w))"
proof -
  obtain t v where v: "time_now w = (t, v)" by fastforce
  have frame: "w_redis v = w_redis w" "w_api_keys v = w_api_keys w" "clock w \<le> clock v"
    using time_now_frame [of w] time_now_mono [OF v] by (simp_all add: v)
  obtain r x where c: "call (pg_update_keys p f) v = (r, x)" by fastforce
  then have x: "w' = x" using assms by (simp add: v)
  from c obtain os where "x = v\<lparr>outcomes := os\<rparr> \<or> x = snd (pg_update_keys p f (v\<lparr>outcomes := os\<rparr>))"
    by (rule call_at) blast
  then show "w_redis w' = w_redis w" "clock w \<le> clock w'"
    "w_api_keys w' = w_api_keys w \<or> w_api_keys w' = snd (update_where p f (w_api_keys w))"
    using frame by (auto simp: x pg_update_keys_def)
qed

lemma CreateAPIKey_world:
  assumes "w' = snd (Repository_CreateAPIKey k w)"
  shows "w_redis w' = w_redis w" "clock w' = clock w"
    "w_api_keys w' = w_api_keys w
     \<or> w_api_keys w' = w_api_keys w @ [k\<lparr>k_revoked_at := None, k_last_used_at := None\<rparr>]"
proof -
  obtain r x where c: "call (pg_insert_key k) w = (r, x)" by fastforce
  then have x: "w' = x" using assms by (simp add: repository_calls)
  from c obtain os where "x = w\<lparr>outcomes := os\<rparr> \<or> x = snd (pg_insert_key k (w\<lparr>outcomes := os\<rparr>))"
    by (rule call_at) blast
  then show "w_redis w' = w_redis w" "clock w' = clock w"
    "w_api_keys w' = w_api_keys w
     \<or> w_api_keys w' = w_api_keys w @ [k\<lparr>k_revoked_at := None, k_last_used_at := None\<rparr>]"
    by (auto simp: x pg_insert_key_def split: option.splits if_splits)
qed

end
