(* ===== verification/Http.thy ===== *)
theory Http imports Complex_Main World Go_Time begin

text \<open>
  What the handlers and the middleware share of \<open>net/http\<close>: canonical header keys, the request as
  the handlers read it, the response writer, JSON values, and \<open>internal/handler/handler.go\<close>.

  A writer keeps the header map, the status and the headers sent by the first \<open>WriteHeader\<close>, the
  chunks of the body, and the value of a panic under way. A body is what \<open>json.Encoder\<close> was given,
  or raw text; the text that the encoder prints is not modelled.
\<close>

named_theorems http_simps \<open>the effect of the response operations\<close>

section \<open>Headers\<close>

fun canonical_from :: "bool \<Rightarrow> string \<Rightarrow> string" where
  "canonical_from start [] = []"
| "canonical_from start (c # s) =
     (if start then upper_char c else lower_char c) # canonical_from (c = CHR ''-'') s"

definition canonical_key :: "string \<Rightarrow> string" where
  "canonical_key k = canonical_from True k"

type_synonym header = "string \<Rightarrow> string list"

definition no_header :: header where "no_header = (\<lambda>k. [])"

definition header_get :: "header \<Rightarrow> string \<Rightarrow> string" where
  "header_get h k = (case h (canonical_key k) of [] \<Rightarrow> [] | v # vs \<Rightarrow> v)"

definition header_set :: "string \<Rightarrow> string \<Rightarrow> header \<Rightarrow> header" where
  "header_set k v h = h(canonical_key k := [v])"

definition header_add :: "string \<Rightarrow> string \<Rightarrow> header \<Rightarrow> header" where
  "header_add k v h = h(canonical_key k := h (canonical_key k) @ [v])"

definition header_del :: "string \<Rightarrow> header \<Rightarrow> header" where
  "header_del k h = h(canonical_key k := [])"

lemma header_get_set: "header_get (header_set k v h) k' =
    (if canonical_key k' = canonical_key k then v else header_get h k')"
  by (simp add: header_get_def header_set_def)

lemma header_get_del: "header_get (header_del k h) k' =
    (if canonical_key k' = canonical_key k then [] else header_get h k')"
  by (simp add: header_get_def header_del_def)

section \<open>JSON and bodies\<close>

datatype json = JNull | JBool bool | JInt int | JNum rat | JStr string | JTime instant
  | JArr "json list" | JObj "(string \<times> json) list"

datatype chunk = Json json | Raw string

definition field :: "string \<Rightarrow> json \<Rightarrow> json option" where
  "field k j = (case j of JObj kvs \<Rightarrow> map_of kvs k | _ \<Rightarrow> None)"

text \<open>Every string inside a value.\<close>

fun json_strings :: "json \<Rightarrow> string set" where
  "json_strings (JStr s) = {s}"
| "json_strings (JArr js) = (\<Union>j \<in> set js. json_strings j)"
| "json_strings (JObj kvs) = (\<Union>kv \<in> set kvs. json_strings (snd kv))"
| "json_strings _ = {}"

definition json_opt :: "('a \<Rightarrow> json) \<Rightarrow> 'a option \<Rightarrow> json" where
  "json_opt f v = (case v of None \<Rightarrow> JNull | Some x \<Rightarrow> f x)"

text \<open>A field tagged \<open>omitempty\<close> is present only when it is not empty.\<close>

definition omit_none :: "string \<Rightarrow> ('a \<Rightarrow> json) \<Rightarrow> 'a option \<Rightarrow> (string \<times> json) list" where
  "omit_none k f v = (case v of None \<Rightarrow> [] | Some x \<Rightarrow> [(k, f x)])"

definition omit_empty :: "string \<Rightarrow> string \<Rightarrow> (string \<times> json) list" where
  "omit_empty k s = (if s = [] then [] else [(k, JStr s)])"

definition json_strs :: "string list \<Rightarrow> json" where
  "json_strs ss = JArr (map JStr ss)"

section \<open>Requests\<close>

text \<open>
  A request body is the bytes that reading it delivers and whether reading past them fails (the
  limit of \<open>http.MaxBytesReader\<close>, a broken connection). A decoder is a parameter of the handlers
  that decode; \<open>None\<close> is its error. The context of a request holds the authenticated key and the
  request id.
\<close>

record body =
  b_bytes :: string
  b_fails :: bool

record request =
  rq_method :: string
  rq_path :: string
  rq_query :: "(string \<times> string) list"
  rq_header :: header
  rq_remote_addr :: string
  rq_params :: "(string \<times> string) list"
  rq_content_length :: int
  rq_in_body :: body
  rq_auth :: "auth_context option"
  rq_request_id :: string

definition lookup_str :: "(string \<times> string) list \<Rightarrow> string \<Rightarrow> string" where
  "lookup_str kvs k = (case map_of kvs k of None \<Rightarrow> [] | Some v \<Rightarrow> v)"

definition query_get :: "request \<Rightarrow> string \<Rightarrow> string" where
  "query_get q k = lookup_str (rq_query q) k"

text \<open>\<open>chi.URLParam(r, k)\<close> and \<open>r.PathValue(k)\<close>\<close>

definition path_value :: "request \<Rightarrow> string \<Rightarrow> string" where
  "path_value q k = lookup_str (rq_params q) k"

definition request_header :: "request \<Rightarrow> string \<Rightarrow> string" where
  "request_header q k = header_get (rq_header q) k"

definition plain_request :: "string \<Rightarrow> string \<Rightarrow> request" where
  "plain_request method path = \<lparr>rq_method = method, rq_path = path, rq_query = [],
     rq_header = no_header, rq_remote_addr = ''192.0.2.1:4711'', rq_params = [],
     rq_content_length = 0, rq_in_body = \<lparr>b_bytes = [], b_fails = False\<rparr>, rq_auth = None,
     rq_request_id = []\<rparr>"

section \<open>Responses\<close>

record writer =
  rw_header :: header
  rw_reply :: "(int \<times> header) option"
  rw_body :: "chunk list"
  rw_panic :: "string option"

definition new_writer :: writer where
  "new_writer = \<lparr>rw_header = no_header, rw_reply = None, rw_body = [], rw_panic = None\<rparr>"

definition set_header :: "string \<Rightarrow> string \<Rightarrow> writer \<Rightarrow> writer" where
  "set_header k v x = x\<lparr>rw_header := header_set k v (rw_header x)\<rparr>"

definition add_header :: "string \<Rightarrow> string \<Rightarrow> writer \<Rightarrow> writer" where
  "add_header k v x = x\<lparr>rw_header := header_add k v (rw_header x)\<rparr>"

definition del_header :: "string \<Rightarrow> writer \<Rightarrow> writer" where
  "del_header k x = x\<lparr>rw_header := header_del k (rw_header x)\<rparr>"

text \<open>Only the first status counts; a body written before one sends 200.\<close>

definition WriteHeader :: "int \<Rightarrow> writer \<Rightarrow> writer" where
  "WriteHeader status x = (case rw_reply x of
       None \<Rightarrow> x\<lparr>rw_reply := Some (status, rw_header x)\<rparr>
     | Some _ \<Rightarrow> x)"

definition Write_body :: "chunk \<Rightarrow> writer \<Rightarrow> writer" where
  "Write_body c x = (WriteHeader 200 x)\<lparr>rw_body := rw_body x @ [c]\<rparr>"

definition panics :: "string \<Rightarrow> writer \<Rightarrow> writer" where
  "panics m x = x\<lparr>rw_panic := Some m\<rparr>"

text \<open>What the client sees: without any write the server sends 200 with the headers set.\<close>

definition status_of :: "writer \<Rightarrow> int" where
  "status_of x = (case rw_reply x of None \<Rightarrow> 200 | Some (s, h) \<Rightarrow> s)"

definition sent_header :: "writer \<Rightarrow> string \<Rightarrow> string" where
  "sent_header x k = header_get (case rw_reply x of None \<Rightarrow> rw_header x | Some (s, h) \<Rightarrow> h) k"

type_synonym 'r handler = "request \<Rightarrow> writer \<Rightarrow> 'r world \<Rightarrow> writer \<times> 'r world"

lemma WriteHeader_fresh [http_simps]:
  "rw_reply x = None \<Longrightarrow> status_of (WriteHeader s x) = s"
  "rw_reply x = None \<Longrightarrow> rw_reply (WriteHeader s x) = Some (s, rw_header x)"
  "rw_body (WriteHeader s x) = rw_body x" "rw_panic (WriteHeader s x) = rw_panic x"
  "rw_header (WriteHeader s x) = rw_header x"
  by (simp_all add: WriteHeader_def status_of_def split: option.split)

lemma WriteHeader_once [http_simps]: "WriteHeader s (WriteHeader s' x) = WriteHeader s' x"
  by (simp add: WriteHeader_def split: option.split)

lemma Write_body_simps [http_simps]:
  "rw_body (Write_body c x) = rw_body x @ [c]" "rw_panic (Write_body c x) = rw_panic x"
  "rw_header (Write_body c x) = rw_header x"
  "rw_reply (Write_body c x) = rw_reply (WriteHeader 200 x)"
  by (simp_all add: Write_body_def http_simps)

lemma Write_body_status [http_simps]: "status_of (Write_body c x) = status_of (WriteHeader 200 x)"
  by (simp add: status_of_def Write_body_def)

lemma set_header_simps [http_simps]:
  "rw_body (set_header k v x) = rw_body x" "rw_panic (set_header k v x) = rw_panic x"
  "rw_reply (set_header k v x) = rw_reply x" "rw_header (set_header k v x) = header_set k v (rw_header x)"
  "status_of (set_header k v x) = status_of x"
  by (simp_all add: set_header_def status_of_def)

lemma add_header_simps [http_simps]:
  "rw_body (add_header k v x) = rw_body x" "rw_panic (add_header k v x) = rw_panic x"
  "rw_reply (add_header k v x) = rw_reply x" "status_of (add_header k v x) = status_of x"
  by (simp_all add: add_header_def status_of_def)

lemma del_header_simps [http_simps]:
  "rw_body (del_header k x) = rw_body x" "rw_panic (del_header k x) = rw_panic x"
  "rw_reply (del_header k x) = rw_reply x" "status_of (del_header k x) = status_of x"
  by (simp_all add: del_header_def status_of_def)

lemma new_writer_simps [simp]:
  "rw_header new_writer = no_header" "rw_reply new_writer = None" "rw_body new_writer = []"
  "rw_panic new_writer = None"
  by (simp_all add: new_writer_def)

section \<open>handler.go\<close>

definition writeJSON :: "int \<Rightarrow> json \<Rightarrow> writer \<Rightarrow> writer" where
  "writeJSON status data x =
     Write_body (Json data) (WriteHeader status (set_header ''Content-Type'' ''application/json'' x))"

definition ErrorResponse :: "string \<Rightarrow> string \<Rightarrow> json" where
  "ErrorResponse message code = JObj [(''error'', JStr message), (''code'', JStr code)]"

definition Handler_Hello :: "'r handler" where
  "Handler_Hello q x w = (writeJSON 200 (JObj [(''message'', JStr ''Hello from Penshort!''),
     (''version'', JStr ''0.1.0'')]) x, w)"

definition Handler_NotFound :: "'r handler" where
  "Handler_NotFound q x w = (writeJSON 404 (JObj [(''error'', JStr ''resource not found'')]) x, w)"

definition Handler_MethodNotAllowed :: "'r handler" where
  "Handler_MethodNotAllowed q x w =
     (writeJSON 405 (JObj [(''error'', JStr ''method not allowed'')]) x, w)"

lemma writeJSON_simps [http_simps]:
  "rw_reply x = None \<Longrightarrow> status_of (writeJSON s j x) = s"
  "rw_body (writeJSON s j x) = rw_body x @ [Json j]"
  "rw_panic (writeJSON s j x) = rw_panic x"
  "rw_reply (writeJSON s j x) \<noteq> None"
  by (simp_all add: writeJSON_def http_simps WriteHeader_def status_of_def split: option.split)

end
