(* ===== verification/Auth.thy ===== *)
theory Auth imports Key_Repo Http begin

text \<open>
  \<open>internal/cache/auth.go\<close>, \<open>internal/middleware/auth.go\<close> and \<open>scope.go\<close>, with the request context
  of \<open>internal/auth/context.go\<close>: authenticating a request by its API key through a Redis cache of
  five minutes in front of the table, and the scope check. The parameters are the Redis server \<open>R\<close>,
  the JSON codec \<open>J\<close> of the cached context, the hash suite \<open>A\<close> and the SHA-256 digest \<open>D\<close>.

  The goroutine that stamps \<open>last_used_at\<close> takes its effect where it is started; its call may be
  cancelled, as every call may.
\<close>

section \<open>The cache of authenticated contexts\<close>

record cached_auth_context =
  ca_key_id :: string
  ca_key_prefix :: string
  ca_user_id :: string
  ca_scopes :: "string list"
  ca_rate_limit_tier :: string

record auth_codec =
  auth_marshal :: "cached_auth_context \<Rightarrow> string"
  auth_unmarshal :: "string \<Rightarrow> cached_auth_context option"

definition authCachePrefix :: string where "authCachePrefix = ''auth:ctx:''"
definition authCacheTTL :: duration where "authCacheTTL = 5 * minute"

definition of_cached_auth :: "cached_auth_context \<Rightarrow> auth_context" where
  "of_cached_auth c = \<lparr>a_key_id = ca_key_id c, a_key_prefix = ca_key_prefix c,
     a_user_id = ca_user_id c, a_scopes = ca_scopes c, a_rate_limit_tier = ca_rate_limit_tier c\<rparr>"

definition to_cached_auth :: "auth_context \<Rightarrow> cached_auth_context" where
  "to_cached_auth a = \<lparr>ca_key_id = a_key_id a, ca_key_prefix = a_key_prefix a,
     ca_user_id = a_user_id a, ca_scopes = a_scopes a, ca_rate_limit_tier = a_rate_limit_tier a\<rparr>"

definition auth_cache_key :: "string \<Rightarrow> string" where
  "auth_cache_key cacheKey = authCachePrefix @ cacheKey"

definition Cache_GetAuthContext :: "'r redis_ops \<Rightarrow> auth_codec \<Rightarrow> string \<Rightarrow> 'r world
    \<Rightarrow> auth_context option \<times> 'r world" where
  "Cache_GetAuthContext R J cacheKey w = (case call (rd_get R (auth_cache_key cacheKey)) w of
       (Inl err, w') \<Rightarrow> (None, w')
     | (Inr None, w') \<Rightarrow> (None, w')
     | (Inr (Some data), w') \<Rightarrow> (map_option of_cached_auth (auth_unmarshal J data), w'))"

definition Cache_SetAuthContext :: "'r redis_ops \<Rightarrow> auth_codec \<Rightarrow> string \<Rightarrow> auth_context \<Rightarrow> 'r world
    \<Rightarrow> (error + unit) \<times> 'r world" where
  "Cache_SetAuthContext R J cacheKey auth w =
     call (rd_setex R (auth_cache_key cacheKey) (auth_marshal J (to_cached_auth auth)) authCacheTTL) w"

definition Cache_DeleteAuthContext :: "'r redis_ops \<Rightarrow> string \<Rightarrow> 'r world \<Rightarrow> (error + unit) \<times> 'r world" where
  "Cache_DeleteAuthContext R cacheKey w = call (rd_del R [auth_cache_key cacheKey]) w"

definition Cache_InvalidateUserAuthContexts :: "string \<Rightarrow> 'r world \<Rightarrow> (error + unit) \<times> 'r world" where
  "Cache_InvalidateUserAuthContexts userID w = (Inr (), w)"

section \<open>The context of a request\<close>

definition ContextWithAuth :: "auth_context \<Rightarrow> request \<Rightarrow> request" where
  "ContextWithAuth a q = q\<lparr>rq_auth := Some a\<rparr>"

definition AuthFromContext :: "request \<Rightarrow> auth_context option" where
  "AuthFromContext q = rq_auth q"

definition MustAuthFromContext :: "request \<Rightarrow> error + auth_context" where
  "MustAuthFromContext q = (case AuthFromContext q of
       None \<Rightarrow> Inl (Panic ''auth context not found - ensure auth middleware is applied'')
     | Some a \<Rightarrow> Inr a)"

definition UserIDFromContext :: "request \<Rightarrow> string" where
  "UserIDFromContext q = (case AuthFromContext q of None \<Rightarrow> [] | Some a \<Rightarrow> a_user_id a)"

definition KeyIDFromContext :: "request \<Rightarrow> string" where
  "KeyIDFromContext q = (case AuthFromContext q of None \<Rightarrow> [] | Some a \<Rightarrow> a_key_id a)"

section \<open>The middleware\<close>

definition minAuthDuration :: duration where "minAuthDuration = 200000000"

definition sleep :: "duration \<Rightarrow> 'r world \<Rightarrow> 'r world" where
  "sleep d w = w\<lparr>clock := clock w + d\<rparr>"

definition extractAPIKey :: "request \<Rightarrow> string" where
  "extractAPIKey q =
     (let authHeader = request_header q ''Authorization'' in
      if authHeader \<noteq> [] \<and> has_prefix authHeader ''Bearer '' then trim_prefix authHeader ''Bearer ''
      else request_header q ''X-API-Key'')"

definition writeAuthError :: "writer \<Rightarrow> writer" where
  "writeAuthError x =
     Write_body (Raw (''{'' @ quoted ''error'' @ '':{'' @ quoted ''code'' @ '':'' @ quoted ''UNAUTHORIZED''
         @ '','' @ quoted ''message'' @ '':'' @ quoted ''Invalid or missing API key'' @ ''}}''))
       (WriteHeader 401 (set_header ''Content-Type'' ''application/json'' x))"

lemma writeAuthError_simps [http_simps]:
  "rw_reply x = None \<Longrightarrow> status_of (writeAuthError x) = 401"
  "rw_panic (writeAuthError x) = rw_panic x"
  by (simp_all add: writeAuthError_def http_simps)

text \<open>The loop over the candidates: an error of one candidate skips it, the first match ends it.\<close>

fun match_key :: "hash_suite \<Rightarrow> string \<Rightarrow> api_key list \<Rightarrow> error + api_key option" where
  "match_key A key [] = Inr None"
| "match_key A key (k # ks) = (case VerifyPassword A key (k_key_hash k) of
       Inl (Panic m) \<Rightarrow> Inl (Panic m)
     | Inl err \<Rightarrow> match_key A key ks
     | Inr matches \<Rightarrow> if matches then Inr (Some k) else match_key A key ks)"

definition context_of :: "api_key \<Rightarrow> auth_context" where
  "context_of k = \<lparr>a_key_id = k_id k, a_key_prefix = k_key_prefix k, a_user_id = k_user_id k,
     a_scopes = k_scopes k, a_rate_limit_tier = k_rate_limit_tier k\<rparr>"

definition auth_lookup :: "'r redis_ops \<Rightarrow> auth_codec \<Rightarrow> hash_suite \<Rightarrow> string \<Rightarrow> string \<Rightarrow> string
    \<Rightarrow> 'r world \<Rightarrow> (error + auth_context) \<times> 'r world" where
  "auth_lookup R J A key cacheKey prefix w = (case Repository_GetAPIKeysByPrefix prefix w of
       (Inl err, w1) \<Rightarrow> (Inl err, w1)
     | (Inr keys, w1) \<Rightarrow> (case match_key A key keys of
           Inl err \<Rightarrow> (Inl err, w1)
         | Inr None \<Rightarrow> (Inl (Text ''invalid_key''), w1)
         | Inr (Some k) \<Rightarrow>
             let authCtx = context_of k;
                 w2 = snd (Cache_SetAuthContext R J cacheKey authCtx w1);
                 w3 = snd (Repository_UpdateAPIKeyLastUsed (k_id k) w2)
             in (Inr authCtx, w3)))"

definition authenticate :: "'r redis_ops \<Rightarrow> auth_codec \<Rightarrow> hash_suite \<Rightarrow> digest \<Rightarrow> string \<Rightarrow> 'r world
    \<Rightarrow> (error + auth_context) \<times> 'r world" where
  "authenticate R J A D key w =
     (if key = [] then (Inl (Text ''missing_key''), w)
      else case ParseAPIKey key of
        Inl err \<Rightarrow> (Inl err, w)
      | Inr parsed \<Rightarrow>
          let cacheKey = QuickHash D key in
          (case Cache_GetAuthContext R J cacheKey w of
             (Some authCtx, w1) \<Rightarrow> (Inr authCtx, w1)
           | (None, w1) \<Rightarrow> auth_lookup R J A key cacheKey (pk_prefix parsed) w1))"

text \<open>Every refusal is the same answer; the deferred sleep runs after the handler.\<close>

definition Middleware_Auth :: "'r redis_ops \<Rightarrow> auth_codec \<Rightarrow> hash_suite \<Rightarrow> digest \<Rightarrow> 'r handler
    \<Rightarrow> 'r handler" where
  "Middleware_Auth R J A D nxt q x w =
     (case time_now w of (startTime, w1) \<Rightarrow>
      case (case authenticate R J A D (extractAPIKey q) w1 of
              (Inl (Panic m), w2) \<Rightarrow> (panics m x, w2)
            | (Inl err, w2) \<Rightarrow> (writeAuthError x, w2)
            | (Inr authCtx, w2) \<Rightarrow> nxt (ContextWithAuth authCtx q) x w2) of (x', w3) \<Rightarrow>
      case time_now w3 of (now, w4) \<Rightarrow>
        let elapsed = now - startTime in
        (x', if elapsed < minAuthDuration then sleep (minAuthDuration - elapsed) w4 else w4))"

section \<open>Scopes\<close>

definition writeScopeError :: "int \<Rightarrow> string \<Rightarrow> string \<Rightarrow> writer \<Rightarrow> writer" where
  "writeScopeError status code message x =
     Write_body (Raw (''{'' @ quoted ''error'' @ '':{'' @ quoted ''code'' @ '':'' @ quoted code
         @ '','' @ quoted ''message'' @ '':'' @ quoted message @ ''}}''))
       (WriteHeader status (set_header ''Content-Type'' ''application/json'' x))"

definition RequireScope :: "string list \<Rightarrow> 'r handler \<Rightarrow> 'r handler" where
  "RequireScope required nxt q x w = (case AuthFromContext q of
       None \<Rightarrow> (writeScopeError 401 ''UNAUTHORIZED'' ''Authentication required'' x, w)
     | Some authCtx \<Rightarrow>
         if ScopeAdmin \<in> set (a_scopes authCtx) then nxt q x w
         else if list_ex (\<lambda>req. req \<in> set (a_scopes authCtx)) required then nxt q x w
         else (case required of
             [] \<Rightarrow> (panics ''runtime error: index out of range [0] with length 0'' x, w)
           | r # rs \<Rightarrow> (writeScopeError 403 ''FORBIDDEN''
                 (''Insufficient permissions. Required scope: '' @ r) x, w)))"

definition RequireRead :: "'r handler \<Rightarrow> 'r handler" where "RequireRead = RequireScope [ScopeRead]"
definition RequireWrite :: "'r handler \<Rightarrow> 'r handler" where "RequireWrite = RequireScope [ScopeWrite]"
definition RequireAdmin :: "'r handler \<Rightarrow> 'r handler" where "RequireAdmin = RequireScope [ScopeAdmin]"
definition RequireWebhook :: "'r handler \<Rightarrow> 'r handler" where
  "RequireWebhook = RequireScope [ScopeWebhook]"

lemmas require_defs = RequireRead_def RequireWrite_def RequireAdmin_def RequireWebhook_def

text \<open>For one required scope the check is \<open>HasScope\<close> of the model.\<close>

lemma RequireScope_one:
  "RequireScope [s] nxt q x w = (case rq_auth q of
       None \<Rightarrow> (writeScopeError 401 ''UNAUTHORIZED'' ''Authentication required'' x, w)
     | Some a \<Rightarrow> if AuthContext_HasScope a s then nxt q x w
         else (writeScopeError 403 ''FORBIDDEN''
                 (''Insufficient permissions. Required scope: '' @ s) x, w))"
  by (simp add: RequireScope_def AuthFromContext_def ctx_scope.has_scope_iff split: option.split)

section \<open>What authentication rests on\<close>

definition cached_ctx :: "'r redis_ops \<Rightarrow> auth_codec \<Rightarrow> string \<Rightarrow> instant \<Rightarrow> 'r \<Rightarrow> auth_context option" where
  "cached_ctx R J cacheKey t s = Option.bind (r_get R (auth_cache_key cacheKey) t s)
     (\<lambda>data. map_option of_cached_auth (auth_unmarshal J data))"

definition verifies :: "hash_suite \<Rightarrow> string \<Rightarrow> api_key \<Rightarrow> bool" where
  "verifies A key k = (VerifyPassword A key (k_key_hash k) = Inr True)"

lemma match_key_Some:
  "match_key A key ks = Inr (Some k) \<Longrightarrow> k \<in> set ks \<and> verifies A key k"
  by (induction A key ks rule: match_key.induct)
    (auto simp: verifies_def split: sum.splits error.splits if_splits)

lemma GetAuthContext_world:
  assumes "Cache_GetAuthContext R J c w = (r, w')"
  shows "\<exists>os. w' = w\<lparr>outcomes := os\<rparr>" and "r = Some a \<Longrightarrow> cached_ctx R J c (clock w) (w_redis w) = Some a"
proof -
  obtain g v where g: "call (rd_get R (auth_cache_key c)) w = (g, v)" by fastforce
  have v: "v = w'" using assms g
    by (auto simp: Cache_GetAuthContext_def split: sum.splits option.splits)
  from g obtain os where os: "v = w\<lparr>outcomes := os\<rparr> \<or> v = snd (rd_get R (auth_cache_key c) (w\<lparr>outcomes := os\<rparr>))"
    and got: "\<And>y. g = Inr y \<Longrightarrow> rd_get R (auth_cache_key c) (w\<lparr>outcomes := os\<rparr>) = (Inr y, v)"
    by (rule call_at) blast
  then show "\<exists>os. w' = w\<lparr>outcomes := os\<rparr>" by (auto simp: rd_get_def v)
  show "cached_ctx R J c (clock w) (w_redis w) = Some a" if "r = Some a"
    using assms g that got
    by (auto simp: Cache_GetAuthContext_def cached_ctx_def rd_get_def split: sum.splits option.splits)
qed

lemma GetAPIKeysByPrefix_world:
  assumes "Repository_GetAPIKeysByPrefix p w = (r, w')"
  shows "\<exists>os. w' = w\<lparr>outcomes := os\<rparr>"
proof -
  let ?f = "\<lambda>u. (Inr (filter (\<lambda>k. k_key_prefix k = p \<and> live_key k) (w_api_keys u)), u)"
  obtain g v where g: "call ?f w = (g, v)" by fastforce
  with assms have "v = w'"
    by (auto simp: Repository_GetAPIKeysByPrefix_def split: sum.splits)
  with g show ?thesis by (elim call_at) auto
qed

text \<open>A key is accepted for a cached context, or for a live row of its prefix that verifies it.\<close>

lemma auth_lookup_Inr:
  assumes "auth_lookup R J A key c p w = (Inr a, w')"
  obtains k where "k \<in> set (w_api_keys w)" and "live_key k" and "k_key_prefix k = p"
    and "verifies A key k" and "a = context_of k"
    and "w' = snd (Repository_UpdateAPIKeyLastUsed (k_id k) (snd (Cache_SetAuthContext R J c a
           (snd (Repository_GetAPIKeysByPrefix p w)))))"
proof -
  obtain ks w1 where 1: "Repository_GetAPIKeysByPrefix p w = (Inr ks, w1)"
    using assms by (auto simp: auth_lookup_def split: prod.splits sum.splits)
  obtain k where 2: "match_key A key ks = Inr (Some k)" and rest: "a = context_of k"
    "w' = snd (Repository_UpdateAPIKeyLastUsed (k_id k) (snd (Cache_SetAuthContext R J c a w1)))"
    using assms by (auto simp: auth_lookup_def 1 Let_def split: sum.splits option.splits)
  have "ks = filter (\<lambda>k. k_key_prefix k = p \<and> live_key k) (w_api_keys w)"
    by (rule GetAPIKeysByPrefix_live(1) [OF 1])
  with match_key_Some [OF 2] rest 1 show thesis
    by (intro that [of k]) auto
qed

lemma authenticate_Inr:
  assumes "authenticate R J A D key w = (Inr a, w')"
  obtains (cached) p where "ParseAPIKey key = Inr p"
    and "cached_ctx R J (QuickHash D key) (clock w) (w_redis w) = Some a"
  | (verified) p k where "ParseAPIKey key = Inr p" and "k \<in> set (w_api_keys w)" and "live_key k"
    and "k_key_prefix k = pk_prefix p" and "verifies A key k" and "a = context_of k"
proof -
  obtain p where p: "ParseAPIKey key = Inr p"
    using assms by (auto simp: authenticate_def Let_def split: if_splits sum.splits)
  obtain r w1 where g: "Cache_GetAuthContext R J (QuickHash D key) w = (r, w1)" by fastforce
  obtain os where w1: "w1 = w\<lparr>outcomes := os\<rparr>" using GetAuthContext_world(1) [OF g] by blast
  show thesis
  proof (cases r)
    case (Some b)
    with assms g p have "b = a" by (auto simp: authenticate_def Let_def split: if_splits)
    with GetAuthContext_world(2) [OF g] Some p cached show thesis by blast
  next
    case None
    with assms g p have "auth_lookup R J A key (QuickHash D key) (pk_prefix p) w1 = (Inr a, w')"
      by (auto simp: authenticate_def Let_def split: if_splits)
    then show thesis
      by (rule auth_lookup_Inr) (use p w1 verified in auto)
  qed
qed

end
