(* ===== verification/Auth_Revocation.thy ===== *)
theory Auth_Revocation imports Auth begin

text \<open>
  What a revocation achieves. Authentication reads the cache before the table and a revocation does
  not touch the cache, so a revoked key may still be accepted; \<open>auth_step\<close> is the state machine of
  everything that can happen to one key \<open>K\<close>, and the time to live of the cache bounds the delay.
\<close>

section \<open>The state machine\<close>

text \<open>
  Requests with any key (another key with the same 128-bit cache key is excluded), creation of keys
  (a new key does not verify \<open>K\<close>), revocations, and anything that leaves the keys and their cache
  alone: time passing, every other component.
\<close>

inductive auth_step :: "'r redis_ops \<Rightarrow> auth_codec \<Rightarrow> hash_suite \<Rightarrow> digest \<Rightarrow> string
    \<Rightarrow> 'r world \<Rightarrow> 'r world \<Rightarrow> bool"
  for R :: "'r redis_ops" and J :: auth_codec and A :: hash_suite and D :: digest and K :: string where
  request: "key = K \<or> QuickHash D key \<noteq> QuickHash D K \<Longrightarrow>
    auth_step R J A D K w (snd (authenticate R J A D key w))"
| create: "\<not> verifies A K k \<Longrightarrow> auth_step R J A D K w (snd (Repository_CreateAPIKey k w))"
| revoke: "auth_step R J A D K w (snd (Repository_RevokeAPIKey i w))"
| elsewhere: "w_api_keys w' = w_api_keys w \<Longrightarrow> clock w \<le> clock w' \<Longrightarrow>
    (\<forall>c u. r_get R (auth_cache_key c) u (w_redis w') = r_get R (auth_cache_key c) u (w_redis w)) \<Longrightarrow>
    auth_step R J A D K w w'"

definition no_live_key :: "hash_suite \<Rightarrow> string \<Rightarrow> 'r world \<Rightarrow> bool" where
  "no_live_key A K w = (\<forall>k \<in> set (w_api_keys w). live_key k \<longrightarrow> \<not> verifies A K k)"

text \<open>Every cached context is gone at the latest one time to live after the present.\<close>

definition auth_bounded :: "'r redis_ops \<Rightarrow> 'r world \<Rightarrow> bool" where
  "auth_bounded R w = (\<forall>c u. clock w + authCacheTTL \<le> u \<longrightarrow>
     r_get R (auth_cache_key c) u (w_redis w) = None)"

text \<open>From time \<open>t\<close> on nothing is cached for \<open>K\<close>, and no live row verifies it.\<close>

definition fading :: "'r redis_ops \<Rightarrow> hash_suite \<Rightarrow> digest \<Rightarrow> string \<Rightarrow> instant \<Rightarrow> 'r world \<Rightarrow> bool" where
  "fading R A D K t w = (no_live_key A K w
     \<and> (\<forall>u. t \<le> u \<longrightarrow> r_get R (auth_cache_key (QuickHash D K)) u (w_redis w) = None))"

section \<open>The effect of the operations on keys, clock and store\<close>

lemma live_use_row [simp]: "live_key (use_row t k) = live_key k"
  and verifies_rows [simp]: "verifies A K (use_row t k) = verifies A K k"
    "verifies A K (revoke_row t k) = verifies A K k"
    "verifies A K (k\<lparr>k_revoked_at := r, k_last_used_at := l\<rparr>) = verifies A K k"
  by (simp_all add: live_key_def use_row_def verifies_def revoke_row_def)

lemma no_live_key_update:
  assumes "no_live_key A K w" and "\<And>k. live_key (f k) \<Longrightarrow> live_key k"
    and "\<And>k. verifies A K (f k) = verifies A K k"
    and "w_api_keys w' = w_api_keys w \<or> w_api_keys w' = snd (update_where p f (w_api_keys w))"
  shows "no_live_key A K w'"
  using assms by (auto simp: no_live_key_def set_update_where split: if_splits)

lemma SetAuthContext_world:
  assumes "w' = snd (Cache_SetAuthContext R J c a w)"
  obtains v where "w_redis w' = w_redis w \<or>
      w_redis w' = r_setex R (auth_cache_key c) v authCacheTTL (clock w) (w_redis w)"
    and "w_api_keys w' = w_api_keys w" and "clock w' = clock w"
proof -
  obtain r x where "Cache_SetAuthContext R J c a w = (r, x)" by fastforce
  moreover from this assms have "w' = x" by simp
  ultimately show thesis
    unfolding Cache_SetAuthContext_def
    by (elim call_at) (auto simp: rd_setex_def intro: that)
qed

text \<open>
  Authentication moves the clock forward, revives no key, and writes the cache only for a key that
  a live row verifies, under its cache key and for the time to live from the present.
\<close>

definition auth_moved :: "'r redis_ops \<Rightarrow> hash_suite \<Rightarrow> digest \<Rightarrow> string \<Rightarrow> 'r world \<Rightarrow> 'r world \<Rightarrow> bool" where
  "auth_moved R A D key w w' = (clock w \<le> clock w' \<and> (\<forall>K. no_live_key A K w \<longrightarrow> no_live_key A K w')
     \<and> (w_redis w' = w_redis w \<or> (\<not> no_live_key A key w \<and> (\<exists>v. w_redis w' =
          r_setex R (auth_cache_key (QuickHash D key)) v authCacheTTL (clock w) (w_redis w)))))"

lemma no_live_key_outcomes [simp]: "no_live_key A K (w\<lparr>outcomes := os\<rparr>) = no_live_key A K w"
  by (simp add: no_live_key_def)

lemma auth_moved_outcomes [simp]: "auth_moved R A D key w (w\<lparr>outcomes := os\<rparr>)"
  by (simp add: auth_moved_def)

lemma auth_lookup_moved:
  assumes "w' = snd (auth_lookup R J A key (QuickHash D key) p w)"
  shows "auth_moved R A D key w w'"
proof -
  obtain r w1 where l: "auth_lookup R J A key (QuickHash D key) p w = (r, w1)" by fastforce
  obtain g u where g: "Repository_GetAPIKeysByPrefix p w = (g, u)" by fastforce
  obtain os where u: "u = w\<lparr>outcomes := os\<rparr>" using GetAPIKeysByPrefix_world [OF g] by blast
  show ?thesis
  proof (cases r)
    case (Inl e)
    with l g have "w1 = u"
      by (auto simp: auth_lookup_def Let_def split: sum.splits option.splits)
    with assms l u show ?thesis by simp
  next
    case (Inr a)
    from l [unfolded Inr] obtain k where k: "k \<in> set (w_api_keys w)" "live_key k" "verifies A key k"
      and w1: "w1 = snd (Repository_UpdateAPIKeyLastUsed (k_id k)
        (snd (Cache_SetAuthContext R J (QuickHash D key) a u)))"
      by (rule auth_lookup_Inr) (simp add: g)
    obtain x where x: "x = snd (Cache_SetAuthContext R J (QuickHash D key) a u)" by simp
    obtain d where store: "w_redis x = w_redis u \<or>
        w_redis x = r_setex R (auth_cache_key (QuickHash D key)) d authCacheTTL (clock u) (w_redis u)"
      and same: "w_api_keys x = w_api_keys u" "clock x = clock u"
      by (rule SetAuthContext_world [OF x])
    note upd = update_keys_world [OF w1 [folded x, unfolded repository_calls]]
    have "\<not> no_live_key A key w" using k by (auto simp: no_live_key_def)
    moreover have "no_live_key A K w1" if "no_live_key A K w" for K
      using upd(3) that same u by (intro no_live_key_update [of A K x _ w1]) (auto simp: no_live_key_def)
    ultimately show ?thesis
      using assms l upd(1,2) store same u by (auto simp: auth_moved_def)
  qed
qed

lemma authenticate_moved: "auth_moved R A D key w (snd (authenticate R J A D key w))"
proof -
  have stay: "auth_moved R A D key w w" using auth_moved_outcomes [of R A D key w "outcomes w"] by simp
  obtain r u where g: "Cache_GetAuthContext R J (QuickHash D key) w = (r, u)" by fastforce
  obtain os where u: "u = w\<lparr>outcomes := os\<rparr>" using GetAuthContext_world(1) [OF g] by blast
  have "auth_moved R A D key w (snd (auth_lookup R J A key (QuickHash D key) p u))" for p
    using auth_lookup_moved [OF refl, of R A D key u J p] by (simp add: u auth_moved_def)
  then show ?thesis
    using stay g u by (auto simp: authenticate_def Let_def split: sum.split option.split)
qed

section \<open>The invariants\<close>

context redis_expiry
begin

lemma cache_write_read:
  assumes "t + authCacheTTL \<le> u"
  shows "r_get R (auth_cache_key c) u (r_setex R (auth_cache_key c') v authCacheTTL t s)
    = (if c = c' then None else r_get R (auth_cache_key c) u s)"
  using assms setex_expires setex_other [of "auth_cache_key c" "auth_cache_key c'" u v authCacheTTL t s]
  by (auto simp: auth_cache_key_def)

lemma bounded_step:
  assumes "auth_step R J A D K w w'" and "auth_bounded R w"
  shows "auth_bounded R w'"
  using assms
proof cases
  case (request key)
  have "auth_moved R A D key w w'"
    unfolding request(1) by (rule authenticate_moved)
  then show ?thesis
    using assms(2) cache_write_read [of "clock w"] by (auto simp: auth_moved_def auth_bounded_def)
next
  case (create k)
  with CreateAPIKey_world [OF create(1)] assms(2) show ?thesis by (simp add: auth_bounded_def)
next
  case (revoke i)
  with update_keys_world [OF revoke [unfolded repository_calls]] assms(2) show ?thesis
    by (auto simp: auth_bounded_def)
next
  case elsewhere
  with assms(2) show ?thesis by (auto simp: auth_bounded_def)
qed

lemma fading_step:
  assumes "auth_step R J A D K w w'" and "fading R A D K t w"
  shows "fading R A D K t w'"
  using assms
proof cases
  case (request key)
  have m: "auth_moved R A D key w w'"
    unfolding request(1) by (rule authenticate_moved)
  have other: "r_get R (auth_cache_key (QuickHash D K)) u (w_redis w')
      = r_get R (auth_cache_key (QuickHash D K)) u (w_redis w)" for u
  proof (cases "QuickHash D key = QuickHash D K")
    case True
    with request(2) assms(2) have "no_live_key A key w" by (auto simp: fading_def)
    with m show ?thesis by (simp add: auth_moved_def)
  next
    case False
    then have "auth_cache_key (QuickHash D K) \<noteq> auth_cache_key (QuickHash D key)"
      by (simp add: auth_cache_key_def)
    with m show ?thesis by (auto simp: auth_moved_def setex_other)
  qed
  from m assms(2) show ?thesis by (simp add: fading_def other auth_moved_def)
next
  case (create k)
  with CreateAPIKey_world [OF create(1)] assms(2) show ?thesis
    by (auto simp: fading_def no_live_key_def)
next
  case (revoke i)
  note upd = update_keys_world [OF revoke [unfolded repository_calls]]
  have "no_live_key A K w'"
    by (rule no_live_key_update [OF _ _ _ upd(3)])
      (use assms(2) in \<open>auto simp: fading_def live_key_def revoke_row_def verifies_def\<close>)
  with upd(1) assms(2) show ?thesis by (simp add: fading_def)
next
  case elsewhere
  with assms(2) show ?thesis by (auto simp: fading_def no_live_key_def)
qed

lemma steps_keep:
  assumes "(auth_step R J A D K)\<^sup>*\<^sup>* w w'"
  shows "auth_bounded R w \<Longrightarrow> auth_bounded R w'" and "fading R A D K t w \<Longrightarrow> fading R A D K t w'"
  using assms
  by (induction rule: rtranclp_induct; blast intro: bounded_step fading_step)+

lemma fading_refuses:
  assumes "fading R A D K t w" and "t \<le> clock w"
  shows "fst (authenticate R J A D K w) \<noteq> Inr a"
proof
  assume "fst (authenticate R J A D K w) = Inr a"
  then obtain w' where "authenticate R J A D K w = (Inr a, w')"
    by (metis prod.collapse)
  then show False
  proof (cases rule: authenticate_Inr)
    case cached
    with assms show False by (simp add: cached_ctx_def fading_def)
  next
    case verified
    with assms show False by (auto simp: fading_def no_live_key_def)
  qed
qed

lemma revoked_refused:
  assumes "auth_bounded R w" and "Repository_RevokeAPIKey i w = (Inr x, w1)"
    and "\<And>k. k \<in> set (w_api_keys w) \<Longrightarrow> verifies A K k \<Longrightarrow> k_id k = i \<or> \<not> live_key k"
    and "(auth_step R J A D K)\<^sup>*\<^sup>* w1 w2" and "clock w1 + authCacheTTL \<le> clock w2"
  shows "fst (authenticate R J A D K w2) \<noteq> Inr a"
proof -
  have w1: "w1 = snd (Repository_RevokeAPIKey i w)" by (simp add: assms(2))
  note upd = update_keys_world [OF w1 [unfolded repository_calls]]
  have "auth_bounded R w1"
    using assms(1) upd(1,2) by (auto simp: auth_bounded_def)
  moreover have "\<not> verifies A K k" if "k \<in> set (w_api_keys w1)" and "live_key k" for k
  proof
    assume v: "verifies A K k"
    have "find (\<lambda>k. k_id k = i \<and> live_key k) (w_api_keys w1) = None"
      by (rule RevokeAPIKey_revokes(1) [OF assms(2)])
    with that have "k_id k \<noteq> i" by (auto simp: find_None_iff)
    then have "k \<in> set (filter (\<lambda>k. k_id k \<noteq> i) (w_api_keys w1))" using that(1) by simp
    then have "k \<in> set (w_api_keys w)"
      unfolding RevokeAPIKey_revokes(2) [OF assms(2)] by simp
    with assms(3) v \<open>k_id k \<noteq> i\<close> that(2) show False by blast
  qed
  ultimately have "fading R A D K (clock w1 + authCacheTTL) w1"
    by (simp add: fading_def no_live_key_def auth_bounded_def)
  then have "fading R A D K (clock w1 + authCacheTTL) w2"
    by (rule steps_keep(2) [OF assms(4)])
  then show ?thesis using assms(5) by (rule fading_refuses)
qed

end


definition issued_world :: "ref_store world" where
  "issued_world = key_world\<lparr>w_api_keys := [(sample_key ''k1'' ''u1'')\<lparr>k_key_hash := gk_hash issued,
     k_key_prefix := gk_prefix issued\<rparr>, sample_key ''k2'' ''u2'']\<rparr>"

definition later :: "duration \<Rightarrow> 'r world \<Rightarrow> 'r world" where
  "later d w = w\<lparr>clock := clock w + d\<rparr>"


text \<open>Until then a cached key goes on being accepted: the revocation leaves the cache alone.\<close>

lemma revocation_ignores_cache:
  assumes "ParseAPIKey key = Inr p" and "key \<noteq> []" and "w1 = snd (Repository_RevokeAPIKey i w)"
    and "cached_ctx R J (QuickHash D key) (clock w1) (w_redis w) = Some a" and "outcomes w1 = []"
  shows "fst (authenticate R J A D key w1) = Inr a"
proof -
  have "w_redis w1 = w_redis w"
    by (rule update_keys_world(1) [OF assms(3) [unfolded repository_calls]])
  with assms have "fst (Cache_GetAuthContext R J (QuickHash D key) w1) = Some a"
    by (auto simp: Cache_GetAuthContext_def rd_get_def cached_ctx_def split: option.splits bind_splits)
  with assms(1,2) show ?thesis
    by (cases "Cache_GetAuthContext R J (QuickHash D key) w1") (simp add: authenticate_def Let_def)
qed

section \<open>The middleware\<close>

text \<open>C21: The authentication middleware lets a request through only with a context that authentication
  gave for the presented key (a cached context of its cache key, or a live row of its prefix whose hash
  verifies it); every other request gets the same 401 answer, without the handler being run.\<close>

theorem auth_gate:
  assumes "Middleware_Auth R J A D nxt q new_writer w = (x, w')" and "rw_panic x = None"
  shows "(status_of x = 401 \<and> rw_body x = rw_body (writeAuthError new_writer))
    \<or> (\<exists>a u. fst (nxt (ContextWithAuth a q) new_writer u) = x
        \<and> (cached_ctx R J (QuickHash D (extractAPIKey q)) (clock (snd (time_now w))) (w_redis w) = Some a
           \<or> (\<exists>p k. ParseAPIKey (extractAPIKey q) = Inr p \<and> k \<in> set (w_api_keys w) \<and> live_key k
               \<and> k_key_prefix k = pk_prefix p
               \<and> VerifyPassword A (extractAPIKey q) (k_key_hash k) = Inr True \<and> a = context_of k)))"
proof -
  obtain t w1 where 1: "time_now w = (t, w1)" by fastforce
  have same: "w_api_keys w1 = w_api_keys w" "w_redis w1 = w_redis w"
    using time_now_frame [of w] by (simp_all add: 1)
  obtain r w2 where 2: "authenticate R J A D (extractAPIKey q) w1 = (r, w2)" by fastforce
  have x: "x = (case r of Inl (Panic m) \<Rightarrow> panics m new_writer | Inl err \<Rightarrow> writeAuthError new_writer
      | Inr a \<Rightarrow> fst (nxt (ContextWithAuth a q) new_writer w2))"
    using assms(1)
    by (auto simp: Middleware_Auth_def 1 2 Let_def case_prod_beta split: sum.splits error.splits)
  show ?thesis
  proof (cases r)
    case (Inl e)
    with x assms(2) have "x = writeAuthError new_writer"
      by (cases e) (simp_all add: panics_def)
    then show ?thesis by (simp add: http_simps)
  next
    case (Inr a)
    then have *: "fst (nxt (ContextWithAuth a q) new_writer w2) = x" by (simp add: x)
    from 2 [unfolded Inr] show ?thesis
    proof (cases rule: authenticate_Inr)
      case (cached p)
      with * 1 same show ?thesis by auto
    next
      case (verified p k)
      with * same show ?thesis by (auto simp: verifies_def)
    qed
  qed
qed

theorem auth_gate_witness:
  "status_of (fst (Middleware_Auth ref_redis \<lparr>auth_marshal = (\<lambda>c. []), auth_unmarshal = (\<lambda>s. None)\<rparr>
      ref_suite id Handler_Hello (plain_request ''GET'' ''/api/v1/links'') new_writer key_world)) = 401"
  (is "status_of (fst ?run) = _")
proof -
  have key: "extractAPIKey (plain_request ''GET'' ''/api/v1/links'') = []"
    by (simp add: extractAPIKey_def request_header_def header_get_def plain_request_def no_header_def
        Let_def)
  have run: "fst ?run = writeAuthError new_writer"
    by (simp add: Middleware_Auth_def authenticate_def key Let_def case_prod_beta)
  then have "rw_panic (fst ?run) = None" by (simp add: http_simps)
  from auth_gate [OF prod.collapse [symmetric] this] show ?thesis
    by (simp add: run http_simps)
qed

text \<open>The answer to a request, accepted or not, is never given before the minimum duration.\<close>

lemma auth_takes_time:
  assumes "Middleware_Auth R J A D nxt q x w = (x', w')"
  shows "fst (time_now w) + minAuthDuration \<le> clock w'"
proof -
  obtain t w1 where 1: "time_now w = (t, w1)" by fastforce
  obtain y w3 where 3: "(case authenticate R J A D (extractAPIKey q) w1 of
      (Inl (Panic m), w2) \<Rightarrow> (panics m x, w2)
    | (Inl err, w2) \<Rightarrow> (writeAuthError x, w2)
    | (Inr authCtx, w2) \<Rightarrow> nxt (ContextWithAuth authCtx q) x w2) = (y, w3)" by fastforce
  obtain now w4 where 4: "time_now w3 = (now, w4)" by fastforce
  have "clock w4 = now" using time_now_mono [OF 4] by simp
  with assms show ?thesis
    by (auto simp: Middleware_Auth_def 1 3 4 Let_def sleep_def split: if_splits)
qed

end
