(* ===== verification/Key_Handler.thy ===== *)
theory Key_Handler imports Auth begin

text \<open>
  \<open>internal/handler/apikey.go\<close>: creating, listing, revoking and rotating the API keys of the
  authenticated user. The parameters are the hash suite \<open>A\<close>, the decoder \<open>DEC\<close> of the request body
  and \<open>U\<close>, the text of a ULID made at a time from an entropy (github.com/oklog/ulid).

  Shown: a response carries the hash of no key; a user's requests leave the keys of every other user
  alone and answer as if the other users' keys did not exist; a key that was created authenticates.
\<close>

record api_key_create_request =
  kq_name :: string
  kq_scopes :: "string list"

type_synonym ulid_maker = "instant \<Rightarrow> nat \<Rightarrow> string"

definition ulid_Make :: "ulid_maker \<Rightarrow> 'r world \<Rightarrow> string \<times> 'r world" where
  "ulid_Make U w = (case time_now w of (t, w1) \<Rightarrow> (case next_rand w1 of (e, w2) \<Rightarrow>
     (U t (case e of None \<Rightarrow> 0 | Some n \<Rightarrow> n), w2)))"

definition writeAPIKeyError :: "int \<Rightarrow> string \<Rightarrow> string \<Rightarrow> writer \<Rightarrow> writer" where
  "writeAPIKeyError status code message x =
     Write_body (Json (JObj [(''error'', JObj [(''code'', JStr code), (''message'', JStr message)])]))
       (WriteHeader status (set_header ''Content-Type'' ''application/json'' x))"

text \<open>The JSON of the responses; \<open>name\<close> and \<open>last_used_at\<close> are omitted when empty.\<close>

definition key_response_json :: "api_key_response \<Rightarrow> json" where
  "key_response_json r = JObj ([(''id'', JStr (kr_id r))] @ omit_empty ''name'' (kr_name r)
     @ [(''key_prefix'', JStr (kr_key_prefix r)), (''scopes'', json_strs (kr_scopes r)),
        (''rate_limit_tier'', JStr (kr_rate_limit_tier r)), (''created_at'', JTime (kr_created_at r))]
     @ omit_none ''last_used_at'' JTime (kr_last_used_at r) @ [(''revoked'', JBool (kr_revoked r))])"

definition key_create_json :: "api_key_create_response \<Rightarrow> json" where
  "key_create_json r = JObj ([(''id'', JStr (kc_id r)), (''key'', JStr (kc_key r))]
     @ omit_empty ''name'' (kc_name r)
     @ [(''key_prefix'', JStr (kc_key_prefix r)), (''scopes'', json_strs (kc_scopes r)),
        (''rate_limit_tier'', JStr (kc_rate_limit_tier r)), (''created_at'', JTime (kc_created_at r))])"

definition key_rotate_json :: "api_key_rotate_response \<Rightarrow> json" where
  "key_rotate_json r = JObj [(''old_key_id'', JStr (ro_old_key_id r)),
     (''old_key_revoked_at'', JTime (ro_old_key_revoked_at r)),
     (''new_key'', key_create_json (ro_new_key r))]"

definition encode_with :: "int \<Rightarrow> json \<Rightarrow> writer \<Rightarrow> writer" where
  "encode_with status j x =
     Write_body (Json j) (WriteHeader status (set_header ''Content-Type'' ''application/json'' x))"

definition key_create_response :: "api_key \<Rightarrow> string \<Rightarrow> api_key_create_response" where
  "key_create_response k plaintext = \<lparr>kc_id = k_id k, kc_key = plaintext, kc_name = k_name k,
     kc_key_prefix = k_key_prefix k, kc_scopes = k_scopes k, kc_rate_limit_tier = k_rate_limit_tier k,
     kc_created_at = k_created_at k\<rparr>"

section \<open>Create\<close>

definition first_invalid_scope :: "string list \<Rightarrow> string option" where
  "first_invalid_scope scopes = find (\<lambda>scope. scope \<notin> set ValidScopes) scopes"

definition generation_failed :: "error \<Rightarrow> writer \<Rightarrow> writer" where
  "generation_failed err x = (case err of Panic m \<Rightarrow> panics m x
     | _ \<Rightarrow> writeAPIKeyError 500 ''INTERNAL_ERROR'' ''Failed to generate API key'' x)"

definition store_new_key :: "ulid_maker \<Rightarrow> auth_context \<Rightarrow> api_key_create_request \<Rightarrow> generated_key
    \<Rightarrow> writer \<Rightarrow> 'r world \<Rightarrow> writer \<times> 'r world" where
  "store_new_key U authCtx req g x w =
     (case ulid_Make U w of (i, w1) \<Rightarrow>
      case time_now w1 of (now, w2) \<Rightarrow>
      let apiKey = \<lparr>k_id = i, k_user_id = a_user_id authCtx, k_key_hash = gk_hash g,
            k_key_prefix = gk_prefix g, k_scopes = kq_scopes req, k_rate_limit_tier = TierFree,
            k_name = kq_name req, k_revoked_at = None, k_last_used_at = None, k_created_at = now\<rparr>
      in (case Repository_CreateAPIKey apiKey w2 of
           (Inl err, w3) \<Rightarrow>
             (writeAPIKeyError 500 ''INTERNAL_ERROR'' ''Failed to create API key'' x, w3)
         | (Inr _, w3) \<Rightarrow>
             (encode_with 201 (key_create_json (key_create_response apiKey (gk_plaintext g))) x, w3)))"

definition APIKeyHandler_CreateAPIKey :: "hash_suite \<Rightarrow> ulid_maker
    \<Rightarrow> (body \<Rightarrow> api_key_create_request option) \<Rightarrow> 'r handler" where
  "APIKeyHandler_CreateAPIKey A U DEC q x w = (case AuthFromContext q of
       None \<Rightarrow> (writeAPIKeyError 401 ''UNAUTHORIZED'' ''Authentication required'' x, w)
     | Some authCtx \<Rightarrow> (case DEC (rq_in_body q) of
           None \<Rightarrow> (writeAPIKeyError 400 ''INVALID_REQUEST'' ''Invalid request body'' x, w)
         | Some req \<Rightarrow> (case first_invalid_scope (kq_scopes req) of
               Some scope \<Rightarrow> (writeAPIKeyError 400 ''INVALID_SCOPE'' (''Invalid scope: '' @ scope
                   @ ''. Valid scopes: read, write, webhook, admin'') x, w)
             | None \<Rightarrow>
                 let req = (if kq_scopes req = [] then req\<lparr>kq_scopes := [ScopeRead]\<rparr> else req) in
                 (case GenerateAPIKey A EnvLive w of
                    (Inl err, w1) \<Rightarrow> (generation_failed err x, w1)
                  | (Inr g, w1) \<Rightarrow> store_new_key U authCtx req g x w1))))"

section \<open>List\<close>

definition APIKeyHandler_ListAPIKeys :: "'r handler" where
  "APIKeyHandler_ListAPIKeys q x w = (case AuthFromContext q of
       None \<Rightarrow> (writeAPIKeyError 401 ''UNAUTHORIZED'' ''Authentication required'' x, w)
     | Some authCtx \<Rightarrow> (case Repository_ListAPIKeysByUserID (a_user_id authCtx) w of
           (Inl err, w1) \<Rightarrow> (writeAPIKeyError 500 ''INTERNAL_ERROR'' ''Failed to list API keys'' x, w1)
         | (Inr keys, w1) \<Rightarrow>
             let responses = map APIKey_ToResponse keys in
             (Write_body (Json (JObj [(''keys'', JArr (map key_response_json responses))]))
                (set_header ''Content-Type'' ''application/json'' x), w1)))"

section \<open>Revoke and rotate\<close>

text \<open>
  The checks that both operations make: the key must exist, belong to the user and be live; each
  failure is a 404 of the same code, with the message the operation uses for it.
\<close>

definition not_found :: "string \<Rightarrow> writer \<Rightarrow> writer" where
  "not_found message x = writeAPIKeyError 404 ''KEY_NOT_FOUND'' message x"

definition with_own_key :: "string \<Rightarrow> (api_key \<Rightarrow> auth_context \<Rightarrow> writer \<Rightarrow> 'r world \<Rightarrow> writer \<times> 'r world)
    \<Rightarrow> 'r handler" where
  "with_own_key absent act q x w = (case AuthFromContext q of
       None \<Rightarrow> (writeAPIKeyError 401 ''UNAUTHORIZED'' ''Authentication required'' x, w)
     | Some authCtx \<Rightarrow>
         let keyID = path_value q ''key_id'' in
         if keyID = [] then (writeAPIKeyError 400 ''INVALID_REQUEST'' ''Key ID is required'' x, w)
         else (case Repository_GetAPIKeyByID keyID w of
             (Inl err, w1) \<Rightarrow> (not_found absent x, w1)
           | (Inr key, w1) \<Rightarrow>
               if k_user_id key \<noteq> a_user_id authCtx then (not_found absent x, w1)
               else if APIKey_IsRevoked key
                 then (not_found ''API key not found or already revoked'' x, w1)
               else act key authCtx x w1))"

definition APIKeyHandler_RevokeAPIKey :: "'r handler" where
  "APIKeyHandler_RevokeAPIKey q x w = with_own_key ''API key not found or already revoked''
     (\<lambda>key authCtx x w. case Repository_RevokeAPIKey (path_value q ''key_id'') w of
          (Inl err, w1) \<Rightarrow> (writeAPIKeyError 500 ''INTERNAL_ERROR'' ''Failed to revoke API key'' x, w1)
        | (Inr _, w1) \<Rightarrow> (WriteHeader 204 x, w1)) q x w"

definition rotate_key :: "ulid_maker \<Rightarrow> api_key \<Rightarrow> generated_key \<Rightarrow> writer \<Rightarrow> 'r world
    \<Rightarrow> writer \<times> 'r world" where
  "rotate_key U oldKey g x w =
     (case time_now w of (now, w1) \<Rightarrow>
      case ulid_Make U w1 of (i, w2) \<Rightarrow>
      let newKey = \<lparr>k_id = i, k_user_id = k_user_id oldKey, k_key_hash = gk_hash g,
            k_key_prefix = gk_prefix g, k_scopes = k_scopes oldKey,
            k_rate_limit_tier = k_rate_limit_tier oldKey, k_name = k_name oldKey,
            k_revoked_at = None, k_last_used_at = None, k_created_at = now\<rparr>
      in (case Repository_CreateAPIKey newKey w2 of
           (Inl err, w3) \<Rightarrow>
             (writeAPIKeyError 500 ''INTERNAL_ERROR'' ''Failed to rotate API key'' x, w3)
         | (Inr _, w3) \<Rightarrow>
             let w4 = snd (Repository_RevokeAPIKey (k_id oldKey) w3);
                 response = \<lparr>ro_old_key_id = k_id oldKey, ro_old_key_revoked_at = now,
                   ro_new_key = key_create_response newKey (gk_plaintext g)\<rparr>
             in (encode_with 201 (key_rotate_json response) x, w4)))"

definition APIKeyHandler_RotateAPIKey :: "hash_suite \<Rightarrow> ulid_maker \<Rightarrow> 'r handler" where
  "APIKeyHandler_RotateAPIKey A U q x w = with_own_key ''API key not found''
     (\<lambda>oldKey authCtx x w. case GenerateAPIKey A EnvLive w of
          (Inl err, w1) \<Rightarrow> (generation_failed err x, w1)
        | (Inr g, w1) \<Rightarrow> rotate_key U oldKey g x w1) q x w"

section \<open>Ownership\<close>

definition foreign_keys :: "string \<Rightarrow> 'r world \<Rightarrow> api_key list" where
  "foreign_keys u w = filter (\<lambda>k. k_user_id k \<noteq> u) (w_api_keys w)"

definition owns :: "string \<Rightarrow> string \<Rightarrow> 'r world \<Rightarrow> bool" where
  "owns u i w = (\<forall>k \<in> set (w_api_keys w). k_id k = i \<longrightarrow> k_user_id k = u)"

lemma foreign_keys_same: "w_api_keys w' = w_api_keys w \<Longrightarrow> foreign_keys u w' = foreign_keys u w"
  by (simp add: foreign_keys_def)

lemma owns_same: "w_api_keys w' = w_api_keys w \<Longrightarrow> owns u i w' = owns u i w"
  by (simp add: owns_def)

lemma create_keeps_foreign:
  assumes "k_user_id k = u"
  shows "foreign_keys u (snd (Repository_CreateAPIKey k w)) = foreign_keys u w"
    and "owns u i w \<Longrightarrow> owns u i (snd (Repository_CreateAPIKey k w))"
  using CreateAPIKey_world(3) [OF refl, of k w] assms by (auto simp: foreign_keys_def owns_def)

lemma revoke_keeps_foreign:
  assumes "owns u i w"
  shows "foreign_keys u (snd (Repository_RevokeAPIKey i w)) = foreign_keys u w"
  using update_keys_world(3) [OF repository_calls(4), of i w] assms
  by (auto simp: foreign_keys_def owns_def intro!: filter_update_where)

lemma generate_keeps_keys [simp]: "w_api_keys (snd (GenerateAPIKey A env w)) = w_api_keys w"
  by (simp add: GenerateAPIKey_def HashPassword_def cryptoRandReadReal_def Let_def case_prod_beta
      split: option.split sum.split)

lemma ulid_keeps_keys [simp]: "w_api_keys (snd (ulid_Make U w)) = w_api_keys w"
  by (simp add: ulid_Make_def case_prod_beta)

lemma store_keeps_foreign:
  "foreign_keys (a_user_id a) (snd (store_new_key U a req g x w)) = foreign_keys (a_user_id a) w"
proof -
  obtain i w1 where 1: "ulid_Make U w = (i, w1)" by fastforce
  obtain t w2 where 2: "time_now w1 = (t, w2)" by fastforce
  have "w_api_keys w2 = w_api_keys w"
    using ulid_keeps_keys [of U w] time_now_frame(3) [of w1] by (simp add: 1 2)
  then have "foreign_keys (a_user_id a) w2 = foreign_keys (a_user_id a) w"
    by (rule foreign_keys_same)
  then show ?thesis
    by (simp add: store_new_key_def 1 2 Let_def case_prod_beta create_keeps_foreign(1)
        split: sum.split)
qed

lemma rotate_keeps_foreign:
  assumes "owns (k_user_id old) (k_id old) w"
  shows "foreign_keys (k_user_id old) (snd (rotate_key U old g x w)) = foreign_keys (k_user_id old) w"
proof -
  obtain t w1 where 1: "time_now w = (t, w1)" by fastforce
  obtain i w2 where 2: "ulid_Make U w1 = (i, w2)" by fastforce
  have same: "w_api_keys w2 = w_api_keys w"
    using ulid_keeps_keys [of U w1] time_now_frame(3) [of w] by (simp add: 1 2)
  let ?k = "\<lparr>k_id = i, k_user_id = k_user_id old, k_key_hash = gk_hash g, k_key_prefix = gk_prefix g,
    k_scopes = k_scopes old, k_rate_limit_tier = k_rate_limit_tier old, k_name = k_name old,
    k_revoked_at = None, k_last_used_at = None, k_created_at = t\<rparr>"
  obtain r w3 where 3: "Repository_CreateAPIKey ?k w2 = (r, w3)" by fastforce
  have "foreign_keys (k_user_id old) w3 = foreign_keys (k_user_id old) w"
    using create_keeps_foreign(1) [of ?k "k_user_id old" w2] foreign_keys_same [OF same] by (simp add: 3)
  moreover have "owns (k_user_id old) (k_id old) w3"
    using create_keeps_foreign(2) [of ?k "k_user_id old" "k_id old" w2] owns_same [OF same] assms
    by (simp add: 3)
  ultimately show ?thesis
    using revoke_keeps_foreign [of "k_user_id old" "k_id old" w3]
    by (auto simp: rotate_key_def 1 2 3 Let_def split: sum.split)
qed

lemma GetAPIKeyByID_row:
  assumes "Repository_GetAPIKeyByID i w = (r, w')"
  shows "w_api_keys w' = w_api_keys w" and "r = Inr k \<Longrightarrow> k \<in> set (w_api_keys w) \<and> k_id k = i"
proof -
  let ?f = "\<lambda>u. (Inr (find (\<lambda>k. k_id k = i) (w_api_keys u)), u)"
  obtain g v where g: "call ?f w = (g, v)" by fastforce
  with assms have v: "v = w'" and r: "r = scanAPIKey g" by (auto simp: Repository_GetAPIKeyByID_def)
  from g obtain os where v': "v = w\<lparr>outcomes := os\<rparr>"
    and got: "\<And>y. g = Inr y \<Longrightarrow> y = find (\<lambda>k. k_id k = i) (w_api_keys w)"
    by (elim call_at) auto
  show "w_api_keys w' = w_api_keys w" unfolding v [symmetric] v' by simp
  show "k \<in> set (w_api_keys w) \<and> k_id k = i" if "r = Inr k"
    using that r got
    by (auto simp: scanAPIKey_def split: sum.splits option.splits dest!: find_Some_in)
qed

text \<open>What the three checks of a request on one key leave.\<close>

lemma with_own_key_cases:
  obtains (refused) status code msg where
    "fst (with_own_key m act q x w) = writeAPIKeyError status code msg x" and "status \<in> {400, 401, 404}"
    and "w_api_keys (snd (with_own_key m act q x w)) = w_api_keys w"
  | (allowed) a key w1 where "rq_auth q = Some a" and "key \<in> set (w_api_keys w)"
    and "k_id key = path_value q ''key_id''" and "k_user_id key = a_user_id a" and "live_key key"
    and "w_api_keys w1 = w_api_keys w" and "with_own_key m act q x w = act key a x w1"
proof -
  let ?i = "path_value q ''key_id''"
  obtain r w1 where r: "Repository_GetAPIKeyByID ?i w = (r, w1)" by fastforce
  note row = GetAPIKeyByID_row [OF r]
  show thesis
  proof (cases "rq_auth q")
    case None
    then show thesis 
      by (intro refused [of 401 "''UNAUTHORIZED''"]) (simp_all add: with_own_key_def AuthFromContext_def)
  next
    case (Some a)
    show thesis
    proof (cases "?i = []")
      case True
      with Some show thesis
        by (intro refused [of 400 "''INVALID_REQUEST''"]) (simp_all add: with_own_key_def AuthFromContext_def)
    next
      case False
      show thesis
      proof (cases "\<exists>key. r = Inr key \<and> k_user_id key = a_user_id a \<and> \<not> APIKey_IsRevoked key")
        case True
        then obtain key where "r = Inr key" "k_user_id key = a_user_id a" "\<not> APIKey_IsRevoked key"
          by blast
        with Some False r row show thesis
          by (intro allowed [of a key w1])
            (auto simp: with_own_key_def AuthFromContext_def Let_def APIKey_IsRevoked_def live_key_def)
      next
        case absent: False
        have "\<exists>msg. fst (with_own_key m act q x w) = writeAPIKeyError 404 ''KEY_NOT_FOUND'' msg x"
          and "w_api_keys (snd (with_own_key m act q x w)) = w_api_keys w"
          using absent Some False r row
          by (auto simp: with_own_key_def AuthFromContext_def not_found_def Let_def split: sum.split)
        then show thesis by (auto intro: refused)
      qed
    qed
  qed
qed

lemma with_own_key_foreign:
  assumes "accounts_inv w" and "rq_auth q = Some a"
    and "\<And>key w1. k_user_id key = a_user_id a \<Longrightarrow> k_id key = path_value q ''key_id'' \<Longrightarrow>
      owns (a_user_id a) (k_id key) w1 \<Longrightarrow>
      foreign_keys (a_user_id a) (snd (act key a x w1)) = foreign_keys (a_user_id a) w1"
  shows "foreign_keys (a_user_id a) (snd (with_own_key m act q x w)) = foreign_keys (a_user_id a) w"
proof (cases rule: with_own_key_cases [of m act q x w])
  case (refused s c m)
  then show ?thesis using foreign_keys_same by blast
next
  case (allowed b key w1)
  have "owns (a_user_id a) (k_id key) w1"
    using allowed assms(1,2)
    by (auto simp: owns_def accounts_inv_def keys_ok_def distinct_map inj_on_def)
  with allowed assms(2,3) foreign_keys_same [OF allowed(6)] show ?thesis by simp
qed

text \<open>C23: A user's requests to create, list, revoke and rotate API keys leave the keys of every other
  user as they are, whatever the request says and whatever the calls answer.\<close>

theorem key_ownership:
  fixes w :: "'r world"
  assumes "accounts_inv w" and "rq_auth q = Some a"
  shows "foreign_keys (a_user_id a) (snd (APIKeyHandler_CreateAPIKey A U DEC q x w))
      = foreign_keys (a_user_id a) w
    \<and> foreign_keys (a_user_id a) (snd (APIKeyHandler_ListAPIKeys q x w)) = foreign_keys (a_user_id a) w
    \<and> foreign_keys (a_user_id a) (snd (APIKeyHandler_RevokeAPIKey q x w)) = foreign_keys (a_user_id a) w
    \<and> foreign_keys (a_user_id a) (snd (APIKeyHandler_RotateAPIKey A U q x w))
      = foreign_keys (a_user_id a) w"
proof -
  let ?u = "a_user_id a"
  have create: "foreign_keys ?u (snd (APIKeyHandler_CreateAPIKey A U DEC q x w)) = foreign_keys ?u w"
  proof -
    obtain g w1 where "GenerateAPIKey A EnvLive w = (g, w1)" by fastforce
    moreover from this have "foreign_keys ?u w1 = foreign_keys ?u w"
      using generate_keeps_keys [of A EnvLive w] by (intro foreign_keys_same) simp
    ultimately show ?thesis
      using assms(2)
      by (auto simp: APIKeyHandler_CreateAPIKey_def AuthFromContext_def Let_def store_keeps_foreign
          split: option.split sum.split)
  qed
  have list: "foreign_keys ?u (snd (APIKeyHandler_ListAPIKeys q x w)) = foreign_keys ?u w"
  proof -
    let ?f = "\<lambda>u. (Inr (sort_key (\<lambda>k. - k_created_at k)
                (filter (\<lambda>k. k_user_id k = ?u) (w_api_keys u))), u)"
    have "w_api_keys (snd (call ?f w)) = w_api_keys w" by (rule call_same) simp_all
    then show ?thesis
      using assms(2)
      by (auto simp: APIKeyHandler_ListAPIKeys_def AuthFromContext_def Repository_ListAPIKeysByUserID_def
          Let_def case_prod_beta foreign_keys_def split: sum.split)
  qed
  have revoke: "foreign_keys ?u (snd (APIKeyHandler_RevokeAPIKey q x w)) = foreign_keys ?u w"
    unfolding APIKeyHandler_RevokeAPIKey_def
    by (rule with_own_key_foreign [OF assms])
      (simp add: case_prod_beta revoke_keeps_foreign split: sum.split)
  have rotate: "foreign_keys ?u (snd (APIKeyHandler_RotateAPIKey A U q x w)) = foreign_keys ?u w"
    unfolding APIKeyHandler_RotateAPIKey_def
  proof (rule with_own_key_foreign [OF assms])
    fix key :: api_key and w1 :: "'r world"
    assume key: "k_user_id key = ?u" "owns ?u (k_id key) w1"
    obtain g w2 where g: "GenerateAPIKey A EnvLive w1 = (g, w2)" by fastforce
    have same: "w_api_keys w2 = w_api_keys w1"
      using generate_keeps_keys [of A EnvLive w1] by (simp add: g)
    have "owns (k_user_id key) (k_id key) w2" and w2: "foreign_keys ?u w2 = foreign_keys ?u w1"
      using key owns_same [OF same] foreign_keys_same [OF same] by simp_all
    then have "foreign_keys ?u (snd (rotate_key U key h x w2)) = foreign_keys ?u w1" for h
      using rotate_keeps_foreign [of key w2 U h x] key(1) by simp
    with w2 show "foreign_keys ?u (snd (case GenerateAPIKey A EnvLive w1
        of (Inl err, w1) \<Rightarrow> (generation_failed err x, w1) | (Inr g, w1) \<Rightarrow> rotate_key U key g x w1))
        = foreign_keys ?u w1"
      by (simp add: g split: sum.split)
  qed
  from create list revoke rotate show ?thesis by blast
qed

definition user_request :: "string \<Rightarrow> string \<Rightarrow> request" where
  "user_request u keyID = (plain_request ''DELETE'' ''/api/v1/api-keys/k'')\<lparr>rq_params := [(''key_id'', keyID)],
     rq_auth := Some \<lparr>a_key_id = ''k9'', a_key_prefix = ''a1b2c3'', a_user_id = u, a_scopes = [ScopeAdmin],
       a_rate_limit_tier = TierFree\<rparr>\<rparr>"

theorem key_ownership_witness:
  "foreign_keys ''u1'' (snd (APIKeyHandler_RevokeAPIKey (user_request ''u1'' ''k2'') new_writer key_world))
   = foreign_keys ''u1'' key_world"
  using key_ownership [OF key_world_inv, of "user_request ''u1'' ''k2''"
      "\<lparr>a_key_id = ''k9'', a_key_prefix = ''a1b2c3'', a_user_id = ''u1'', a_scopes = [ScopeAdmin],
       a_rate_limit_tier = TierFree\<rparr>"]
  by (simp add: user_request_def)

section \<open>A created key\<close>

text \<open>The rows of a world in which every call is up, after a successful creation.\<close>

lemma CreateAPIKey_up:
  assumes "Repository_CreateAPIKey k w = (Inr y, w')" and "outcomes w = []"
  shows "w' = w\<lparr>w_api_keys := w_api_keys w @ [k\<lparr>k_revoked_at := None, k_last_used_at := None\<rparr>]\<rparr>"
  using assms
  by (auto simp: Repository_CreateAPIKey_def pg_insert_key_def split: sum.splits option.splits if_splits)

lemma generate_keeps_redis: "w_redis (snd (GenerateAPIKey A env w)) = w_redis w"
  by (simp add: GenerateAPIKey_def HashPassword_def cryptoRandReadReal_def Let_def case_prod_beta
      split: option.split sum.split)

lemma utf8_length_hex: "list_all is_hex_lower s \<Longrightarrow> utf8_length s = length s"
proof -
  assume s: "list_all is_hex_lower s"
  have "(of_char c :: nat) div 64 \<noteq> 2" if "is_hex_lower c" for c
    using that by (auto simp: is_hex_lower_def is_digit_def less_eq_char_def)
  with s have "filter (\<lambda>c. (of_char c :: nat) div 64 \<noteq> 2) s = s"
    by (simp add: list_all_iff filter_id_conv)
  then show ?thesis by (simp add: utf8_length_def)
qed

lemma generate_outcomes [simp]: "outcomes (snd (GenerateAPIKey A env w)) = outcomes w"
  by (simp add: GenerateAPIKey_def HashPassword_def cryptoRandReadReal_def Let_def case_prod_beta
      split: option.split sum.split)

lemma ulid_outcomes [simp]: "outcomes (snd (ulid_Make U w)) = outcomes w"
  by (simp add: ulid_Make_def case_prod_beta)

lemma writeAPIKeyError_status [http_simps]:
  "rw_reply x = None \<Longrightarrow> status_of (writeAPIKeyError s c m x) = s"
  "rw_panic (writeAPIKeyError s c m x) = rw_panic x"
  "rw_body (writeAPIKeyError s c m x) = rw_body x
     @ [Json (JObj [(''error'', JObj [(''code'', JStr c), (''message'', JStr m)])])]"
  by (simp_all add: writeAPIKeyError_def http_simps)

lemma encode_with_status [http_simps]:
  "rw_reply x = None \<Longrightarrow> status_of (encode_with s j x) = s"
  "rw_body (encode_with s j x) = rw_body x @ [Json j]" "rw_panic (encode_with s j x) = rw_panic x"
  by (simp_all add: encode_with_def http_simps)

lemma status_of_panics [http_simps]: "status_of (panics m x) = status_of x"
  by (simp add: panics_def status_of_def)

lemma generation_failed_status:
  "rw_reply x = None \<Longrightarrow> status_of (generation_failed err x) \<noteq> 201"
  by (cases err) (simp_all add: generation_failed_def http_simps, simp_all add: status_of_def)

lemma create_201:
  assumes "APIKeyHandler_CreateAPIKey A U DEC q new_writer w = (x, w')" and "status_of x = 201"
    and "outcomes w = []"
  obtains a g k w1 where "rq_auth q = Some a" and "GenerateAPIKey A EnvLive w = (Inr g, w1)"
    and "rw_body x = [Json (key_create_json (key_create_response k (gk_plaintext g)))]"
    and "w_api_keys w' = w_api_keys w @ [k]" and "live_key k" and "k_user_id k = a_user_id a"
    and "k_key_hash k = gk_hash g" and "k_key_prefix k = gk_prefix g" and "outcomes w' = []"
proof -
  obtain a where a: "rq_auth q = Some a"
    using assms by (auto simp: APIKeyHandler_CreateAPIKey_def AuthFromContext_def http_simps
        split: option.splits)
  obtain req0 where dec: "DEC (rq_in_body q) = Some req0" "first_invalid_scope (kq_scopes req0) = None"
    using assms a by (auto simp: APIKeyHandler_CreateAPIKey_def AuthFromContext_def http_simps
        split: option.splits)
  define req where "req = (if kq_scopes req0 = [] then req0\<lparr>kq_scopes := [ScopeRead]\<rparr> else req0)"
  obtain r w1 where g: "GenerateAPIKey A EnvLive w = (r, w1)" by fastforce
  have res: "(x, w') = (case r of Inl err \<Rightarrow> (generation_failed err new_writer, w1)
      | Inr g \<Rightarrow> store_new_key U a req g new_writer w1)"
    using assms(1) a dec g
    by (auto simp: APIKeyHandler_CreateAPIKey_def AuthFromContext_def req_def Let_def split: sum.splits)
  have "\<not> (\<exists>e. r = Inl e)"
    using res assms(2) generation_failed_status [of new_writer] by (auto split: sum.splits)
  then obtain gk where r: "r = Inr gk" by (cases r) auto
  obtain i w2 where 2: "ulid_Make U w1 = (i, w2)" by fastforce
  obtain t w3 where 3: "time_now w2 = (t, w3)" by fastforce
  have up: "outcomes w3 = []"
    using assms(3) generate_outcomes [of A EnvLive w] ulid_outcomes [of U w1] time_now_frame(10) [of w2]
    by (simp add: g 2 3)
  have rows: "w_api_keys w3 = w_api_keys w"
    using generate_keeps_keys [of A EnvLive w] ulid_keeps_keys [of U w1] time_now_frame(3) [of w2]
    by (simp add: g 2 3)
  define k where "k = \<lparr>k_id = i, k_user_id = a_user_id a, k_key_hash = gk_hash gk,
      k_key_prefix = gk_prefix gk, k_scopes = kq_scopes req, k_rate_limit_tier = TierFree,
      k_name = kq_name req, k_revoked_at = None, k_last_used_at = None, k_created_at = t\<rparr>"
  obtain y w4 where 4: "Repository_CreateAPIKey k w3 = (y, w4)" by fastforce
  have out: "(x, w') = (case y of Inl err \<Rightarrow> (writeAPIKeyError 500 ''INTERNAL_ERROR''
        ''Failed to create API key'' new_writer, w4)
      | Inr _ \<Rightarrow> (encode_with 201 (key_create_json (key_create_response k (gk_plaintext gk))) new_writer, w4))"
    using res r 4 by (simp add: store_new_key_def 2 3 k_def [symmetric] Let_def split: sum.splits)
  with assms(2) have "\<exists>z. y = Inr z" by (cases y) (auto simp: http_simps)
  with out 4 CreateAPIKey_up [of k w3 _ w4] up rows a g r show thesis
    by (intro that [of a gk w1 k]) (auto simp: http_simps k_def live_key_def)
qed

text \<open>C22: An API key that was just created works: when the calls are up, the plaintext that the 201
  response shows once authenticates at once, as a key of the user who created it, with the scopes
  and tier of the response, provided nothing is cached for it and no other key verifies it.\<close>

theorem created_key_authenticates:
  assumes "argon_ok A" and "APIKeyHandler_CreateAPIKey A U DEC q new_writer w = (x, w')"
    and "status_of x = 201" and "outcomes w = []"
    and "\<And>g t. fst (GenerateAPIKey A EnvLive w) = Inr g \<Longrightarrow>
      cached_ctx R J (QuickHash D (gk_plaintext g)) t (w_redis w') = None"
    and "\<And>g k. fst (GenerateAPIKey A EnvLive w) = Inr g \<Longrightarrow> k \<in> set (w_api_keys w) \<Longrightarrow>
      VerifyPassword A (gk_plaintext g) (k_key_hash k) = Inr False"
  shows "\<exists>k key a. rw_body x = [Json (key_create_json (key_create_response k key))]
    \<and> rq_auth q = Some a \<and> k_user_id k = a_user_id a \<and> fst (authenticate R J A D key w') = Inr (context_of k)"
proof -
  from create_201 [OF assms(2-4)] obtain a g k w1 where
    a: "rq_auth q = Some a" and g: "GenerateAPIKey A EnvLive w = (Inr g, w1)"
    and body: "rw_body x = [Json (key_create_json (key_create_response k (gk_plaintext g)))]"
    and rows: "w_api_keys w' = w_api_keys w @ [k]" and k: "live_key k" "k_user_id k = a_user_id a"
      "k_key_hash k = gk_hash g" "k_key_prefix k = gk_prefix g" and up: "outcomes w' = []"
    by metis
  obtain secret u where key: "gk_plaintext g = format_key EnvLive (gk_prefix g) secret"
    and ok: "key_parts_ok EnvLive (gk_prefix g) secret"
    and hash: "HashPassword A (gk_plaintext g) u = (Inr (gk_hash g), w1)"
    by (rule GenerateAPIKey_parts [OF g]) (auto simp: key_env_defs)
  have verify: "VerifyPassword A (gk_plaintext g) (gk_hash g) = Inr True"
    by (rule verify_fresh_hash [OF assms(1) hash]) simp
  have parse: "ParseAPIKey (gk_plaintext g)
      = Inr \<lparr>pk_env = EnvLive, pk_prefix = gk_prefix g, pk_secret = secret\<rparr>"
    using groups_format_key [OF ok] by (simp add: ParseAPIKey_def key)
  have "cached_ctx R J (QuickHash D (gk_plaintext g)) (clock w') (w_redis w') = None"
    using assms(5) g by simp
  with up have miss: "Cache_GetAuthContext R J (QuickHash D (gk_plaintext g)) w' = (None, w')"
    by (auto simp: Cache_GetAuthContext_def rd_get_def cached_ctx_def split: option.splits bind_splits)
  have "match_key A (gk_plaintext g) (ks @ [k]) = Inr (Some k)" if "set ks \<subseteq> set (w_api_keys w)" for ks
    using that assms(6) g k(3) verify by (induction ks) auto
  then have match: "match_key A (gk_plaintext g)
      (filter (\<lambda>r. k_key_prefix r = gk_prefix g \<and> live_key r) (w_api_keys w')) = Inr (Some k)"
    using k by (simp add: rows)
  have "gk_plaintext g \<noteq> []" by (simp add: key format_key_def)
  then have "fst (authenticate R J A D (gk_plaintext g) w') = Inr (context_of k)"
    using match up
    by (simp add: authenticate_def parse miss Let_def auth_lookup_def Repository_GetAPIKeysByPrefix_def)
  with a body k(2) show ?thesis by blast
qed

definition create_world :: "ref_store world" where
  "create_world = key_world\<lparr>w_api_keys := [], rands := rands three_draws\<rparr>"

lemma generate_create_world: "\<exists>g u. GenerateAPIKey ref_suite EnvLive create_world = (Inr g, u)
    \<and> w_api_keys u = [] \<and> w_users u = w_users key_world \<and> ticks u = [] \<and> outcomes u = []"
  by (simp add: GenerateAPIKey_def HashPassword_def cryptoRandReadReal_def three_draws_def
      next_rand_def ref_suite_def argon2_defs Let_def create_world_def key_world_def)

theorem created_key_authenticates_witness:
  "\<exists>x k key. x = fst (APIKeyHandler_CreateAPIKey ref_suite (\<lambda>t n. ''k3'')
        (\<lambda>b. Some \<lparr>kq_name = ''n'', kq_scopes = [ScopeWrite]\<rparr>) (user_request ''u1'' []) new_writer create_world)
     \<and> rw_body x = [Json (key_create_json (key_create_response k key))]"
proof -
  let ?A = "ref_suite" and ?U = "\<lambda>t n. ''k3''" and ?q = "user_request ''u1'' []"
    and ?DEC = "\<lambda>b. Some \<lparr>kq_name = ''n'', kq_scopes = [ScopeWrite]\<rparr>"
    and ?J = "\<lparr>auth_marshal = (\<lambda>c. []), auth_unmarshal = (\<lambda>s. None)\<rparr>"
  obtain g u where g: "GenerateAPIKey ?A EnvLive create_world = (Inr g, u)" "w_api_keys u = []"
    "w_users u = w_users key_world" "ticks u = []" "outcomes u = []"
    using generate_create_world by blast
  obtain gk_env secret where "key_parts_ok gk_env (gk_prefix g) secret"
    by (rule GenerateAPIKey_parts [OF g(1)]) blast
  then have prefix: "utf8_length (gk_prefix g) = 6"
    using utf8_length_hex by (simp add: key_parts_ok_def KeyPrefixLen_def)
  obtain x w' where r: "APIKeyHandler_CreateAPIKey ?A ?U ?DEC ?q new_writer create_world = (x, w')"
    by fastforce
  have "first_invalid_scope [ScopeWrite] = None"
    by (simp add: first_invalid_scope_def ValidScopes_def)
  with r g prefix have "status_of x = 201 \<and> w_redis w' = w_redis u"
    by (auto simp: APIKeyHandler_CreateAPIKey_def AuthFromContext_def user_request_def
        store_new_key_def ulid_Make_def Repository_CreateAPIKey_def pg_insert_key_def key_check_def
        ValidScopes_def key_world_def http_simps case_prod_beta Let_def)
  moreover have "w_redis u = (\<lambda>_. None)"
    using generate_keeps_redis [of ?A EnvLive create_world]
    by (simp add: g(1)) (simp add: create_world_def key_world_def)
  moreover have "w_api_keys create_world = []" and "outcomes create_world = []"
    by (simp_all add: create_world_def key_world_def)
  ultimately show ?thesis
    using created_key_authenticates [OF ref_suite_ok r, where R = ref_redis and J = ?J and D = id]
    by (auto simp: r cached_ctx_def ref_get_def ref_look_def)
qed

section \<open>Other users' keys are invisible\<close>

definition only_keys_of :: "string \<Rightarrow> 'r world \<Rightarrow> 'r world" where
  "only_keys_of u w = w\<lparr>w_api_keys := filter (\<lambda>k. k_user_id k = u) (w_api_keys w)\<rparr>"

lemma only_keys_next_outcome:
  "next_outcome (only_keys_of u w) = map_prod id (only_keys_of u) (next_outcome w)"
  by (cases w) (simp add: next_outcome_def only_keys_of_def split: list.split)

lemma only_keys_time_now: "time_now (only_keys_of u w) = map_prod id (only_keys_of u) (time_now w)"
  by (cases w) (simp add: time_now_def only_keys_of_def split: list.split)

text \<open>A call whose operation answers alike in both worlds answers alike.\<close>

lemma call_alike:
  assumes "\<And>v. w_api_keys v = w_api_keys w \<Longrightarrow> fst (f (only_keys_of u v)) = map_sum id g (fst (f v))"
  shows "fst (call f (only_keys_of u w)) = map_sum id g (fst (call f w))"
proof -
  obtain y v where y: "next_outcome w = (y, v)" by fastforce
  then have "w_api_keys v = w_api_keys w"
    using next_outcome_frame(3) [of w] by simp
  with y assms show ?thesis
    by (cases y) (simp_all add: call_def only_keys_next_outcome)
qed

lemma list_alike:
  "fst (Repository_ListAPIKeysByUserID u (only_keys_of u w)) = fst (Repository_ListAPIKeysByUserID u w)"
proof -
  let ?f = "\<lambda>v. (Inr (sort_key (\<lambda>k. - k_created_at k)
      (filter (\<lambda>k. k_user_id k = u) (w_api_keys v))), v)"
  have "fst (call ?f (only_keys_of u w)) = map_sum id id (fst (call ?f w))"
    by (rule call_alike) (simp add: only_keys_of_def)
  then show ?thesis
    by (simp add: Repository_ListAPIKeysByUserID_def case_prod_beta sum.map_id split: sum.split)
qed

text \<open>The row of an id, as the owner sees it: a row of somebody else is no row.\<close>

lemma get_alike:
  assumes "owns u i w \<or> (\<forall>k \<in> set (w_api_keys w). k_id k = i \<longrightarrow> k_user_id k \<noteq> u)"
  shows "fst (Repository_GetAPIKeyByID i (only_keys_of u w)) =
    (case fst (Repository_GetAPIKeyByID i w) of
       Inl e \<Rightarrow> Inl e
     | Inr k \<Rightarrow> if k_user_id k = u then Inr k else Inl (Sentinel Repo_ErrAPIKeyNotFound))"
proof -
  let ?f = "\<lambda>v. (Inr (find (\<lambda>k. k_id k = i) (w_api_keys v)), v)"
  let ?g = "\<lambda>r. case r of None \<Rightarrow> None | Some k \<Rightarrow> if k_user_id k = u then Some k else None"
  have find: "find (\<lambda>k. k_id k = i) (filter (\<lambda>k. k_user_id k = u) ks) = ?g (find (\<lambda>k. k_id k = i) ks)"
    if cases: "(\<forall>k \<in> set ks. k_id k = i \<longrightarrow> k_user_id k = u)
      \<or> (\<forall>k \<in> set ks. k_id k = i \<longrightarrow> k_user_id k \<noteq> u)" for ks :: "api_key list"
    using cases
  proof
    assume own: "\<forall>k \<in> set ks. k_id k = i \<longrightarrow> k_user_id k = u"
    then have "find (\<lambda>k. k_id k = i) (filter (\<lambda>k. k_user_id k = u) ks) = find (\<lambda>k. k_id k = i) ks"
      by (intro find_filter_all) blast
    with own show ?thesis by (auto split: option.split dest!: find_Some_in)
  next
    assume none: "\<forall>k \<in> set ks. k_id k = i \<longrightarrow> k_user_id k \<noteq> u"
    then have "find (\<lambda>k. k_id k = i) (filter (\<lambda>k. k_user_id k = u) ks) = None"
      by (auto simp: find_None_iff)
    with none show ?thesis by (auto split: option.split dest!: find_Some_in)
  qed
  have "fst (call ?f (only_keys_of u w)) = map_sum id ?g (fst (call ?f w))"
    using assms by (intro call_alike) (simp add: only_keys_of_def find owns_def)
  then show ?thesis
    by (auto simp: Repository_GetAPIKeyByID_def scanAPIKey_def case_prod_beta
        split: sum.splits option.splits)
qed

lemma revoke_alike:
  fixes w :: "'a world"
  assumes "owns u i w"
  shows "fst (Repository_RevokeAPIKey i (only_keys_of u w)) = fst (Repository_RevokeAPIKey i w)"
proof -
  obtain t v where t: "time_now w = (t, v)" by fastforce
  then have v: "w_api_keys v = w_api_keys w"
    using time_now_frame(3) [of w] by simp
  let ?f = "pg_update_keys (\<lambda>k. k_id k = i \<and> live_key k) (revoke_row t)"
  have "filter (\<lambda>k. k_id k = i \<and> live_key k) (filter (\<lambda>k. k_user_id k = u) ks)
      = filter (\<lambda>k. k_id k = i \<and> live_key k) ks"
    if "\<forall>k \<in> set ks. k_id k = i \<longrightarrow> k_user_id k = u" for ks :: "api_key list"
    unfolding filter_filter by (rule filter_cong [OF refl]) (use that in blast)
  then have "fst (?f (only_keys_of u x)) = map_sum id id (fst (?f x))"
    if "\<forall>k \<in> set (w_api_keys x). k_id k = i \<longrightarrow> k_user_id k = u" for x :: "'a world"
    using that by (simp add: pg_update_keys_def update_where_def only_keys_of_def)
  moreover have "\<forall>k \<in> set (w_api_keys v). k_id k = i \<longrightarrow> k_user_id k = u"
    using assms unfolding owns_def v .
  ultimately have "fst (call ?f (only_keys_of u v)) = map_sum id id (fst (call ?f v))"
    by (intro call_alike) simp
  then show ?thesis
    by (simp add: Repository_RevokeAPIKey_def only_keys_time_now t case_prod_beta sum.map_id
        split: sum.split)
qed

lemma get_world_alike:
  "snd (Repository_GetAPIKeyByID i (only_keys_of u w)) = only_keys_of u (snd (Repository_GetAPIKeyByID i w))"
proof -
  obtain y v where "next_outcome w = (y, v)" by fastforce
  then show ?thesis
    by (cases y) (simp_all add: Repository_GetAPIKeyByID_def call_def only_keys_next_outcome)
qed

lemma id_owned_or_foreign:
  assumes "accounts_inv w"
  shows "owns u i w \<or> (\<forall>k \<in> set (w_api_keys w). k_id k = i \<longrightarrow> k_user_id k \<noteq> u)"
  using assms by (auto simp: accounts_inv_def keys_ok_def owns_def distinct_map inj_on_def)

lemma with_own_key_alike:
  assumes "accounts_inv w" and "rq_auth q = Some a"
    and "\<And>key w1. key \<in> set (w_api_keys w) \<Longrightarrow> k_id key = path_value q ''key_id'' \<Longrightarrow>
      k_user_id key = a_user_id a \<Longrightarrow> w_api_keys w1 = w_api_keys w \<Longrightarrow>
      fst (act key a x (only_keys_of (a_user_id a) w1)) = fst (act key a x w1)"
  shows "fst (with_own_key m act q x (only_keys_of (a_user_id a) w)) = fst (with_own_key m act q x w)"
proof -
  let ?i = "path_value q ''key_id''" and ?w = "only_keys_of (a_user_id a) w"
  obtain r w1 where r: "Repository_GetAPIKeyByID ?i w = (r, w1)" by fastforce
  note row = GetAPIKeyByID_row [OF r]
  have world: "snd (Repository_GetAPIKeyByID ?i ?w) = only_keys_of (a_user_id a) w1"
    using get_world_alike [of ?i "a_user_id a" w] by (simp add: r)
  have answer: "fst (Repository_GetAPIKeyByID ?i ?w) = (case r of Inl e \<Rightarrow> Inl e
     | Inr k \<Rightarrow> if k_user_id k = a_user_id a then Inr k else Inl (Sentinel Repo_ErrAPIKeyNotFound))"
    using get_alike [OF id_owned_or_foreign [OF assms(1)], of ?i "a_user_id a"] by (simp add: r)
  show ?thesis
  proof (cases r)
    case (Inl e)
    with answer world r assms(2) show ?thesis
      by (simp add: with_own_key_def AuthFromContext_def Let_def case_prod_beta)
  next
    case (Inr k)
    with row have k: "k \<in> set (w_api_keys w)" "k_id k = ?i" "w_api_keys w1 = w_api_keys w" by auto
    from Inr answer world r assms(2) assms(3) [OF k(1,2) _ k(3)] show ?thesis
      by (simp add: with_own_key_def AuthFromContext_def Let_def case_prod_beta)
  qed
qed

text \<open>C24: Users cannot probe for other users' API keys: listing keys, revoking a key, and rotating a key
  that is not the user's own, answer exactly as they would if the table held no key of anybody else,
  whatever the calls answer.\<close>

theorem foreign_keys_invisible:
  fixes w :: "'r world"
  assumes "accounts_inv w" and "rq_auth q = Some a"
  shows "fst (APIKeyHandler_ListAPIKeys q x (only_keys_of (a_user_id a) w))
      = fst (APIKeyHandler_ListAPIKeys q x w)
    \<and> fst (APIKeyHandler_RevokeAPIKey q x (only_keys_of (a_user_id a) w))
      = fst (APIKeyHandler_RevokeAPIKey q x w)
    \<and> (\<not> (\<exists>k \<in> set (w_api_keys w). k_id k = path_value q ''key_id'' \<and> k_user_id k = a_user_id a) \<longrightarrow>
       fst (APIKeyHandler_RotateAPIKey A U q x (only_keys_of (a_user_id a) w))
      = fst (APIKeyHandler_RotateAPIKey A U q x w))"
proof (intro conjI impI)
  let ?u = "a_user_id a"
  show "fst (APIKeyHandler_ListAPIKeys q x (only_keys_of ?u w)) = fst (APIKeyHandler_ListAPIKeys q x w)"
    using list_alike [of ?u w] assms(2)
    by (simp add: APIKeyHandler_ListAPIKeys_def AuthFromContext_def case_prod_beta Let_def split: sum.split)
  show "fst (APIKeyHandler_RevokeAPIKey q x (only_keys_of ?u w)) = fst (APIKeyHandler_RevokeAPIKey q x w)"
    unfolding APIKeyHandler_RevokeAPIKey_def
  proof (rule with_own_key_alike [OF assms])
    fix key :: api_key and w1 :: "'r world"
    assume key: "key \<in> set (w_api_keys w)" "k_id key = path_value q ''key_id''" "k_user_id key = ?u"
      and same: "w_api_keys w1 = w_api_keys w"
    then have "owns ?u (path_value q ''key_id'') w1"
      using assms(1) by (auto simp: accounts_inv_def keys_ok_def owns_def distinct_map inj_on_def)
    note revoke_alike [OF this]
    then show "fst (case Repository_RevokeAPIKey (path_value q ''key_id'') (only_keys_of ?u w1) of
          (Inl err, w1) \<Rightarrow> (writeAPIKeyError 500 ''INTERNAL_ERROR'' ''Failed to revoke API key'' x, w1)
        | (Inr _, w1) \<Rightarrow> (WriteHeader 204 x, w1)) = fst (case Repository_RevokeAPIKey
          (path_value q ''key_id'') w1 of
          (Inl err, w1) \<Rightarrow> (writeAPIKeyError 500 ''INTERNAL_ERROR'' ''Failed to revoke API key'' x, w1)
        | (Inr _, w1) \<Rightarrow> (WriteHeader 204 x, w1))"
      by (simp add: case_prod_beta split: sum.split)
  qed
  assume absent: "\<not> (\<exists>k \<in> set (w_api_keys w). k_id k = path_value q ''key_id'' \<and> k_user_id k = ?u)"
  show "fst (APIKeyHandler_RotateAPIKey A U q x (only_keys_of ?u w))
      = fst (APIKeyHandler_RotateAPIKey A U q x w)"
    unfolding APIKeyHandler_RotateAPIKey_def
    by (rule with_own_key_alike [OF assms]) (use absent in blast)
qed

theorem foreign_keys_invisible_witness:
  "fst (APIKeyHandler_RevokeAPIKey (user_request ''u1'' ''k2'') new_writer
      (only_keys_of ''u1'' key_world))
   = fst (APIKeyHandler_RevokeAPIKey (user_request ''u1'' ''k2'') new_writer key_world)"
  using foreign_keys_invisible [OF key_world_inv, of "user_request ''u1'' ''k2''"
      "\<lparr>a_key_id = ''k9'', a_key_prefix = ''a1b2c3'', a_user_id = ''u1'', a_scopes = [ScopeAdmin],
       a_rate_limit_tier = TierFree\<rparr>"]
  by (simp add: user_request_def)

end
