(* ===== verification/Rate_Limit.thy ===== *)
theory Rate_Limit imports Complex_Main Auth begin

text \<open>
  \<open>internal/cache/ratelimit.go\<close> with its Lua script, and \<open>internal/middleware/ratelimit.go\<close>: a token
  bucket per API key or per client address, kept in a Redis hash.

  The numbers of the script are rationals here (Lua's doubles without rounding); \<open>N\<close> prints and reads
  the numbers that the hash holds. The script runs atomically, as one command of the server.

  Shown: as long as every check is answered, the requests admitted for one bucket between two times
  are at most the burst plus the rate times the seconds between, although the hash expires; a refused
  client that waits for the announced time is admitted.
\<close>

section \<open>The script\<close>

record number_codec =
  num_show :: "rat \<Rightarrow> string"
  num_read :: "string \<Rightarrow> rat option"

definition rateLimitAPIPrefix :: string where "rateLimitAPIPrefix = ''ratelimit:apikey:''"
definition rateLimitIPPrefix :: string where "rateLimitIPPrefix = ''ratelimit:ip:''"
definition rateLimitAPITTL :: duration where "rateLimitAPITTL = 120 * second"
definition rateLimitIPTTL :: duration where "rateLimitIPTTL = 10 * second"

text \<open>\<open>tonumber(data[i]) or default\<close>\<close>

definition number_or :: "number_codec \<Rightarrow> string option \<Rightarrow> rat \<Rightarrow> rat" where
  "number_or N v d = (case v of None \<Rightarrow> d | Some s \<Rightarrow> (case num_read N s of None \<Rightarrow> d | Some x \<Rightarrow> x))"

text \<open>What an infinite double becomes as an int64 (amd64); it arises only for a rate of zero.\<close>

definition inf_to_int64 :: int where "inf_to_int64 = - (2 ^ 63)"

definition refilled :: "number_codec \<Rightarrow> (string \<times> string) list \<Rightarrow> rat \<Rightarrow> rat \<Rightarrow> int \<Rightarrow> rat" where
  "refilled N data rate burst now =
     (let tokens = number_or N (map_of data ''tokens'') burst;
          last_update = number_or N (map_of data ''last_update'') (of_int now);
          elapsed = of_int now - last_update
      in min burst (tokens + elapsed * rate))"

definition tokenBucketScript :: "'r redis_ops \<Rightarrow> number_codec \<Rightarrow> string \<Rightarrow> rat \<Rightarrow> int \<Rightarrow> int \<Rightarrow> int
    \<Rightarrow> 'r world \<Rightarrow> (error + int \<times> int \<times> int) \<times> 'r world" where
  "tokenBucketScript R N key rate burst now ttl w =
     (case r_hgetall R key (clock w) (w_redis w) of
        Inl err \<Rightarrow> (Inl err, w)
      | Inr data \<Rightarrow>
          let tokens = refilled N data rate (of_int burst) now;
              allowed = (1 \<le> tokens);
              retry_after = (if allowed then 0
                 else if rate = 0 then inf_to_int64 else \<lceil>(1 - tokens) / rate\<rceil>);
              tokens = (if allowed then tokens - 1 else tokens)
          in (case r_hset R key [(''tokens'', num_show N tokens), (''last_update'', num_show N (of_int now))]
                 (clock w) (w_redis w) of
                Inl err \<Rightarrow> (Inl err, w)
              | Inr s \<Rightarrow> (Inr (if allowed then 1 else 0, retry_after, \<lfloor>tokens\<rfloor>),
                  w\<lparr>w_redis := r_expire R key (ttl * second) (clock w) s\<rparr>)))"

section \<open>The checks\<close>

record rate_limit_result =
  rr_allowed :: bool
  rr_remaining :: int
  rr_reset_at :: instant
  rr_retry_after :: duration

definition wrap64 :: "int \<Rightarrow> int" where "wrap64 i = (i + 2 ^ 63) mod 2 ^ 64 - 2 ^ 63"

definition rat_trunc :: "rat \<Rightarrow> int" where "rat_trunc x = (if x < 0 then - \<lfloor>- x\<rfloor> else \<lfloor>x\<rfloor>)"

definition hashIP :: "digest \<Rightarrow> string \<Rightarrow> string" where
  "hashIP D ip = hex_encode (take 8 (D ip))"

definition open_result :: "int \<Rightarrow> 'r world \<Rightarrow> rate_limit_result \<times> 'r world" where
  "open_result burst w = (case time_now w of (now, w') \<Rightarrow>
     (\<lparr>rr_allowed = True, rr_remaining = burst, rr_reset_at = now + minute, rr_retry_after = 0\<rparr>, w'))"

definition checkRateLimit :: "'r redis_ops \<Rightarrow> number_codec \<Rightarrow> string \<Rightarrow> rat \<Rightarrow> int \<Rightarrow> int \<Rightarrow> 'r world
    \<Rightarrow> rate_limit_result \<times> 'r world" where
  "checkRateLimit R N key rate burst ttl w = (case time_now w of (t, w1) \<Rightarrow>
     (case call (tokenBucketScript R N key rate burst (to_unix t) ttl) w1 of
        (Inl err, w2) \<Rightarrow> open_result burst w2
      | (Inr (allowed, retryAfterSec, remaining), w2) \<Rightarrow> (case time_now w2 of (now, w3) \<Rightarrow>
          (\<lparr>rr_allowed = (allowed = 1), rr_remaining = remaining,
            rr_reset_at = now + (if rate = 0 then inf_to_int64 else rat_trunc (of_int second / rate)),
            rr_retry_after = wrap64 (retryAfterSec * second)\<rparr>, w3))))"

definition Cache_CheckAPIRateLimit :: "'r redis_ops \<Rightarrow> number_codec \<Rightarrow> string \<Rightarrow> int \<Rightarrow> int \<Rightarrow> 'r world
    \<Rightarrow> (error + rate_limit_result) \<times> 'r world" where
  "Cache_CheckAPIRateLimit R N keyID ratePerMinute burst w =
     (if ratePerMinute = 0 then (case open_result burst w of (r, w') \<Rightarrow> (Inr r, w'))
      else (case checkRateLimit R N (rateLimitAPIPrefix @ keyID) (of_int ratePerMinute / 60) burst
                  (rateLimitAPITTL div second) w of (r, w') \<Rightarrow> (Inr r, w')))"

definition Cache_CheckIPRateLimit :: "'r redis_ops \<Rightarrow> number_codec \<Rightarrow> digest \<Rightarrow> string \<Rightarrow> int \<Rightarrow> int
    \<Rightarrow> 'r world \<Rightarrow> (error + rate_limit_result) \<times> 'r world" where
  "Cache_CheckIPRateLimit R N D ip ratePerSecond burst w =
     (case checkRateLimit R N (rateLimitIPPrefix @ hashIP D ip) (of_int ratePerSecond) burst
             (rateLimitIPTTL div second) w of (r, w') \<Rightarrow> (Inr r, w'))"

section \<open>The middleware\<close>

record rate_limit_cfg =
  rc_api_enabled :: bool
  rc_redirect_enabled :: bool
  rc_redirect_rps :: int
  rc_redirect_burst :: int

definition setRateLimitHeaders :: "int \<Rightarrow> int \<Rightarrow> instant \<Rightarrow> writer \<Rightarrow> writer" where
  "setRateLimitHeaders limit remaining resetAt x =
     (if 0 < limit then
        set_header ''X-RateLimit-Reset'' (format_int (to_unix resetAt))
          (set_header ''X-RateLimit-Remaining'' (format_int remaining)
             (set_header ''X-RateLimit-Limit'' (format_int limit) x))
      else x)"

definition writeRateLimitError :: "duration \<Rightarrow> writer \<Rightarrow> writer" where
  "writeRateLimitError retryAfter x =
     Write_body (Raw (''{'' @ quoted ''error'' @ '':{'' @ quoted ''code'' @ '':'' @ quoted ''RATE_LIMITED''
         @ '','' @ quoted ''message'' @ '':'' @ quoted (''Rate limit exceeded. Retry after ''
              @ format_int (whole_seconds retryAfter) @ '' seconds.'') @ ''}}''))
       (WriteHeader 429 (set_header ''Content-Type'' ''application/json'' x))"

definition refuse_rate :: "rate_limit_result \<Rightarrow> writer \<Rightarrow> writer" where
  "refuse_rate r x = writeRateLimitError (rr_retry_after r)
     (set_header ''Retry-After'' (format_int (whole_seconds (rr_retry_after r))) x)"

definition RateLimitAPI :: "'r redis_ops \<Rightarrow> number_codec \<Rightarrow> rate_limit_cfg \<Rightarrow> 'r handler \<Rightarrow> 'r handler" where
  "RateLimitAPI R N cfg nxt q x w =
     (if \<not> rc_api_enabled cfg then nxt q x w
      else case AuthFromContext q of
        None \<Rightarrow> nxt q x w
      | Some authCtx \<Rightarrow>
          let tierConfig = TierConfigs_index (a_rate_limit_tier authCtx);
              rpm = rl_requests_per_minute tierConfig in
          if rpm = 0 then (case time_now w of (now, w1) \<Rightarrow> nxt q (setRateLimitHeaders 0 0 now x) w1)
          else (case Cache_CheckAPIRateLimit R N (a_key_id authCtx) rpm (rl_burst tierConfig) w of
              (Inl err, w1) \<Rightarrow> nxt q x w1
            | (Inr r, w1) \<Rightarrow>
                let x1 = setRateLimitHeaders rpm (rr_remaining r) (rr_reset_at r) x in
                if \<not> rr_allowed r then (refuse_rate r x1, w1) else nxt q x1 w1))"

text \<open>The first of the addresses in \<open>X-Forwarded-For\<close>, then \<open>X-Real-IP\<close>, then the peer.\<close>

definition mw_getClientIP :: "request \<Rightarrow> string" where
  "mw_getClientIP q =
     (let xff = request_header q ''X-Forwarded-For''; xri = request_header q ''X-Real-IP'' in
      if xff \<noteq> [] then takeWhile (\<lambda>c. c \<noteq> CHR '','') xff
      else if xri \<noteq> [] then xri else rq_remote_addr q)"

definition RateLimitIP :: "'r redis_ops \<Rightarrow> number_codec \<Rightarrow> digest \<Rightarrow> rate_limit_cfg \<Rightarrow> 'r handler
    \<Rightarrow> 'r handler" where
  "RateLimitIP R N D cfg nxt q x w =
     (if \<not> rc_redirect_enabled cfg then nxt q x w
      else (case Cache_CheckIPRateLimit R N D (mw_getClientIP q) (rc_redirect_rps cfg)
                  (rc_redirect_burst cfg) w of
          (Inl err, w1) \<Rightarrow> nxt q x w1
        | (Inr r, w1) \<Rightarrow> if \<not> rr_allowed r then (refuse_rate r x, w1) else nxt q x w1))"

section \<open>The bound\<close>

text \<open>A server that keeps a hash until its time to live has passed (no eviction).\<close>

locale redis_hash_ttl = redis_server +
  assumes expire_keeps: "t \<le> u \<Longrightarrow> u < t + d \<Longrightarrow> hash_at R k u (r_expire R k d t s) = hash_at R k t s"

definition codec_reads :: "number_codec \<Rightarrow> bool" where
  "codec_reads N = (\<forall>x. num_read N (num_show N x) = Some x)"

text \<open>The tokens that a check at time \<open>u\<close> would find in the bucket.\<close>

definition level :: "'r redis_ops \<Rightarrow> number_codec \<Rightarrow> string \<Rightarrow> rat \<Rightarrow> int \<Rightarrow> instant \<Rightarrow> 'r \<Rightarrow> rat" where
  "level R N key rate burst u s = refilled N (hash_at R key u s) rate (of_int burst) (to_unix u)"

definition secs :: "instant \<Rightarrow> instant \<Rightarrow> rat" where
  "secs t u = of_int (to_unix u) - of_int (to_unix t)"

text \<open>From the present on, the level grows from \<open>L\<close> with the seconds since \<open>T\<close>, up to the burst.\<close>

definition bucket_ok :: "'r redis_ops \<Rightarrow> number_codec \<Rightarrow> string \<Rightarrow> rat \<Rightarrow> int \<Rightarrow> rat \<Rightarrow> instant
    \<Rightarrow> instant \<Rightarrow> 'r \<Rightarrow> bool" where
  "bucket_ok R N key rate burst L T t s = (0 \<le> L \<and> L \<le> of_int burst \<and> T \<le> t
     \<and> (\<forall>u \<ge> t. level R N key rate burst u s = min (of_int burst) (L + rate * secs T u)))"

lemma to_unix_mono: "t \<le> u \<Longrightarrow> to_unix t \<le> to_unix u"
  by (simp add: to_unix_def zdiv_mono1)

lemma secs_nonneg: "t \<le> u \<Longrightarrow> 0 \<le> secs t u"
  using to_unix_mono [of t u] by (simp add: secs_def)

lemma secs_add: "secs t u + secs u v = secs t v"
  by (simp add: secs_def)

lemma secs_ttl: "t + n * second \<le> u \<Longrightarrow> of_int n \<le> secs t u"
proof -
  assume "t + n * second \<le> u"
  then have "to_unix (t + n * second) \<le> to_unix u" by (rule to_unix_mono)
  moreover have "to_unix (t + n * second) = to_unix t + n"
    by (simp add: to_unix_def second_def)
  ultimately have "rat_of_int (to_unix t + n) \<le> of_int (to_unix u)" by (simp only: of_int_le_iff)
  then show ?thesis by (simp add: secs_def)
qed

lemma bucket_later: "bucket_ok R N key rate burst L T t s \<Longrightarrow> t \<le> u \<Longrightarrow> bucket_ok R N key rate burst L T u s"
  by (simp add: bucket_ok_def)

lemma level_grows:
  assumes "bucket_ok R N key rate burst L T t s" and "0 \<le> rate" and "t \<le> u"
  shows "level R N key rate burst u s \<le> level R N key rate burst t s + rate * secs t u"
proof -
  have "rate * secs T u = rate * secs T t + rate * secs t u"
    by (simp add: secs_add [symmetric, of T u t] distrib_left)
  moreover have "0 \<le> rate * secs t u" using assms(2,3) secs_nonneg by simp
  ultimately show ?thesis
    using assms(1,3) by (auto simp: bucket_ok_def min_def)
qed

lemma level_bounds:
  assumes "bucket_ok R N key rate burst L T t s" and "0 \<le> rate"
  shows "0 \<le> level R N key rate burst t s" and "level R N key rate burst t s \<le> of_int burst"
proof -
  have "0 \<le> rate * secs T t" using assms secs_nonneg by (simp add: bucket_ok_def)
  with assms show "0 \<le> level R N key rate burst t s" and "level R N key rate burst t s \<le> of_int burst"
    by (auto simp: bucket_ok_def)
qed

lemma refilled_fresh: "0 \<le> burst \<Longrightarrow> refilled N [] rate burst now = burst"
  by (simp add: refilled_def number_or_def Let_def)

context redis_hash_ttl
begin

text \<open>What an answered run of the script decides and leaves.\<close>

lemma script_answer:
  assumes "codec_reads N" and "0 \<le> rate" and "of_int burst \<le> rate * of_int ttl"
    and "bucket_ok R N key rate burst L T (clock w) (w_redis w)"
    and "tokenBucketScript R N key rate burst (to_unix (clock w)) ttl w = (Inr (a, ra, rem), w')"
  defines "lev \<equiv> level R N key rate burst (clock w) (w_redis w)"
  defines "left \<equiv> (if 1 \<le> lev then lev - 1 else lev)"
  shows "a = (if 1 \<le> lev then 1 else 0)" and "clock w' = clock w" and "rem = \<lfloor>left\<rfloor>"
    and "ra = (if 1 \<le> lev then 0 else if rate = 0 then inf_to_int64 else \<lceil>(1 - lev) / rate\<rceil>)"
    and "bucket_ok R N key rate burst left (clock w) (clock w') (w_redis w')"
proof -
  let ?t = "clock w" and ?s = "w_redis w"
  obtain data where data: "r_hgetall R key ?t ?s = Inr data"
    using assms(5) by (auto simp: tokenBucketScript_def Let_def split: sum.splits)
  then have lev: "refilled N data rate (of_int burst) (to_unix ?t) = lev"
    by (simp add: lev_def level_def hash_at_def)
  obtain s where set: "r_hset R key [(''tokens'', num_show N left),
      (''last_update'', num_show N (of_int (to_unix ?t)))] ?t ?s = Inr s"
    and out: "a = (if 1 \<le> lev then 1 else 0)" "rem = \<lfloor>left\<rfloor>"
      "ra = (if 1 \<le> lev then 0 else if rate = 0 then inf_to_int64 else \<lceil>(1 - lev) / rate\<rceil>)"
      "w' = w\<lparr>w_redis := r_expire R key (ttl * second) ?t s\<rparr>"
    using assms(5)
    by (auto simp: tokenBucketScript_def data lev left_def Let_def split: sum.splits if_splits)
  show "a = (if 1 \<le> lev then 1 else 0)" "clock w' = clock w" "rem = \<lfloor>left\<rfloor>"
    "ra = (if 1 \<le> lev then 0 else if rate = 0 then inf_to_int64 else \<lceil>(1 - lev) / rate\<rceil>)"
    using out by simp_all
  have left: "0 \<le> left" "left \<le> of_int burst"
    using level_bounds [OF assms(4,2)] by (simp_all add: left_def lev_def)
  have burst: "(0::rat) \<le> of_int burst" using left by linarith
  have fresh: "refilled N [] rate (of_int burst) (to_unix u) = of_int burst" for u
    using burst by (rule refilled_fresh)
  have stored: "refilled N (hash_at R key ?t s) rate (of_int burst) (to_unix u)
      = min (of_int burst) (left + rate * secs ?t u)" for u
    using assms(1) hset_same [OF set]
    by (simp add: refilled_def number_or_def codec_reads_def Let_def secs_def map_add_def mult.commute)
  have "level R N key rate burst u (w_redis w') = min (of_int burst) (left + rate * secs ?t u)"
    if "?t \<le> u" for u
  proof (cases "u < ?t + ttl * second")
    case True
    with that show ?thesis by (simp add: level_def out(4) expire_keeps stored)
  next
    case False
    then have "of_int ttl \<le> secs ?t u" by (intro secs_ttl) simp
    then have "rate * of_int ttl \<le> rate * secs ?t u" using assms(2) by (rule mult_left_mono)
    with assms(3) left have full: "min (of_int burst) (left + rate * secs ?t u) = of_int burst" by simp
    from expire_same(1) [of key u "ttl * second" ?t s] show ?thesis
    proof
      assume "hash_at R key u (r_expire R key (ttl * second) ?t s) = hash_at R key ?t s"
      then show ?thesis by (simp add: level_def out(4) stored)
    next
      assume "hash_at R key u (r_expire R key (ttl * second) ?t s) = []"
      then show ?thesis by (simp add: level_def out(4) fresh full)
    qed
  qed
  with left show "bucket_ok R N key rate burst left ?t (clock w') (w_redis w')"
    by (simp add: bucket_ok_def out(4))
qed

end

interpretation ref_ttl: redis_hash_ttl ref_redis
proof (unfold_locales, goal_cases)
  case (1 t u d k s)
  then show ?case
    by (auto simp: hash_at_ref ref_expire_def ref_look_def split: option.splits prod.splits)
qed

text \<open>
  The histories of one bucket: a check that the script answers, counted when it admits, or anything
  else that leaves this bucket alone while time passes.
\<close>

inductive rl_run :: "'r redis_ops \<Rightarrow> number_codec \<Rightarrow> string \<Rightarrow> rat \<Rightarrow> int \<Rightarrow> int
    \<Rightarrow> 'r world \<Rightarrow> nat \<Rightarrow> 'r world \<Rightarrow> bool"
  for R :: "'r redis_ops" and N :: number_codec and key :: string and rate :: rat
    and burst :: int and ttl :: int and w0 :: "'r world" where
  start: "rl_run R N key rate burst ttl w0 0 w0"
| check: "rl_run R N key rate burst ttl w0 n w \<Longrightarrow> outcomes w = [] \<Longrightarrow>
    fst (tokenBucketScript R N key rate burst (to_unix (fst (time_now w))) ttl (snd (time_now w))) = Inr v \<Longrightarrow>
    checkRateLimit R N key rate burst ttl w = (r, w') \<Longrightarrow>
    rl_run R N key rate burst ttl w0 (if rr_allowed r then Suc n else n) w'"
| elsewhere: "rl_run R N key rate burst ttl w0 n w \<Longrightarrow> clock w \<le> clock w' \<Longrightarrow>
    (\<forall>u. hash_at R key u (w_redis w') = hash_at R key u (w_redis w)) \<Longrightarrow>
    rl_run R N key rate burst ttl w0 n w'"

lemma checkRateLimit_script:
  assumes "checkRateLimit R N key rate burst ttl w = (r, w')" and "outcomes w = []"
    and "time_now w = (t, w1)"
    and "tokenBucketScript R N key rate burst (to_unix t) ttl w1 = (Inr (a, ra, rem), w2)"
  shows "rr_allowed r = (a = 1)" and "rr_remaining r = rem" and "rr_retry_after r = wrap64 (ra * second)"
    and "w_redis w' = w_redis w2" and "clock w2 \<le> clock w'"
proof -
  obtain now w3 where 3: "time_now w2 = (now, w3)" by fastforce
  have "outcomes w1 = []" using assms(2) time_now_frame(10) [of w] by (simp add: assms(3))
  then have out: "r = \<lparr>rr_allowed = (a = 1), rr_remaining = rem,
        rr_reset_at = now + (if rate = 0 then inf_to_int64 else rat_trunc (of_int second / rate)),
        rr_retry_after = wrap64 (ra * second)\<rparr>" and w': "w' = w3"
    using assms(1) by (auto simp: checkRateLimit_def assms(3,4) 3)
  show "rr_allowed r = (a = 1)" "rr_remaining r = rem" "rr_retry_after r = wrap64 (ra * second)"
    by (simp_all add: out)
  show "w_redis w' = w_redis w2" using time_now_frame(8) [of w2] by (simp add: 3 w')
  show "clock w2 \<le> clock w'" using time_now_mono [OF 3] by (simp add: w')
qed

context redis_hash_ttl
begin

lemma run_potential:
  assumes "rl_run R N key rate burst ttl w0 n w" and "codec_reads N" and "0 \<le> rate"
    and "of_int burst \<le> rate * of_int ttl"
    and "bucket_ok R N key rate burst L0 T0 (clock w0) (w_redis w0)"
  shows "\<exists>L T. bucket_ok R N key rate burst L T (clock w) (w_redis w)
    \<and> of_nat n + level R N key rate burst (clock w) (w_redis w)
        \<le> of_int burst + rate * secs (clock w0) (clock w)"
  using assms(1)
proof induction
  case start
  from assms(5) level_bounds(2) [OF assms(5,3)] show ?case by (auto simp: secs_def)
next
  case (check n w v r w')
  then obtain L T where ok: "bucket_ok R N key rate burst L T (clock w) (w_redis w)"
    and pot: "of_nat n + level R N key rate burst (clock w) (w_redis w)
      \<le> of_int burst + rate * secs (clock w0) (clock w)" by blast
  obtain t w1 where 1: "time_now w = (t, w1)" by fastforce
  have t: "clock w \<le> clock w1" "t = clock w1" "w_redis w1 = w_redis w"
    using time_now_mono [OF 1] time_now_frame(8) [of w] by (simp_all add: 1)
  obtain a ra rem w2 where 2: "tokenBucketScript R N key rate burst (to_unix (clock w1)) ttl w1
      = (Inr (a, ra, rem), w2)"
    using check.hyps(3) by (cases v; cases "tokenBucketScript R N key rate burst (to_unix t) ttl w1")
      (auto simp: 1 t)
  note c = checkRateLimit_script [OF check.hyps(4,2) 1, unfolded t(2), OF 2]
  have ok1: "bucket_ok R N key rate burst L T (clock w1) (w_redis w1)"
    using bucket_later [OF ok] t by simp
  let ?lev = "level R N key rate burst (clock w1) (w_redis w1)"
  let ?left = "if 1 \<le> ?lev then ?lev - 1 else ?lev"
  note s = script_answer [OF assms(2-4) ok1 2]
  have ok': "bucket_ok R N key rate burst ?left (clock w1) (clock w2) (w_redis w2)" by (rule s(5))
  then have "level R N key rate burst (clock w2) (w_redis w2) \<le> ?left"
    using s(2) by (auto simp: bucket_ok_def secs_def)
  moreover have "level R N key rate burst (clock w') (w_redis w2)
      \<le> level R N key rate burst (clock w2) (w_redis w2) + rate * secs (clock w2) (clock w')"
    by (rule level_grows [OF ok' assms(3) c(5)])
  moreover have "?lev \<le> level R N key rate burst (clock w) (w_redis w) + rate * secs (clock w) (clock w1)"
    using level_grows [OF ok assms(3) t(1)] t(3) by simp
  moreover have "rate * secs (clock w0) (clock w) + rate * secs (clock w) (clock w1)
      + rate * secs (clock w2) (clock w') = rate * secs (clock w0) (clock w')"
    using s(2) by (simp add: distrib_left [symmetric] secs_add)
  ultimately have "of_nat (if rr_allowed r then Suc n else n)
      + level R N key rate burst (clock w') (w_redis w2)
      \<le> of_int burst + rate * secs (clock w0) (clock w')"
    using pot s(1) c(1) by (auto split: if_splits)
  with bucket_later [OF ok' c(5)] c(4) show ?case by auto
next
  case (elsewhere n w w')
  then obtain L T where ok: "bucket_ok R N key rate burst L T (clock w) (w_redis w)"
    and pot: "of_nat n + level R N key rate burst (clock w) (w_redis w)
      \<le> of_int burst + rate * secs (clock w0) (clock w)" by blast
  have same: "level R N key rate burst u (w_redis w') = level R N key rate burst u (w_redis w)" for u
    using elsewhere.hyps(3) by (simp add: level_def)
  have "rate * secs (clock w0) (clock w) + rate * secs (clock w) (clock w')
      = rate * secs (clock w0) (clock w')"
    by (simp add: distrib_left [symmetric] secs_add)
  with pot level_grows [OF ok assms(3) elsewhere.hyps(2)] have
    "of_nat n + level R N key rate burst (clock w') (w_redis w')
      \<le> of_int burst + rate * secs (clock w0) (clock w')"
    by (simp add: same)
  moreover have "bucket_ok R N key rate burst L T (clock w') (w_redis w')"
    using bucket_later [OF ok elsewhere.hyps(2)] by (simp add: bucket_ok_def same)
  ultimately show ?case by blast
qed

lemma fresh_bucket:
  assumes "\<And>u. hash_at R key u s = []" and "0 \<le> rate" and "0 \<le> burst"
  shows "bucket_ok R N key rate burst (of_int burst) t t s"
  using assms by (auto simp: bucket_ok_def level_def refilled_fresh secs_nonneg)

lemma admitted_bound:
  assumes "rl_run R N key rate burst ttl w0 n w" and "codec_reads N" and "0 \<le> rate" and "0 \<le> burst"
    and "of_int burst \<le> rate * of_int ttl" and "\<And>u. hash_at R key u (w_redis w0) = []"
  shows "of_nat n \<le> of_int burst + rate * secs (clock w0) (clock w)"
proof -
  obtain L T where "bucket_ok R N key rate burst L T (clock w) (w_redis w)"
    and "of_nat n + level R N key rate burst (clock w) (w_redis w)
        \<le> of_int burst + rate * secs (clock w0) (clock w)"
    using run_potential [OF assms(1-3,5) fresh_bucket [OF assms(6,3,4)]] by blast
  with level_bounds(1) [OF this(1) assms(3)] show ?thesis by linarith
qed

end


text \<open>A codec that reads what it shows: the quotient in lowest terms.\<close>

definition read_int :: "string \<Rightarrow> int option" where
  "read_int s = (case s of [] \<Rightarrow> None
     | c # ds \<Rightarrow> if c = CHR ''-'' then map_option (\<lambda>n. - int n) (parse_nat ds) else map_option int (parse_nat s))"

definition ref_numbers :: number_codec where
  "ref_numbers = \<lparr>num_show = (\<lambda>x. format_int (fst (quotient_of x)) @ CHR ''/'' # format_int (snd (quotient_of x))),
     num_read = (\<lambda>s. case split_on CHR ''/'' s of [p, q] \<Rightarrow>
        (case (read_int p, read_int q) of (Some a, Some b) \<Rightarrow> Some (of_int a / of_int b) | _ \<Rightarrow> None)
      | _ \<Rightarrow> None)\<rparr>"

lemma read_format_int: "read_int (format_int i) = Some i"
proof (cases "i < 0")
  case True
  then show ?thesis by (simp add: read_int_def format_int_def)
next
  case False
  obtain d ds where f: "format_nat (nat i) = digit_char d # ds" and "d < 10"
    using format_nat_hd by blast
  have "parse_nat (digit_char d # ds) = Some (nat i)"
    using parse_format_nat [of "nat i"] by (simp only: f)
  with False \<open>d < 10\<close> show ?thesis
    by (simp add: read_int_def format_int_def f digit_char_digit)
qed

lemma format_int_no_slash: "CHR ''/'' \<notin> set (format_int i)"
proof -
  have "CHR ''/'' \<notin> set (format_nat n)" for n
    using format_nat_digits [of n] by (auto simp: list_all_iff is_digit_def less_eq_char_def)
  then show ?thesis by (simp add: format_int_def)
qed

lemma ref_numbers_ok: "codec_reads ref_numbers"
proof -
  have "of_int (fst (quotient_of x)) / of_int (snd (quotient_of x)) = x" for x
    using quotient_of_div [of x] by (metis prod.collapse)
  then show ?thesis
    using split_on_append [OF format_int_no_slash] split_on_no_dollar [OF format_int_no_slash]
    by (simp add: codec_reads_def ref_numbers_def read_format_int)
qed

definition bucket_world :: "ref_store world" where "bucket_world = empty_world (7 * second) (\<lambda>_. None)"

lemma one_check:
  assumes "0 < burst" and "0 < ttl"
  shows "\<exists>w. rl_run ref_redis ref_numbers key 1 burst ttl bucket_world 1 w \<and> clock w = 7 * second"
proof -
  have "fst (tokenBucketScript ref_redis ref_numbers key 1 burst (to_unix (fst (time_now bucket_world))) ttl
      (snd (time_now bucket_world))) = Inr (1, 0, burst - 1)"
    using assms by (simp add: tokenBucketScript_def bucket_world_def ref_hgetall_def ref_look_def
        ref_hset_def refilled_def number_or_def Let_def)
  moreover obtain r w where "checkRateLimit ref_redis ref_numbers key 1 burst ttl bucket_world = (r, w)"
    by fastforce
  moreover from this have "rr_allowed r" and "clock w = 7 * second"
    using assms by (auto simp: checkRateLimit_def tokenBucketScript_def bucket_world_def ref_hgetall_def
        ref_look_def ref_hset_def refilled_def number_or_def Let_def)
  moreover have "outcomes bucket_world = []" by (simp add: bucket_world_def)
  ultimately show ?thesis
    using rl_run.check [OF rl_run.start, of bucket_world ref_redis ref_numbers key 1 burst ttl _ r w]
    by auto
qed


lemma wait_reaches:
  fixes lev rate :: rat
  assumes "0 < rate"
  shows "1 \<le> lev + rate * of_int d \<longleftrightarrow> \<lceil>(1 - lev) / rate\<rceil> \<le> d"
proof -
  have "1 \<le> lev + rate * of_int d \<longleftrightarrow> (1 - lev) / rate \<le> of_int d"
    using assms by (simp add: pos_divide_le_eq mult.commute) linarith
  then show ?thesis by (simp add: ceiling_le_iff)
qed

context redis_hash_ttl
begin

lemma wait_exact:
  assumes "codec_reads N" and "0 < rate" and "1 \<le> burst" and "of_int burst \<le> rate * of_int ttl"
    and "bucket_ok R N key rate burst L T (clock w) (w_redis w)"
    and "tokenBucketScript R N key rate burst (to_unix (clock w)) ttl w = (Inr (0, wait, rem), w1)"
    and "clock w1 \<le> clock w2" and "\<And>u. hash_at R key u (w_redis w2) = hash_at R key u (w_redis w1)"
    and "tokenBucketScript R N key rate burst (to_unix (clock w2)) ttl w2 = (Inr (a, wait', rem'), w3)"
  shows "(a = 1 \<longleftrightarrow> wait \<le> to_unix (clock w2) - to_unix (clock w1)) \<and> 1 \<le> wait"
proof -
  have rate: "0 \<le> rate" using assms(2) by simp
  let ?lev = "level R N key rate burst (clock w) (w_redis w)"
  note s = script_answer [OF assms(1) rate assms(4,5,6)]
  from s(1) have low: "\<not> 1 \<le> ?lev" by (auto split: if_splits)
  with s(4) assms(2) have wait: "wait = \<lceil>(1 - ?lev) / rate\<rceil>" by simp
  have "bucket_ok R N key rate burst ?lev (clock w) (clock w1) (w_redis w1)"
    using s(5) low by simp
  then have "bucket_ok R N key rate burst ?lev (clock w) (clock w2) (w_redis w1)"
    using assms(7) by (rule bucket_later)
  then have ok: "bucket_ok R N key rate burst ?lev (clock w) (clock w2) (w_redis w2)"
    unfolding bucket_ok_def level_def assms(8) .
  then have "level R N key rate burst (clock w2) (w_redis w2)
      = min (of_int burst) (?lev + rate * secs (clock w) (clock w2))"
    by (simp add: bucket_ok_def)
  moreover have "(1::rat) \<le> of_int burst" using assms(3) by simp
  ultimately have "1 \<le> level R N key rate burst (clock w2) (w_redis w2)
      \<longleftrightarrow> 1 \<le> ?lev + rate * of_int (to_unix (clock w2) - to_unix (clock w1))"
    using s(2) by (simp add: secs_def)
  also have "\<dots> \<longleftrightarrow> wait \<le> to_unix (clock w2) - to_unix (clock w1)"
    unfolding wait by (rule wait_reaches [OF assms(2)])
  finally have "a = 1 \<longleftrightarrow> wait \<le> to_unix (clock w2) - to_unix (clock w1)"
    using script_answer(1) [OF assms(1) rate assms(4) ok assms(9)] by simp
  moreover have "0 < (1 - ?lev) / rate" using low assms(2) by simp
  then have "1 \<le> wait" unfolding wait by simp
  ultimately show ?thesis by blast
qed

end

text \<open>The time that a refused client is told to wait is exact: if nobody else uses the bucket, a check
  that the server answers after that many seconds is admitted, and one before them is refused.\<close>

theorem retry_after_exact:
  assumes "redis_hash_ttl R" and "codec_reads N" and "0 < rate" and "1 \<le> burst"
    and "of_int burst \<le> rate * of_int ttl"
    and "rl_run R N key rate burst ttl w0 n w" and "\<And>u. hash_at R key u (w_redis w0) = []"
    and "tokenBucketScript R N key rate burst (to_unix (clock w)) ttl w = (Inr (0, wait, rem), w1)"
    and "clock w1 \<le> clock w2" and "\<And>u. hash_at R key u (w_redis w2) = hash_at R key u (w_redis w1)"
    and "tokenBucketScript R N key rate burst (to_unix (clock w2)) ttl w2 = (Inr (a, wait', rem'), w3)"
  shows "(a = 1 \<longleftrightarrow> wait \<le> to_unix (clock w2) - to_unix (clock w1)) \<and> 1 \<le> wait"
proof -
  have "0 \<le> rate" and "0 \<le> burst" using assms(3,4) by simp_all
  note fresh = redis_hash_ttl.fresh_bucket [OF assms(1,7) this]
  obtain L T where "bucket_ok R N key rate burst L T (clock w) (w_redis w)"
    using redis_hash_ttl.run_potential [OF assms(1,6,2) \<open>0 \<le> rate\<close> assms(5) fresh] by blast
  from redis_hash_ttl.wait_exact [OF assms(1-5) this assms(8-11)] show ?thesis .
qed

text \<open>A store with one bucket: empty since the seventh second.\<close>

definition empty_bucket :: "string \<Rightarrow> ref_store" where
  "empty_bucket key = (\<lambda>_. None)(key := Some (RHash [(''tokens'', num_show ref_numbers 0),
     (''last_update'', num_show ref_numbers 7)], Some (17 * second)))"

lemma ref_reads [simp]: "num_read ref_numbers (num_show ref_numbers x) = Some x"
  using ref_numbers_ok by (simp add: codec_reads_def)

lemma script_fresh:
  "tokenBucketScript ref_redis ref_numbers key 1 1 7 10 bucket_world
   = (Inr (1, 0, 0), bucket_world\<lparr>w_redis := empty_bucket key\<rparr>)"
  by (simp add: tokenBucketScript_def bucket_world_def ref_hgetall_def ref_look_def ref_hset_def
      refilled_def number_or_def Let_def ref_merge_def ref_expire_def empty_bucket_def second_def)

lemma script_empty:
  assumes "w_redis w = empty_bucket key" and "clock w = 7 * second" and "outcomes w = []"
  shows "tokenBucketScript ref_redis ref_numbers key 1 1 7 10 w
   = (Inr (0, 1, 0), w\<lparr>w_redis := empty_bucket key\<rparr>)"
  using assms
  by (simp add: tokenBucketScript_def ref_hgetall_def ref_look_def ref_hset_def refilled_def
      number_or_def Let_def ref_merge_def ref_expire_def empty_bucket_def second_def)

lemma script_refilled:
  assumes "w_redis w = empty_bucket key" and "clock w = 8 * second"
  shows "tokenBucketScript ref_redis ref_numbers key 1 1 8 10 w
   = (Inr (1, 0, 0), w\<lparr>w_redis := (empty_bucket key)(key := Some (RHash [(''tokens'', num_show ref_numbers 0),
     (''last_update'', num_show ref_numbers 8)], Some (18 * second)))\<rparr>)"
  using assms
  by (simp add: tokenBucketScript_def ref_hgetall_def ref_look_def ref_hset_def refilled_def
      number_or_def Let_def ref_merge_def ref_expire_def empty_bucket_def second_def)

theorem retry_after_exact_witness:
  "\<exists>w. (1::int) \<le> to_unix (clock w) - to_unix (7 * second)
    \<and> fst (tokenBucketScript ref_redis ref_numbers ''b'' 1 1 (to_unix (clock w)) 10 w) = Inr (1, 0, 0)"
proof -
  let ?w = "bucket_world\<lparr>w_redis := empty_bucket ''b''\<rparr>"
  let ?w2 = "?w\<lparr>clock := 8 * second\<rparr>"
  have base [simp]: "clock bucket_world = 7 * second" "ticks bucket_world = []"
    "outcomes bucket_world = []" by (simp_all add: bucket_world_def)
  have unix: "to_unix (7 * second) = 7" "to_unix (8 * second) = 8"
    by (simp_all add: to_unix_def second_def)
  obtain r where check: "checkRateLimit ref_redis ref_numbers ''b'' 1 1 10 bucket_world = (r, ?w)"
    by (simp add: checkRateLimit_def unix script_fresh)
  have run: "rl_run ref_redis ref_numbers ''b'' 1 1 10 bucket_world (if rr_allowed r then Suc 0 else 0) ?w"
    by (rule rl_run.check [OF rl_run.start _ _ check]) (simp_all add: unix script_fresh)
  have refused: "tokenBucketScript ref_redis ref_numbers ''b'' 1 1 (to_unix (clock ?w)) 10 ?w = (Inr (0, 1, 0), ?w)"
    using script_empty [of ?w "''b''"] by (simp add: unix)
  have again: "tokenBucketScript ref_redis ref_numbers ''b'' 1 1 (to_unix (clock ?w2)) 10 ?w2
      = (Inr (1, 0, 0), snd (tokenBucketScript ref_redis ref_numbers ''b'' 1 1 8 10 ?w2))"
    using script_refilled [of ?w2 "''b''"] by (simp add: unix)
  have "((1::int) = 1 \<longleftrightarrow> 1 \<le> to_unix (clock ?w2) - to_unix (clock ?w)) \<and> (1::int) \<le> 1"
    by (rule retry_after_exact [OF ref_ttl.redis_hash_ttl_axioms ref_numbers_ok _ _ _ run _ refused _ _ again])
      (simp_all add: bucket_world_def hash_at_ref ref_hash_def ref_look_def second_def)
  then show ?thesis
    using script_refilled [of ?w2 "''b''"] by (intro exI [of _ ?w2]) (simp add: unix)
qed

end
