(* ===== verification/Link_Redirect.thy ===== *)
theory Link_Redirect imports Link_Service begin

text \<open>
  What \<open>ResolveRedirect\<close> promises. A redirect never leads to a deleted, disabled or expired link,
  whatever the calls answer; with a coherent cache it answers as the links table does, and the
  cache stays coherent.
\<close>

section \<open>Redirects\<close>

lemma resolve_cases:
  obtains (hit) cl w1 where "Cache_GetLink R c w = (Inr cl, w1)"
    and "resolve R c w = (let (r, w2) = validateRedirectLink R (ToLink c cl) c
           (record_metric IncRedirectCacheHit w1) in ((r, True), w2))"
  | (negative) e w1 w2 where "Cache_GetLink R c w = (Inl e, w1)"
    and "Cache_IsNegativelyCached R c (record_metric IncRedirectCacheMiss w1) = (Inr True, w2)"
    and "resolve R c w = ((Inl (Sentinel Svc_ErrLinkNotFound), False), w2)"
  | (table) e w1 w2 where "Cache_GetLink R c w = (Inl e, w1)"
    and "w2 = w1 \<or> w2 = snd (Cache_IsNegativelyCached R c (record_metric IncRedirectCacheMiss w1))"
    and "resolve R c w = (let (r, w3) = resolve_from_table R c w2 in ((r, False), w3))"
proof -
  obtain r w1 where r: "Cache_GetLink R c w = (r, w1)" by fastforce
  obtain n w2 where n: "Cache_IsNegativelyCached R c (record_metric IncRedirectCacheMiss w1) = (n, w2)"
    by fastforce
  show thesis
  proof (cases r)
    case (Inr cl)
    with r show thesis by (intro hit) (simp_all add: resolve_def Let_def)
  next
    case (Inl e)
    show thesis
    proof (cases "errors_is e Cache_ErrCacheMiss")
      case False
      with r Inl show thesis by (intro table [of e w1 w1]) (simp_all add: resolve_def Let_def)
    next
      case miss: True
      show thesis
      proof (cases "n = Inr True")
        case True
        with r n Inl miss show thesis by (intro negative) (simp_all add: resolve_def)
      next
        case False
        with r n Inl miss show thesis
          by (intro table [of e w1 w2]) (simp_all add: resolve_def Let_def)
      qed
    qed
  qed
qed

context redis_frame begin

lemma P_is_expired_now: "P u \<Longrightarrow> P (snd (is_expired_now l u))"
  by (auto simp: is_expired_now_def split: option.split prod.split dest: P_time_now)

lemma P_validate:
  assumes "P u"
  shows "P (snd (validateRedirectLink R l c u))"
proof -
  obtain b v where v: "is_expired_now l u = (b, v)" by fastforce
  with P_is_expired_now [OF assms] have "P v" by (metis snd_conv)
  with assms v P_cache(4) show ?thesis by (simp add: validateRedirectLink_def)
qed

lemma P_links_read:
  assumes "P u"
  shows "P (snd (Repository_GetLinkByShortCode c u))" "P (snd (Repository_GetLinkByID i u))"
  unfolding Repository_link_calls
  by (auto intro!: P_call assms simp: pg_link_by_code_def pg_link_by_id_def)

lemma P_from_table:
  assumes "P u"
  shows "P (snd (resolve_from_table R c u))"
proof -
  obtain r v where v: "Repository_GetLinkByShortCode c u = (r, v)" by fastforce
  with P_links_read(1) [OF assms] have "P v" by (metis snd_conv)
  with v show ?thesis
    using P_cache(3) P_SetLink P_validate by (auto simp: resolve_from_table_def split: sum.split)
qed

lemma P_resolve:
  assumes "P u"
  shows "P (snd (resolve R c u))"
proof (cases rule: resolve_cases [of R c u])
  case (hit cl w1)
  with P_cache(1) [OF assms, of R c] P_validate P_metric show ?thesis
    by (simp add: Let_def case_prod_beta)
next
  case (negative e w1 w2)
  with P_cache(1) [OF assms, of R c] P_cache(2) P_metric show ?thesis by (metis snd_conv)
next
  case (table e w1 w2)
  with P_cache(1) [OF assms, of R c] P_cache(2) P_metric have "P w2" by (metis snd_conv)
  with table(3) P_from_table show ?thesis by (simp add: Let_def case_prod_beta)
qed

lemma P_ResolveRedirect:
  assumes "P u"
  shows "P (snd (LinkService_ResolveRedirect R c u))"
proof -
  obtain t1 u1 where 1: "time_now u = (t1, u1)" by fastforce
  obtain r u2 where 2: "resolve R c u1 = (r, u2)" by fastforce
  obtain t2 u3 where 3: "time_now u2 = (t2, u3)" by fastforce
  have "P u1" using assms 1 by (rule P_time_now)
  then have "P u2" using P_resolve 2 by (metis snd_conv)
  then have "P u3" using 3 by (rule P_time_now)
  with 1 2 3 show ?thesis by (simp add: LinkService_ResolveRedirect_def P_metric)
qed

end

text \<open>What passes the validation, at the clock of the world that the validation leaves.\<close>

lemma validate_Inr:
  assumes "validateRedirectLink R l c w = (Inr l', w')"
  shows "l' = l" "Link_IsActive (clock w') l" "clock w \<le> clock w'"
  using assms
  by (auto simp: validateRedirectLink_def is_expired_now_def Link_IsActive_iff Link_IsExpired_def
      split: option.splits prod.splits if_splits dest: time_now_mono)

lemma GetLinkByShortCode_row:
  assumes "Repository_GetLinkByShortCode c w = (Inr l, w')"
  shows "live_row w c l"
  using assms
  by (auto simp: Repository_GetLinkByShortCode_def pg_link_by_code_def live_row_def next_outcome_def
      elim!: call_Inr_cases split: prod.splits sum.splits option.splits list.splits dest!: find_Some_in)

lemma resolve_from_table_Inr:
  assumes "resolve_from_table R c w = (Inr l, w')"
  shows "Link_IsActive (clock w') l" "clock w \<le> clock w'" "live_row w c l"
proof -
  obtain r v where v: "Repository_GetLinkByShortCode c w = (r, v)" by fastforce
  with assms obtain l0 where r: "r = Inr l0"
    and val: "validateRedirectLink R l0 c (snd (Cache_SetLink R c l0 v)) = (Inr l, w')"
    by (auto simp: resolve_from_table_def split: sum.splits if_splits)
  note val = validate_Inr [OF val]
  show "Link_IsActive (clock w') l"
    using val by simp
  have "clock w \<le> clock v"
    using clock_frame.P_links_read(1) [of "clock w" w c] v by simp
  also have "clock v \<le> clock (snd (Cache_SetLink R c l0 v))"
    using clock_frame.P_SetLink [of "clock v" v] by simp
  also have "\<dots> \<le> clock w'" by (rule val(3))
  finally show "clock w \<le> clock w'" .
  show "live_row w c l"
    using GetLinkByShortCode_row v r val(1) by blast
qed

lemma ToLink_short_code [simp]: "l_short_code (ToLink c cl) = c"
  by (simp add: ToLink_def)

lemma live_row_links: "w_links u = w_links w \<Longrightarrow> live_row u = live_row w"
  by (simp add: live_row_def fun_eq_iff)

lemma ResolveRedirect_split:
  assumes "LinkService_ResolveRedirect R c w = (res, w')"
  obtains w1 w2 where "resolve R c w1 = (res, w2)" and "w1 = snd (time_now w)"
    and "clock w \<le> clock w1" and "clock w2 \<le> clock w'" and "w_links w2 = w_links w'"
    and "w_redis w2 = w_redis w'"
proof -
  obtain t1 w1 where 1: "time_now w = (t1, w1)" by fastforce
  obtain r w2 where 2: "resolve R c w1 = (r, w2)" by fastforce
  obtain t2 w3 where 3: "time_now w2 = (t2, w3)" by fastforce
  have w': "res = r" "w' = record_metric (ObserveRedirectDuration (t2 - t1)) w3"
    using assms by (simp_all add: LinkService_ResolveRedirect_def 1 2 3)
  show thesis
  proof (rule that)
    show "resolve R c w1 = (res, w2)" by (simp add: 2 w')
    show "w1 = snd (time_now w)" by (simp add: 1)
    show "clock w \<le> clock w1" using time_now_mono [OF 1] by simp
    show "clock w2 \<le> clock w'" using time_now_mono [OF 3] by (simp add: w')
    show "w_links w2 = w_links w'" "w_redis w2 = w_redis w'"
      using time_now_frame [of w2] by (simp_all add: 3 w')
  qed
qed


lemma ref_empty [simp]:
  "ref_hgetall k t (\<lambda>_. None) = Inr []" "ref_exists k t (\<lambda>_. None) = False"
  "ref_hset k fs t (\<lambda>_. None) = Inr (\<lambda>x. if x = k then Some (RHash (ref_merge fs []), None) else None)"
  by (auto simp: ref_hgetall_def ref_exists_def ref_hset_def ref_look_def)

lemma sample_resolve:
  "fst (LinkService_ResolveRedirect ref_redis ''abd'' sample_world) =
     (Inr (sample_link ''a2'' ''abd'' (5 * second)), False)"
proof -
  let ?w = "record_metric IncRedirectCacheMiss sample_world"
  have 1: "Cache_GetLink ref_redis ''abd'' sample_world = (Inl (Sentinel Cache_ErrCacheMiss), sample_world)"
    by (simp add: Cache_GetLink_def rd_hgetall_def)
  have 2: "Cache_IsNegativelyCached ref_redis ''abd'' ?w = (Inr False, ?w)"
    by (simp add: Cache_IsNegativelyCached_def rd_exists_def)
  have 3: "Repository_GetLinkByShortCode ''abd'' ?w = (Inr (sample_link ''a2'' ''abd'' (5 * second)), ?w)"
    by (simp add: Repository_GetLinkByShortCode_def pg_link_by_code_def live_link_def)
      (simp add: sample_link_def)
  have "fst (validateRedirectLink ref_redis (sample_link ''a2'' ''abd'' t) c v) =
      Inr (sample_link ''a2'' ''abd'' t)" for t c v
    by (simp add: validateRedirectLink_def is_expired_now_def sample_link_def)
  then show ?thesis
    by (simp add: LinkService_ResolveRedirect_def resolve_def resolve_from_table_def case_prod_beta 1 2 3)
qed


section \<open>Redirects under a coherent cache\<close>

definition shows_row :: "link \<Rightarrow> link \<Rightarrow> bool" where
  "shows_row l' l = (l_destination l' = l_destination l \<and> l_redirect_type l' = l_redirect_type l
     \<and> l_short_code l' = l_short_code l \<and> l_enabled l'
     \<and> (l_expires_at l' = l_expires_at l \<or> l_expires_at l' = map_option whole_second (l_expires_at l)))"

definition answers_for :: "'r world \<Rightarrow> string \<Rightarrow> instant \<Rightarrow> error + link \<Rightarrow> bool" where
  "answers_for w c t r = (case r of
       Inr l' \<Rightarrow> (\<exists>l. live_row w c l \<and> shows_row l' l)
     | Inl e \<Rightarrow> (e = Sentinel Svc_ErrLinkNotFound \<longrightarrow> (\<forall>l. \<not> live_row w c l))
         \<and> (e = Sentinel Svc_ErrLinkDisabled \<longrightarrow> (\<exists>l. live_row w c l \<and> \<not> l_enabled l))
         \<and> (e = Sentinel Svc_ErrLinkExpired \<longrightarrow> (\<exists>l. live_row w c l \<and> Link_IsExpired (t + second) l)))"

definition times_ok :: "link list \<Rightarrow> bool" where
  "times_ok ls = list_all (\<lambda>l. live_link l \<longrightarrow> link_times_ok l) ls"

lemma ToLink_updated_at:
  "ToLink c (x\<lparr>c_updated_at := s\<rparr>)\<lparr>l_updated_at := u\<rparr> = ToLink c x\<lparr>l_updated_at := u\<rparr>"
  by (simp add: ToLink_def)

lemma agrees_ToLink:
  assumes "agrees fs l" and "link_check l = None" and "link_times_ok l"
  shows "\<exists>u. ToLink (l_short_code l) (cached_of fs) = cache_image l\<lparr>l_updated_at := u\<rparr>"
proof -
  let ?c = "l_short_code l"
  have "RedirectType_IsValid (l_redirect_type l)"
    using assms(2) by (simp add: link_check_def split: if_splits)
  then have "ToLink ?c (ToCachedLink l) = cache_image l"
    using assms(3) by (rule ToLink_ToCachedLink)
  moreover have "ToLink ?c (cached_of fs)\<lparr>l_updated_at := u\<rparr> = ToLink ?c (ToCachedLink l)\<lparr>l_updated_at := u\<rparr>" for u
    using agrees_cached_of [OF assms(1)] ToLink_updated_at by metis
  ultimately have "ToLink ?c (cached_of fs)\<lparr>l_updated_at := u\<rparr> = cache_image l\<lparr>l_updated_at := u\<rparr>" for u
    by simp
  from this [of "l_updated_at (ToLink ?c (cached_of fs))"] show ?thesis
    by (intro exI [of _ "l_updated_at (ToLink ?c (cached_of fs))"]) simp
qed

lemma GetLink_hit:
  assumes "Cache_GetLink R c w = (Inr cl, w')"
  shows "hash_now R w c \<noteq> []" and "cl = cached_of (hash_now R w c)"
proof -
  from assms obtain fs where fs: "call (rd_hgetall R (link_hash_key c)) w = (Inr fs, w')"
    and "fs \<noteq> []" and "cl = cached_of fs"
    by (auto simp: Cache_GetLink_def split: prod.splits sum.splits if_splits)
  moreover from fs obtain u where "next_outcome w = (Up, u)" and "r_hgetall R (link_hash_key c) (clock u) (w_redis u) = Inr fs"
    by (auto simp: rd_hgetall_def elim: call_Inr_cases)
  moreover from this have "clock u = clock w" and "w_redis u = w_redis w"
    using next_outcome_clock [of w] next_outcome_frame(8) [of w] by simp_all
  ultimately show "hash_now R w c \<noteq> []" and "cl = cached_of (hash_now R w c)"
    by (simp_all add: hash_now_def hash_at_def)
qed

lemma IsNegativelyCached_true:
  assumes "Cache_IsNegativelyCached R c w = (Inr True, w')"
  shows "negative_now R w c"
proof -
  from assms obtain n where n: "call (rd_exists R (neg_key c)) w = (Inr n, w')" and "0 < n"
    by (auto simp: Cache_IsNegativelyCached_def split: prod.splits sum.splits)
  moreover from n obtain u where "next_outcome w = (Up, u)"
    and "n = (if r_exists R (neg_key c) (clock u) (w_redis u) then 1 else 0)"
    by (auto simp: rd_exists_def elim: call_Inr_cases)
  moreover from this have "clock u = clock w" and "w_redis u = w_redis w"
    using next_outcome_clock [of w] next_outcome_frame(8) [of w] by simp_all
  ultimately show ?thesis
    by (simp add: negative_now_def split: if_splits)
qed

lemma live_row_unique:
  assumes "links_inv w" and "live_row w c l" and "live_row w c l'"
  shows "l' = l"
proof -
  have "distinct (map l_short_code (filter live_link (w_links w)))"
    using assms(1) by (simp add: links_inv_def links_ok_def)
  with assms(2,3) show ?thesis
    by (auto simp: live_row_def distinct_map inj_on_def)
qed

lemma GetLinkByShortCode_none:
  assumes "Repository_GetLinkByShortCode c w = (Inl e, w')" and "errors_is e Repo_ErrLinkNotFound"
  shows "\<not> live_row w c l"
proof -
  from assms have "call (pg_link_by_code c) w = (Inr None, w')"
    by (auto simp: Repository_GetLinkByShortCode_def call_def pg_link_by_code_def
        split: prod.splits sum.splits option.splits outcome.splits)
  then obtain u where "next_outcome w = (Up, u)"
    and none: "find (\<lambda>r. l_short_code r = c \<and> live_link r) (w_links u) = None"
    by (auto simp: pg_link_by_code_def elim: call_Inr_cases)
  moreover from this have "w_links u = w_links w"
    using next_outcome_frame(1) [of w] by simp
  ultimately show ?thesis
    by (auto simp: live_row_def find_None_iff)
qed

text \<open>The validation, by the time at which it decides.\<close>

lemma validate_result:
  assumes "validateRedirectLink R l c w = (r, w')" and "l_deleted_at l = None"
  shows "r = Inr l \<and> l_enabled l \<or> r = Inl (Sentinel Svc_ErrLinkDisabled) \<and> \<not> l_enabled l
    \<or> r = Inl (Sentinel Svc_ErrLinkExpired) \<and> Link_IsExpired (clock w') l"
proof -
  obtain b v where b: "is_expired_now l w = (b, v)" by fastforce
  have "b \<Longrightarrow> Link_IsExpired (clock v) l"
    using b by (auto simp: is_expired_now_def split: option.splits prod.splits dest: time_now_mono)
  moreover have "clock v \<le> clock (snd (Cache_DeleteLink R c v))"
    using clock_frame.P_cache(4) [of "clock v" v] by simp
  ultimately show ?thesis
    using assms b Link_IsExpired_mono [of "clock v" l]
    by (auto simp: validateRedirectLink_def split: if_splits)
qed

lemma shows_row_refl: "Link_IsActive t l \<Longrightarrow> shows_row l l"
  by (simp add: shows_row_def Link_IsActive_iff)

lemma shows_row_image: "l_enabled l \<Longrightarrow> shows_row (cache_image l\<lparr>l_updated_at := u\<rparr>) l"
  by (simp add: shows_row_def cache_image_def)

lemma answers_from_validate:
  assumes "validateRedirectLink R l' c v = (r, w')" and "l_deleted_at l' = None"
    and "live_row w c l" and "l_enabled l \<Longrightarrow> shows_row l' l" and "l_enabled l' = l_enabled l"
    and "\<And>t. Link_IsExpired t l' \<Longrightarrow> Link_IsExpired (t + second) l"
  shows "answers_for w c (clock w') r"
  using validate_result [OF assms(1,2)] assms(3-6)
  by (elim disjE) (auto simp: answers_for_def)

lemma answers_from_table:
  assumes "resolve_from_table R c w = (r, w')" and "w_links w = w_links w0"
  shows "answers_for w0 c (clock w') r"
proof -
  have rows: "live_row w0 = live_row w"
    using assms(2) by (simp add: live_row_def fun_eq_iff)
  obtain x v where x: "Repository_GetLinkByShortCode c w = (x, v)" by fastforce
  show ?thesis
  proof (cases x)
    case (Inl e)
    then have "r = Inl (Sentinel Svc_ErrLinkNotFound) \<and> errors_is e Repo_ErrLinkNotFound
        \<or> r = Inl e \<and> (\<exists>m e'. e = Wrap m e')"
      using assms(1) x
      by (auto simp: resolve_from_table_def Repository_GetLinkByShortCode_def split: if_splits
          prod.splits sum.splits option.splits)
    moreover have "errors_is e Repo_ErrLinkNotFound \<Longrightarrow> \<not> live_row w c l" for l
      using GetLinkByShortCode_none x Inl by blast
    ultimately show ?thesis by (auto simp: answers_for_def rows)
  next
    case (Inr l)
    then have l: "live_row w c l"
      using x GetLinkByShortCode_row by blast
    have "validateRedirectLink R l c (snd (Cache_SetLink R c l v)) = (r, w')"
      using assms(1) x Inr by (simp add: resolve_from_table_def)
    moreover have "Link_IsExpired t l \<Longrightarrow> Link_IsExpired (t + second) l" for t
      by (erule Link_IsExpired_mono) (simp add: second_def)
    moreover have "l_deleted_at l = None"
      using l by (simp add: live_row_def live_link_def)
    ultimately show ?thesis
      using l by (intro answers_from_validate [where l = l and l' = l])
        (auto simp: rows shows_row_def)
  qed
qed

text \<open>What a coherent hash shows: the live row, with its times cut to the second.\<close>

lemma hit_image:
  assumes "coherent_at R w c" and "links_inv w" and "times_ok (w_links w)"
    and "Cache_GetLink R c w = (Inr cl, v)"
  shows "\<exists>l up. live_row w c l \<and> ToLink c cl = cache_image l\<lparr>l_updated_at := up\<rparr>"
proof -
  obtain l where l: "live_row w c l" and "agrees (hash_now R w c) l"
    using assms(1) GetLink_hit(1) [OF assms(4)] by (auto simp: coherent_at_def)
  moreover have "link_check l = None" and "link_times_ok l" and "l_short_code l = c"
    using assms(2,3) l by (auto simp: links_inv_def links_ok_def times_ok_def live_row_def list_all_iff)
  ultimately show ?thesis
    using agrees_ToLink GetLink_hit(2) [OF assms(4)] by metis
qed

lemma answers_from_image:
  assumes "live_row w c l" and "validateRedirectLink R (cache_image l\<lparr>l_updated_at := up\<rparr>) c u = (r, w')"
  shows "answers_for w c (clock w') r"
proof (rule answers_from_validate [OF assms(2)])
  show "live_row w c l" by (rule assms(1))
  show "l_deleted_at (cache_image l\<lparr>l_updated_at := up\<rparr>) = None"
    using assms(1) by (simp add: cache_image_def live_row_def live_link_def)
  show "l_enabled l \<Longrightarrow> shows_row (cache_image l\<lparr>l_updated_at := up\<rparr>) l"
    by (simp add: shows_row_image)
  show "l_enabled (cache_image l\<lparr>l_updated_at := up\<rparr>) = l_enabled l"
    by simp
  show "Link_IsExpired (t + second) l" if "Link_IsExpired t (cache_image l\<lparr>l_updated_at := up\<rparr>)" for t
    using that cache_image_expiry(2) [of t l] by (simp add: Link_IsExpired_def)
qed

lemma answers_from_hit:
  assumes "coherent R w" and "links_inv w" and "times_ok (w_links w)"
    and "Cache_GetLink R c w = (Inr cl, v)" and "validateRedirectLink R (ToLink c cl) c u = (r, w')"
  shows "answers_for w c (clock w') r"
  using hit_image [OF _ assms(2-4)] answers_from_image assms(1,5) unfolding coherent_def by metis

context redis_server begin

lemma kept_time: "kept D w u \<Longrightarrow> time_now u = (t, v) \<Longrightarrow> kept D w v"
  using kept_time_now [of D w u] by simp

lemma kept_metric: "kept D w u \<Longrightarrow> kept D w (record_metric f u)"
  by (erule kept_later) simp_all

lemma kept_validate:
  assumes "kept D w u"
  shows "kept D w (snd (validateRedirectLink R l c u))"
proof -
  obtain b v where b: "is_expired_now l u = (b, v)" by fastforce
  then have "kept D w v"
    using assms kept_time by (auto simp: is_expired_now_def split: option.splits prod.splits)
  with assms b Cache_DeleteLink_kept show ?thesis
    by (simp add: validateRedirectLink_def)
qed

lemma kept_from_table:
  assumes "kept D w u" and "links_inv w" and "codes_clean (w_links w)"
  shows "kept D w (snd (resolve_from_table R c u))"
proof -
  obtain x v where x: "Repository_GetLinkByShortCode c u = (x, v)" by fastforce
  have "kept D w (snd (call (pg_link_by_code c) u))"
    using assms(1) by (rule kept_call) (simp add: pg_link_by_code_def)
  then have v: "kept D w v"
    using x by (simp flip: Repository_link_calls)
  have rows: "live_row u = live_row w"
    using assms(1) by (simp add: kept_def live_row_def fun_eq_iff)
  show ?thesis
  proof (cases x)
    case (Inl e)
    show ?thesis
    proof (cases "errors_is e Repo_ErrLinkNotFound")
      case True
      with x Inl have "\<not> live_row w c l" for l
        using GetLinkByShortCode_none rows by metis
      with v have "kept D w (snd (Cache_SetNegativeCache R c v))"
        by (rule SetNegativeCache_kept)
      with x Inl True show ?thesis by (simp add: resolve_from_table_def)
    next
      case False
      with x Inl v show ?thesis by (simp add: resolve_from_table_def)
    qed
  next
    case (Inr l)
    then have "live_row w c l"
      using x GetLinkByShortCode_row rows by metis
    then have "kept D w (snd (Cache_SetLink R c l v))"
      using v assms(3) live_row_unique [OF assms(2)] by (intro SetLink_kept) blast+
    with x Inr kept_validate show ?thesis by (simp add: resolve_from_table_def)
  qed
qed

lemma kept_resolve:
  assumes "kept D w u" and "links_inv w" and "codes_clean (w_links w)"
  shows "kept D w (snd (resolve R c u))"
proof (cases rule: resolve_cases [of R c u])
  case (hit cl w1)
  with GetLink_kept [OF assms(1), of c] kept_validate kept_metric show ?thesis
    by (simp add: Let_def case_prod_beta)
next
  case (negative e w1 w2)
  with GetLink_kept [OF assms(1), of c] IsNegativelyCached_kept kept_metric show ?thesis
    by (metis snd_conv)
next
  case (table e w1 w2)
  with GetLink_kept [OF assms(1), of c] IsNegativelyCached_kept kept_metric have "kept D w w2"
    by (metis snd_conv)
  with table(3) kept_from_table assms(2,3) show ?thesis by (simp add: Let_def case_prod_beta)
qed

end

definition redirect_errors :: "error set" where
  "redirect_errors = Sentinel ` {Svc_ErrLinkNotFound, Svc_ErrLinkDisabled, Svc_ErrLinkExpired}"

lemma validate_errors: "validateRedirectLink R l c w = (Inl e, w') \<Longrightarrow> e \<in> redirect_errors"
  by (auto simp: validateRedirectLink_def redirect_errors_def split: if_splits prod.splits)

lemma resolve_up_errors:
  assumes "resolve R c w = ((Inl e, hit), w')" and "outcomes w = []"
  shows "e \<in> redirect_errors"
proof (cases rule: resolve_cases [of R c w])
  case (hit cl w1)
  with assms(1) validate_errors show ?thesis by (auto simp: Let_def split: prod.splits)
next
  case (negative e1 w1 w2)
  with assms(1) show ?thesis by (simp add: redirect_errors_def)
next
  case (table e1 w1 w2)
  have "outcomes w1 = []"
    using up_frame.P_cache(1) [OF assms(2), of R c] table(1) by simp
  then have "outcomes w2 = []"
    using table(2) up_frame.P_cache(2) [of "record_metric IncRedirectCacheMiss w1" R c] by auto
  moreover have "resolve_from_table R c w2 = (Inl e, w')"
    using assms(1) table(3) by (auto simp: Let_def split: prod.splits)
  ultimately show ?thesis
    by (auto simp: resolve_from_table_def Repository_GetLinkByShortCode_def pg_link_by_code_def
        split: option.splits intro: validate_errors) (simp add: redirect_errors_def)
qed

lemma answers_mono:
  assumes "answers_for w c t r" and "t \<le> t'"
  shows "answers_for w c t' r"
proof -
  have "Link_IsExpired (t + second) l \<Longrightarrow> Link_IsExpired (t' + second) l" for l
    using assms(2) by (auto elim: Link_IsExpired_mono)
  with assms(1) show ?thesis
    unfolding answers_for_def by (cases r) auto
qed

context redis_server begin

lemma resolve_answers:
  assumes "coherent R w" and "links_inv w" and "times_ok (w_links w)" and "resolve R c w = ((r, hit), w')"
  shows "answers_for w c (clock w') r"
proof (cases rule: resolve_cases [of R c w])
  case (hit cl w1)
  with assms(4) answers_from_hit [OF assms(1-3)] show ?thesis
    by (auto simp: Let_def split: prod.splits)
next
  case (negative e w1 w2)
  have "kept UNIV w w"
    using assms(1) by (simp add: kept_coherent)
  then have "kept UNIV w (record_metric IncRedirectCacheMiss w1)"
    using GetLink_kept [of UNIV w w c] negative(1) kept_metric by simp
  moreover have "negative_now R (record_metric IncRedirectCacheMiss w1) c"
    using negative(2) by (rule IsNegativelyCached_true)
  ultimately have "\<not> live_row w c l" for l
    by (auto simp: kept_coherent coherent_def coherent_at_def live_row_def)
  moreover have "r = Inl (Sentinel Svc_ErrLinkNotFound)"
    using assms(4) negative(3) by simp
  ultimately show ?thesis by (simp add: answers_for_def)
next
  case (table e w1 w2)
  have "w_links w1 = w_links w"
    using links_frame.P_cache(1) [of w "w_links w" R c] table(1) by simp
  then have "w_links w2 = w_links w"
    using table(2) links_frame.P_cache(2) [of "record_metric IncRedirectCacheMiss w1" "w_links w" R c]
    by auto
  with assms(4) table(3) answers_from_table [of R c w2 _ _ w] show ?thesis
    by (auto simp: Let_def split: prod.splits)
qed

lemma ResolveRedirect_answers:
  assumes "coherent R w" and "links_inv w" and "times_ok (w_links w)" and "codes_clean (w_links w)"
    and "LinkService_ResolveRedirect R c w = ((r, hit), w')"
  shows "answers_for w c (clock w') r" and "coherent R w'" and "w_links w' = w_links w"
    and "outcomes w = [] \<Longrightarrow> r = Inl e \<Longrightarrow> e \<in> redirect_errors"
proof -
  obtain w1 w2 where res: "resolve R c w1 = ((r, hit), w2)" and w1: "w1 = snd (time_now w)"
    and le: "clock w2 \<le> clock w'" and same: "w_links w2 = w_links w'" "w_redis w2 = w_redis w'"
    by (rule ResolveRedirect_split [OF assms(5)])
  have k1: "kept UNIV w w1"
    using kept_time_now [of UNIV w w] assms(1) w1 by (simp add: kept_coherent)
  then have rows: "live_row w1 = live_row w" and links: "w_links w1 = w_links w"
    by (simp_all add: kept_coherent live_row_def fun_eq_iff)
  have "answers_for w1 c (clock w2) r"
    using k1 assms(2,3) res by (intro resolve_answers) (simp_all add: kept_coherent links_inv_def)
  then have "answers_for w1 c (clock w') r"
    using le by (rule answers_mono)
  then show "answers_for w c (clock w') r"
    by (simp only: answers_for_def rows)
  have k2: "kept UNIV w w2"
    using kept_resolve [OF k1 assms(2,4), of c] res by simp
  then show "w_links w' = w_links w"
    using same by (simp add: kept_coherent)
  show "coherent R w'"
    using k2 le same by (auto simp: kept_coherent intro: coherent_later)
  show "e \<in> redirect_errors" if "outcomes w = []" and "r = Inl e"
    using resolve_up_errors [of R c w1] res that w1 by simp
qed

end

text \<open>C1: Under a coherent cache ResolveRedirect answers as the links table does, whatever the calls
  answer: a returned link shows destination, redirect type and expiry (to the second) of the live row
  of that code; not-found means there is no live row, disabled and expired that the live row is so
  (expiry up to one second early); the cache stays coherent and the table is not touched; and when
  every call is answered there is no other error. Redis is any server that keeps its documented
  laws.\<close>

theorem resolve_redirect_faithful:
  assumes "redis_server R" and "coherent R w" and "links_inv w" and "times_ok (w_links w)"
    and "codes_clean (w_links w)"
    and "LinkService_ResolveRedirect R c w = ((r, hit), w')"
  shows "answers_for w c (clock w') r \<and> coherent R w' \<and> w_links w' = w_links w
    \<and> (outcomes w = [] \<longrightarrow> (\<forall>e. r = Inl e \<longrightarrow> e \<in> redirect_errors))"
  using redis_server.ResolveRedirect_answers [OF assms] by blast

lemma sample_coherent [simp]: "coherent ref_redis sample_world"
  by (simp add: coherent_def coherent_at_def hash_now_def negative_now_def hash_at_def)

lemma sample_ok [simp]: "times_ok (w_links sample_world)" "codes_clean (w_links sample_world)"
  by (simp_all add: times_ok_def codes_clean_def sample_link_def link_times_ok_def unix_ok_def
      int64_ok_def to_unix_def has_suffix_def negCacheKeySuffix_def second_def)

theorem resolve_redirect_faithful_witness:
  "\<exists>w'. LinkService_ResolveRedirect ref_redis ''abd'' sample_world
      = ((Inr (sample_link ''a2'' ''abd'' (5 * second)), False), w') \<and> coherent ref_redis w'"
proof -
  obtain w' where res: "LinkService_ResolveRedirect ref_redis ''abd'' sample_world
      = ((Inr (sample_link ''a2'' ''abd'' (5 * second)), False), w')"
    using sample_resolve by (metis prod.collapse)
  have "coherent ref_redis w'"
    using resolve_redirect_faithful [OF ref_server.redis_server_axioms sample_coherent
        sample_world_inv sample_ok res] by simp
  with res show ?thesis by blast
qed

end
