(* ===== verification/Link_Writes.thy ===== *)
theory Link_Writes imports Link_Redirect begin

text \<open>
  What creating, updating and deleting a link promise: the rules that a created link satisfies, and
  the effect of the writes on the cache. A write whose calls are answered leaves the cache coherent,
  so that a deleted link is gone at once; the creation of a negatively cached code does not, and the
  new link stays hidden until the entry expires.
\<close>

section \<open>Writes and the cache\<close>

text \<open>A write touches the rows of one code; the deletion of its keys then restores coherence.\<close>

definition coherent_except :: "'r redis_ops \<Rightarrow> 'r world \<Rightarrow> string \<Rightarrow> bool" where
  "coherent_except R w c = (\<forall>c'. c' \<noteq> c \<longrightarrow> coherent_at R w c')"

lemma update_other_rows:
  assumes "pg_update_links p f w = (r, w')" and "\<And>x. l_short_code (f x) = l_short_code x"
    and "\<And>x. x \<in> set (w_links w) \<Longrightarrow> p x \<Longrightarrow> l_short_code x = c" and "c' \<noteq> c"
  shows "live_row w' c' = live_row w c'"
  using assms(1)
proof (cases rule: pg_update_links_cases)
  case 1
  then show ?thesis by simp
next
  case 2
  have "l \<in> (\<lambda>r. if p r then touch_link (clock w) (f r) else r) ` set (w_links w)
      \<longleftrightarrow> l \<in> set (w_links w)" if "l_short_code l = c'" for l
    using that assms(2-4) by (auto simp: image_iff)
  with 2(2) show ?thesis
    by (auto simp: live_row_def fun_eq_iff)
qed

context redis_server begin

lemma coherent_at_rows:
  assumes "coherent_at R w c" and "live_row w' c = live_row w c" and "w_redis w' = w_redis w"
    and "clock w \<le> clock w'"
  shows "coherent_at R w' c"
proof -
  have "hash_now R w' c = hash_now R w c \<or> hash_now R w' c = []"
    using hash_fades [OF assms(4)] assms(3) by (simp add: hash_now_def)
  moreover have "negative_now R w' c \<Longrightarrow> negative_now R w c"
    using exists_fades [OF assms(4)] assms(3) by (simp add: negative_now_def)
  ultimately show ?thesis
    using assms(1,2) by (auto simp: coherent_at_def)
qed

lemma DeleteLink_clears:
  assumes "outcomes w = []"
  shows "coherent_at R (snd (Cache_DeleteLink R c w)) c"
proof -
  let ?w' = "snd (Cache_DeleteLink R c w)"
  have "w_redis ?w' = r_del R [neg_key c] (r_del R [link_hash_key c] (w_redis w))"
    using assms by (simp add: Cache_calls both_def rd_del_def)
  then show ?thesis
    by (simp add: coherent_at_def hash_now_def negative_now_def del_hash del_exists)
qed

lemma DeleteLink_restores:
  assumes "coherent_except R w c" and "outcomes w = []"
  shows "coherent R (snd (Cache_DeleteLink R c w))"
proof -
  have "kept (- {c}) w w"
    using assms(1) by (simp add: kept_def coherent_except_def)
  then have "kept (- {c}) w (snd (Cache_DeleteLink R c w))"
    by (rule Cache_DeleteLink_kept)
  with DeleteLink_clears [OF assms(2)] show ?thesis
    unfolding coherent_def kept_def by blast
qed

end

lemma GetLinkByID_row:
  assumes "Repository_GetLinkByID i w = (Inr l, w')"
  shows "l \<in> set (w_links w) \<and> live_link l \<and> l_id l = i"
  using assms
  by (auto simp: Repository_GetLinkByID_def pg_link_by_id_def next_outcome_def
      elim!: call_Inr_cases split: prod.splits sum.splits option.splits list.splits dest!: find_Some_in)

lemma GetLink_Inr: "LinkService_GetLink i w = (Inr l, w') \<Longrightarrow> Repository_GetLinkByID i w = (Inr l, w')"
  by (auto simp: LinkService_GetLink_def split: prod.splits sum.splits if_splits)

lemma GetLink_world: "snd (LinkService_GetLink i w) = snd (Repository_GetLinkByID i w)"
  by (simp add: LinkService_GetLink_def split: prod.split sum.split)

lemma up_GetLink: "outcomes w = [] \<Longrightarrow> snd (LinkService_GetLink i w) = w"
  by (simp add: GetLink_world Repository_link_calls pg_link_by_id_def)

text \<open>The edits change no id, code or deletion mark.\<close>

definition same_row :: "link \<Rightarrow> link \<Rightarrow> bool" where
  "same_row a b = (l_id a = l_id b \<and> l_short_code a = l_short_code b)"

lemma edits_same_row:
  "apply_destination P d l = Inr l' \<Longrightarrow> same_row l' l"
  "apply_redirect_type t l = Inr l' \<Longrightarrow> same_row l' l"
  "apply_expiry c e l w = (Inr l', w') \<Longrightarrow> same_row l' l"
  "same_row (apply_enabled b l) l"
  by (auto simp: same_row_def apply_destination_def apply_redirect_type_def apply_expiry_def
      apply_enabled_def split: option.splits if_splits prod.splits)

lemma same_row_trans: "same_row a b \<Longrightarrow> same_row b c \<Longrightarrow> same_row a c"
  by (simp add: same_row_def)

text \<open>An update reaches the statement with an edited copy of the live row, or changes no table or key.\<close>

definition untouched :: "'r world \<Rightarrow> 'r world \<Rightarrow> bool" where
  "untouched w u = (w_links u = w_links w \<and> w_redis u = w_redis w \<and> clock w \<le> clock u \<and> outcomes u = [])"

lemma untouched_time: "untouched w u \<Longrightarrow> time_now u = (t, v) \<Longrightarrow> untouched w v"
  using time_now_frame [of u] time_now_mono [of u] by (auto simp: untouched_def)

lemma untouched_reads:
  "untouched w u \<Longrightarrow> is_expired_now l u = (b, v) \<Longrightarrow> untouched w v"
  "untouched w u \<Longrightarrow> past e u = (b, v) \<Longrightarrow> untouched w v"
  "untouched w u \<Longrightarrow> apply_expiry c e l u = (x, v) \<Longrightarrow> untouched w v"
proof -
  show "untouched w v" if "untouched w u" "is_expired_now l u = (b, v)"
    using that untouched_time by (auto simp: is_expired_now_def split: option.splits prod.splits)
  show past: "untouched w v" if "untouched w u" "past e u = (b, v)" for b
    using that untouched_time by (auto simp: past_def split: option.splits prod.splits)
  show "untouched w v" if "untouched w u" "apply_expiry c e l u = (x, v)"
    using that past by (auto simp: apply_expiry_def split: if_splits prod.splits)
qed

lemma UpdateLink_cases:
  assumes "LinkService_UpdateLink R P input w = (r, w')" and "outcomes w = []"
  obtains (early) e where "r = Inl e" and "untouched w w'"
  | (save) l l' v where "l \<in> set (w_links w)" and "live_link l" and "l_id l = ui_id input"
    and "same_row l' l" and "untouched w v" and "save_and_invalidate R l' v = (r, w')"
proof -
  obtain g w1 where g: "LinkService_GetLink (ui_id input) w = (g, w1)" by fastforce
  with up_GetLink [OF assms(2), of "ui_id input"] have w1: "w1 = w" by simp
  have w: "untouched w w" using assms(2) by (simp add: untouched_def)
  note run = assms(1) [unfolded LinkService_UpdateLink_def g w1, simplified]
  show thesis
  proof (cases g)
    case (Inl e)
    with run w show thesis by (auto intro: early)
  next
    case (Inr l)
    with g GetLink_Inr GetLinkByID_row have l: "l \<in> set (w_links w)" "live_link l" "l_id l = ui_id input"
      by blast+
    obtain b w2 where b: "is_expired_now l w = (b, w2)" by fastforce
    note w2 = untouched_reads(1) [OF w b]
    show thesis
    proof (cases "\<exists>l2 l3. \<not> b \<and> apply_destination P (ui_destination input) l = Inr l2
        \<and> apply_redirect_type (ui_redirect_type input) l2 = Inr l3")
      case False
      then have "\<exists>e. r = Inl e \<and> w' = w2"
        using run Inr b by (auto split: if_splits sum.splits) metis+
      with w2 show thesis by (auto intro: early)
    next
      case True
      then obtain l2 l3 where l3: "\<not> b" "apply_destination P (ui_destination input) l = Inr l2"
        "apply_redirect_type (ui_redirect_type input) l2 = Inr l3" by blast
      obtain x w3 where x: "apply_expiry (ui_clear_expiry input) (ui_expires_at input) l3 w2 = (x, w3)"
        by fastforce
      note w3 = untouched_reads(3) [OF w2 x]
      show thesis
      proof (cases x)
        case (Inl e)
        with run Inr b l3 x w3 show thesis by (auto intro: early)
      next
        case l4: (Inr l4)
        have "same_row (apply_enabled (ui_enabled input) l4) l"
          using edits_same_row l3(2,3) x [unfolded l4] same_row_trans by metis
        moreover have "save_and_invalidate R (apply_enabled (ui_enabled input) l4) w3 = (r, w')"
          using run Inr b l3 x l4 by simp
        ultimately show thesis using save l w3 by blast
      qed
    qed
  qed
qed

lemma row_of_id:
  assumes "links_inv w" and "l \<in> set (w_links w)" and "x \<in> set (w_links w)" and "l_id x = l_id l"
  shows "x = l"
  using assms by (auto simp: links_inv_def links_ok_def distinct_map inj_on_def)

context redis_server begin

lemma coherent_untouched: "coherent R w \<Longrightarrow> untouched w u \<Longrightarrow> coherent R u"
  by (auto simp: untouched_def intro: coherent_later)

lemma coherent_after_update:
  assumes "coherent R v" and "outcomes v = []" and "pg_update_links p f v = (x, u)"
    and "\<And>y. l_short_code (f y) = l_short_code y"
    and "\<And>y. y \<in> set (w_links v) \<Longrightarrow> p y \<Longrightarrow> l_short_code y = c"
  shows "coherent_except R u c \<and> outcomes u = []"
proof -
  have u: "w_redis u = w_redis v \<and> clock u = clock v \<and> outcomes u = []"
    using assms(3,2) by (cases rule: pg_update_links_cases) simp_all
  have "coherent_at R u c'" if "c' \<noteq> c" for c'
  proof (rule coherent_at_rows)
    show "coherent_at R v c'" using assms(1) by (simp add: coherent_def)
    show "live_row u c' = live_row v c'" by (rule update_other_rows [OF assms(3-5) that])
  qed (simp_all add: u)
  with u show ?thesis by (simp add: coherent_except_def)
qed

lemma coherent_except_metric: "coherent_except R u c \<Longrightarrow> coherent_except R (record_metric f u) c"
  by (auto simp: coherent_except_def intro: coherent_at_later)

text \<open>A statement that changes live rows, followed by the deletion of the code's keys.\<close>

lemma update_then_delete:
  assumes "coherent R v" and "outcomes v = []" and "pg_update_links p f v = (x, u)"
    and "\<And>y. l_short_code (f y) = l_short_code y"
    and "\<And>y. y \<in> set (w_links v) \<Longrightarrow> p y \<Longrightarrow> l_short_code y = c"
  shows "coherent R (snd (Cache_DeleteLink R c (record_metric g u)))"
  using coherent_after_update [OF assms] coherent_except_metric
  by (intro DeleteLink_restores) simp_all

lemma save_coherent:
  assumes "coherent R v" and "outcomes v = []" and "links_inv v"
    and "l \<in> set (w_links v)" and "live_link l" and "same_row l' l"
  shows "coherent R (snd (save_and_invalidate R l' v))"
proof -
  let ?p = "\<lambda>y. l_id y = l_id l' \<and> live_link y"
  obtain x u where u: "pg_update_links ?p (set_link_fields l') v = (x, u)" by fastforce
  from u show ?thesis
  proof (cases rule: pg_update_links_cases)
    case (1 e)
    then show ?thesis
      using u assms(1,2) by (simp add: save_and_invalidate_def Repository_UpdateLink_def)
  next
    case 2
    have "l \<in> set (filter ?p (w_links v))"
      using assms(4-6) by (simp add: same_row_def)
    then have "x \<noteq> Inr 0"
      using 2(1) length_pos_if_in_set by fastforce
    then have "Repository_UpdateLink l' v = (Inr (), u)"
      using assms(2) u 2(1) by (simp add: Repository_UpdateLink_def)
    moreover have "l_short_code y = l_short_code l'" if "y \<in> set (w_links v)" "?p y" for y
      using row_of_id [OF assms(3,4), of y] that assms(6) by (simp add: same_row_def)
    ultimately show ?thesis
      using update_then_delete [OF assms(1,2) u, of "l_short_code l'"]
      by (simp add: save_and_invalidate_def set_link_fields_keeps)
  qed
qed

lemma UpdateLink_coherent:
  assumes "coherent R w" and "outcomes w = []" and "links_inv w"
  shows "coherent R (snd (LinkService_UpdateLink R P input w))"
proof -
  obtain r w' where w': "LinkService_UpdateLink R P input w = (r, w')" by fastforce
  from w' assms(2) show ?thesis
  proof (cases rule: UpdateLink_cases)
    case (early e)
    with assms(1) coherent_untouched w' show ?thesis by simp
  next
    case (save l l' v)
    have "coherent R (snd (save_and_invalidate R l' v))"
      using save assms(1,3) coherent_untouched [OF assms(1) save(5)]
      by (intro save_coherent [where l = l]) (simp_all add: untouched_def links_inv_def)
    with save(6) w' show ?thesis by simp
  qed
qed

lemma DeleteLink_service_coherent:
  assumes "coherent R w" and "outcomes w = []" and "links_inv w"
  shows "coherent R (snd (LinkService_DeleteLink R i w))"
proof -
  obtain g w1 where g: "LinkService_GetLink i w = (g, w1)" by fastforce
  with up_GetLink [OF assms(2), of i] have w1: "w1 = w" by simp
  show ?thesis
  proof (cases g)
    case (Inl e)
    with g w1 assms(1) show ?thesis by (simp add: LinkService_DeleteLink_def)
  next
    case (Inr l)
    with g have l: "l \<in> set (w_links w)" "live_link l" "l_id l = i"
      using GetLink_Inr GetLinkByID_row by blast+
    let ?p = "\<lambda>y. l_id y = i \<and> live_link y"
    obtain x u where u: "pg_update_links ?p (delete_link_row (clock w)) w = (x, u)" by fastforce
    have code: "l_short_code y = l_short_code l" if "y \<in> set (w_links w)" "?p y" for y
      using row_of_id [OF assms(3) l(1), of y] that l(3) by simp
    from u show ?thesis
    proof (cases rule: pg_update_links_cases)
      case (1 e)
      then show ?thesis
        using g Inr w1 u assms(1,2)
        by (simp add: LinkService_DeleteLink_def Repository_DeleteLink_def)
    next
      case 2
      have "l \<in> set (filter ?p (w_links w))" using l by simp
      then have "x \<noteq> Inr 0"
        using 2(1) length_pos_if_in_set by fastforce
      then have "Repository_DeleteLink i w = (Inr (), u)"
        using assms(2) u 2(1) by (simp add: Repository_DeleteLink_def)
      then show ?thesis
        using g Inr w1 update_then_delete [OF assms(1,2) u, of "l_short_code l"] code
        by (simp add: LinkService_DeleteLink_def delete_link_row_keeps)
    qed
  qed
qed

end

text \<open>An update or a deletion of a link whose calls are answered leaves the cache coherent: no
  hash of the old state of the row survives, and no other code is disturbed.\<close>

theorem writes_keep_cache_coherent:
  assumes "redis_server R" and "coherent R w" and "links_inv w" and "outcomes w = []"
  shows "coherent R (snd (LinkService_UpdateLink R P input w))
    \<and> coherent R (snd (LinkService_DeleteLink R i w))"
  using assms redis_server.UpdateLink_coherent redis_server.DeleteLink_service_coherent by blast

theorem writes_keep_cache_coherent_witness:
  "coherent ref_redis (snd (LinkService_DeleteLink ref_redis ''a2'' sample_world))"
  using writes_keep_cache_coherent [OF ref_server.redis_server_axioms sample_coherent] by simp

text \<open>What a successful deletion did to the table.\<close>

lemma DeleteLink_Inr:
  assumes "LinkService_DeleteLink R i w = (Inr x, w')" and "outcomes w = []"
  shows "w_links w' = map (\<lambda>r. if l_id r = i \<and> live_link r then touch_link (clock w)
      (delete_link_row (clock w) r) else r) (w_links w)"
    and "\<exists>l \<in> set (w_links w). l_id l = i \<and> live_link l" and "outcomes w' = []"
proof -
  let ?p = "\<lambda>y. l_id y = i \<and> live_link y"
  obtain g w1 where g: "LinkService_GetLink i w = (g, w1)" by fastforce
  with up_GetLink [OF assms(2), of i] have w1: "w1 = w" by simp
  from assms(1) g obtain l where l: "g = Inr l"
    by (auto simp: LinkService_DeleteLink_def split: sum.splits)
  then show "\<exists>l \<in> set (w_links w). l_id l = i \<and> live_link l"
    using g GetLink_Inr GetLinkByID_row by blast
  obtain x u where u: "pg_update_links ?p (delete_link_row (clock w)) w = (x, u)" by fastforce
  have d: "Repository_DeleteLink i w = (Inr (), u)" and "w' = snd (Cache_DeleteLink R (l_short_code l)
      (record_metric IncLinkDeleted u))"
    using assms g w1 l u
    by (auto simp: LinkService_DeleteLink_def Repository_DeleteLink_def split: sum.splits if_splits)
  moreover have "outcomes u = [] \<and> w_links u = map (\<lambda>r. if ?p r then touch_link (clock w)
      (delete_link_row (clock w) r) else r) (w_links w)"
    using u
  proof (cases rule: pg_update_links_cases)
    case (1 e)
    with d u assms(2) show ?thesis by (simp add: Repository_DeleteLink_def)
  qed (use assms(2) in simp)
  moreover note links_frame.P_cache(4) [of "record_metric IncLinkDeleted u" _ R "l_short_code l"]
    up_frame.P_cache(4) [of "record_metric IncLinkDeleted u" R "l_short_code l"]
  ultimately show "w_links w' = map (\<lambda>r. if ?p r then touch_link (clock w)
      (delete_link_row (clock w) r) else r) (w_links w)" and "outcomes w' = []"
    by simp_all
qed

lemma link_check_touched: "link_check (touch_link t (delete_link_row t' r)) = link_check r"
  by (simp add: link_check_def touch_link_def delete_link_row_def)


lemma sample_delete:
  "\<exists>w1. LinkService_DeleteLink ref_redis ''a2'' sample_world = (Inr (), w1)"
proof -
  have get: "LinkService_GetLink ''a2'' sample_world =
      (Inr (sample_link ''a2'' ''abd'' (5 * second)), sample_world)"
    by (simp add: LinkService_GetLink_def Repository_GetLinkByID_def pg_link_by_id_def live_link_def)
      (simp add: sample_link_def)
  have "filter (\<lambda>r. l_id r = ''a2'' \<and> live_link r) (w_links sample_world) =
      [sample_link ''a2'' ''abd'' (5 * second)]"
    by (simp add: live_link_def) (simp add: sample_link_def)
  then have "fst (pg_update_links (\<lambda>r. l_id r = ''a2'' \<and> live_link r) (delete_link_row t) sample_world)
      = Inr 1" for t
    by (simp add: pg_update_links_def update_where_def link_check_touched del: sample_world_facts(1))
  from this [of "clock sample_world"] obtain u where "pg_update_links
      (\<lambda>r. l_id r = ''a2'' \<and> live_link r) (delete_link_row (clock sample_world)) sample_world = (Inr 1, u)"
    by (auto simp del: sample_world_facts simp: prod_eq_iff)
  then have "Repository_DeleteLink ''a2'' sample_world = (Inr (), u)"
    by (simp add: Repository_DeleteLink_def)
  with get show ?thesis by (simp add: LinkService_DeleteLink_def)
qed


section \<open>Creation\<close>

text \<open>Drawing aliases and ids writes nothing: the rows stay, the clock moves forward.\<close>

definition drew :: "'r world \<Rightarrow> 'r world \<Rightarrow> bool" where
  "drew w u = (w_links u = w_links w \<and> w_redis u = w_redis w \<and> clock w \<le> clock u
     \<and> (outcomes w = [] \<longrightarrow> outcomes u = []) \<and> (ticks w = [] \<longrightarrow> ticks u = [] \<and> clock u = clock w))"

lemma draws_keep_ticks [simp]: "ticks (snd (next_outcome w)) = ticks w" "ticks (snd (next_rand w)) = ticks w"
  by (simp_all add: next_outcome_def next_rand_def split: list.split)

lemma drew_refl [simp]: "drew w w"
  by (simp add: drew_def)

lemma drew_trans: "drew a b \<Longrightarrow> drew b c \<Longrightarrow> drew a c"
  by (auto simp: drew_def)

lemma drew_time: "time_now w = (t, u) \<Longrightarrow> drew w u"
  using time_now_frame [of w] time_now_mono [of w] by (auto simp: drew_def)

lemma alphabet_chars: "i < length aliasAlphabet \<Longrightarrow> alias_char (aliasAlphabet ! i)"
proof -
  have "list_all alias_char aliasAlphabet"
    by (simp add: aliasAlphabet_def alias_char_def is_digit_def less_eq_char_def)
  then show "i < length aliasAlphabet \<Longrightarrow> alias_char (aliasAlphabet ! i)"
    by (simp add: list_all_length)
qed

lemma random_chars_spec:
  "random_chars n w = (cs, u) \<Longrightarrow> length cs = n \<and> list_all alias_char cs \<and> drew w u"
proof (induction n arbitrary: w cs u)
  case (Suc n)
  obtain r v where r: "cryptoRandInt (length aliasAlphabet) w = (r, v)" by fastforce
  obtain ds x where ds: "random_chars n v = (ds, x)" by fastforce
  have len: "length aliasAlphabet = 62"
    by (simp add: aliasAlphabet_def)
  have idx: "(case r of Inl _ \<Rightarrow> 0 | Inr i \<Rightarrow> i) < length aliasAlphabet"
    using r len by (auto simp: cryptoRandInt_def split: prod.splits option.splits)
  have "snd (next_rand w) = v"
    using r by (auto simp: cryptoRandInt_def split: prod.splits option.splits)
  then have "drew w v"
    using next_rand_frame [of w] by (auto simp: drew_def)
  with Suc.IH [OF ds] Suc.prems r ds alphabet_chars [OF idx] show ?case
    by (auto simp: Let_def intro: drew_trans)
qed simp

lemma generateRandomAlias_spec:
  assumes "generateRandomAlias w = (a, u)"
  shows "aliasRegex_MatchString a" and "length a = 7" and "drew w u"
  using random_chars_spec [OF assms [unfolded generateRandomAlias_def]]
  by (simp_all add: aliasRegex_MatchString_def aliasLength_def)

lemma generateULID_drew: "generateULID w = (i, u) \<Longrightarrow> drew w u"
  by (auto simp: generateULID_def split: prod.splits
      dest!: generateRandomAlias_spec(3) drew_time intro: drew_trans)

lemma ShortCodeExists_spec:
  assumes "Repository_ShortCodeExists c w = (r, u)"
  shows "drew w u" and "r = Inr False \<Longrightarrow> \<not> live_row w c l"
proof -
  obtain x v where x: "next_outcome w = (x, v)" by fastforce
  then have "drew w v" and "w_links v = w_links w"
    using next_outcome_frame [of w] next_outcome_clock [of w] draws_keep_ticks(1) [of w]
    by (auto simp: drew_def)
  with assms x show "drew w u" and "r = Inr False \<Longrightarrow> \<not> live_row w c l"
    by (auto simp: Repository_ShortCodeExists_def call_def live_row_def list_ex_iff
        split: outcome.splits)
qed

lemma alias_retries_spec:
  "alias_retries n w = (r, u) \<Longrightarrow> drew w u \<and> (\<forall>a. r = Inr a \<longrightarrow> aliasRegex_MatchString a)"
proof (induction n arbitrary: w r u)
  case (Suc n)
  obtain a v where a: "generateRandomAlias w = (a, v)" by fastforce
  obtain e x where e: "Repository_ShortCodeExists a v = (e, x)" by fastforce
  have "drew w x"
    using generateRandomAlias_spec(3) [OF a] ShortCodeExists_spec(1) [OF e] drew_trans by blast
  with Suc a e generateRandomAlias_spec(1) [OF a] show ?case
    by (auto split: sum.splits if_splits intro: drew_trans)
qed auto

lemma choose_alias_spec:
  assumes "choose_alias a w = (r, u)"
  shows "drew w u" and "r = Inr c \<Longrightarrow> aliasRegex_MatchString c \<and> (a \<noteq> [] \<longrightarrow> c = a)"
  using assms
  by (auto simp: choose_alias_def generateUniqueAlias_def split: if_splits prod.splits sum.splits
      dest: alias_retries_spec)

lemma CreateLink_row:
  assumes "Repository_CreateLink l w = (Inr x, w')" and "l_deleted_at l = None"
  shows "w_links w' = w_links w @ [l]" and "link_check l = None" and "\<not> live_row w (l_short_code l) l'"
    and "l_id l \<notin> l_id ` set (w_links w)" and "w_redis w' = w_redis w" and "clock w' = clock w"
proof -
  from assms(1) obtain y where "call (pg_insert_link l) w = (Inr y, w')"
    by (auto simp: Repository_CreateLink_def split: prod.splits sum.splits if_splits)
  then obtain u where u: "next_outcome w = (Up, u)" and ins: "pg_insert_link l u = (Inr y, w')"
    by (rule call_Inr_cases)
  have same: "w_links u = w_links w" "w_redis u = w_redis w" "clock u = clock w"
    using u next_outcome_frame [of w] next_outcome_clock [of w] by simp_all
  have l: "l\<lparr>l_deleted_at := None\<rparr> = l"
    using assms(2) by simp
  from ins have "w_links w' = w_links u @ [l]" and "link_check l = None"
    and "\<not> list_ex (\<lambda>r. l_short_code r = l_short_code l \<and> live_link r) (w_links u)"
    and "\<not> list_ex (\<lambda>r. l_id r = l_id l) (w_links u)" and "w_redis w' = w_redis u" and "clock w' = clock u"
    by (auto simp: pg_insert_link_def l split: option.splits if_splits)
  with same show "w_links w' = w_links w @ [l]" and "link_check l = None"
    and "\<not> live_row w (l_short_code l) l'" and "l_id l \<notin> l_id ` set (w_links w)"
    and "w_redis w' = w_redis w" and "clock w' = clock w"
    by (auto simp: live_row_def list_ex_iff)
qed

lemma insert_new_link_Inr:
  assumes "insert_new_link input rt a w = (Inr l, w')"
  shows "l_destination l = ci_destination input" and "l_redirect_type l = rt" and "l_short_code l = a"
    and "l_expires_at l = ci_expires_at input" and "l_enabled l" and "l_deleted_at l = None"
    and "l_owner_id l = (if ci_owner_id input = [] then ''system'' else ci_owner_id input)"
    and "\<exists>v v'. drew w v \<and> Repository_CreateLink l v = (Inr (), v') \<and> w' = record_metric IncLinkCreated v'"
proof -
  obtain i w1 where 1: "generateULID w = (i, w1)" by fastforce
  obtain c w2 where 2: "time_now w1 = (c, w2)" by fastforce
  obtain u w3 where 3: "time_now w2 = (u, w3)" by fastforce
  have "drew w w3"
    using generateULID_drew [OF 1] drew_time [OF 2] drew_time [OF 3] drew_trans by blast
  moreover note assms
  ultimately show "l_destination l = ci_destination input" "l_redirect_type l = rt" "l_short_code l = a"
    "l_expires_at l = ci_expires_at input" "l_enabled l" "l_deleted_at l = None"
    "l_owner_id l = (if ci_owner_id input = [] then ''system'' else ci_owner_id input)"
    "\<exists>v v'. drew w v \<and> Repository_CreateLink l v = (Inr (), v') \<and> w' = record_metric IncLinkCreated v'"
    by (auto simp: insert_new_link_def Let_def 1 2 3 split: prod.splits sum.splits if_splits)
qed

lemma CreateLink_facts:
  assumes "LinkService_CreateLink P input w = (Inr l, w')"
  shows "validateDestination P (l_destination l) = None \<and> l_destination l = ci_destination input
    \<and> RedirectType_IsValid (l_redirect_type l)
    \<and> l_redirect_type l = (if ci_redirect_type input = 0 then 302 else ci_redirect_type input)
    \<and> aliasRegex_MatchString (l_short_code l)
    \<and> (if ci_alias input = [] then True else l_short_code l = ci_alias input)
    \<and> l_enabled l \<and> l_deleted_at l = None \<and> \<not> Link_IsExpired (clock w) l
    \<and> l_owner_id l = (if ci_owner_id input = [] then ''system'' else ci_owner_id input)
    \<and> w_links w' = w_links w @ [l] \<and> l_id l \<notin> l_id ` set (w_links w)
    \<and> {l'. live_row w (l_short_code l) l'} = {} \<and> w_redis w' = w_redis w
    \<and> link_check l = None \<and> clock w \<le> clock w' \<and> l_expires_at l = ci_expires_at input"
proof -
  let ?rt = "if ci_redirect_type input = 0 then 302 else ci_redirect_type input"
  obtain b w1 where b: "past (ci_expires_at input) w = (b, w1)" by fastforce
  obtain x w2 where x: "choose_alias (ci_alias input) w1 = (x, w2)" by fastforce
  from assms b x obtain a where valid: "validateDestination P (ci_destination input) = None"
    and rt: "RedirectType_IsValid ?rt" and "\<not> b" and a: "x = Inr a"
    and ins: "insert_new_link input ?rt a w2 = (Inr l, w')"
    by (auto simp: LinkService_CreateLink_def Let_def RedirectTemporary_def RedirectType_IsValid_iff
        split: option.splits if_splits sum.splits)
  have w1: "drew w w1"
    using b drew_time by (auto simp: past_def split: option.splits prod.splits)
  note al = choose_alias_spec [OF x]
  note l = insert_new_link_Inr [OF ins]
  obtain v v' where v: "drew w2 v" and cl: "Repository_CreateLink l v = (Inr (), v')"
    and w': "w' = record_metric IncLinkCreated v'" using l(8) by blast
  note row = CreateLink_row [OF cl l(6)]
  have "drew w v"
    using w1 al(1) v drew_trans by blast
  then have same: "w_links v = w_links w" "w_redis v = w_redis w"
    by (simp_all add: drew_def)
  have "\<not> Link_IsExpired (clock w) l"
    using b \<open>\<not> b\<close> l(4) time_now_mono [of w]
    by (auto simp: Link_IsExpired_def past_def split: option.splits prod.splits)
  moreover have "\<not> live_row w (l_short_code l) l'" for l'
    using row(3) same by (simp add: live_row_def)
  ultimately show ?thesis
    using valid rt al(2) [OF a] l row(1,2,4,5,6) same w' \<open>drew w v\<close> by (simp add: drew_def)
qed

text \<open>C6: A created link satisfies the rules of the service, whatever the calls answer: its
  destination has passed the validation, its redirect type is 301 or 302 (302 by default), its alias
  is the requested one or a generated one and in either case matches the alias pattern, it is enabled
  and not expired at the call, its owner defaults to system; and the row was appended to a table that
  had neither its id nor a live link of its code.\<close>

theorem create_link_sound:
  assumes "LinkService_CreateLink P input w = (Inr l, w')"
  shows "validateDestination P (l_destination l) = None \<and> l_destination l = ci_destination input
    \<and> RedirectType_IsValid (l_redirect_type l)
    \<and> l_redirect_type l = (if ci_redirect_type input = 0 then 302 else ci_redirect_type input)
    \<and> aliasRegex_MatchString (l_short_code l)
    \<and> (if ci_alias input = [] then True else l_short_code l = ci_alias input)
    \<and> l_enabled l \<and> l_deleted_at l = None \<and> \<not> Link_IsExpired (clock w) l
    \<and> l_owner_id l = (if ci_owner_id input = [] then ''system'' else ci_owner_id input)
    \<and> w_links w' = w_links w @ [l] \<and> l_id l \<notin> l_id ` set (w_links w)
    \<and> {l'. live_row w (l_short_code l) l'} = {} \<and> w_redis w' = w_redis w"
  using CreateLink_facts [OF assms] by blast

definition sample_input :: create_link_input where
  "sample_input = \<lparr>ci_destination = ''https://example.org/a'', ci_alias = ''my-link'',
     ci_redirect_type = 301, ci_expires_at = None, ci_owner_id = ''system''\<rparr>"

definition sample_parser :: url_parser where
  "sample_parser = (\<lambda>_. Some \<lparr>url_scheme = ''https'', url_host = ''example.org''\<rparr>)"

abbreviation fresh_world :: "ref_store world" where
  "fresh_world \<equiv> empty_world (100 * second) (\<lambda>_. None)"

lemma unix_hundred: "unix_ok (100 * second)"
  by (simp add: unix_ok_def to_unix_def int64_ok_def second_def)

lemma sample_create_in:
  assumes "w_links w = []" and "outcomes w = []" and "ticks w = []" and "clock w = 100 * second"
  shows "\<exists>l w'. LinkService_CreateLink sample_parser sample_input w = (Inr l, w') \<and> link_times_ok l"
proof -
  have "validateDestination sample_parser (ci_destination sample_input) = None"
    by (simp add: validateDestination_def sample_parser_def sample_input_def maxDestinationLength_def)
  moreover have "choose_alias (ci_alias sample_input) w = (Inr ''my-link'', w)"
    using assms(1) by (simp add: choose_alias_def sample_input_def aliasRegex_MatchString_def alias_char_def
        less_eq_char_def is_digit_def)
  moreover have "past (ci_expires_at sample_input) w = (False, w)"
    by (simp add: past_def sample_input_def)
  moreover have "\<exists>l w'. insert_new_link sample_input 301 ''my-link'' w = (Inr l, w') \<and> link_times_ok l"
  proof -
    obtain i w1 where 1: "generateULID w = (i, w1)" by fastforce
    obtain c w2 where 2: "time_now w1 = (c, w2)" by fastforce
    obtain u w3 where 3: "time_now w2 = (u, w3)" by fastforce
    have "drew w w3"
      using generateULID_drew [OF 1] drew_time [OF 2] drew_time [OF 3] drew_trans by blast
    then have "w_links w3 = []" and "outcomes w3 = []"
      using assms by (simp_all add: drew_def)
    moreover have "drew w w2"
      using generateULID_drew [OF 1] drew_time [OF 2] drew_trans by blast
    then have "u = 100 * second"
      using 3 assms by (simp add: drew_def)
    ultimately show ?thesis
      by (simp add: insert_new_link_def Let_def 1 2 3 Repository_CreateLink_def pg_insert_link_def
          link_check_def sample_input_def RedirectType_IsValid_iff utf8_length_def link_times_ok_def
          unix_hundred)
  qed
  ultimately show ?thesis
    by (simp add: LinkService_CreateLink_def Let_def) (simp add: sample_input_def RedirectType_IsValid_iff)
qed

lemma sample_create: "\<exists>l w'. LinkService_CreateLink sample_parser sample_input fresh_world = (Inr l, w')
  \<and> link_times_ok l"
  by (rule sample_create_in) (simp_all add: empty_world_def)

theorem create_link_sound_witness:
  "\<exists>l w'. LinkService_CreateLink sample_parser sample_input fresh_world = (Inr l, w')
     \<and> w_links w' = [l] \<and> l_short_code l = ''my-link''"
proof -
  obtain l w' where "LinkService_CreateLink sample_parser sample_input fresh_world = (Inr l, w')"
    using sample_create by blast
  moreover from create_link_sound [OF this] have "w_links w' = [l]" and "l_short_code l = ''my-link''"
    by (simp_all add: sample_input_def)
  ultimately show ?thesis by blast
qed

text \<open>
  A negative entry of the code outlives the creation of its link: until it expires, a redirect that
  misses the hash answers not-found for a link that exists.
\<close>

lemma negative_entry_hides_link:
  assumes "outcomes w = []" and "ticks w = []" and "r_hgetall R (link_hash_key c) (clock w) (w_redis w) = Inr []"
    and "negative_now R w c"
  shows "fst (fst (LinkService_ResolveRedirect R c w)) = Inl (Sentinel Svc_ErrLinkNotFound)"
proof -
  have "Cache_GetLink R c w = (Inl (Sentinel Cache_ErrCacheMiss), w)"
    using assms(1,3) by (simp add: Cache_GetLink_def rd_hgetall_def)
  moreover have "Cache_IsNegativelyCached R c (record_metric IncRedirectCacheMiss w)
      = (Inr True, record_metric IncRedirectCacheMiss w)"
    using assms(1,4) by (simp add: Cache_IsNegativelyCached_def rd_exists_def negative_now_def)
  ultimately show ?thesis
    using assms(2) by (simp add: LinkService_ResolveRedirect_def resolve_def)
qed

end
