(* ===== verification/Link_Handler.thy ===== *)
theory Link_Handler imports Http Link_Writes begin

text \<open>
  \<open>internal/handler/link.go\<close> with the requests and responses of \<open>internal/handler/dto/link.go\<close>: the
  HTTP interface of the link service. The parameters are those of the service (the Redis server \<open>R\<close>,
  \<open>url.Parse\<close> as \<open>P\<close>, the cursor codec \<open>C\<close>), the decoders of the two request bodies, and \<open>T\<close>, the
  parsing of an RFC 3339 time.
\<close>

section \<open>Requests and responses\<close>

record create_link_request =
  lc_destination :: string
  lc_alias :: string
  lc_redirect_type :: int
  lc_expires_at :: "instant option"

record update_link_request =
  lu_destination :: "string option"
  lu_redirect_type :: "int option"
  lu_expires_at :: "instant option"
  lu_enabled :: "bool option"

record link_response =
  lr_id :: string
  lr_short_code :: string
  lr_short_url :: string
  lr_destination :: string
  lr_redirect_type :: int
  lr_expires_at :: "instant option"
  lr_status :: string
  lr_click_count :: int
  lr_created_at :: instant
  lr_updated_at :: instant

record pagination =
  pg_next_cursor :: string
  pg_has_more :: bool

record link_list_response =
  ll_data :: "link_response list"
  ll_pagination :: pagination

definition ToLinkResponse :: "link \<Rightarrow> string \<Rightarrow> 'r world \<Rightarrow> link_response \<times> 'r world" where
  "ToLinkResponse link baseURL w = (case status_now link w of (status, w') \<Rightarrow>
     (\<lparr>lr_id = l_id link, lr_short_code = l_short_code link,
       lr_short_url = baseURL @ ''/'' @ l_short_code link, lr_destination = l_destination link,
       lr_redirect_type = l_redirect_type link, lr_expires_at = l_expires_at link,
       lr_status = status, lr_click_count = l_click_count link, lr_created_at = l_created_at link,
       lr_updated_at = l_updated_at link\<rparr>, w'))"

fun link_responses :: "link list \<Rightarrow> string \<Rightarrow> 'r world \<Rightarrow> link_response list \<times> 'r world" where
  "link_responses [] baseURL w = ([], w)"
| "link_responses (l # ls) baseURL w = (case ToLinkResponse l baseURL w of (r, w1) \<Rightarrow>
     (case link_responses ls baseURL w1 of (rs, w2) \<Rightarrow> (r # rs, w2)))"

definition ToLinkListResponse :: "link list \<Rightarrow> string \<Rightarrow> string \<Rightarrow> bool \<Rightarrow> 'r world
    \<Rightarrow> link_list_response \<times> 'r world" where
  "ToLinkListResponse links baseURL nextCursor hasMore w =
     (case link_responses links baseURL w of (rs, w') \<Rightarrow>
        (\<lparr>ll_data = rs, ll_pagination = \<lparr>pg_next_cursor = nextCursor, pg_has_more = hasMore\<rparr>\<rparr>, w'))"

definition link_response_json :: "link_response \<Rightarrow> json" where
  "link_response_json r = JObj ([(''id'', JStr (lr_id r)), (''short_code'', JStr (lr_short_code r)),
     (''short_url'', JStr (lr_short_url r)), (''destination'', JStr (lr_destination r)),
     (''redirect_type'', JInt (lr_redirect_type r))] @ omit_none ''expires_at'' JTime (lr_expires_at r)
     @ [(''status'', JStr (lr_status r)), (''click_count'', JInt (lr_click_count r)),
        (''created_at'', JTime (lr_created_at r)), (''updated_at'', JTime (lr_updated_at r))])"

definition link_list_json :: "link_list_response \<Rightarrow> json" where
  "link_list_json r = JObj [(''data'', JArr (map link_response_json (ll_data r))),
     (''pagination'', JObj (omit_empty ''next_cursor'' (pg_next_cursor (ll_pagination r))
        @ [(''has_more'', JBool (pg_has_more (ll_pagination r)))]))]"

section \<open>Errors\<close>

definition LinkHandler_writeError :: "int \<Rightarrow> string \<Rightarrow> string \<Rightarrow> writer \<Rightarrow> writer" where
  "LinkHandler_writeError status code message x = writeJSON status (ErrorResponse message code) x"

definition handleServiceError :: "error \<Rightarrow> writer \<Rightarrow> writer" where
  "handleServiceError err x =
     (if errors_is err Svc_ErrLinkNotFound
        then LinkHandler_writeError 404 ''LINK_NOT_FOUND'' ''Link not found'' x
      else if errors_is err Svc_ErrAliasExists
        then LinkHandler_writeError 409 ''ALIAS_TAKEN'' ''Alias already exists'' x
      else if errors_is err Svc_ErrInvalidDestination
        then LinkHandler_writeError 400 ''INVALID_DESTINATION'' ''Invalid destination URL'' x
      else if errors_is err Svc_ErrInvalidAlias
        then LinkHandler_writeError 400 ''INVALID_ALIAS'' ''Invalid alias format'' x
      else if errors_is err Svc_ErrExpiresInPast
        then LinkHandler_writeError 422 ''EXPIRES_IN_PAST'' ''Expiry date must be in the future'' x
      else if errors_is err Svc_ErrInvalidRedirectType
        then LinkHandler_writeError 400 ''INVALID_REDIRECT_TYPE'' ''Redirect type must be 301 or 302'' x
      else if errors_is err Svc_ErrLinkExpired
        then LinkHandler_writeError 409 ''LINK_EXPIRED'' ''Cannot update expired link'' x
      else if errors_is err Svc_ErrURLTooLong
        then LinkHandler_writeError 400 ''URL_TOO_LONG'' ''Destination URL exceeds maximum length'' x
      else LinkHandler_writeError 500 ''INTERNAL_ERROR'' ''An internal error occurred'' x)"

text \<open>A panic of the service (an \<open>error\<close> value of the model) leaves the handler at once.\<close>

definition service_failed :: "error \<Rightarrow> writer \<Rightarrow> writer" where
  "service_failed err x = (case err of Panic m \<Rightarrow> panics m x | _ \<Rightarrow> handleServiceError err x)"

section \<open>The operations\<close>

definition respond_link :: "link_service \<Rightarrow> int \<Rightarrow> link \<Rightarrow> writer \<Rightarrow> 'r world \<Rightarrow> writer \<times> 'r world" where
  "respond_link svc status link x w = (case ToLinkResponse link (LinkService_BaseURL svc) w of (r, w') \<Rightarrow>
     (writeJSON status (link_response_json r) x, w'))"

definition LinkHandler_Create :: "url_parser \<Rightarrow> link_service \<Rightarrow> (body \<Rightarrow> create_link_request option)
    \<Rightarrow> 'r handler" where
  "LinkHandler_Create P svc DEC q x w = (case DEC (rq_in_body q) of
       None \<Rightarrow> (LinkHandler_writeError 400 ''INVALID_JSON'' ''Invalid request body'' x, w)
     | Some req \<Rightarrow>
         let redirectType = (if lc_redirect_type req = 0 then 302 else lc_redirect_type req);
             input = \<lparr>ci_destination = lc_destination req, ci_alias = lc_alias req,
               ci_redirect_type = redirectType, ci_expires_at = lc_expires_at req,
               ci_owner_id = ''system''\<rparr>
         in (case LinkService_CreateLink P input w of
               (Inl err, w1) \<Rightarrow> (service_failed err x, w1)
             | (Inr link, w1) \<Rightarrow> respond_link svc 201 link x w1))"

definition LinkHandler_Get :: "link_service \<Rightarrow> 'r handler" where
  "LinkHandler_Get svc q x w =
     (let i = path_value q ''id'' in
      if i = [] then (LinkHandler_writeError 400 ''MISSING_ID'' ''Link ID is required'' x, w)
      else (case LinkService_GetLink i w of
          (Inl err, w1) \<Rightarrow> (service_failed err x, w1)
        | (Inr link, w1) \<Rightarrow> respond_link svc 200 link x w1))"

definition list_limit :: "string \<Rightarrow> int" where
  "list_limit l = (if l = [] then 20
     else case parse_int64 l of None \<Rightarrow> 20 | Some n \<Rightarrow> if 0 < n \<and> n \<le> 100 then n else 20)"

definition time_filter :: "(string \<Rightarrow> instant option) \<Rightarrow> string \<Rightarrow> instant option" where
  "time_filter T s = (if s = [] then None else T s)"

definition list_input :: "(string \<Rightarrow> instant option) \<Rightarrow> request \<Rightarrow> list_links_input" where
  "list_input T q = \<lparr>li_owner_id = ''system'', li_cursor = query_get q ''cursor'',
     li_limit = list_limit (query_get q ''limit''), li_status = query_get q ''status'',
     li_created_after = time_filter T (query_get q ''created_after''),
     li_created_before = time_filter T (query_get q ''created_before'')\<rparr>"

definition LinkHandler_List :: "cursor_codec \<Rightarrow> (string \<Rightarrow> instant option) \<Rightarrow> link_service \<Rightarrow> 'r handler" where
  "LinkHandler_List C T svc q x w = (case LinkService_ListLinks C (list_input T q) w of
       (Inl err, w1) \<Rightarrow> (service_failed err x, w1)
     | (Inr result, w1) \<Rightarrow> (case ToLinkListResponse (lo_links result) (LinkService_BaseURL svc)
             (lo_next_cursor result) (lo_has_more result) w1 of (r, w2) \<Rightarrow>
           (writeJSON 200 (link_list_json r) x, w2)))"

definition LinkHandler_Update :: "'r redis_ops \<Rightarrow> url_parser \<Rightarrow> link_service
    \<Rightarrow> (body \<Rightarrow> update_link_request option) \<Rightarrow> 'r handler" where
  "LinkHandler_Update R P svc DEC q x w =
     (let i = path_value q ''id'' in
      if i = [] then (LinkHandler_writeError 400 ''MISSING_ID'' ''Link ID is required'' x, w)
      else (case DEC (rq_in_body q) of
          None \<Rightarrow> (LinkHandler_writeError 400 ''INVALID_JSON'' ''Invalid request body'' x, w)
        | Some req \<Rightarrow>
            let input = \<lparr>ui_id = i, ui_destination = lu_destination req,
                  ui_redirect_type = lu_redirect_type req, ui_expires_at = lu_expires_at req,
                  ui_enabled = lu_enabled req, ui_clear_expiry = False\<rparr>
            in (case LinkService_UpdateLink R P input w of
                  (Inl err, w1) \<Rightarrow> (service_failed err x, w1)
                | (Inr link, w1) \<Rightarrow> respond_link svc 200 link x w1)))"

definition LinkHandler_Delete :: "'r redis_ops \<Rightarrow> 'r handler" where
  "LinkHandler_Delete R q x w =
     (let i = path_value q ''id'' in
      if i = [] then (LinkHandler_writeError 400 ''MISSING_ID'' ''Link ID is required'' x, w)
      else (case LinkService_DeleteLink R i w of
          (Inl err, w1) \<Rightarrow> (service_failed err x, w1)
        | (Inr _, w1) \<Rightarrow> (WriteHeader 204 x, w1)))"

end
