(* ===== verification/Redirect_Handler.thy ===== *)
theory Redirect_Handler imports Http Link_Redirect Click_Stream begin

text \<open>
  \<open>internal/handler/redirect.go\<close>: the public redirect of a short code. The parameters are the Redis
  server \<open>R\<close>, the stream commands \<open>X\<close> with the payload encoder \<open>E\<close>, the digest \<open>D\<close>, the referrer
  cleaning \<open>S\<close>, \<open>url.Parse\<close> as \<open>P\<close>, and \<open>rel\<close>, by which \<open>http.Redirect\<close> completes a URL that has
  neither scheme nor host against the path of the request. The click counter and the event are sent
  by goroutines, which take their effect where they are started.

  Shown: how each outcome of \<open>ResolveRedirect\<close> is answered, that a disabled link looks like an absent
  one, and that the event of a redirect served from the cache carries no link id and is refused by
  the consumer's validation.
\<close>

section \<open>http.Redirect\<close>

text \<open>\<open>hexEscapeNonASCII\<close> and \<open>htmlEscape\<close> of \<open>net/http\<close>.\<close>

definition hexEscapeNonASCII :: "string \<Rightarrow> string" where
  "hexEscapeNonASCII s = concat (map (\<lambda>c. if 128 \<le> (of_char c :: nat)
     then CHR 0x25 # hex_encode [c] else [c]) s)"

definition html_escape_char :: "char \<Rightarrow> string" where
  "html_escape_char c = (if c = CHR 0x26 then ''&amp;'' else if c = CHR ''<'' then ''&lt;''
     else if c = CHR ''>'' then ''&gt;'' else if c = CHR 0x22 then ''&#34;''
     else if c = CHR 0x27 then ''&#39;'' else [c])"

text \<open>\<open>http.StatusText\<close>, for the statuses that the program names by it.\<close>

definition StatusText :: "int \<Rightarrow> string" where
  "StatusText code = (if code = 301 then ''Moved Permanently'' else if code = 302 then ''Found''
     else if code = 500 then ''Internal Server Error''
     else if code = 413 then ''Request Entity Too Large'' else [])"

type_synonym relative_url = "string \<Rightarrow> string \<Rightarrow> string"

definition http_Redirect :: "url_parser \<Rightarrow> relative_url \<Rightarrow> request \<Rightarrow> string \<Rightarrow> int \<Rightarrow> writer \<Rightarrow> writer" where
  "http_Redirect P rel q url code x =
     (let url = (case P url of None \<Rightarrow> url
            | Some u \<Rightarrow> if url_scheme u = [] \<and> url_host u = [] then rel (rq_path q) url else url);
          hadCT = (rw_header x (canonical_key ''Content-Type'') \<noteq> []);
          x1 = set_header ''Location'' (hexEscapeNonASCII url) x;
          x2 = (if \<not> hadCT \<and> (rq_method q = ''GET'' \<or> rq_method q = ''HEAD'')
                then set_header ''Content-Type'' ''text/html; charset=utf-8'' x1 else x1);
          x3 = WriteHeader code x2
      in if \<not> hadCT \<and> rq_method q = ''GET''
         then Write_body (Raw (''<a href='' @ quoted (concat (map html_escape_char url)) @ ''>''
                @ StatusText code @ ''</a>.'' @ [CHR 0x0A, CHR 0x0A])) x3
         else x3)"

section \<open>The handler\<close>

definition RedirectHandler_writeError :: "int \<Rightarrow> string \<Rightarrow> string \<Rightarrow> writer \<Rightarrow> writer" where
  "RedirectHandler_writeError status code message x =
     writeJSON status (ErrorResponse message code)
       (set_header ''Cache-Control'' ''private, max-age=0''
          (set_header ''X-Content-Type-Options'' ''nosniff'' x))"

definition handleRedirectError :: "error \<Rightarrow> writer \<Rightarrow> writer" where
  "handleRedirectError err x =
     (if errors_is err Svc_ErrLinkNotFound
        then RedirectHandler_writeError 404 ''LINK_NOT_FOUND'' ''Link not found'' x
      else if errors_is err Svc_ErrLinkExpired
        then RedirectHandler_writeError 410 ''LINK_EXPIRED'' ''Link has expired'' x
      else if errors_is err Svc_ErrLinkDisabled
        then RedirectHandler_writeError 404 ''LINK_NOT_FOUND'' ''Link not found'' x
      else RedirectHandler_writeError 500 ''INTERNAL_ERROR'' ''An internal error occurred'' x)"

definition getClientIP :: "request \<Rightarrow> string" where
  "getClientIP q =
     (let cf = request_header q ''CF-Connecting-IP''; xff = request_header q ''X-Forwarded-For'';
          xri = request_header q ''X-Real-IP'' in
      if cf \<noteq> [] then cf
      else if xff \<noteq> [] then takeWhile (\<lambda>c. c \<noteq> CHR '','') xff
      else if xri \<noteq> [] then xri else rq_remote_addr q)"

definition unix_milli :: "instant \<Rightarrow> int" where "unix_milli t = t div 1000000"

definition click_event_of :: "(string \<Rightarrow> string option) \<Rightarrow> digest \<Rightarrow> request \<Rightarrow> string \<Rightarrow> link \<Rightarrow> instant
    \<Rightarrow> click_event_payload" where
  "click_event_of S D q shortCode link clickedAt =
     \<lparr>cp_short_code = shortCode, cp_link_id = l_id link, cp_owner_id = l_owner_id link,
      cp_referrer = SanitizeReferrer S (request_header q ''Referer''),
      cp_user_agent = TruncateUserAgent (request_header q ''User-Agent''),
      cp_visitor_hash = GenerateVisitorHash D (getClientIP q) (request_header q ''User-Agent'') clickedAt,
      cp_country_code = ExtractCountryCode (request_header q ''CF-IPCountry''),
      cp_clicked_at = unix_milli clickedAt\<rparr>"

record 'r redirect_env =
  re_redis :: "'r redis_ops"
  re_stream :: "'r stream_ops"
  re_encode :: "click_event_payload \<Rightarrow> string"
  re_digest :: digest
  re_referrer :: "string \<Rightarrow> string option"
  re_parse :: url_parser
  re_relative :: relative_url
  re_publisher :: bool

definition publish_click :: "'r redirect_env \<Rightarrow> request \<Rightarrow> string \<Rightarrow> link \<Rightarrow> 'r world \<Rightarrow> 'r world" where
  "publish_click V q shortCode link w =
     (if re_publisher V then (case time_now w of (clickedAt, w1) \<Rightarrow>
         PublishAsync (re_stream V) (re_encode V)
           (click_event_of (re_referrer V) (re_digest V) q shortCode link clickedAt) w1)
      else w)"

definition redirect_to :: "'r redirect_env \<Rightarrow> request \<Rightarrow> link \<Rightarrow> writer \<Rightarrow> writer" where
  "redirect_to V q link x =
     http_Redirect (re_parse V) (re_relative V) q (l_destination link) (l_redirect_type link)
       (set_header ''Cache-Control'' ''private, max-age=0''
          (set_header ''Referrer-Policy'' ''strict-origin-when-cross-origin''
             (set_header ''X-Frame-Options'' ''DENY''
                (set_header ''X-Content-Type-Options'' ''nosniff'' x))))"

definition RedirectHandler_Redirect :: "'r redirect_env \<Rightarrow> 'r handler" where
  "RedirectHandler_Redirect V q x w =
     (let shortCode = path_value q ''shortCode'' in
      if shortCode = [] then (RedirectHandler_writeError 404 ''LINK_NOT_FOUND'' ''Link not found'' x, w)
      else (case time_now w of (start, w1) \<Rightarrow>
        (case LinkService_ResolveRedirect (re_redis V) shortCode w1 of ((r, cacheHit), w2) \<Rightarrow>
        (case time_now w2 of (stop, w3) \<Rightarrow>
        (case r of
           Inl err \<Rightarrow> (handleRedirectError err x, w3)
         | Inr link \<Rightarrow>
             let w4 = IncrementClickAsync (re_redis V) shortCode w3;
                 w5 = publish_click V q shortCode link w4
             in (redirect_to V q link x, w5))))))"

section \<open>The answers\<close>

lemma writeError_simps [http_simps]:
  "rw_reply x = None \<Longrightarrow> status_of (RedirectHandler_writeError s c m x) = s"
  "rw_body (RedirectHandler_writeError s c m x) = rw_body x @ [Json (ErrorResponse m c)]"
  by (simp_all add: RedirectHandler_writeError_def http_simps)

lemma sent_header_Write [http_simps]:
  "sent_header (Write_body c x) k = sent_header (WriteHeader 200 x) k"
  by (simp add: sent_header_def Write_body_def split: option.split)

lemma sent_header_WriteHeader [http_simps]: "sent_header (WriteHeader s x) k = sent_header x k"
  by (simp add: sent_header_def WriteHeader_def split: option.split)

lemma http_Redirect_answer:
  assumes "rw_reply x = None" and "P url = Some u" and "url_host u \<noteq> []"
  shows "status_of (http_Redirect P rel q url code x) = code"
    and "sent_header (http_Redirect P rel q url code x) ''Location'' = hexEscapeNonASCII url"
proof -
  have location: "canonical_key ''Location'' \<noteq> canonical_key ''Content-Type''"
    by (simp add: canonical_key_def upper_char_def lower_char_def less_eq_char_def)
  show "status_of (http_Redirect P rel q url code x) = code"
    using assms by (simp add: http_Redirect_def Let_def http_simps)
  show "sent_header (http_Redirect P rel q url code x) ''Location'' = hexEscapeNonASCII url"
    using assms location
    by (simp add: http_Redirect_def Let_def http_simps)
      (simp add: sent_header_def http_simps header_get_set)
qed

lemma redirect_to_answer:
  assumes "rw_reply x = None" and "re_parse V (l_destination l) = Some u" and "url_host u \<noteq> []"
  shows "status_of (redirect_to V q l x) = l_redirect_type l"
    and "sent_header (redirect_to V q l x) ''Location'' = hexEscapeNonASCII (l_destination l)"
  using assms http_Redirect_answer unfolding redirect_to_def by (simp_all add: http_simps)

text \<open>Every destination that was validated is an absolute URL.\<close>

definition destinations_absolute :: "url_parser \<Rightarrow> link list \<Rightarrow> bool" where
  "destinations_absolute P ls =
     list_all (\<lambda>l. case P (l_destination l) of None \<Rightarrow> False | Some u \<Rightarrow> url_host u \<noteq> []) ls"

lemma handleRedirectError_status:
  "rw_reply x = None \<Longrightarrow> status_of (handleRedirectError e x) =
     (if errors_is e Svc_ErrLinkNotFound \<or> \<not> errors_is e Svc_ErrLinkExpired \<and> errors_is e Svc_ErrLinkDisabled
      then 404 else if errors_is e Svc_ErrLinkExpired then 410 else 500)"
  by (auto simp: handleRedirectError_def http_simps)

text \<open>An error of \<open>ResolveRedirect\<close> is one of the three, or one the handler does not know.\<close>

definition unknown_error :: "error \<Rightarrow> bool" where
  "unknown_error e = (\<forall>s \<in> {Svc_ErrLinkNotFound, Svc_ErrLinkExpired, Svc_ErrLinkDisabled}. \<not> errors_is e s)"

lemma GetLinkByShortCode_errors:
  assumes "Repository_GetLinkByShortCode c w = (Inl e, w')"
  shows "e = Sentinel Repo_ErrLinkNotFound \<or> unknown_error e"
  using assms
  by (auto simp: Repository_GetLinkByShortCode_def call_def pg_link_by_code_def unknown_error_def
      split: prod.splits sum.splits option.splits outcome.splits)

lemma from_table_errors:
  assumes "resolve_from_table R c w = (Inl e, w')"
  shows "e \<in> redirect_errors \<or> unknown_error e"
proof -
  obtain r v where r: "Repository_GetLinkByShortCode c w = (r, v)" by fastforce
  show ?thesis
  proof (cases r)
    case (Inl e1)
    with assms r GetLinkByShortCode_errors [of c w e1 v] show ?thesis
      by (auto simp: resolve_from_table_def redirect_errors_def split: if_splits)
  next
    case (Inr l)
    with assms r show ?thesis
      by (auto simp: resolve_from_table_def dest: validate_errors)
  qed
qed

lemma resolve_errors:
  assumes "LinkService_ResolveRedirect R c w = ((Inl e, hit), w')"
  shows "e \<in> redirect_errors \<or> unknown_error e"
proof -
  obtain w1 w2 where res: "resolve R c w1 = ((Inl e, hit), w2)"
    by (rule ResolveRedirect_split [OF assms])
  show ?thesis
  proof (cases rule: resolve_cases [of R c w1])
    case (hit cl w3)
    with res show ?thesis by (auto simp: Let_def dest: validate_errors split: prod.splits)
  next
    case (negative e1 w3 w4)
    with res show ?thesis by (simp add: redirect_errors_def)
  next
    case (table e1 w3 w4)
    with res have "resolve_from_table R c w4 = (Inl e, w2)" by (auto simp: Let_def split: prod.splits)
    then show ?thesis by (rule from_table_errors)
  qed
qed

lemma Redirect_unfold:
  assumes "path_value q ''shortCode'' = c" and "c \<noteq> []"
    and "LinkService_ResolveRedirect (re_redis V) c (snd (time_now w)) = ((r, hit), w2)"
  shows "fst (RedirectHandler_Redirect V q x w) = (case r of Inl e \<Rightarrow> handleRedirectError e x
    | Inr link \<Rightarrow> redirect_to V q link x)"
  using assms
  by (simp add: RedirectHandler_Redirect_def Let_def case_prod_beta split: sum.split)

text \<open>The response is that of an answer of \<open>ResolveRedirect\<close> which is right for the table.\<close>

lemma Redirect_answers:
  assumes "redis_server (re_redis V)" and "coherent (re_redis V) w" and "links_inv w"
    and "times_ok (w_links w)" and "codes_clean (w_links w)"
    and "path_value q ''shortCode'' = c" and "c \<noteq> []"
    and "RedirectHandler_Redirect V q x w = (x', w')"
  obtains r where "x' = (case r of Inl e \<Rightarrow> handleRedirectError e x | Inr link \<Rightarrow> redirect_to V q link x)"
    and "answers_for w c (clock w') r"
    and "\<And>e. r = Inl e \<Longrightarrow> e \<in> redirect_errors \<or> outcomes w \<noteq> [] \<and> unknown_error e"
proof -
  let ?R = "re_redis V" and ?w1 = "snd (time_now w)"
  have coh: "coherent ?R ?w1" by (rule redis_server.coherent_time_now [OF assms(1,2)])
  have rows: "live_row ?w1 = live_row w" by (rule live_row_links) simp
  obtain r hit w2 where res: "LinkService_ResolveRedirect ?R c ?w1 = ((r, hit), w2)"
    by (metis prod.collapse)
  have "links_inv ?w1" "times_ok (w_links ?w1)" "codes_clean (w_links ?w1)"
    using assms(3-5) by (simp_all add: links_inv_def)
  note answers = redis_server.ResolveRedirect_answers [OF assms(1) coh this res]
  have ans: "answers_for w c (clock w2) r"
    using answers(1) unfolding answers_for_def rows .
  have later: "clock w2 \<le> clock w'" if "r = Inl e" for e
    using assms(6-8) res that time_now_mono [of w2]
    by (cases "time_now w2") (simp add: RedirectHandler_Redirect_def Let_def case_prod_beta)
  have "x' = (case r of Inl e \<Rightarrow> handleRedirectError e x | Inr link \<Rightarrow> redirect_to V q link x)"
    using Redirect_unfold [OF assms(6,7) res, of x] by (simp add: assms(8))
  moreover have "answers_for w c (clock w') r"
    using later ans answers_mono [OF ans] by (cases r) (simp_all add: answers_for_def)
  moreover have "e \<in> redirect_errors \<or> outcomes w \<noteq> [] \<and> unknown_error e" if "r = Inl e" for e
    using resolve_errors [of ?R c ?w1 e hit w2] res that answers(4) [of e] by auto
  ultimately show thesis by (rule that)
qed

text \<open>
  What a right answer for a code is, over the links of a world and up to a time: 301 or 302 means that a
  live row of the code has that redirect type and the Location sent as destination; 410 that the live row
  expires within a second or has expired; 404 that there is no live row of the code or a disabled one; and
  when every call is answered there is no other status.
\<close>

definition redirect_faithful :: "'r world \<Rightarrow> string \<Rightarrow> instant \<Rightarrow> writer \<Rightarrow> bool" where
  "redirect_faithful w c t x \<longleftrightarrow>
     (status_of x \<in> {301, 302} \<longrightarrow> (\<exists>l. live_row w c l \<and> l_redirect_type l = status_of x
        \<and> sent_header x ''Location'' = hexEscapeNonASCII (l_destination l)))
   \<and> (status_of x = 410 \<longrightarrow> (\<exists>l. live_row w c l \<and> Link_IsExpired (t + second) l))
   \<and> (status_of x = 404 \<longrightarrow> (\<forall>l. \<not> live_row w c l) \<or> (\<exists>l. live_row w c l \<and> \<not> l_enabled l))
   \<and> status_of x \<in> {301, 302, 404, 410, 500} \<and> (outcomes w = [] \<longrightarrow> status_of x \<noteq> 500)"

lemma redirect_faithful_later: "redirect_faithful w c t x \<Longrightarrow> t \<le> t' \<Longrightarrow> redirect_faithful w c t' x"
  unfolding redirect_faithful_def using Link_IsExpired_mono [of "t + second" _ "t' + second"] by force

text \<open>Over a coherent cache the redirect answers rightly; a disabled link looks like an absent one.\<close>

lemma Redirect_response:
  assumes "redis_server (re_redis V)" and "coherent (re_redis V) w" and "links_inv w"
    and "times_ok (w_links w)" and "codes_clean (w_links w)"
    and "destinations_absolute (re_parse V) (w_links w)"
    and "path_value q ''shortCode'' = c" and "c \<noteq> []" and "rw_reply x0 = None"
    and "RedirectHandler_Redirect V q x0 w = (x, w')"
  shows "redirect_faithful w c (clock w') x"
    and "status_of x = 404 \<Longrightarrow> x = RedirectHandler_writeError 404 ''LINK_NOT_FOUND'' ''Link not found'' x0"
    and "rw_panic x = rw_panic x0"
proof -
  from assms(10) obtain r where x: "x = (case r of Inl e \<Rightarrow> handleRedirectError e x0
        | Inr link \<Rightarrow> redirect_to V q link x0)"
    and ans: "answers_for w c (clock w') r"
    and err: "\<And>e. r = Inl e \<Longrightarrow> e \<in> redirect_errors \<or> outcomes w \<noteq> [] \<and> unknown_error e"
    by (rule Redirect_answers [OF assms(1-5,7,8)]) blast
  have "redirect_faithful w c (clock w') x \<and> (status_of x = 404 \<longrightarrow>
      x = RedirectHandler_writeError 404 ''LINK_NOT_FOUND'' ''Link not found'' x0)"
  proof (cases r)
    case (Inr l')
    then obtain l where l: "live_row w c l" "shows_row l' l"
      using ans by (auto simp: answers_for_def)
    then have "l \<in> set (w_links w)" by (simp add: live_row_def)
    then obtain u where "re_parse V (l_destination l') = Some u" "url_host u \<noteq> []"
      using assms(6) l(2) by (auto simp: destinations_absolute_def list_all_iff shows_row_def split: option.splits)
    note redirect_to_answer [OF _ this, of x0 q]
    moreover have "l_redirect_type l' \<in> {301, 302}"
      using assms(3) l \<open>l \<in> set (w_links w)\<close>
      by (auto simp: links_inv_def links_ok_def link_check_def shows_row_def RedirectType_IsValid_iff
          split: if_splits)
    ultimately show ?thesis using l Inr x assms(9) by (auto simp: shows_row_def redirect_faithful_def)
  next
    case (Inl e)
    from err [OF Inl] consider "e = Sentinel Svc_ErrLinkNotFound" | "e = Sentinel Svc_ErrLinkDisabled"
      | "e = Sentinel Svc_ErrLinkExpired" | "unknown_error e" "outcomes w \<noteq> []"
      by (auto simp: redirect_errors_def)
    then show ?thesis
    proof cases
      case 1
      with ans Inl x assms(9) show ?thesis
        by (simp add: answers_for_def handleRedirectError_def http_simps redirect_faithful_def)
    next
      case 2
      with ans Inl x assms(9) show ?thesis
        by (simp add: answers_for_def handleRedirectError_def http_simps redirect_faithful_def)
    next
      case 3
      with ans Inl x assms(9) show ?thesis
        by (auto simp: answers_for_def handleRedirectError_def http_simps redirect_faithful_def)
    next
      case 4
      with Inl x assms(9) show ?thesis
        by (auto simp: handleRedirectError_status unknown_error_def redirect_faithful_def)
    qed
  qed
  then show "redirect_faithful w c (clock w') x"
    and "status_of x = 404 \<Longrightarrow> x = RedirectHandler_writeError 404 ''LINK_NOT_FOUND'' ''Link not found'' x0"
    by simp_all
  show "rw_panic x = rw_panic x0"
    by (cases r) (simp_all add: x handleRedirectError_def RedirectHandler_writeError_def redirect_to_def
        http_Redirect_def Let_def http_simps)
qed

theorem redirect_response_faithful:
  assumes "redis_server (re_redis V)" and "coherent (re_redis V) w" and "links_inv w"
    and "times_ok (w_links w)" and "codes_clean (w_links w)"
    and "destinations_absolute (re_parse V) (w_links w)"
    and "path_value q ''shortCode'' = c" and "c \<noteq> []"
    and "RedirectHandler_Redirect V q new_writer w = (x, w')"
  shows "(status_of x \<in> {301, 302} \<longrightarrow> (\<exists>l. live_row w c l \<and> l_redirect_type l = status_of x
        \<and> sent_header x ''Location'' = hexEscapeNonASCII (l_destination l)))
    \<and> (status_of x = 410 \<longrightarrow> (\<exists>l. live_row w c l \<and> Link_IsExpired (clock w' + second) l))
    \<and> (status_of x = 404 \<longrightarrow> x = RedirectHandler_writeError 404 ''LINK_NOT_FOUND'' ''Link not found'' new_writer
        \<and> ((\<forall>l. \<not> live_row w c l) \<or> (\<exists>l. live_row w c l \<and> \<not> l_enabled l)))
    \<and> status_of x \<in> {301, 302, 404, 410, 500} \<and> (outcomes w = [] \<longrightarrow> status_of x \<noteq> 500)"
  using Redirect_response [OF assms(1-8) _ assms(9)] by (simp add: redirect_faithful_def)

definition sample_redirect_env :: "ref_store stream_ops \<Rightarrow> ref_store redirect_env" where
  "sample_redirect_env X = \<lparr>re_redis = ref_redis, re_stream = X, re_encode = (\<lambda>p. []), re_digest = id,
     re_referrer = Some, re_parse = (\<lambda>s. Some \<lparr>url_scheme = ''https'', url_host = ''h''\<rparr>),
     re_relative = (\<lambda>p u. u), re_publisher = True\<rparr>"

theorem redirect_response_faithful_witness:
  "\<forall>X. status_of (fst (RedirectHandler_Redirect (sample_redirect_env X)
     ((plain_request ''GET'' ''/abd'')\<lparr>rq_params := [(''shortCode'', ''abd'')]\<rparr>) new_writer sample_world))
   \<in> {301, 302, 404, 410}"
proof
  fix X
  let ?q = "(plain_request ''GET'' ''/abd'')\<lparr>rq_params := [(''shortCode'', ''abd'')]\<rparr>"
  have "destinations_absolute (re_parse (sample_redirect_env X)) (w_links sample_world)"
    by (simp add: destinations_absolute_def sample_redirect_env_def)
  moreover have "path_value ?q ''shortCode'' = ''abd''"
    by (simp add: path_value_def lookup_str_def)
  moreover have "redis_server (re_redis (sample_redirect_env X))"
    and "coherent (re_redis (sample_redirect_env X)) sample_world"
    by (simp_all add: sample_redirect_env_def ref_server.redis_server_axioms)
  ultimately show "status_of (fst (RedirectHandler_Redirect (sample_redirect_env X) ?q new_writer sample_world))
      \<in> {301, 302, 404, 410}"
    using redirect_response_faithful [OF _ _ sample_world_inv sample_ok _ _ _ prod.collapse [symmetric],
        where V = "sample_redirect_env X" and q = ?q and c = "''abd''"] by auto
qed

section \<open>Clicks of cached redirects\<close>

text \<open>A link restored from the cache has lost its id, so the event of its click is not valid.\<close>

lemma cached_click_rejected:
  "ValidateClickEventPayload (click_event_of S D q c (ToLink c cl) t) \<noteq> None"
  by (simp add: ValidateClickEventPayload_def click_event_of_def ToLink_def)

end
