(* ===== verification/Link_Journey.thy ===== *)
theory Link_Journey imports Link_Handler Redirect_Handler begin

text \<open>
  The link handlers and the redirect handler together, as a client sees them: the short code that a
  creation returned redirects to the destination that was asked for; and every link belongs to the
  owner \<open>system\<close>, whoever created it.
\<close>

lemma ToLinkResponse_frame:
  assumes "ToLinkResponse l base w = (r, w')"
  shows "w_links w' = w_links w" and "w_redis w' = w_redis w" and "clock w \<le> clock w'"
    and "lr_short_code r = l_short_code l" and "lr_destination r = l_destination l"
    and "lr_short_url r = base @ ''/'' @ l_short_code l"
proof -
  have w': "w' = w \<or> w' = snd (time_now w)"
    using assms by (auto simp: ToLinkResponse_def status_now_def split: prod.splits if_splits option.splits)
  then show "w_links w' = w_links w" and "w_redis w' = w_redis w" by auto
  show "clock w \<le> clock w'" using w' time_now_mono [of w] by (cases "time_now w") auto
  show "lr_short_code r = l_short_code l" and "lr_destination r = l_destination l"
    and "lr_short_url r = base @ ''/'' @ l_short_code l"
    using assms by (auto simp: ToLinkResponse_def split: prod.splits)
qed

lemma link_error_status [http_simps]:
  "rw_reply x = None \<Longrightarrow> status_of (LinkHandler_writeError s c m x) = s"
  by (simp add: LinkHandler_writeError_def http_simps)

lemma handleServiceError_status:
  "rw_reply x = None \<Longrightarrow> status_of (handleServiceError e x) \<in> {400, 404, 409, 422, 500}"
  by (simp add: handleServiceError_def link_error_status)

lemma service_failed_status:
  assumes "rw_reply x = None"
  shows "status_of (service_failed e x) \<in> {200, 400, 404, 409, 422, 500}"
  using handleServiceError_status [OF assms, of e] assms
  by (cases e) (auto simp: service_failed_def panics_def status_of_def)

text \<open>What a creation answered with 201 did.\<close>

lemma Create_handler_201:
  assumes "LinkHandler_Create P svc DEC q x w = (x', w')" and "rw_reply x = None" and "status_of x' = 201"
  obtains req l r w1 where "DEC (rq_in_body q) = Some req"
    and "LinkService_CreateLink P \<lparr>ci_destination = lc_destination req, ci_alias = lc_alias req,
      ci_redirect_type = (if lc_redirect_type req = 0 then 302 else lc_redirect_type req),
      ci_expires_at = lc_expires_at req, ci_owner_id = ''system''\<rparr> w = (Inr l, w1)"
    and "ToLinkResponse l (LinkService_BaseURL svc) w1 = (r, w')"
    and "x' = writeJSON 201 (link_response_json r) x"
proof (cases "DEC (rq_in_body q)")
  case None
  with assms show thesis by (auto simp: LinkHandler_Create_def http_simps)
next
  case (Some req)
  let ?input = "\<lparr>ci_destination = lc_destination req, ci_alias = lc_alias req,
      ci_redirect_type = (if lc_redirect_type req = 0 then 302 else lc_redirect_type req),
      ci_expires_at = lc_expires_at req, ci_owner_id = ''system''\<rparr>"
  obtain y w1 where y: "LinkService_CreateLink P ?input w = (y, w1)" by fastforce
  show thesis
  proof (cases y)
    case (Inl e)
    with assms Some y have "x' = service_failed e x"
      by (simp add: LinkHandler_Create_def Let_def split: if_splits)
    with assms service_failed_status [of x e] show thesis by auto
  next
    case (Inr l)
    obtain r w2 where r: "ToLinkResponse l (LinkService_BaseURL svc) w1 = (r, w2)" by fastforce
    with assms Some y Inr have "x' = writeJSON 201 (link_response_json r) x" and "w2 = w'"
      by (simp_all add: LinkHandler_Create_def respond_link_def Let_def split: if_splits)
    with r Some y Inr that show thesis by blast
  qed
qed

context redis_server begin

text \<open>A creation keeps the cache coherent, unless the new code is negatively cached.\<close>

lemma coherent_after_create:
  assumes "coherent R w" and "LinkService_CreateLink P input w = (Inr l, w')"
    and "\<not> negative_now R w (l_short_code l)"
  shows "coherent R w'"
proof -
  note c = CreateLink_facts [OF assms(2)]
  then have same: "w_redis w' = w_redis w" and later: "clock w \<le> clock w'"
    and links: "w_links w' = w_links w @ [l]" and none: "\<And>l'. \<not> live_row w (l_short_code l) l'"
    by blast+
  have "coherent_at R w' c'" for c'
  proof (cases "c' = l_short_code l")
    case False
    then have "live_row w' c' = live_row w c'" by (auto simp: live_row_def links fun_eq_iff)
    from coherent_at_rows [OF _ this same later] assms(1) show ?thesis
      unfolding coherent_def by blast
  next
    case True
    have "hash_now R w c' = []"
      using assms(1) none True by (auto simp: coherent_def coherent_at_def)
    then have "hash_now R w' c' = []"
      using hash_fades [OF later, of "link_hash_key c'" "w_redis w"] same by (auto simp: hash_now_def)
    moreover have "\<not> negative_now R w' c'"
      using assms(3) exists_fades [OF later] same True by (auto simp: negative_now_def)
    ultimately show ?thesis by (simp add: coherent_at_def)
  qed
  then show ?thesis by (simp add: coherent_def)
qed

end

lemma aliases_clean: "aliasRegex_MatchString c \<Longrightarrow> \<not> has_suffix c negCacheKeySuffix"
  by (auto simp: aliasRegex_MatchString_def has_suffix_iff negCacheKeySuffix_def alias_char_def
      is_digit_def less_eq_char_def)

text \<open>The public answer for the code of an enabled live link with a validated destination.\<close>

lemma redirect_live_row:
  assumes "redis_server (re_redis V)" and "coherent (re_redis V) w" and "links_inv w"
    and "times_ok (w_links w)" and "codes_clean (w_links w)"
    and "live_row w c l" and "l_enabled l" and "validateDestination (re_parse V) (l_destination l) = None"
    and "path_value q ''shortCode'' = c" and "c \<noteq> []"
    and "RedirectHandler_Redirect V q new_writer w = (x, w')"
  shows "(status_of x = l_redirect_type l \<and> sent_header x ''Location'' = hexEscapeNonASCII (l_destination l))
    \<or> (status_of x = 410 \<and> Link_IsExpired (clock w' + second) l) \<or> (status_of x = 500 \<and> outcomes w \<noteq> [])"
proof -
  from assms(11) obtain r where x: "x = (case r of Inl e \<Rightarrow> handleRedirectError e new_writer
        | Inr link \<Rightarrow> redirect_to V q link new_writer)"
    and ans: "answers_for w c (clock w') r"
    and err: "\<And>e. r = Inl e \<Longrightarrow> e \<in> redirect_errors \<or> outcomes w \<noteq> [] \<and> unknown_error e"
    by (rule Redirect_answers [OF assms(1-5,9,10)]) blast
  have only: "l' = l" if "live_row w c l'" for l'
    using live_row_unique [OF assms(3,6) that] .
  show ?thesis
  proof (cases r)
    case (Inr l')
    with ans only have "shows_row l' l" by (auto simp: answers_for_def)
    moreover obtain u where "re_parse V (l_destination l) = Some u" "url_host u \<noteq> []"
      using assms(8) by (auto simp: validateDestination_def split: if_splits option.splits)
    ultimately show ?thesis
      using x Inr redirect_to_answer [of new_writer V l' u q] by (simp add: shows_row_def)
  next
    case (Inl e)
    from err [OF Inl] consider "e = Sentinel Svc_ErrLinkNotFound" | "e = Sentinel Svc_ErrLinkDisabled"
      | "e = Sentinel Svc_ErrLinkExpired" | "unknown_error e" "outcomes w \<noteq> []"
      by (auto simp: redirect_errors_def)
    then show ?thesis
    proof cases
      case 1
      with ans Inl assms(6) show ?thesis by (simp add: answers_for_def)
    next
      case 2
      with ans Inl only assms(7) show ?thesis by (fastforce simp: answers_for_def)
    next
      case 3
      with ans Inl obtain l' where "live_row w c l'" "Link_IsExpired (clock w' + second) l'"
        by (auto simp: answers_for_def)
      with only have "Link_IsExpired (clock w' + second) l" by blast
      with 3 Inl x show ?thesis by (simp add: handleRedirectError_def http_simps)
    next
      case 4
      with Inl x show ?thesis by (simp add: handleRedirectError_status unknown_error_def)
    qed
  qed
qed

text \<open>A short code that was handed out works. A creation answered with 201 shows in its body the
  code (the requested alias if there was one) and the short URL; unless a negative cache entry for the
  code was left, every later request for the code, whatever the calls answer then and however late it
  comes, is redirected with the requested type to the requested destination, or refused with 410 when
  the requested expiry is reached within a second, or with 500 when a call failed.\<close>

theorem created_link_redirects:
  assumes "redis_server (re_redis V)" and "coherent (re_redis V) w" and "links_inv w"
    and "codes_clean (w_links w)" and "times_ok (w_links w')"
    and "LinkHandler_Create (re_parse V) svc DEC q new_writer w = (x, w')" and "status_of x = 201"
  shows "\<exists>req r. DEC (rq_in_body q) = Some req \<and> rw_body x = [Json (link_response_json r)]
    \<and> lr_short_url r = LinkService_BaseURL svc @ ''/'' @ lr_short_code r
    \<and> (lc_alias req \<noteq> [] \<longrightarrow> lr_short_code r = lc_alias req)
    \<and> (\<not> negative_now (re_redis V) w (lr_short_code r) \<longrightarrow>
        (\<forall>os ts q' y v. path_value q' ''shortCode'' = lr_short_code r
            \<and> RedirectHandler_Redirect V q' new_writer (w'\<lparr>outcomes := os, ticks := ts\<rparr>) = (y, v) \<longrightarrow>
          (status_of y = (if lc_redirect_type req = 0 then 302 else lc_redirect_type req)
            \<and> sent_header y ''Location'' = hexEscapeNonASCII (lc_destination req))
          \<or> (status_of y = 410 \<and> (\<exists>e. lc_expires_at req = Some e \<and> e < clock v + second))
          \<or> (status_of y = 500 \<and> os \<noteq> [])))"
proof -
  from assms(6,7) obtain req l r w1 where req: "DEC (rq_in_body q) = Some req"
    and create: "LinkService_CreateLink (re_parse V) \<lparr>ci_destination = lc_destination req, ci_alias = lc_alias req,
      ci_redirect_type = (if lc_redirect_type req = 0 then 302 else lc_redirect_type req),
      ci_expires_at = lc_expires_at req, ci_owner_id = ''system''\<rparr> w = (Inr l, w1)"
    and r: "ToLinkResponse l (LinkService_BaseURL svc) w1 = (r, w')"
    and x: "x = writeJSON 201 (link_response_json r) new_writer"
    by (elim Create_handler_201) simp_all
  note c = CreateLink_facts [OF create, simplified]
  note same = ToLinkResponse_frame [OF r]
  have row: "live_row w' (l_short_code l) l" and links: "w_links w' = w_links w @ [l]"
    using c same by (auto simp: live_row_def live_link_def)
  have inv: "links_inv w'"
    using assms(3) c unfolding links_inv_def links
    by (auto simp: links_ok_def live_row_def live_link_def)
  have clean: "codes_clean (w_links w')" and code: "l_short_code l \<noteq> []"
    using assms(4) c aliases_clean unfolding links
    by (auto simp: codes_clean_def aliasRegex_MatchString_def)
  have created: "l_enabled l" "validateDestination (re_parse V) (l_destination l) = None"
    using CreateLink_facts [OF create] by blast+
  have answer: "(status_of y = l_redirect_type l \<and> sent_header y ''Location'' = hexEscapeNonASCII (l_destination l))
    \<or> (status_of y = 410 \<and> Link_IsExpired (clock v + second) l) \<or> (status_of y = 500 \<and> os \<noteq> [])"
    if "\<not> negative_now (re_redis V) w (l_short_code l)" and "path_value q' ''shortCode'' = l_short_code l"
      and "RedirectHandler_Redirect V q' new_writer (w'\<lparr>outcomes := os, ticks := ts\<rparr>) = (y, v)" for os ts q' y v
  proof -
    let ?w = "w'\<lparr>outcomes := os, ticks := ts\<rparr>"
    have "coherent (re_redis V) w1"
      using redis_server.coherent_after_create [OF assms(1,2) create that(1)] .
    then have "coherent (re_redis V) ?w"
      using redis_server.coherent_later [OF assms(1), of w1 ?w] same by simp
    moreover have "links_inv ?w" "times_ok (w_links ?w)" "codes_clean (w_links ?w)"
      and "live_row ?w (l_short_code l) l"
      using inv assms(5) clean row by (simp_all add: links_inv_def live_row_def)
    ultimately show ?thesis
      using redirect_live_row [OF assms(1) _ _ _ _ _ _ _ that(2) code that(3)] created by simp
  qed
  have l: "l_destination l = lc_destination req" "l_expires_at l = lc_expires_at req"
    "l_redirect_type l = (if lc_redirect_type req = 0 then 302 else lc_redirect_type req)"
    "lc_alias req \<noteq> [] \<longrightarrow> l_short_code l = lc_alias req"
    using CreateLink_facts [OF create] by (simp_all split: if_splits)
  have expired: "\<exists>e. lc_expires_at req = Some e \<and> e < t" if "Link_IsExpired t l" for t
    using that l(2) by (simp add: Link_IsExpired_def split: option.splits)
  show ?thesis
  proof (intro exI [of _ req] exI [of _ r] conjI impI allI)
    fix os ts q' y v
    assume neg: "\<not> negative_now (re_redis V) w (lr_short_code r)"
      and run: "path_value q' ''shortCode'' = lr_short_code r
        \<and> RedirectHandler_Redirect V q' new_writer (w'\<lparr>outcomes := os, ticks := ts\<rparr>) = (y, v)"
    have "(status_of y = l_redirect_type l \<and> sent_header y ''Location'' = hexEscapeNonASCII (l_destination l))
      \<or> (status_of y = 410 \<and> Link_IsExpired (clock v + second) l) \<or> (status_of y = 500 \<and> os \<noteq> [])"
      using neg run same(4) by (intro answer [of q' ts os y v]) simp_all
    then show "(status_of y = (if lc_redirect_type req = 0 then 302 else lc_redirect_type req)
        \<and> sent_header y ''Location'' = hexEscapeNonASCII (lc_destination req))
      \<or> (status_of y = 410 \<and> (\<exists>e. lc_expires_at req = Some e \<and> e < clock v + second))
      \<or> (status_of y = 500 \<and> os \<noteq> [])"
      unfolding l(1,3) using expired by blast
  qed (use req x same(4-6) l(4) in \<open>simp_all add: http_simps\<close>)
qed

definition journey_env :: "ref_store stream_ops \<Rightarrow> ref_store redirect_env" where
  "journey_env X = \<lparr>re_redis = ref_redis, re_stream = X, re_encode = (\<lambda>p. []), re_digest = id,
     re_referrer = Some, re_parse = sample_parser, re_relative = (\<lambda>p u. u), re_publisher = True\<rparr>"

definition journey_request :: "body \<Rightarrow> create_link_request option" where
  "journey_request b = Some \<lparr>lc_destination = ''https://example.org/a'', lc_alias = ''my-link'',
     lc_redirect_type = 301, lc_expires_at = None\<rparr>"

lemma journey_create:
  obtains x w' where "LinkHandler_Create sample_parser (NewLinkService ''http://s'') journey_request
      (plain_request ''POST'' ''/api/v1/links'') new_writer fresh_world = (x, w')"
    and "status_of x = 201" and "times_ok (w_links w')"
proof -
  obtain l w1 where l: "LinkService_CreateLink sample_parser sample_input fresh_world = (Inr l, w1)"
    and ok: "link_times_ok l" using sample_create by blast
  obtain r w2 where r: "ToLinkResponse l (LinkService_BaseURL (NewLinkService ''http://s'')) w1 = (r, w2)"
    by fastforce
  have "LinkHandler_Create sample_parser (NewLinkService ''http://s'') journey_request
      (plain_request ''POST'' ''/api/v1/links'') new_writer fresh_world
    = (writeJSON 201 (link_response_json r) new_writer, w2)"
    using l r by (simp add: LinkHandler_Create_def journey_request_def sample_input_def respond_link_def)
  moreover have "w_links w2 = [l]"
    using ToLinkResponse_frame(1) [OF r] CreateLink_facts [OF l] by simp
  ultimately show thesis
    using that ok by (simp add: http_simps times_ok_def)
qed

theorem created_link_redirects_witness:
  "\<forall>X. \<exists>w'. w' = snd (LinkHandler_Create sample_parser (NewLinkService ''http://s'') journey_request
        (plain_request ''POST'' ''/api/v1/links'') new_writer fresh_world)
    \<and> status_of (fst (RedirectHandler_Redirect (journey_env X) ((plain_request ''GET'' ''/my-link'')
          \<lparr>rq_params := [(''shortCode'', ''my-link'')]\<rparr>) new_writer (w'\<lparr>outcomes := [], ticks := []\<rparr>))) = 301"
proof
  fix X
  let ?q' = "(plain_request ''GET'' ''/my-link'')\<lparr>rq_params := [(''shortCode'', ''my-link'')]\<rparr>"
  obtain x w' where run: "LinkHandler_Create sample_parser (NewLinkService ''http://s'') journey_request
      (plain_request ''POST'' ''/api/v1/links'') new_writer fresh_world = (x, w')"
    and ok: "status_of x = 201" "times_ok (w_links w')" by (rule journey_create)
  have env: "re_redis (journey_env X) = ref_redis" "re_parse (journey_env X) = sample_parser"
    by (simp_all add: journey_env_def)
  have coh: "coherent ref_redis fresh_world" and cold: "\<not> negative_now ref_redis fresh_world c" for c
    by (simp_all add: coherent_def coherent_at_def hash_now_def negative_now_def hash_at_def)
  have inv: "links_inv fresh_world" and clean: "codes_clean (w_links fresh_world)"
    by (simp_all add: links_inv_def codes_clean_def)
  from created_link_redirects [of "journey_env X", unfolded env, OF ref_server.redis_server_axioms coh inv clean ok(2) run ok(1)]
  obtain req and r :: link_response where "journey_request (rq_in_body (plain_request ''POST'' ''/api/v1/links'')) = Some req"
    and "lc_alias req \<noteq> [] \<longrightarrow> lr_short_code r = lc_alias req"
    and answer: "\<And>os ts q' y v. path_value q' ''shortCode'' = lr_short_code r
        \<and> RedirectHandler_Redirect (journey_env X) q' new_writer (w'\<lparr>outcomes := os, ticks := ts\<rparr>) = (y, v) \<Longrightarrow>
      (status_of y = (if lc_redirect_type req = 0 then 302 else lc_redirect_type req)
        \<and> sent_header y ''Location'' = hexEscapeNonASCII (lc_destination req))
      \<or> (status_of y = 410 \<and> (\<exists>e. lc_expires_at req = Some e \<and> e < clock v + second))
      \<or> (status_of y = 500 \<and> os \<noteq> [])"
    using cold by blast
  then have "lr_short_code r = ''my-link''" and "lc_redirect_type req = 301" and "lc_expires_at req = None"
    by (auto simp: journey_request_def)
  moreover have "path_value ?q' ''shortCode'' = ''my-link''"
    by (simp add: path_value_def lookup_str_def)
  ultimately have "status_of (fst (RedirectHandler_Redirect (journey_env X) ?q' new_writer
      (w'\<lparr>outcomes := [], ticks := []\<rparr>))) = 301"
    using answer [of ?q' "[]" "[]", OF conjI [OF _ surjective_pairing]] by auto
  with run show "\<exists>w'. w' = snd (LinkHandler_Create sample_parser (NewLinkService ''http://s'') journey_request
        (plain_request ''POST'' ''/api/v1/links'') new_writer fresh_world)
    \<and> status_of (fst (RedirectHandler_Redirect (journey_env X) ?q' new_writer (w'\<lparr>outcomes := [], ticks := []\<rparr>))) = 301"
    by simp
qed

text \<open>
  Whoever the authenticated user is, a created link belongs to \<open>system\<close>; its clicks are published to
  the webhook endpoints of that owner and to no endpoint of the user.
\<close>

lemma created_links_belong_to_system:
  assumes "LinkHandler_Create P svc DEC q x w = (x', w')" and "rw_reply x = None" and "status_of x' = 201"
  shows "\<exists>l. w_links w' = w_links w @ [l] \<and> l_owner_id l = ''system''"
  using assms
proof (rule Create_handler_201)
  fix req l r w1
  assume create: "LinkService_CreateLink P \<lparr>ci_destination = lc_destination req, ci_alias = lc_alias req,
      ci_redirect_type = (if lc_redirect_type req = 0 then 302 else lc_redirect_type req),
      ci_expires_at = lc_expires_at req, ci_owner_id = ''system''\<rparr> w = (Inr l, w1)"
    and r: "ToLinkResponse l (LinkService_BaseURL svc) w1 = (r, w')"
  from CreateLink_facts [OF create] ToLinkResponse_frame(1) [OF r] show ?thesis by auto
qed

end
