(* ===== verification/Webhook_Handler.thy ===== *)
theory Webhook_Handler imports Http Webhook_Repo Webhook_Rules begin

text \<open>
  \<open>internal/handler/webhook.go\<close>: the management of webhook endpoints and of their deliveries. The
  parameters are \<open>url.Parse\<close> (\<open>P\<close>), the resolver (\<open>L\<close>), SHA-256 (\<open>D\<close>), the decoders of the request
  bodies (\<open>DEC\<close>) and the flag \<open>allowInsecure\<close> of the handler.

  Every operation makes the same checks first: \<open>with_webhook_auth\<close> is the authentication and the
  scope, \<open>with_own_endpoint\<close> the lookup of the endpoint of the path and its owner.
\<close>

section \<open>Responses\<close>

definition endpoint_fields :: "endpoint_response \<Rightarrow> (string \<times> json) list" where
  "endpoint_fields r = [(''id'', JStr (er_id r))] @ omit_empty ''name'' (er_name r)
     @ omit_empty ''description'' (er_description r)
     @ [(''target_url'', JStr (er_target_url r)), (''enabled'', JBool (er_enabled r)),
        (''event_types'', json_strs (er_event_types r)), (''created_at'', JTime (er_created_at r)),
        (''updated_at'', JTime (er_updated_at r))]"

definition endpoint_json :: "endpoint_response \<Rightarrow> json" where
  "endpoint_json r = JObj (endpoint_fields r)"

definition endpoint_create_json :: "endpoint_create_response \<Rightarrow> json" where
  "endpoint_create_json r =
     JObj (endpoint_fields (endpoint_response.truncate r) @ [(''secret'', JStr (er_secret r))])"

definition delivery_json :: "delivery_response \<Rightarrow> json" where
  "delivery_json r = JObj ([(''id'', JStr (dr_id r)), (''event_id'', JStr (dr_event_id r)),
     (''event_type'', JStr (dr_event_type r)), (''status'', JStr (status_text (dr_status r))),
     (''attempt_count'', JInt (dr_attempt_count r)), (''max_attempts'', JInt (dr_max_attempts r))]
     @ omit_none ''next_retry_at'' JTime (dr_next_retry_at r)
     @ omit_none ''last_attempt_at'' JTime (dr_last_attempt_at r)
     @ omit_none ''last_http_status'' JInt (dr_last_http_status r)
     @ omit_empty ''last_error'' (dr_last_error r) @ [(''created_at'', JTime (dr_created_at r))])"

definition webhook_error :: "int \<Rightarrow> string \<Rightarrow> string \<Rightarrow> writer \<Rightarrow> writer" where
  "webhook_error status message code x = writeJSON status (ErrorResponse message code) x"

section \<open>The checks that every operation makes\<close>

definition with_webhook_auth :: "(auth_context \<Rightarrow> 'r handler) \<Rightarrow> 'r handler" where
  "with_webhook_auth act q x w = (case rq_auth q of
       None \<Rightarrow> (webhook_error 401 ''Unauthorized'' ''UNAUTHORIZED'' x, w)
     | Some a \<Rightarrow>
         if \<not> AuthContext_HasScope a ScopeWebhook
           then (webhook_error 403 ''Webhook scope required'' ''FORBIDDEN'' x, w)
         else act a q x w)"

definition with_own_endpoint :: "string \<Rightarrow> (endpoint \<Rightarrow> auth_context \<Rightarrow> 'r handler) \<Rightarrow> 'r handler" where
  "with_own_endpoint failed act q x w = with_webhook_auth (\<lambda>a q x w.
     (case Repository_GetEndpoint (path_value q ''id'') w of
        (Inl err, w1) \<Rightarrow>
          (if errors_is err Webhook_ErrEndpointNotFound
             then (webhook_error 404 ''Webhook not found'' ''NOT_FOUND'' x, w1)
           else (webhook_error 500 failed ''INTERNAL_ERROR'' x, w1))
      | (Inr endpoint, w1) \<Rightarrow>
          (if e_user_id endpoint \<noteq> a_user_id a
             then (webhook_error 404 ''Webhook not found'' ''NOT_FOUND'' x, w1)
           else act endpoint a q x w1))) q x w"

definition invalid_event_type :: "event_type list \<Rightarrow> event_type option" where
  "invalid_event_type ets = find (\<lambda>et. \<not> IsValidEventType et) ets"

section \<open>Create, list, get\<close>

definition generateID :: "'r world \<Rightarrow> string \<times> 'r world" where
  "generateID w = (case time_now w of (t, w') \<Rightarrow> (format_int16 t, w'))"

definition create_webhook :: "digest \<Rightarrow> auth_context \<Rightarrow> endpoint_create_request \<Rightarrow> event_type list
    \<Rightarrow> writer \<Rightarrow> 'r world \<Rightarrow> writer \<times> 'r world" where
  "create_webhook D a req eventTypes x w = (case GenerateSecret w of
       (Inl err, w1) \<Rightarrow> (webhook_error 500 ''Failed to create webhook'' ''INTERNAL_ERROR'' x, w1)
     | (Inr secret, w1) \<Rightarrow>
         (case time_now w1 of (now, w2) \<Rightarrow>
          case generateID w2 of (i, w3) \<Rightarrow>
          let endpoint = \<lparr>e_id = i, e_user_id = a_user_id a, e_target_url = cr_target_url req,
                e_secret_hash = HashSecret D secret, e_enabled = True, e_event_types = eventTypes,
                e_name = cr_name req, e_description = cr_description req, e_created_at = now,
                e_updated_at = now, e_deleted_at = None\<rparr>
          in (case Repository_CreateEndpoint endpoint w3 of
                (Inl err, w4) \<Rightarrow>
                  (webhook_error 500 ''Failed to create webhook'' ''INTERNAL_ERROR'' x, w4)
              | (Inr _, w4) \<Rightarrow>
                  (writeJSON 201 (endpoint_create_json (endpoint_response.extend
                     (Endpoint_ToResponse endpoint) (endpoint_create_response.fields secret))) x, w4))))"

definition WebhookHandler_Create :: "url_parser \<Rightarrow> resolver \<Rightarrow> digest
    \<Rightarrow> (body \<Rightarrow> endpoint_create_request option) \<Rightarrow> bool \<Rightarrow> 'r handler" where
  "WebhookHandler_Create P L D DEC allowInsecure = with_webhook_auth (\<lambda>a q x w.
     (case DEC (rq_in_body q) of
        None \<Rightarrow> (webhook_error 400 ''Invalid request body'' ''INVALID_REQUEST'' x, w)
      | Some req \<Rightarrow>
          (case ValidateTargetURLWithOptions P L (cr_target_url req) allowInsecure of
             Some err \<Rightarrow> (webhook_error 400 (error_text err) ''INVALID_URL'' x, w)
           | None \<Rightarrow>
               let eventTypes = (if cr_event_types req = [] then [EventTypeClick] else cr_event_types req)
               in (case invalid_event_type eventTypes of
                     Some et \<Rightarrow>
                       (webhook_error 400 (''Invalid event type: '' @ et) ''INVALID_EVENT_TYPE'' x, w)
                   | None \<Rightarrow> create_webhook D a req eventTypes x w))))"

definition WebhookHandler_List :: "'r handler" where
  "WebhookHandler_List = with_webhook_auth (\<lambda>a q x w.
     (case Repository_ListEndpointsByUser (a_user_id a) w of
        (Inl err, w1) \<Rightarrow> (webhook_error 500 ''Failed to list webhooks'' ''INTERNAL_ERROR'' x, w1)
      | (Inr endpoints, w1) \<Rightarrow>
          (writeJSON 200 (JObj [(''webhooks'',
             JArr (map (endpoint_json \<circ> Endpoint_ToResponse) endpoints))]) x, w1)))"

definition WebhookHandler_Get :: "'r handler" where
  "WebhookHandler_Get = with_own_endpoint ''Failed to get webhook'' (\<lambda>endpoint a q x w.
     (writeJSON 200 (endpoint_json (Endpoint_ToResponse endpoint)) x, w))"

section \<open>Update, delete, rotate\<close>

text \<open>The fields are set in this order; the first invalid one ends the request.\<close>

definition opt_or :: "'a option \<Rightarrow> 'a \<Rightarrow> 'a" where
  "opt_or v d = (case v of None \<Rightarrow> d | Some x \<Rightarrow> x)"

definition apply_event_types :: "event_type list option \<Rightarrow> endpoint \<Rightarrow> (string \<times> string) + endpoint" where
  "apply_event_types v e = (case v of None \<Rightarrow> Inr e
     | Some ets \<Rightarrow> (case invalid_event_type ets of
         Some et \<Rightarrow> Inl (''Invalid event type: '' @ et, ''INVALID_EVENT_TYPE'')
       | None \<Rightarrow> Inr (e\<lparr>e_event_types := ets\<rparr>)))"

definition apply_target :: "url_parser \<Rightarrow> resolver \<Rightarrow> bool \<Rightarrow> string option \<Rightarrow> endpoint
    \<Rightarrow> (string \<times> string) + endpoint" where
  "apply_target P L allowInsecure v e = (case v of None \<Rightarrow> Inr e
     | Some u \<Rightarrow> (case ValidateTargetURLWithOptions P L u allowInsecure of
         Some err \<Rightarrow> Inl (error_text err, ''INVALID_URL'')
       | None \<Rightarrow> Inr (e\<lparr>e_target_url := u\<rparr>)))"

definition apply_updates :: "url_parser \<Rightarrow> resolver \<Rightarrow> bool \<Rightarrow> endpoint_update_request \<Rightarrow> endpoint
    \<Rightarrow> (string \<times> string) + endpoint" where
  "apply_updates P L allowInsecure req e =
     (let e1 = e\<lparr>e_name := opt_or (ur_name req) (e_name e)\<rparr>;
          e2 = e1\<lparr>e_description := opt_or (ur_description req) (e_description e1)\<rparr>
      in (case apply_target P L allowInsecure (ur_target_url req) e2 of
            Inl refusal \<Rightarrow> Inl refusal
          | Inr e3 \<Rightarrow> apply_event_types (ur_event_types req)
              (e3\<lparr>e_enabled := opt_or (ur_enabled req) (e_enabled e3)\<rparr>)))"

definition WebhookHandler_Update :: "url_parser \<Rightarrow> resolver \<Rightarrow> (body \<Rightarrow> endpoint_update_request option)
    \<Rightarrow> bool \<Rightarrow> 'r handler" where
  "WebhookHandler_Update P L DEC allowInsecure =
     with_own_endpoint ''Failed to update webhook'' (\<lambda>endpoint a q x w.
       (case DEC (rq_in_body q) of
          None \<Rightarrow> (webhook_error 400 ''Invalid request body'' ''INVALID_REQUEST'' x, w)
        | Some req \<Rightarrow>
            (case apply_updates P L allowInsecure req endpoint of
               Inl (message, code) \<Rightarrow> (webhook_error 400 message code x, w)
             | Inr endpoint' \<Rightarrow>
                 (case Repository_UpdateEndpoint endpoint' w of
                    (Inl err, w1) \<Rightarrow>
                      (webhook_error 500 ''Failed to update webhook'' ''INTERNAL_ERROR'' x, w1)
                  | (Inr _, w1) \<Rightarrow>
                      (writeJSON 200 (endpoint_json (Endpoint_ToResponse endpoint')) x, w1)))))"

definition WebhookHandler_Delete :: "'r handler" where
  "WebhookHandler_Delete = with_own_endpoint ''Failed to delete webhook'' (\<lambda>endpoint a q x w.
     (case Repository_DeleteEndpoint (path_value q ''id'') w of
        (Inl err, w1) \<Rightarrow> (webhook_error 500 ''Failed to delete webhook'' ''INTERNAL_ERROR'' x, w1)
      | (Inr _, w1) \<Rightarrow> (WriteHeader 204 x, w1)))"

definition rotate_secret :: "digest \<Rightarrow> string \<Rightarrow> writer \<Rightarrow> 'r world \<Rightarrow> writer \<times> 'r world" where
  "rotate_secret D i x w = (case GenerateSecret w of
        (Inl err, w1) \<Rightarrow> (webhook_error 500 ''Failed to rotate secret'' ''INTERNAL_ERROR'' x, w1)
      | (Inr newSecret, w1) \<Rightarrow>
          (case Repository_UpdateEndpointSecret i (HashSecret D newSecret) w1 of
             (Inl err, w2) \<Rightarrow> (webhook_error 500 ''Failed to rotate secret'' ''INTERNAL_ERROR'' x, w2)
           | (Inr _, w2) \<Rightarrow> (writeJSON 200 (JObj [(''secret'', JStr newSecret)]) x, w2)))"

definition WebhookHandler_RotateSecret :: "digest \<Rightarrow> 'r handler" where
  "WebhookHandler_RotateSecret D = with_own_endpoint ''Failed to rotate secret''
     (\<lambda>endpoint a q x w. rotate_secret D (path_value q ''id'') x w)"

section \<open>Deliveries\<close>

text \<open>
  \<open>strconv.Atoi\<close> with its error ignored: a number out of range reads as the nearest int64, any other
  error as 0. The offset is computed in int64 and wraps.
\<close>

definition Atoi :: "string \<Rightarrow> int" where
  "Atoi s = (case parse_int64 s of Some n \<Rightarrow> n
     | None \<Rightarrow> (case s of [] \<Rightarrow> 0
         | c # ds \<Rightarrow> (if c = CHR ''-'' then (if parse_nat ds = None then 0 else - (2 ^ 63))
             else if parse_nat (if c = CHR ''+'' then ds else s) = None then 0 else 2 ^ 63 - 1)))"

definition int64 :: "int \<Rightarrow> int" where
  "int64 i = sint (word_of_int i :: 64 word)"

definition delivery_page :: "request \<Rightarrow> int" where
  "delivery_page q = (let page = Atoi (query_get q ''page'') in if page < 1 then 1 else page)"

definition delivery_per_page :: "request \<Rightarrow> int" where
  "delivery_per_page q = (let perPage = Atoi (query_get q ''per_page'')
     in if perPage < 1 \<or> 100 < perPage then 20 else perPage)"

definition query_all :: "request \<Rightarrow> string \<Rightarrow> string list" where
  "query_all q k = map snd (filter (\<lambda>kv. fst kv = k) (rq_query q))"

definition WebhookHandler_ListDeliveries :: "'r handler" where
  "WebhookHandler_ListDeliveries = with_own_endpoint ''Failed to list deliveries'' (\<lambda>endpoint a q x w.
     let statuses = query_all q ''status''; page = delivery_page q; perPage = delivery_per_page q;
         offset = int64 ((page - 1) * perPage)
     in (case Repository_ListDeliveriesByEndpoint (path_value q ''id'') statuses perPage offset w of
           (Inl err, w1) \<Rightarrow>
             (webhook_error 500 ''Failed to list deliveries'' ''INTERNAL_ERROR'' x, w1)
         | (Inr (deliveries, cnt), w1) \<Rightarrow>
             (writeJSON 200 (JObj
                [(''deliveries'', JArr (map (delivery_json \<circ> Delivery_ToResponse) deliveries)),
                 (''pagination'', JObj [(''page'', JInt page), (''per_page'', JInt perPage),
                    (''total'', JInt cnt)])]) x, w1)))"

definition WebhookHandler_RetryDelivery :: "'r handler" where
  "WebhookHandler_RetryDelivery = with_own_endpoint ''Failed to retry delivery'' (\<lambda>endpoint a q x w.
     (case Repository_ResetDeliveryForRetry (path_value q ''deliveryId'') w of
        (Inl err, w1) \<Rightarrow>
          (if errors_is err Webhook_ErrDeliveryNotFound
             then (webhook_error 404 ''Delivery not found or not exhausted'' ''NOT_FOUND'' x, w1)
           else (webhook_error 500 ''Failed to retry delivery'' ''INTERNAL_ERROR'' x, w1))
      | (Inr _, w1) \<Rightarrow> (writeJSON 202 (JObj [(''status'', JStr ''retry_scheduled'')]) x, w1)))"

section \<open>What the repository calls leave alone\<close>

interpretation endpoint_table: lifecycle_table e_id live_endpoint delete_endpoint_row
  by unfold_locales (simp_all add: delete_endpoint_row_def live_endpoint_def)

lemma exec_on_endpoint_world:
  assumes "exec_on_endpoint m i f w = (r, w')"
  shows "w_deliveries w' = w_deliveries w"
    and "\<exists>t. w_endpoints w' \<in> {w_endpoints w,
           snd (update_where (\<lambda>e. e_id e = i \<and> live_endpoint e) (f t) (w_endpoints w))}
         \<and> (r = Inr () \<longrightarrow> w_endpoints w' =
           snd (update_where (\<lambda>e. e_id e = i \<and> live_endpoint e) (f t) (w_endpoints w)))"
proof -
  obtain t w1 where t: "time_now w = (t, w1)" by fastforce
  then have w1: "w_endpoints w1 = w_endpoints w" "w_deliveries w1 = w_deliveries w"
    using time_now_frame(6,7) [of w] by simp_all
  let ?p = "\<lambda>e. e_id e = i \<and> live_endpoint e"
  obtain g v where g: "call (pg_update_endpoints ?p (f t)) w1 = (g, v)" by fastforce
  with assms t have v: "v = w'" by (auto simp: exec_on_endpoint_def split: sum.splits if_splits)
  from g obtain os where at: "v = w1\<lparr>outcomes := os\<rparr> \<or>
      v = snd (pg_update_endpoints ?p (f t) (w1\<lparr>outcomes := os\<rparr>))"
    and got: "\<And>n. g = Inr n \<Longrightarrow> pg_update_endpoints ?p (f t) (w1\<lparr>outcomes := os\<rparr>) = (Inr n, v)"
    by (rule call_at) blast
  let ?new = "snd (update_where ?p (f t) (w_endpoints w))"
  have step: "w_endpoints (snd (pg_update_endpoints ?p (f t) (w1\<lparr>outcomes := os\<rparr>))) = ?new"
    by (simp add: pg_update_endpoints_def w1)
  have "g = Inr n \<Longrightarrow> w_endpoints w' = ?new" for n
    using step got v by fastforce
  moreover have "\<exists>n. g = Inr n" if "r = Inr ()"
    using that assms t g by (auto simp: exec_on_endpoint_def split: sum.splits)
  ultimately have new: "r = Inr () \<longrightarrow> w_endpoints w' = ?new" by blast
  show "w_deliveries w' = w_deliveries w" using at w1 v by (auto simp: pg_update_endpoints_def)
  have "w_endpoints w' \<in> {w_endpoints w, ?new}" using at step w1 v by auto
  with new show "\<exists>t. w_endpoints w' \<in> {w_endpoints w, snd (update_where ?p (f t) (w_endpoints w))}
      \<and> (r = Inr () \<longrightarrow> w_endpoints w' = snd (update_where ?p (f t) (w_endpoints w)))"
    by blast
qed

lemma GetEndpoint_row:
  assumes "Repository_GetEndpoint i w = (r, w')"
  shows "w_endpoints w' = w_endpoints w" and "w_deliveries w' = w_deliveries w"
    and "r = Inr e \<Longrightarrow> e \<in> set (w_endpoints w) \<and> e_id e = i \<and> live_endpoint e"
proof -
  obtain g v where g: "call (pg_endpoint_by_id i) w = (g, v)" by fastforce
  with assms have v: "v = w'" and r: "r = Inr e \<Longrightarrow> g = Inr (Some e)" for e
    by (auto simp: Repository_GetEndpoint_def split: sum.splits option.splits)
  from g obtain os where at: "v = w\<lparr>outcomes := os\<rparr> \<or> v = snd (pg_endpoint_by_id i (w\<lparr>outcomes := os\<rparr>))"
    and got: "\<And>x. g = Inr x \<Longrightarrow> pg_endpoint_by_id i (w\<lparr>outcomes := os\<rparr>) = (Inr x, v)"
    by (rule call_at) blast
  show "w_endpoints w' = w_endpoints w" and "w_deliveries w' = w_deliveries w"
    using at v by (auto simp: pg_endpoint_by_id_def)
  show "e \<in> set (w_endpoints w) \<and> e_id e = i \<and> live_endpoint e" if "r = Inr e"
    using got [OF r [OF that]] by (auto simp: pg_endpoint_by_id_def dest: find_Some_in)
qed

lemma ListDeliveries_frame:
  "w_endpoints (snd (Repository_ListDeliveriesByEndpoint i ss l n w)) = w_endpoints w"
  "w_deliveries (snd (Repository_ListDeliveriesByEndpoint i ss l n w)) = w_deliveries w"
proof -
  let ?c = "\<lambda>w. snd (call (pg_count_deliveries (in_listing i ss)) w)"
  let ?l = "\<lambda>w. snd (call (pg_list_deliveries (in_listing i ss) l n) w)"
  have c: "w_endpoints (?c v) = w_endpoints v" "w_deliveries (?c v) = w_deliveries v" for v :: "'a world"
    by (rule call_same; simp add: pg_count_deliveries_def)+
  have l: "w_endpoints (?l v) = w_endpoints v" "w_deliveries (?l v) = w_deliveries v" for v :: "'a world"
    by (rule call_same; simp add: pg_list_deliveries_def)+
  have "snd (Repository_ListDeliveriesByEndpoint i ss l n w) \<in> {?c w, ?l (?c w)}"
    by (auto simp: Repository_ListDeliveriesByEndpoint_def case_prod_beta split: sum.splits)
  with c l show "w_endpoints (snd (Repository_ListDeliveriesByEndpoint i ss l n w)) = w_endpoints w"
    and "w_deliveries (snd (Repository_ListDeliveriesByEndpoint i ss l n w)) = w_deliveries w"
    by (metis insert_iff singleton_iff)+
qed

lemma ListEndpoints_frame:
  "w_endpoints (snd (Repository_ListEndpointsByUser u w)) = w_endpoints w"
  "w_deliveries (snd (Repository_ListEndpointsByUser u w)) = w_deliveries w"
proof -
  have "w_endpoints (snd (call (pg_endpoints_by_user u) w)) = w_endpoints w"
    and "w_deliveries (snd (call (pg_endpoints_by_user u) w)) = w_deliveries w"
    by (rule call_same; simp add: pg_endpoints_by_user_def)+
  then show "w_endpoints (snd (Repository_ListEndpointsByUser u w)) = w_endpoints w"
    and "w_deliveries (snd (Repository_ListEndpointsByUser u w)) = w_deliveries w"
    by (simp_all add: Repository_ListEndpointsByUser_def case_prod_beta split: sum.split)
qed

lemma GenerateSecret_frame:
  "w_endpoints (snd (GenerateSecret w)) = w_endpoints w"
  "w_deliveries (snd (GenerateSecret w)) = w_deliveries w"
  by (simp_all add: GenerateSecret_def cryptoRandReadReal_def case_prod_beta split: sum.split option.split)

lemma ResetDelivery_frame:
  "w_endpoints (snd (Repository_ResetDeliveryForRetry i w)) = w_endpoints w"
proof -
  have "w_endpoints (snd (call (pg_update_deliveries p f) v)) = w_endpoints v" for p f and v :: "'a world"
    by (rule call_same; simp add: pg_update_deliveries_def)
  then show ?thesis
    using time_now_frame(6) [of w]
    by (simp add: Repository_ResetDeliveryForRetry_def case_prod_beta split: sum.split)
qed

lemma CreateEndpoint_world:
  assumes "Repository_CreateEndpoint e w = (r, w')"
  shows "w_deliveries w' = w_deliveries w"
    and "w_endpoints w' = w_endpoints w \<or> w_endpoints w' = w_endpoints w @ [e\<lparr>e_deleted_at := None\<rparr>]"
    and "r = Inr () \<Longrightarrow> w_endpoints w' = w_endpoints w @ [e\<lparr>e_deleted_at := None\<rparr>]
      \<and> e_id e \<notin> e_id ` set (w_endpoints w)"
proof -
  obtain g v where g: "call (pg_insert_endpoint e) w = (g, v)" by fastforce
  with assms have v: "v = w'" and r: "r = Inr () \<Longrightarrow> g = Inr ()"
    by (auto simp: Repository_CreateEndpoint_def split: sum.splits)
  from g obtain os where at: "v = w\<lparr>outcomes := os\<rparr> \<or> v = snd (pg_insert_endpoint e (w\<lparr>outcomes := os\<rparr>))"
    and got: "\<And>x. g = Inr x \<Longrightarrow> pg_insert_endpoint e (w\<lparr>outcomes := os\<rparr>) = (Inr x, v)"
    by (rule call_at) blast
  show "w_deliveries w' = w_deliveries w"
    and "w_endpoints w' = w_endpoints w \<or> w_endpoints w' = w_endpoints w @ [e\<lparr>e_deleted_at := None\<rparr>]"
    using at v by (auto simp: pg_insert_endpoint_def split: if_splits)
  show "w_endpoints w' = w_endpoints w @ [e\<lparr>e_deleted_at := None\<rparr>] \<and> e_id e \<notin> e_id ` set (w_endpoints w)"
    if "r = Inr ()"
    using got [OF r [OF that]] v by (auto simp: pg_insert_endpoint_def list_ex_key split: if_splits)
qed

end
