(* ===== verification/Webhook_Ownership.thy ===== *)
theory Webhook_Ownership imports Webhook_Handler begin

text \<open>
  What the operations of \<open>Webhook_Handler\<close> promise: users act on their own endpoints only, a created
  endpoint is stored as its response says with the hash of its secret, a deleted endpoint gets no
  delivery any more; and two ways in which the handler breaks its contract, the retry of a delivery
  of somebody else and the offset of a page that wraps.
\<close>

definition foreign_endpoints :: "string \<Rightarrow> 'r world \<Rightarrow> endpoint list" where
  "foreign_endpoints u w = filter (\<lambda>e. e_user_id e \<noteq> u) (w_endpoints w)"

definition own_endpoint :: "string \<Rightarrow> string \<Rightarrow> 'r world \<Rightarrow> bool" where
  "own_endpoint u i w = list_ex (\<lambda>e. e_id e = i \<and> e_user_id e = u \<and> live_endpoint e) (w_endpoints w)"

definition endpoint_ids_ok :: "'r world \<Rightarrow> bool" where
  "endpoint_ids_ok w = distinct (map e_id (w_endpoints w))"

text \<open>The outcome of the checks: a refusal that writes nothing, or the action on a live endpoint of the user.\<close>

lemma with_own_endpoint_cases:
  obtains (refused) status code msg where
    "fst (with_own_endpoint m act q x w) = webhook_error status msg code x"
    and "status \<in> {401, 403, 404, 500}"
    and "w_endpoints (snd (with_own_endpoint m act q x w)) = w_endpoints w"
    and "w_deliveries (snd (with_own_endpoint m act q x w)) = w_deliveries w"
  | (allowed) a e w1 where "rq_auth q = Some a" and "AuthContext_HasScope a ScopeWebhook"
    and "e \<in> set (w_endpoints w)" and "e_id e = path_value q ''id''" and "e_user_id e = a_user_id a"
    and "live_endpoint e" and "w_endpoints w1 = w_endpoints w" and "w_deliveries w1 = w_deliveries w"
    and "with_own_endpoint m act q x w = act e a q x w1"
proof -
  let ?i = "path_value q ''id''"
  obtain r w1 where r: "Repository_GetEndpoint ?i w = (r, w1)" by fastforce
  note row = GetEndpoint_row [OF r]
  show thesis
  proof (cases "\<exists>a. rq_auth q = Some a \<and> AuthContext_HasScope a ScopeWebhook")
    case False
    then obtain s c m' where "s \<in> {401, 403}"
      and "with_own_endpoint m act q x w = (webhook_error s m' c x, w)"
      by (cases "rq_auth q") (auto simp: with_own_endpoint_def with_webhook_auth_def)
    then show thesis by (intro refused [of s m' c]) auto
  next
    case True
    then obtain a where a: "rq_auth q = Some a" "AuthContext_HasScope a ScopeWebhook" by blast
    show thesis
    proof (cases "\<exists>e. r = Inr e \<and> e_user_id e = a_user_id a")
      case True
      then obtain e where e: "r = Inr e" "e_user_id e = a_user_id a" by blast
      with row(3) have "e \<in> set (w_endpoints w)" "e_id e = ?i" "live_endpoint e" by auto
      moreover have "with_own_endpoint m act q x w = act e a q x w1"
        using e a r by (simp add: with_own_endpoint_def with_webhook_auth_def)
      ultimately show thesis using e a row(1,2) by (intro allowed)
    next
      case False
      then have "with_own_endpoint m act q x w \<in> {(webhook_error 404 ''Webhook not found'' ''NOT_FOUND'' x, w1),
          (webhook_error 500 m ''INTERNAL_ERROR'' x, w1)}"
        using a r by (cases r) (auto simp: with_own_endpoint_def with_webhook_auth_def)
      then obtain s c m' where "s \<in> {404, 500}"
        and "with_own_endpoint m act q x w = (webhook_error s m' c x, w1)" by blast
      then show thesis using row(1,2) by (intro refused [of s m' c]) auto
    qed
  qed
qed

lemma foreign_after_update:
  assumes "endpoint_ids_ok w" and "e \<in> set (w_endpoints w)" and "e_user_id e = u"
    and "\<And>r. e_user_id (f r) = e_user_id r"
  shows "filter (\<lambda>r. e_user_id r \<noteq> u)
      (snd (update_where (\<lambda>r. e_id r = e_id e \<and> live_endpoint r) f (w_endpoints w)))
    = foreign_endpoints u w"
  unfolding foreign_endpoints_def
proof (rule filter_update_where)
  fix r assume "r \<in> set (w_endpoints w)" "e_id r = e_id e \<and> live_endpoint r"
  then have "r = e"
    using assms(1,2) by (auto simp: endpoint_ids_ok_def distinct_map dest: inj_onD)
  with assms(3,4) show "\<not> e_user_id r \<noteq> u \<and> \<not> e_user_id (f r) \<noteq> u" by simp
qed

lemma exec_keeps_foreign:
  assumes "endpoint_ids_ok w" and "e \<in> set (w_endpoints w)" and "e_user_id e = u"
    and "\<And>t r. e_user_id (f t r) = e_user_id r" and same: "w_endpoints w1 = w_endpoints w"
  shows "foreign_endpoints u (snd (exec_on_endpoint m (e_id e) f w1)) = foreign_endpoints u w"
proof -
  obtain r w' where r: "exec_on_endpoint m (e_id e) f w1 = (r, w')" by fastforce
  from exec_on_endpoint_world(2) [OF r] obtain t where "w_endpoints w' \<in> {w_endpoints w,
      snd (update_where (\<lambda>r. e_id r = e_id e \<and> live_endpoint r) (f t) (w_endpoints w))}"
    unfolding same by blast
  then show ?thesis
    using foreign_after_update [OF assms(1-3), of "f t"] assms(4)
    by (auto simp: r foreign_endpoints_def)
qed

lemma exec_keeps_deliveries: "w_deliveries (snd (exec_on_endpoint m i f w)) = w_deliveries w"
  using exec_on_endpoint_world(1) [of m i f w] by (metis surjective_pairing)

text \<open>An action on the user's own endpoint that keeps the rest makes an operation that keeps the rest.\<close>

lemma own_endpoint_keeps:
  assumes "endpoint_ids_ok w" and auth: "rq_auth q = Some a"
    and "\<And>e w1. e \<in> set (w_endpoints w) \<Longrightarrow> e_id e = path_value q ''id'' \<Longrightarrow> e_user_id e = a_user_id a
      \<Longrightarrow> w_endpoints w1 = w_endpoints w \<Longrightarrow>
      foreign_endpoints (a_user_id a) (snd (act e a q x w1)) = foreign_endpoints (a_user_id a) w"
  shows "foreign_endpoints (a_user_id a) (snd (with_own_endpoint m act q x w))
    = foreign_endpoints (a_user_id a) w"
proof (cases rule: with_own_endpoint_cases [of m act q x w])
  case (refused s c msg)
  then show ?thesis by (simp add: foreign_endpoints_def)
next
  case (allowed b e w1)
  with assms show ?thesis by auto
qed

lemma own_endpoint_keeps_deliveries:
  assumes "\<And>e a w1. w_deliveries (snd (act e a q x w1)) = w_deliveries w1"
  shows "w_deliveries (snd (with_own_endpoint m act q x w)) = w_deliveries w"
  by (cases rule: with_own_endpoint_cases [of m act q x w]) (simp_all add: assms)

lemma apply_updates_same:
  assumes "apply_updates P L allowInsecure req e = Inr e'"
  shows "e_id e' = e_id e" and "e_user_id e' = e_user_id e"
  using assms by (auto simp: apply_updates_def apply_target_def apply_event_types_def Let_def
      split: sum.splits option.splits)

section \<open>Ownership\<close>

lemma generateID_frame:
  "w_endpoints (snd (generateID w)) = w_endpoints w" "w_deliveries (snd (generateID w)) = w_deliveries w"
  by (simp_all add: generateID_def case_prod_beta)

lemma create_keeps_foreign_endpoints:
  assumes "rq_auth q = Some a"
  shows "foreign_endpoints (a_user_id a) (snd (WebhookHandler_Create P L D DEC ai q x w))
      = foreign_endpoints (a_user_id a) w"
    and "w_deliveries (snd (WebhookHandler_Create P L D DEC ai q x w)) = w_deliveries w"
proof -
  have new: "foreign_endpoints u (snd (Repository_CreateEndpoint e w3)) = foreign_endpoints u w3
      \<and> w_deliveries (snd (Repository_CreateEndpoint e w3)) = w_deliveries w3"
    if "e_user_id e = u" for e u and w3 :: "'a world"
    using CreateEndpoint_world(1,2) [OF surjective_pairing, of e w3] that
    by (auto simp: foreign_endpoints_def)
  have "foreign_endpoints (a_user_id a) (snd (create_webhook D a req ets x w)) = foreign_endpoints (a_user_id a) w
      \<and> w_deliveries (snd (create_webhook D a req ets x w)) = w_deliveries w" for req ets
  proof -
    obtain g w1 where g: "GenerateSecret w = (g, w1)" by fastforce
    obtain t w2 where t: "time_now w1 = (t, w2)" by fastforce
    obtain i w3 where i: "generateID w2 = (i, w3)" by fastforce
    have 1: "w_endpoints w1 = w_endpoints w" "w_deliveries w1 = w_deliveries w"
      using GenerateSecret_frame [of w] by (simp_all add: g)
    have 3: "w_endpoints w3 = w_endpoints w1" "w_deliveries w3 = w_deliveries w1"
      using time_now_frame(6,7) [of w1] generateID_frame [of w2] by (simp_all add: t i)
    show ?thesis
      by (cases g) (auto simp: create_webhook_def g t i Let_def case_prod_beta new 1 3
          foreign_endpoints_def [of _ w] foreign_endpoints_def [of _ w1] foreign_endpoints_def [of _ w3]
          split: sum.split)
  qed
  then show "foreign_endpoints (a_user_id a) (snd (WebhookHandler_Create P L D DEC ai q x w))
      = foreign_endpoints (a_user_id a) w"
    and "w_deliveries (snd (WebhookHandler_Create P L D DEC ai q x w)) = w_deliveries w"
    using assms by (simp_all add: WebhookHandler_Create_def with_webhook_auth_def Let_def split: option.split)
qed

lemma list_keeps:
  "w_endpoints (snd (WebhookHandler_List q x w)) = w_endpoints w"
  "w_deliveries (snd (WebhookHandler_List q x w)) = w_deliveries w"
  by (simp_all add: WebhookHandler_List_def with_webhook_auth_def case_prod_beta ListEndpoints_frame
      split: option.split sum.split)

lemma update_action_keeps:
  assumes "endpoint_ids_ok w" and "e \<in> set (w_endpoints w)" and "e_user_id e = u"
    and "w_endpoints w1 = w_endpoints w" and "apply_updates P L ai req e = Inr e'"
  shows "foreign_endpoints u (snd (Repository_UpdateEndpoint e' w1)) = foreign_endpoints u w"
  unfolding Repository_UpdateEndpoint_def apply_updates_same(1) [OF assms(5)]
  by (rule exec_keeps_foreign [OF assms(1-3) _ assms(4)]) (simp add: set_endpoint_fields_def)

lemma rotate_secret_world:
  obtains s w1 where "w_endpoints w1 = w_endpoints w" and "w_deliveries w1 = w_deliveries w"
    and "snd (rotate_secret D i x w)
      \<in> {w1, snd (Repository_UpdateEndpointSecret i (HashSecret D s) w1)}"
proof -
  obtain g w1 where g: "GenerateSecret w = (g, w1)" by fastforce
  have "\<exists>s. snd (rotate_secret D i x w) \<in> {w1, snd (Repository_UpdateEndpointSecret i (HashSecret D s) w1)}"
    by (cases g) (auto simp: rotate_secret_def g case_prod_beta split: sum.split)
  with that GenerateSecret_frame [of w] show thesis by (auto simp: g)
qed

lemma rotate_secret_keeps:
  assumes "endpoint_ids_ok w" and "e \<in> set (w_endpoints w)" and "e_user_id e = u"
    and w1: "w_endpoints w1 = w_endpoints w"
  shows "foreign_endpoints u (snd (rotate_secret D (e_id e) x w1)) = foreign_endpoints u w"
proof (rule rotate_secret_world [of w1 D "e_id e" x])
  fix s w2
  assume w2: "w_endpoints w2 = w_endpoints w1"
    and at: "snd (rotate_secret D (e_id e) x w1)
      \<in> {w2, snd (Repository_UpdateEndpointSecret (e_id e) (HashSecret D s) w2)}"
  from w1 w2 have same: "w_endpoints w2 = w_endpoints w" by simp
  have "foreign_endpoints u (snd (Repository_UpdateEndpointSecret (e_id e) (HashSecret D s) w2))
      = foreign_endpoints u w"
    unfolding Repository_UpdateEndpointSecret_def
    by (rule exec_keeps_foreign [OF assms(1-3) _ same]) simp
  with at same show ?thesis by (auto simp: foreign_endpoints_def)
qed

lemma rotate_secret_keeps_deliveries: "w_deliveries (snd (rotate_secret D i x w)) = w_deliveries w"
  by (rule rotate_secret_world [of w D i x])
    (auto simp: Repository_UpdateEndpointSecret_def exec_keeps_deliveries)

lemma reset_keeps_foreign:
  "foreign_endpoints u (snd (Repository_ResetDeliveryForRetry i w)) = foreign_endpoints u w"
  by (simp add: foreign_endpoints_def ResetDelivery_frame)

lemma delete_keeps_foreign_endpoints:
  fixes w :: "'r world"
  assumes "endpoint_ids_ok w" and "rq_auth q = Some a"
  shows "foreign_endpoints (a_user_id a) (snd (WebhookHandler_Delete q x w)) = foreign_endpoints (a_user_id a) w"
  unfolding WebhookHandler_Delete_def
proof (rule own_endpoint_keeps [OF assms])
  fix e and w1 :: "'r world"
  assume e: "e \<in> set (w_endpoints w)" "e_id e = path_value q ''id''" "e_user_id e = a_user_id a"
    and w1: "w_endpoints w1 = w_endpoints w"
  show "foreign_endpoints (a_user_id a) (snd (case Repository_DeleteEndpoint (path_value q ''id'') w1 of
      (Inl err, w1) \<Rightarrow> (webhook_error 500 ''Failed to delete webhook'' ''INTERNAL_ERROR'' x, w1)
    | (Inr _, w1) \<Rightarrow> (WriteHeader 204 x, w1))) = foreign_endpoints (a_user_id a) w"
    unfolding e(2) [symmetric] Repository_DeleteEndpoint_def
    using exec_keeps_foreign [OF assms(1) e(1,3) _ w1, of delete_endpoint_row]
    by (simp add: case_prod_beta delete_endpoint_row_def split: sum.split)
qed

lemma update_keeps_foreign_endpoints:
  fixes w :: "'r world"
  assumes "endpoint_ids_ok w" and "rq_auth q = Some a"
  shows "foreign_endpoints (a_user_id a) (snd (WebhookHandler_Update P L DEC ai q x w)) = foreign_endpoints (a_user_id a) w"
  unfolding WebhookHandler_Update_def
proof (rule own_endpoint_keeps [OF assms])
  fix e and w1 :: "'r world"
  assume e: "e \<in> set (w_endpoints w)" "e_user_id e = a_user_id a" and w1: "w_endpoints w1 = w_endpoints w"
  have same: "foreign_endpoints (a_user_id a) w1 = foreign_endpoints (a_user_id a) w"
    by (simp add: foreign_endpoints_def w1)
  note step = update_action_keeps [OF assms(1) e w1]
  show "foreign_endpoints (a_user_id a) (snd (case DEC (rq_in_body q) of
      None \<Rightarrow> (webhook_error 400 ''Invalid request body'' ''INVALID_REQUEST'' x, w1)
    | Some req \<Rightarrow> (case apply_updates P L ai req e of
        Inl (message, code) \<Rightarrow> (webhook_error 400 message code x, w1)
      | Inr endpoint' \<Rightarrow> (case Repository_UpdateEndpoint endpoint' w1 of
          (Inl err, w1) \<Rightarrow> (webhook_error 500 ''Failed to update webhook'' ''INTERNAL_ERROR'' x, w1)
        | (Inr _, w1) \<Rightarrow> (writeJSON 200 (endpoint_json (Endpoint_ToResponse endpoint')) x, w1)))))
      = foreign_endpoints (a_user_id a) w"
    by (auto simp: case_prod_beta same step split: option.split sum.split)
qed

lemma operations_keep_foreign:
  fixes w :: "'r world"
  assumes "endpoint_ids_ok w" and "rq_auth q = Some a"
  shows "foreign_endpoints (a_user_id a) (snd (WebhookHandler_Get q x w)) = foreign_endpoints (a_user_id a) w"
    and "foreign_endpoints (a_user_id a) (snd (WebhookHandler_RotateSecret D q x w)) = foreign_endpoints (a_user_id a) w"
    and "foreign_endpoints (a_user_id a) (snd (WebhookHandler_ListDeliveries q x w)) = foreign_endpoints (a_user_id a) w"
    and "foreign_endpoints (a_user_id a) (snd (WebhookHandler_RetryDelivery q x w)) = foreign_endpoints (a_user_id a) w"
proof -
  note own = own_endpoint_keeps [OF assms]
  show "foreign_endpoints (a_user_id a) (snd (WebhookHandler_Get q x w)) = foreign_endpoints (a_user_id a) w"
    unfolding WebhookHandler_Get_def by (rule own) (simp add: foreign_endpoints_def)
  show "foreign_endpoints (a_user_id a) (snd (WebhookHandler_RotateSecret D q x w)) = foreign_endpoints (a_user_id a) w"
    unfolding WebhookHandler_RotateSecret_def by (rule own) (metis rotate_secret_keeps [OF assms(1)])
  show "foreign_endpoints (a_user_id a) (snd (WebhookHandler_ListDeliveries q x w)) = foreign_endpoints (a_user_id a) w"
    unfolding WebhookHandler_ListDeliveries_def
    by (rule own) (simp add: Let_def case_prod_beta foreign_endpoints_def ListDeliveries_frame split: sum.split)
  show "foreign_endpoints (a_user_id a) (snd (WebhookHandler_RetryDelivery q x w)) = foreign_endpoints (a_user_id a) w"
    unfolding WebhookHandler_RetryDelivery_def
    by (rule own) (simp add: case_prod_beta foreign_endpoints_def ResetDelivery_frame split: sum.split)
qed

lemma operations_keep_deliveries:
  "w_deliveries (snd (WebhookHandler_Get q x w)) = w_deliveries w"
  "w_deliveries (snd (WebhookHandler_Update P L DEC ai q x w)) = w_deliveries w"
  "w_deliveries (snd (WebhookHandler_Delete q x w)) = w_deliveries w"
  "w_deliveries (snd (WebhookHandler_RotateSecret D q x w)) = w_deliveries w"
  "w_deliveries (snd (WebhookHandler_ListDeliveries q x w)) = w_deliveries w"
  unfolding WebhookHandler_Get_def WebhookHandler_Update_def WebhookHandler_Delete_def
    WebhookHandler_RotateSecret_def WebhookHandler_ListDeliveries_def
  by (rule own_endpoint_keeps_deliveries;
      simp add: Let_def case_prod_beta rotate_secret_keeps_deliveries Repository_UpdateEndpoint_def
        Repository_DeleteEndpoint_def exec_keeps_deliveries ListDeliveries_frame
      split: option.split sum.split)+

lemma foreign_endpoint_absent:
  assumes "rq_auth q = Some a" and "AuthContext_HasScope a ScopeWebhook" and "outcomes w = []"
    and "\<not> own_endpoint (a_user_id a) (path_value q ''id'') w"
  shows "with_own_endpoint m act q x w = (webhook_error 404 ''Webhook not found'' ''NOT_FOUND'' x, w)"
  using assms by (auto simp: with_own_endpoint_def with_webhook_auth_def Repository_GetEndpoint_def
      pg_endpoint_by_id_def own_endpoint_def list_ex_iff split: option.split dest: find_Some_in)


definition webhook_request :: "string \<Rightarrow> (string \<times> string) list \<Rightarrow> request" where
  "webhook_request u params = (plain_request ''POST'' ''/api/v1/webhooks'')
     \<lparr>rq_params := params, rq_auth := Some \<lparr>a_key_id = ''k1'', a_key_prefix = ''a1b2c3'', a_user_id = u,
        a_scopes = [ScopeWebhook], a_rate_limit_tier = TierFree\<rparr>\<rparr>"

definition sample_webhook :: "string \<Rightarrow> string \<Rightarrow> endpoint" where
  "sample_webhook i u = \<lparr>e_id = i, e_user_id = u, e_target_url = ''https://a.io/h'', e_secret_hash = ''00'',
     e_enabled = True, e_event_types = [EventTypeClick], e_name = [], e_description = [],
     e_created_at = 0, e_updated_at = 0, e_deleted_at = None\<rparr>"

definition foreign_delivery :: delivery where
  "foreign_delivery = \<lparr>d_id = ''d1'', d_endpoint_id = ''e2'', d_event_id = ''v1'', d_event_type = EventTypeClick,
     d_payload_json = ''{}'', d_status = Exhausted, d_attempt_count = 5, d_max_attempts = 5,
     d_next_retry_at = 0, d_last_attempt_at = Some 0, d_last_http_status = Some 500,
     d_last_error = Some ''HTTP 500'', d_created_at = 0, d_updated_at = 0\<rparr>"

definition two_webhooks :: "unit world" where
  "two_webhooks = (empty_world (1000 * second) ())\<lparr>w_endpoints := [sample_webhook ''e1'' ''u1'',
     sample_webhook ''e2'' ''u2''], w_deliveries := [foreign_delivery]\<rparr>"

lemma webhook_request_simps [simp]:
  "rq_auth (webhook_request u ps) = Some \<lparr>a_key_id = ''k1'', a_key_prefix = ''a1b2c3'', a_user_id = u,
     a_scopes = [ScopeWebhook], a_rate_limit_tier = TierFree\<rparr>"
  "path_value (webhook_request u ps) k = lookup_str ps k"
  by (simp_all add: webhook_request_def plain_request_def path_value_def)

lemma two_webhooks_simps [simp]:
  "w_endpoints two_webhooks = [sample_webhook ''e1'' ''u1'', sample_webhook ''e2'' ''u2'']"
  "w_deliveries two_webhooks = [foreign_delivery]" "outcomes two_webhooks = []" "ticks two_webhooks = []"
  "clock two_webhooks = 1000 * second"
  by (simp_all add: two_webhooks_def empty_world_def)


text \<open>
  A retry checks the endpoint of the path and not the one of the delivery: the owner of any endpoint
  can reschedule the exhausted delivery of somebody else.
\<close>

lemma retry_crosses_owners:
  assumes "rq_auth q = Some a" and "AuthContext_HasScope a ScopeWebhook" and "outcomes w = []"
    and "ticks w = []" and "own_endpoint (a_user_id a) (path_value q ''id'') w"
    and "endpoint_ids_ok w" and "d \<in> set (w_deliveries w)" and "d_id d = path_value q ''deliveryId''"
    and "d_status d = Exhausted" and "rw_reply x = None"
  shows "status_of (fst (WebhookHandler_RetryDelivery q x w)) = 202
    \<and> reset_row (clock w) d \<in> set (w_deliveries (snd (WebhookHandler_RetryDelivery q x w)))"
proof -
  obtain e where e: "e \<in> set (w_endpoints w)" "e_id e = path_value q ''id''" "e_user_id e = a_user_id a" "live_endpoint e"
    using assms(5) by (auto simp: own_endpoint_def list_ex_iff)
  have only: "r = e" if "r \<in> set (w_endpoints w)" "e_id r = path_value q ''id''" for r
    using that e assms(6) inj_onD [of e_id "set (w_endpoints w)" r e]
    by (simp add: endpoint_ids_ok_def distinct_map)
  have find: "find (\<lambda>r. e_id r = path_value q ''id'' \<and> live_endpoint r) (w_endpoints w) = Some e"
  proof (cases "find (\<lambda>r. e_id r = path_value q ''id'' \<and> live_endpoint r) (w_endpoints w)")
    case None
    with e show ?thesis by (auto simp: find_None_iff)
  next
    case (Some r)
    with only find_Some_in [OF Some] show ?thesis by auto
  qed
  have "filter (\<lambda>d. d_id d = path_value q ''deliveryId'' \<and> d_status d = Exhausted) (w_deliveries w) \<noteq> []"
    using assms(7-9) by (auto simp: filter_empty_conv)
  then show ?thesis
    using assms find e(3)
    by (auto simp: WebhookHandler_RetryDelivery_def with_own_endpoint_def with_webhook_auth_def
        Repository_GetEndpoint_def pg_endpoint_by_id_def Repository_ResetDeliveryForRetry_def
        pg_update_deliveries_def update_where_def http_simps image_iff)
qed

text \<open>A large page number makes the offset wrap to a negative one, which the database refuses.\<close>

lemma large_page_wraps:
  assumes "query_get q ''page'' = ''9223372036854775807''" and "query_get q ''per_page'' = []"
  shows "int64 ((delivery_page q - 1) * delivery_per_page q) = - 40"
proof -
  have "Atoi ''9223372036854775807'' = 9223372036854775807" and "Atoi [] = 0"
    by (simp_all add: Atoi_def parse_int64_def parse_nat_def is_digit_def digit_val_def less_eq_char_def
        int64_ok_def)
  then have "delivery_page q = 9223372036854775807" and "delivery_per_page q = 20"
    using assms by (simp_all add: delivery_page_def delivery_per_page_def)
  then show ?thesis by (simp add: int64_def)
qed

section \<open>Creation and deletion\<close>

lemma webhook_error_status [http_simps]: "rw_reply x = None \<Longrightarrow> status_of (webhook_error s m c x) = s"
  by (simp add: webhook_error_def http_simps)

lemma create_webhook_cases:
  assumes "create_webhook D a req ets x w = (x', w')" and "rw_reply x = None"
  shows "(status_of x' = 500 \<and> (outcomes w = [] \<longrightarrow> w_endpoints w' = w_endpoints w)) \<or>
    (status_of x' = 201 \<and> (\<exists>e secret. w_endpoints w' = w_endpoints w @ [e]
       \<and> e_id e \<notin> e_id ` set (w_endpoints w) \<and> live_endpoint e \<and> e_enabled e
       \<and> e_user_id e = a_user_id a \<and> e_target_url e = cr_target_url req \<and> e_event_types e = ets
       \<and> length secret = 64 \<and> e_secret_hash e = HashSecret D secret
       \<and> rw_body x' = rw_body x @ [Json (endpoint_create_json (endpoint_response.extend
            (Endpoint_ToResponse e) (endpoint_create_response.fields secret)))]))"
proof -
  obtain g w1 where g: "GenerateSecret w = (g, w1)" by fastforce
  have 1: "w_endpoints w1 = w_endpoints w" using GenerateSecret_frame [of w] by (simp add: g)
  show ?thesis
  proof (cases g)
    case (Inl err)
    with assms g 1 show ?thesis by (auto simp: create_webhook_def http_simps)
  next
    case (Inr secret)
    obtain t w2 where t: "time_now w1 = (t, w2)" by fastforce
    obtain i w3 where i: "generateID w2 = (i, w3)" by fastforce
    have 3: "w_endpoints w3 = w_endpoints w"
      using time_now_frame(6) [of w1] generateID_frame(1) [of w2] 1 by (simp add: t i)
    let ?e = "\<lparr>e_id = i, e_user_id = a_user_id a, e_target_url = cr_target_url req,
      e_secret_hash = HashSecret D secret, e_enabled = True, e_event_types = ets, e_name = cr_name req,
      e_description = cr_description req, e_created_at = t, e_updated_at = t, e_deleted_at = None\<rparr>"
    obtain r w4 where r: "Repository_CreateEndpoint ?e w3 = (r, w4)" by fastforce
    show ?thesis
    proof (cases r)
      case (Inl err)
      have "outcomes w3 = outcomes w"
        using g t i by (auto simp: GenerateSecret_def cryptoRandReadReal_def generateID_def time_now_def
            next_rand_def split: prod.splits sum.splits option.splits list.splits)
      then have "outcomes w = [] \<Longrightarrow> w_endpoints w4 = w_endpoints w"
        using r Inl 3 by (auto simp: Repository_CreateEndpoint_def pg_insert_endpoint_def
            split: if_splits)
      moreover have "x' = webhook_error 500 ''Failed to create webhook'' ''INTERNAL_ERROR'' x" "w' = w4"
        using Inl r assms(1) g t i Inr by (simp_all add: create_webhook_def Let_def)
      ultimately show ?thesis using assms(2) by (simp add: http_simps)
    next
      case Inr': (Inr u)
      have "x' = writeJSON 201 (endpoint_create_json (endpoint_response.extend (Endpoint_ToResponse ?e)
          (endpoint_create_response.fields secret))) x" and "w' = w4"
        using Inr' r assms(1) g t i Inr by (simp_all add: create_webhook_def Let_def)
      moreover have "w_endpoints w4 = w_endpoints w @ [?e]" and "i \<notin> e_id ` set (w_endpoints w)"
        using CreateEndpoint_world(3) [OF r] 3 Inr' by simp_all
      moreover have "length secret = 64" using GenerateSecret_shape g Inr by blast
      ultimately show ?thesis
        using assms(2) by (intro disjI2 conjI exI [of _ ?e] exI [of _ secret])
          (simp_all add: http_simps live_endpoint_def)
    qed
  qed
qed

lemma create_reaches:
  assumes "\<not> (\<exists>s m c. s \<in> {400, 401, 403} \<and> WebhookHandler_Create P L D DEC ai q x w = (webhook_error s m c x, w))"
  obtains a req ets where "rq_auth q = Some a" and "AuthContext_HasScope a ScopeWebhook"
    and "DEC (rq_in_body q) = Some req" and "ValidateTargetURLWithOptions P L (cr_target_url req) ai = None"
    and "ets \<noteq> []" and "invalid_event_type ets = None"
    and "WebhookHandler_Create P L D DEC ai q x w = create_webhook D a req ets x w"
proof -
  from assms obtain a where a: "rq_auth q = Some a" "AuthContext_HasScope a ScopeWebhook"
    unfolding WebhookHandler_Create_def with_webhook_auth_def
    by (cases "rq_auth q") (auto split: if_splits)
  from assms a obtain req where req: "DEC (rq_in_body q) = Some req"
    unfolding WebhookHandler_Create_def with_webhook_auth_def
    by (cases "DEC (rq_in_body q)") auto
  from assms a req have url: "ValidateTargetURLWithOptions P L (cr_target_url req) ai = None"
    unfolding WebhookHandler_Create_def with_webhook_auth_def
    by (cases "ValidateTargetURLWithOptions P L (cr_target_url req) ai") auto
  let ?ets = "if cr_event_types req = [] then [EventTypeClick] else cr_event_types req"
  have run: "WebhookHandler_Create P L D DEC ai q x w = (case invalid_event_type ?ets of
      Some et \<Rightarrow> (webhook_error 400 (''Invalid event type: '' @ et) ''INVALID_EVENT_TYPE'' x, w)
    | None \<Rightarrow> create_webhook D a req ?ets x w)"
    unfolding WebhookHandler_Create_def with_webhook_auth_def by (simp add: a req url Let_def)
  with assms have "invalid_event_type ?ets = None" by (cases "invalid_event_type ?ets") auto
  with a req url run that [of a req ?ets] show thesis by simp
qed

text \<open>C31: Creating a webhook answers 201 only to a key with the webhook scope, for a target that passed
  validation and known event types; the table then has one endpoint more, enabled and owned by the
  user, which keeps only the hash of the secret that the response shows, and receives the user's
  clicks. With all calls up any other answer leaves the table as it was.\<close>

theorem created_webhook_stored:
  assumes "WebhookHandler_Create P L D DEC ai q x w = (x', w')" and "rw_reply x = None"
  shows "(status_of x' = 201 \<longrightarrow> (\<exists>a req e secret. rq_auth q = Some a \<and> AuthContext_HasScope a ScopeWebhook
       \<and> DEC (rq_in_body q) = Some req \<and> ValidateTargetURLWithOptions P L (cr_target_url req) ai = None
       \<and> w_endpoints w' = w_endpoints w @ [e] \<and> e_id e \<notin> e_id ` set (w_endpoints w)
       \<and> e_target_url e = cr_target_url req \<and> wants (a_user_id a) EventTypeClick e
       \<and> length secret = 64 \<and> e_secret_hash e = HashSecret D secret
       \<and> rw_body x' = rw_body x @ [Json (endpoint_create_json (endpoint_response.extend
            (Endpoint_ToResponse e) (endpoint_create_response.fields secret)))]))
    \<and> (status_of x' \<noteq> 201 \<and> outcomes w = [] \<longrightarrow> w_endpoints w' = w_endpoints w)"
proof (cases "\<exists>s m c. s \<in> {400, 401, 403} \<and> (x', w') = (webhook_error s m c x, w)")
  case True
  then show ?thesis using assms(2) by (auto simp: http_simps)
next
  case False
  then obtain a req ets where a: "rq_auth q = Some a" "AuthContext_HasScope a ScopeWebhook"
    and req: "DEC (rq_in_body q) = Some req" "ValidateTargetURLWithOptions P L (cr_target_url req) ai = None"
    and ets: "ets \<noteq> []" "invalid_event_type ets = None" and run: "create_webhook D a req ets x w = (x', w')"
    using create_reaches assms(1) by metis
  have "EventTypeClick \<in> set ets"
    using ets by (cases ets) (auto simp: invalid_event_type_def IsValidEventType_def ValidEventTypes_def
        split: if_splits)
  with create_webhook_cases [OF run assms(2)] a req show ?thesis
    by (auto simp: wants_def)
qed

definition no_webhooks :: "unit world" where
  "no_webhooks = (empty_world (1000 * second) ())\<lparr>rands := [Some 7]\<rparr>"

theorem created_webhook_stored_witness:
  "\<exists>e. w_endpoints (snd (WebhookHandler_Create (\<lambda>_. Some \<lparr>url_scheme = ''https'', url_host = ''a.io''\<rparr>)
      (\<lambda>_. None) id (\<lambda>_. Some \<lparr>cr_name = [], cr_description = [], cr_target_url = ''https://a.io/h'',
        cr_event_types = []\<rparr>) False (webhook_request ''u1'' []) new_writer no_webhooks)) = [e]
    \<and> wants ''u1'' EventTypeClick e"
proof -
  let ?P = "\<lambda>_. Some \<lparr>url_scheme = ''https'', url_host = ''a.io''\<rparr>"
  let ?DEC = "\<lambda>_. Some \<lparr>cr_name = [], cr_description = [], cr_target_url = ''https://a.io/h'',
        cr_event_types = []\<rparr>"
  let ?run = "WebhookHandler_Create ?P (\<lambda>_. None) id ?DEC False (webhook_request ''u1'' []) new_writer no_webhooks"
  have "ValidateTargetURLWithOptions ?P (\<lambda>_. None) ''https://a.io/h'' False = None"
    by code_simp
  then have "status_of (fst ?run) = 201"
    by (simp add: WebhookHandler_Create_def with_webhook_auth_def AuthContext_HasScope_def
        invalid_event_type_def IsValidEventType_def ValidEventTypes_def create_webhook_def GenerateSecret_def
        cryptoRandReadReal_def next_rand_def no_webhooks_def empty_world_def generateID_def Let_def
        Repository_CreateEndpoint_def pg_insert_endpoint_def http_simps)
  with created_webhook_stored [OF surjective_pairing, where x = new_writer and w = no_webhooks
      and q = "webhook_request ''u1'' []" and P = ?P and L = "\<lambda>_. None" and D = id and DEC = ?DEC and ai = False]
  show ?thesis by (auto simp: no_webhooks_def empty_world_def)
qed

text \<open>C32: After a deletion answered 204 the endpoint receives nothing any more: no event is fanned out to
  it and none of its deliveries is ever due again, while every other endpoint and every delivery row
  is as before.\<close>

theorem deleted_webhook_is_silent:
  assumes "WebhookHandler_Delete q x w = (x', w')" and "rw_reply x = None" and "status_of x' = 204"
  shows "(\<forall>e \<in> set (w_endpoints w'). e_id e = path_value q ''id'' \<longrightarrow> \<not> wants u et e)
    \<and> (\<forall>d. d_endpoint_id d = path_value q ''id'' \<longrightarrow> \<not> due t (w_endpoints w') d)
    \<and> filter (\<lambda>e. e_id e \<noteq> path_value q ''id'') (w_endpoints w')
      = filter (\<lambda>e. e_id e \<noteq> path_value q ''id'') (w_endpoints w)
    \<and> w_deliveries w' = w_deliveries w"
proof (cases rule: with_own_endpoint_cases [of "''Failed to delete webhook''" "\<lambda>endpoint a q x w.
     (case Repository_DeleteEndpoint (path_value q ''id'') w of
        (Inl err, w1) \<Rightarrow> (webhook_error 500 ''Failed to delete webhook'' ''INTERNAL_ERROR'' x, w1)
      | (Inr _, w1) \<Rightarrow> (WriteHeader 204 x, w1))" q x w])
  case (refused s c m)
  with assms show ?thesis by (auto simp: WebhookHandler_Delete_def http_simps)
next
  case (allowed a e w1)
  obtain r w2 where r: "Repository_DeleteEndpoint (path_value q ''id'') w1 = (r, w2)" by fastforce
  with allowed assms have ok: "r = Inr ()" "w' = w2"
    by (auto simp: WebhookHandler_Delete_def http_simps split: sum.splits)
  note ex = exec_on_endpoint_world [OF r [unfolded Repository_DeleteEndpoint_def]]
  from ex(2) ok obtain t' where rows: "w_endpoints w' = snd (update_where
      (\<lambda>e. e_id e = path_value q ''id'' \<and> live_endpoint e) (delete_endpoint_row t') (w_endpoints w))"
    using allowed(7) by auto
  have none: "\<not> (e_id e = path_value q ''id'' \<and> live_endpoint e)" if "e \<in> set (w_endpoints w')" for e
    using endpoint_table.none_live_after_retire [of "path_value q ''id''" t' "w_endpoints w"] that
    unfolding rows find_None_iff by blast
  moreover have "filter (\<lambda>e. e_id e \<noteq> path_value q ''id'') (w_endpoints w')
      = filter (\<lambda>e. e_id e \<noteq> path_value q ''id'') (w_endpoints w)"
    unfolding rows by (rule endpoint_table.rest_after_retire)
  ultimately show ?thesis
    using ex(1) allowed(8) ok(2) by (auto simp: wants_def due_def list_ex_iff)
qed

theorem deleted_webhook_is_silent_witness:
  "filter (\<lambda>e. e_id e = ''e1'' \<and> wants ''u1'' EventTypeClick e) (w_endpoints
     (snd (WebhookHandler_Delete (webhook_request ''u1'' [(''id'', ''e1'')]) new_writer two_webhooks))) = []"
  unfolding filter_empty_conv
  using deleted_webhook_is_silent [OF surjective_pairing, where
      q = "webhook_request ''u1'' [(''id'', ''e1'')]" and x = new_writer and w = two_webhooks]
  by (simp add: WebhookHandler_Delete_def with_own_endpoint_def with_webhook_auth_def AuthContext_HasScope_def
      lookup_str_def Repository_GetEndpoint_def pg_endpoint_by_id_def sample_webhook_def live_endpoint_def
      Repository_DeleteEndpoint_def exec_on_endpoint_def pg_update_endpoints_def update_where_def http_simps)

end
