(* ===== verification/Middleware.thy ===== *)
theory Middleware imports Http Link_Service begin

text \<open>
  The middleware of \<open>internal/middleware\<close> that keeps no state of its own: \<open>security.go\<close>, \<open>cors.go\<close>,
  \<open>request_id.go\<close>, \<open>logging.go\<close>, \<open>recovery.go\<close>, and the input checks of \<open>validation.go\<close>. A
  middleware takes the next handler. The lines that the logger prints are not modelled; the response
  writer that it wraps around the next handler is. \<open>V\<close> is the text of a UUID made from random bytes.

  Shown: which origins CORS admits, and that the pattern \<open>*.domain\<close> misses the plain subdomains it is
  documented to admit; that the hand-written \<open>itoa\<close> prints every integer but the smallest; that the
  wrapped writer reports the status that is sent; that a recovered panic is answered.
\<close>

section \<open>Security headers and the size of bodies\<close>

record security_config =
  sc_is_development :: bool
  sc_allowed_origins :: "string list"
  sc_max_request_body_size :: int

definition DefaultSecurityConfig :: security_config where
  "DefaultSecurityConfig = \<lparr>sc_is_development = False, sc_allowed_origins = [],
     sc_max_request_body_size = 2 ^ 20\<rparr>"

definition security_headers :: "security_config \<Rightarrow> (string \<times> string) list" where
  "security_headers cfg =
     [(''X-Content-Type-Options'', ''nosniff''), (''X-Frame-Options'', ''DENY''), (''X-XSS-Protection'', ''0''),
      (''Referrer-Policy'', ''strict-origin-when-cross-origin''),
      (''Content-Security-Policy'', ''default-src '' @ [CHR 0x27] @ ''none'' @ [CHR 0x27]
         @ ''; frame-ancestors '' @ [CHR 0x27] @ ''none'' @ [CHR 0x27]),
      (''Permissions-Policy'', ''geolocation=(), microphone=(), camera=(), payment=(), usb=()''),
      (''Cross-Origin-Opener-Policy'', ''same-origin''), (''Cross-Origin-Resource-Policy'', ''same-origin'')]
     @ (if sc_is_development cfg then []
        else [(''Strict-Transport-Security'', ''max-age=31536000; includeSubDomains; preload'')])
     @ [(''Cache-Control'', ''no-store'')]"

definition set_headers :: "(string \<times> string) list \<Rightarrow> writer \<Rightarrow> writer" where
  "set_headers kvs x = foldl (\<lambda>x (k, v). set_header k v x) x kvs"

definition Security :: "security_config \<Rightarrow> 'r handler \<Rightarrow> 'r handler" where
  "Security cfg nxt q x w = nxt q (del_header ''Server'' (set_headers (security_headers cfg) x)) w"

text \<open>\<open>http.Error\<close> and \<open>http.MaxBytesReader\<close>.\<close>

definition http_Error :: "string \<Rightarrow> int \<Rightarrow> writer \<Rightarrow> writer" where
  "http_Error message code x =
     Write_body (Raw (message @ [CHR 0x0A])) (WriteHeader code
       (set_header ''X-Content-Type-Options'' ''nosniff''
          (set_header ''Content-Type'' ''text/plain; charset=utf-8'' x)))"

definition MaxBytesReader :: "int \<Rightarrow> body \<Rightarrow> body" where
  "MaxBytesReader n b = \<lparr>b_bytes = take (nat n) (b_bytes b),
     b_fails = (b_fails b \<or> n < int (length (b_bytes b)))\<rparr>"

definition payload_too_large :: string where
  "payload_too_large = ''{'' @ quoted ''error'' @ '':{'' @ quoted ''code'' @ '':'' @ quoted ''PAYLOAD_TOO_LARGE''
     @ '','' @ quoted ''message'' @ '':'' @ quoted ''Request body too large'' @ ''}}''"

definition MaxBodySize :: "int \<Rightarrow> 'r handler \<Rightarrow> 'r handler" where
  "MaxBodySize maxBytes nxt q x w =
     (if maxBytes < rq_content_length q then (http_Error payload_too_large 413 x, w)
      else nxt (q\<lparr>rq_in_body := MaxBytesReader maxBytes (rq_in_body q)\<rparr>) x w)"

section \<open>CORS\<close>

record cors_config =
  cc_allowed_origins :: "string list"
  cc_allowed_methods :: "string list"
  cc_allowed_headers :: "string list"
  cc_exposed_headers :: "string list"
  cc_allow_credentials :: bool
  cc_max_age :: "64 word"

definition DefaultCORSConfig :: cors_config where
  "DefaultCORSConfig = \<lparr>cc_allowed_origins = [],
     cc_allowed_methods = [''GET'', ''POST'', ''PUT'', ''PATCH'', ''DELETE'', ''OPTIONS''],
     cc_allowed_headers = [''Content-Type'', ''Authorization'', ''X-API-Key'', ''X-Request-ID'', ''Accept'',
       ''Accept-Language''],
     cc_exposed_headers = [''X-Request-ID'', ''X-RateLimit-Remaining'', ''X-RateLimit-Reset''],
     cc_allow_credentials = False, cc_max_age = 86400\<rparr>"

text \<open>The digits are written from the back; \<open>-n\<close> is the negation of int64.\<close>

function itoa_digits :: "int \<Rightarrow> string \<Rightarrow> string" where
  "itoa_digits n buf = (if 0 < n then itoa_digits (n div 10) (digit_char (nat (n mod 10)) # buf) else buf)"
  by auto
termination by (relation "measure (\<lambda>(n, buf). nat n)") auto

declare itoa_digits.simps [simp del]

definition itoa :: "64 word \<Rightarrow> string" where
  "itoa n = (if n = 0 then ''0''
     else let negative = (sint n < 0);
              n = (if negative then - n else n);
              buf = itoa_digits (sint n) []
          in if negative then CHR ''-'' # buf else buf)"

definition origin_map :: "string list \<Rightarrow> string \<Rightarrow> bool" where
  "origin_map allowedOrigins origin = (origin \<in> to_lower ` set allowedOrigins)"

definition wildcard_allows :: "string \<Rightarrow> string \<Rightarrow> bool" where
  "wildcard_allows normalizedOrigin allowed =
     (has_prefix allowed ''*.'' \<and>
      (let suffix = to_lower (trim_prefix allowed ''*'') in
       has_suffix normalizedOrigin suffix \<and>
       (let prefix = trim_suffix normalizedOrigin suffix
        in has_suffix prefix ''://'' \<or> str_contains prefix ''.'')))"

definition isOriginAllowed :: "string \<Rightarrow> string list \<Rightarrow> bool" where
  "isOriginAllowed origin allowedOrigins =
     (if allowedOrigins = [] then False
      else let normalizedOrigin = to_lower origin in
        origin_map allowedOrigins normalizedOrigin \<or> list_ex (wildcard_allows normalizedOrigin) allowedOrigins)"

definition set_nonempty :: "string \<Rightarrow> string \<Rightarrow> writer \<Rightarrow> writer" where
  "set_nonempty k v x = (if v = [] then x else set_header k v x)"

definition CORS :: "cors_config \<Rightarrow> 'r handler \<Rightarrow> 'r handler" where
  "CORS cfg nxt q x w =
     (let methodsStr = join_with '', '' (cc_allowed_methods cfg);
          headersStr = join_with '', '' (cc_allowed_headers cfg);
          exposedStr = join_with '', '' (cc_exposed_headers cfg);
          maxAgeStr = (if 0 < sint (cc_max_age cfg) then itoa (cc_max_age cfg) else []);
          origin = request_header q ''Origin''
      in if origin = [] then nxt q x w
         else if \<not> isOriginAllowed origin (cc_allowed_origins cfg) then
           (if rq_method q = ''OPTIONS'' then (WriteHeader 403 x, w) else nxt q x w)
         else
           let x1 = set_header ''Vary'' ''Origin'' (set_header ''Access-Control-Allow-Origin'' origin x);
               x2 = (if cc_allow_credentials cfg
                     then set_header ''Access-Control-Allow-Credentials'' ''true'' x1 else x1);
               x3 = set_nonempty ''Access-Control-Expose-Headers'' exposedStr x2
           in if rq_method q = ''OPTIONS''
              then (WriteHeader 204 (set_nonempty ''Access-Control-Max-Age'' maxAgeStr
                      (set_header ''Access-Control-Allow-Headers'' headersStr
                         (set_header ''Access-Control-Allow-Methods'' methodsStr x3))), w)
              else nxt q x3 w)"

section \<open>Request ids, logging, recovery\<close>

definition new_uuid :: "(nat \<Rightarrow> string) \<Rightarrow> 'r world \<Rightarrow> string option \<times> 'r world" where
  "new_uuid V w = (case next_rand w of (n, w') \<Rightarrow> (map_option V n, w'))"

definition with_request_id :: "string \<Rightarrow> 'r handler \<Rightarrow> 'r handler" where
  "with_request_id requestID nxt q x w =
     (let traceID = request_header q ''X-Trace-ID'';
          x1 = set_header ''X-Request-ID'' requestID x
      in nxt (q\<lparr>rq_request_id := requestID\<rparr>)
           (if traceID \<noteq> [] then set_header ''X-Trace-ID'' traceID x1 else x1) w)"

text \<open>\<open>uuid.New\<close> panics when there are no random bytes.\<close>

definition RequestID :: "(nat \<Rightarrow> string) \<Rightarrow> 'r handler \<Rightarrow> 'r handler" where
  "RequestID V nxt q x w =
     (let requestID = request_header q ''X-Request-ID'' in
      if requestID = [] then (case new_uuid V w of
          (None, w1) \<Rightarrow> (panics ''uuid: no random bytes'' x, w1)
        | (Some i, w1) \<Rightarrow> with_request_id i nxt q x w1)
      else with_request_id requestID nxt q x w)"

definition GetRequestID :: "request \<Rightarrow> string" where "GetRequestID q = rq_request_id q"

text \<open>The wrapper around the response writer, with the status that will be logged.\<close>

record response_writer =
  lw_inner :: writer
  lw_status :: int
  lw_wrote :: bool

definition wrapResponseWriter :: "writer \<Rightarrow> response_writer" where
  "wrapResponseWriter x = \<lparr>lw_inner = x, lw_status = 200, lw_wrote = False\<rparr>"

definition responseWriter_WriteHeader :: "int \<Rightarrow> response_writer \<Rightarrow> response_writer" where
  "responseWriter_WriteHeader code rw = (if lw_wrote rw then rw
     else rw\<lparr>lw_status := code, lw_wrote := True, lw_inner := WriteHeader code (lw_inner rw)\<rparr>)"

definition responseWriter_Write :: "chunk \<Rightarrow> response_writer \<Rightarrow> response_writer" where
  "responseWriter_Write c rw =
     (let rw1 = (if lw_wrote rw then rw else responseWriter_WriteHeader 200 rw)
      in rw1\<lparr>lw_inner := Write_body c (lw_inner rw1)\<rparr>)"

datatype log_level = LevelDebug | LevelInfo | LevelWarn | LevelError

definition level_of_status :: "int \<Rightarrow> log_level" where
  "level_of_status status = (if 500 \<le> status then LevelError
     else if 400 \<le> status then LevelWarn else LevelInfo)"

text \<open>To the client the wrapper is the writer itself: the log is read off the writer afterwards.\<close>

definition Logger :: "'r handler \<Rightarrow> 'r handler" where
  "Logger nxt q x w = (case time_now w of (start, w1) \<Rightarrow> (case nxt q x w1 of (x', w2) \<Rightarrow>
     (if rw_panic x' = None then (x', snd (time_now w2)) else (x', w2))))"

definition Recoverer :: "'r handler \<Rightarrow> 'r handler" where
  "Recoverer nxt q x w = (case nxt q x w of (x', w1) \<Rightarrow>
     (case rw_panic x' of None \<Rightarrow> (x', w1)
      | Some rvr \<Rightarrow> (http_Error ''Internal Server Error'' 500 (x'\<lparr>rw_panic := None\<rparr>), w1)))"

section \<open>Input checks\<close>

definition MaxShortCodeLength :: nat where "MaxShortCodeLength = 32"
definition MinShortCodeLength :: nat where "MinShortCodeLength = 3"
definition MaxDestinationURLLength :: nat where "MaxDestinationURLLength = 2048"
definition MaxWebhookURLLength :: nat where "MaxWebhookURLLength = 1024"

definition ReservedAliases :: "string list" where
  "ReservedAliases = [''api'', ''admin'', ''healthz'', ''readyz'', ''metrics'', ''static'', ''assets'', ''public'',
     ''private'', ''login'', ''logout'', ''auth'', ''oauth'', ''callback'', ''webhook'', ''webhooks'', ''penshort'',
     ''pen'', ''password'', ''reset'', ''verify'', ''confirm'', ''activate'', ''unsubscribe'', ''robots'', ''sitemap'',
     ''favicon'', ''well-known'']"

definition validShortCodePattern :: "string \<Rightarrow> bool" where
  "validShortCodePattern s = (s \<noteq> [] \<and> list_all (\<lambda>c. alias_char c \<or> c = CHR ''_'') s)"

definition ValidateShortCode :: "string \<Rightarrow> error option" where
  "ValidateShortCode code =
     (if code = [] then None
      else if MaxShortCodeLength < length code then Some (Sentinel Mw_ErrShortCodeTooLong)
      else if length code < MinShortCodeLength then Some (Sentinel Mw_ErrShortCodeTooShort)
      else if \<not> validShortCodePattern code then Some (Sentinel Mw_ErrShortCodeInvalid)
      else if to_lower code \<in> set ReservedAliases then Some (Sentinel Mw_ErrShortCodeReserved)
      else None)"

definition forbiddenSchemes :: "string list" where
  "forbiddenSchemes = [''javascript:'', ''data:'', ''vbscript:'', ''file:'']"

definition ValidateDestinationURL :: "string \<Rightarrow> error option" where
  "ValidateDestinationURL url =
     (if MaxDestinationURLLength < length url then Some (Sentinel Mw_ErrDestinationTooLong)
      else let lowerURL = to_lower url in
        if \<not> has_prefix lowerURL ''http://'' \<and> \<not> has_prefix lowerURL ''https://''
          then Some (Sentinel Mw_ErrDestinationInvalid)
        else if list_ex (str_contains lowerURL) forbiddenSchemes
          then Some (Sentinel Mw_ErrDestinationUnsafe)
        else None)"

definition ValidateWebhookURL :: "string \<Rightarrow> error option" where
  "ValidateWebhookURL url =
     (if MaxWebhookURLLength < length url then Some (Sentinel Mw_ErrWebhookURLTooLong) else None)"

definition confusable :: "char \<Rightarrow> bool" where
  "confusable c = (c \<in> {CHR ''0'', CHR ''1'', CHR ''l'', CHR ''I'', CHR ''O''})"

text \<open>A rune above the ASCII range has a byte above it, and so has every invalid encoding.\<close>

definition ValidateAlias :: "string \<Rightarrow> error option" where
  "ValidateAlias alias =
     (if alias = [] then None
      else if list_ex (\<lambda>c. 127 < (of_char c :: nat)) alias then Some (Sentinel Mw_ErrAliasInvalidUnicode)
      else let confusableCount = length (filter confusable alias) in
        if 3 < length alias \<and> (1 / 2 :: rat) < of_nat confusableCount / of_nat (length alias)
          then Some (Sentinel Mw_ErrAliasInvalidUnicode)
        else None)"

section \<open>Which origins are admitted\<close>

lemma to_lower_append: "to_lower (s @ t) = to_lower s @ to_lower t"
  by (simp add: to_lower_def)

text \<open>What \<open>isOriginAllowed\<close> promises: an origin that is listed, or that a \<open>*.domain\<close> pattern covers.\<close>

definition covered :: "string \<Rightarrow> string \<Rightarrow> bool" where
  "covered origin allowed \<longleftrightarrow> (\<exists>domain prefix. allowed = ''*.'' @ domain
     \<and> origin = prefix @ ''.'' @ to_lower domain
     \<and> (has_suffix prefix ''://'' \<or> CHR ''.'' \<in> set prefix))"

definition admitted :: "string list \<Rightarrow> string \<Rightarrow> bool" where
  "admitted allowedOrigins origin \<longleftrightarrow>
     (\<exists>allowed \<in> set allowedOrigins. to_lower allowed = to_lower origin \<or> covered (to_lower origin) allowed)"

lemma str_contains_char: "str_contains s [c] \<longleftrightarrow> c \<in> set s"
  by (auto simp: str_contains_iff in_set_conv_decomp)

lemma lower_dot [simp]: "lower_char (CHR ''.'') = CHR ''.''"
  by (simp add: lower_char_def less_eq_char_def)

lemma wildcard_allows_covered: "wildcard_allows origin allowed \<longleftrightarrow> covered origin allowed"
proof
  assume w: "wildcard_allows origin allowed"
  then obtain d where d: "allowed = ''*'' @ ''.'' @ d"
    by (auto simp: wildcard_allows_def has_prefix_iff)
  have suffix: "to_lower (trim_prefix allowed ''*'') = ''.'' @ to_lower d"
    unfolding d trim_prefix_append by (simp add: to_lower_def)
  from w obtain p where p: "origin = p @ ''.'' @ to_lower d"
    by (auto simp: wildcard_allows_def Let_def suffix has_suffix_iff)
  have "trim_suffix origin (''.'' @ to_lower d) = p" unfolding p by (rule trim_suffix_append)
  with w have "has_suffix p ''://'' \<or> CHR ''.'' \<in> set p"
    by (auto simp: wildcard_allows_def Let_def suffix str_contains_char)
  with d p show "covered origin allowed" by (auto simp: covered_def)
next
  assume "covered origin allowed"
  then obtain d p where d: "allowed = ''*'' @ ''.'' @ d" and p: "origin = p @ ''.'' @ to_lower d"
    and ok: "has_suffix p ''://'' \<or> CHR ''.'' \<in> set p"
    by (auto simp: covered_def)
  have suffix: "to_lower (trim_prefix allowed ''*'') = ''.'' @ to_lower d"
    unfolding d trim_prefix_append by (simp add: to_lower_def)
  have "trim_suffix origin (''.'' @ to_lower d) = p" unfolding p by (rule trim_suffix_append)
  moreover have "has_prefix allowed ''*.''" by (simp add: d has_prefix_iff)
  moreover have "has_suffix origin (''.'' @ to_lower d)" unfolding has_suffix_iff p by blast
  ultimately show "wildcard_allows origin allowed"
    using ok by (simp add: wildcard_allows_def suffix str_contains_char)
qed

lemma isOriginAllowed_admitted: "isOriginAllowed origin allowedOrigins \<longleftrightarrow> admitted allowedOrigins origin"
  by (auto simp: isOriginAllowed_def admitted_def Let_def origin_map_def list_ex_iff wildcard_allows_covered
      intro: rev_image_eqI)

lemma header_set_other:
  "canonical_key k' \<noteq> canonical_key k \<Longrightarrow> header_get (header_set k v h) k' = header_get h k'"
  "header_get (header_set k v h) k = v"
  by (simp_all add: header_get_set)

lemma canonical_cors [simp]:
  "canonical_key ''Access-Control-Allow-Origin'' = ''Access-Control-Allow-Origin''"
  "canonical_key ''Access-Control-Allow-Credentials'' = ''Access-Control-Allow-Credentials''"
  "canonical_key ''Access-Control-Allow-Methods'' = ''Access-Control-Allow-Methods''"
  "canonical_key ''Access-Control-Allow-Headers'' = ''Access-Control-Allow-Headers''"
  "canonical_key ''Access-Control-Expose-Headers'' = ''Access-Control-Expose-Headers''"
  "canonical_key ''Access-Control-Max-Age'' = ''Access-Control-Max-Age''"
  "canonical_key ''Vary'' = ''Vary''"
  by code_simp+


text \<open>The pattern misses the subdomains that its comment promises, and admits deeper ones.\<close>

lemma wildcard_misses_subdomain:
  "\<not> isOriginAllowed ''https://sub.example.com'' [''*.example.com'']
   \<and> isOriginAllowed ''https://a.sub.example.com'' [''*.example.com'']"
  by code_simp

section \<open>The hand-written itoa\<close>

lemma itoa_digits_format:
  "0 < n \<Longrightarrow> itoa_digits n buf = format_nat (nat n) @ buf"
proof (induction n buf rule: itoa_digits.induct)
  case (1 n buf)
  show ?case
  proof (cases "n < 10")
    case True
    with \<open>0 < n\<close> have "n div 10 = 0" and "n mod 10 = n" by auto
    have zero: "itoa_digits 0 cs = cs" for cs by (subst itoa_digits.simps) simp
    have "itoa_digits n buf = digit_char (nat n) # buf"
      using \<open>0 < n\<close> \<open>n div 10 = 0\<close> \<open>n mod 10 = n\<close> by (subst itoa_digits.simps) (simp add: zero)
    moreover have "format_nat (nat n) = [digit_char (nat n)]"
      using True \<open>0 < n\<close> by (subst format_nat.simps) (simp add: nat_less_iff)
    ultimately show ?thesis by simp
  next
    case False
    then have pos: "0 < n div 10" by auto
    have digit: "nat (n mod 10) = nat n mod 10" and rest: "nat (n div 10) = nat n div 10"
      using \<open>0 < n\<close> by (simp_all add: nat_div_distrib nat_mod_distrib)
    have "itoa_digits n buf = itoa_digits (n div 10) (digit_char (nat (n mod 10)) # buf)"
      using \<open>0 < n\<close> by (subst itoa_digits.simps) simp
    also have "\<dots> = (format_nat (nat n div 10) @ [digit_char (nat n mod 10)]) @ buf"
      unfolding "1.IH" [OF \<open>0 < n\<close> pos] unfolding digit rest by simp
    also have "format_nat (nat n div 10) @ [digit_char (nat n mod 10)] = format_nat (nat n)"
      using False by (subst (2) format_nat.simps) (simp add: nat_less_iff)
    finally show ?thesis .
  qed
qed

lemma itoa_prints: "sint n \<noteq> - (2 ^ 63) \<Longrightarrow> itoa n = format_int (sint n)"
proof -
  assume ne: "sint n \<noteq> - (2 ^ 63)"
  consider "sint n = 0" | "0 < sint n" | "sint n < 0" by linarith
  then show ?thesis
  proof cases
    case 1
    then have "n = 0" by (simp add: signed_eq_0_iff)
    moreover have "format_int 0 = ''0''" by code_simp
    ultimately show ?thesis by (simp add: itoa_def)
  next
    case 2
    then have "n \<noteq> 0" by auto
    with 2 show ?thesis by (simp add: itoa_def format_int_def itoa_digits_format)
  next
    case 3
    then have "n \<noteq> 0" by auto
    have "sint (- n) = - sint n"
      using ne sint_greater_eq [of n] sint_less [of n] 3
      by (simp add: signed_take_bit_int_eq_self sint_word_ariths)
    with 3 \<open>n \<noteq> 0\<close> show ?thesis by (simp add: itoa_def format_int_def itoa_digits_format)
  qed
qed

lemma itoa_smallest: "itoa (word_of_int (- (2 ^ 63))) = ''-''"
  by code_simp

section \<open>The wrapped writer and recovery\<close>

text \<open>On a writer without a reply, the wrapper writes what the plain writer would, and its status is
  the one sent: to the client the wrapper is the plain writer.\<close>

definition wraps :: "response_writer \<Rightarrow> writer \<Rightarrow> bool" where
  "wraps rw x \<longleftrightarrow> lw_inner rw = x \<and> (lw_wrote rw \<longleftrightarrow> rw_reply x \<noteq> None) \<and> lw_status rw = status_of x"

lemma wrapResponseWriter_wraps: "rw_reply x = None \<Longrightarrow> wraps (wrapResponseWriter x) x"
  by (simp add: wraps_def wrapResponseWriter_def status_of_def)

lemma responseWriter_refines:
  assumes "wraps rw x"
  shows "wraps (responseWriter_WriteHeader s rw) (WriteHeader s x)"
    and "wraps (responseWriter_Write c rw) (Write_body c x)"
  using assms
  by (auto simp: wraps_def responseWriter_WriteHeader_def responseWriter_Write_def Write_body_def Let_def
      WriteHeader_def status_of_def split: option.splits)

lemma Recoverer_answers:
  assumes "nxt q x w = (x', w')" and "rw_panic x' \<noteq> None" and "rw_reply x' = None"
  obtains y where "Recoverer nxt q x w = (y, w')" and "status_of y = 500" and "rw_panic y = None"
proof
  let ?y = "http_Error ''Internal Server Error'' 500 (x'\<lparr>rw_panic := None\<rparr>)"
  show "Recoverer nxt q x w = (?y, w')" using assms by (auto simp: Recoverer_def)
  show "status_of ?y = 500" and "rw_panic ?y = None"
    using assms(3)
    by (simp_all add: http_Error_def http_simps WriteHeader_def status_of_def)
qed

lemma Recoverer_no_panic: "rw_panic (fst (Recoverer nxt q x w)) = None"
  by (auto simp: Recoverer_def http_Error_def http_simps split: prod.split option.split)

lemma Recoverer_quiet:
  "nxt q x w = (x', w') \<Longrightarrow> rw_panic x' = None \<Longrightarrow> Recoverer nxt q x w = (x', w')"
  by (simp add: Recoverer_def)

end
