(* ===== verification/Webhook_Receiver.thy ===== *)
theory Webhook_Receiver imports Middleware Webhook_Lifecycle begin

text \<open>
  The example receiver of webhooks: \<open>docs/examples/webhook-receiver/main.go\<close>. The HMAC, the digest and
  the JSON decoder are parameters; the decoded payload is only logged. \<open>delivered\<close> is what \<open>net/http\<close>
  makes of a request that the webhook worker sends.

  Shown: the receiver accepts exactly what is signed with the raw digest of its secret within five
  minutes, for every timestamp and every clock; so it refuses each delivery of the server, which signs
  with the hexadecimal text of the digest, unless the two keys happen to give the same code.
\<close>

section \<open>main.go\<close>

text \<open>\<open>now.Unix() - ts\<close> wraps in int64, but its absolute value is taken of the float, which does not.\<close>

definition verifySignature :: "digest \<Rightarrow> hmac \<Rightarrow> string \<Rightarrow> string \<Rightarrow> string \<Rightarrow> string \<Rightarrow> 'r world
    \<Rightarrow> bool \<times> 'r world" where
  "verifySignature D H signature timestamp payload secret w = (case parse_int64 timestamp of
       None \<Rightarrow> (False, w)
     | Some ts \<Rightarrow> (case time_now w of (t, w1) \<Rightarrow>
         if 300 < \<bar>sint (word_of_int (to_unix t) - word_of_int ts :: 64 word)\<bar> then (False, w1)
         else let hash = D secret; canonical = format_int ts @ ''.'' @ payload;
                  expected = hex_encode (H hash canonical)
              in (signature = expected, w1)))"

definition webhookHandler :: "digest \<Rightarrow> hmac \<Rightarrow> (string \<Rightarrow> 'p option) \<Rightarrow> string \<Rightarrow> 'r handler" where
  "webhookHandler D H decode secret q x w =
     (if rq_method q \<noteq> ''POST'' then (http_Error ''Method not allowed'' 405 x, w)
      else if b_fails (rq_in_body q) then (http_Error ''Bad request'' 400 x, w)
      else let payload = b_bytes (rq_in_body q);
               signature = request_header q ''X-Penshort-Signature'';
               timestamp = request_header q ''X-Penshort-Timestamp'' in
        (if signature = [] \<or> timestamp = [] then (http_Error ''Missing signature'' 401 x, w)
         else (case verifySignature D H signature timestamp payload secret w of
             (False, w1) \<Rightarrow> (http_Error ''Invalid signature'' 401 x, w1)
           | (True, w1) \<Rightarrow> (case decode payload of
               None \<Rightarrow> (http_Error ''Invalid JSON'' 400 x, w1)
             | Some p \<Rightarrow> (Write_body (Json (JObj [(''status'', JStr ''received'')])) (WriteHeader 200 x), w1)))))"

definition healthHandler :: "'r handler" where
  "healthHandler q x w = (Write_body (Json (JObj [(''status'', JStr ''ok'')]))
     (set_header ''Content-Type'' ''application/json'' x), w)"

definition receiver_main :: "digest \<Rightarrow> hmac \<Rightarrow> (string \<Rightarrow> 'p option) \<Rightarrow> string option
    \<Rightarrow> error + (string \<times> 'r handler) list" where
  "receiver_main D H decode env = (let secret = (case env of None \<Rightarrow> [] | Some s \<Rightarrow> s) in
     if secret = [] then Inl (Text ''PENSHORT_WEBHOOK_SECRET environment variable is required'')
     else Inr [(''/webhook'', webhookHandler D H decode secret), (''/health'', healthHandler)])"

section \<open>What the receiver accepts\<close>

definition delivered :: "http_request \<Rightarrow> request" where
  "delivered r = (plain_request ''POST'' ''/webhook'')
     \<lparr>rq_header := foldl (\<lambda>h (k, v). header_add k v h) no_header (rq_headers r),
      rq_in_body := \<lparr>b_bytes = rq_body r, b_fails = False\<rparr>\<rparr>"

text \<open>A request with three headers of a delivery, under any signature.\<close>

definition signed_request :: "string \<Rightarrow> string \<Rightarrow> int \<Rightarrow> string \<Rightarrow> string \<Rightarrow> http_request" where
  "signed_request url signature ts i payload = SetWebhookHeaders
     \<lparr>rq_url = url, rq_body = payload, rq_headers = []\<rparr>
     \<lparr>hh_signature = signature, hh_timestamp = format_int ts, hh_delivery_id = i\<rparr>"

lemma build_request_signed:
  "build_request H d e ts = signed_request (e_target_url e)
     (GenerateSignature H (e_secret_hash e) (word_of_int ts) (d_payload_json d)) ts (d_id d) (d_payload_json d)"
  by (simp add: build_request_def signed_request_def Let_def)

lemma canonical_headers:
  "canonical_key ''X-Penshort-Signature'' = ''X-Penshort-Signature''"
  "canonical_key ''X-Penshort-Timestamp'' = ''X-Penshort-Timestamp''"
  "canonical_key ''X-Penshort-Delivery-Id'' = ''X-Penshort-Delivery-Id''"
  "canonical_key ''Content-Type'' = ''Content-Type''" "canonical_key ''User-Agent'' = ''User-Agent''"
  by code_simp+

lemma delivered_simps:
  "rq_method (delivered r) = ''POST''" "rq_in_body (delivered r) = \<lparr>b_bytes = rq_body r, b_fails = False\<rparr>"
  "request_header (delivered (signed_request url sig ts i payload)) ''X-Penshort-Signature'' = sig"
  "request_header (delivered (signed_request url sig ts i payload)) ''X-Penshort-Timestamp'' = format_int ts"
  "rq_body (signed_request url sig ts i payload) = payload"
  by (simp_all add: delivered_def plain_request_def signed_request_def SetWebhookHeaders_def request_header_def
      header_get_def header_add_def canonical_headers no_header_def)

text \<open>No wrap brings a far timestamp into the window.\<close>

lemma far_timestamp:
  assumes "int64_ok ts" and "0 \<le> now" and "now < 2 ^ 62"
  shows "300 < \<bar>sint (word_of_int now - word_of_int ts :: 64 word)\<bar> \<longleftrightarrow> 300 < \<bar>now - ts\<bar>"
proof (cases "now - ts < 2 ^ 63")
  case True
  with assms have "int64_ok (now - ts)" by (simp add: int64_ok_def)
  then show ?thesis by (simp add: sint_diff64)
next
  case False
  let ?d = "now - ts - 2 ^ 64"
  have d: "int64_ok ?d" "?d < - 300" "300 < \<bar>now - ts\<bar>" using assms False by (simp_all add: int64_ok_def)
  have same: "word_of_int (ts + 2 ^ 64) = (word_of_int ts :: 64 word)"
    by (simp add: word_of_int_eq_iff take_bit_eq_mod)
  have "now - (ts + 2 ^ 64) = ?d" by simp
  with d(1) have "sint (word_of_int now - word_of_int (ts + 2 ^ 64) :: 64 word) = ?d"
    using sint_diff64 [of now "ts + 2 ^ 64"] by (simp only:)
  then have "sint (word_of_int now - word_of_int ts :: 64 word) = ?d" unfolding same .
  then show ?thesis using d(2,3) by linarith
qed

lemma verifySignature_signed:
  assumes "ticks w = []" and "int64_ok ts" and "0 \<le> to_unix (clock w)" and "to_unix (clock w) < 2 ^ 62"
  shows "fst (verifySignature D H sig (format_int ts) payload secret w) \<longleftrightarrow>
    \<bar>to_unix (clock w) - ts\<bar> \<le> 300 \<and> sig = GenerateSignature H (D secret) (word_of_int ts) payload"
proof -
  have "sint (word_of_int ts :: 64 word) = ts"
    using assms(2) by (simp add: int64_ok_def sint_sbintrunc' signed_take_bit_int_eq_self)
  then show ?thesis
    using assms far_timestamp [OF assms(2-4)]
    by (auto simp: verifySignature_def parse_format_int Let_def GenerateSignature_def)
qed

lemma http_Error_status: "status_of (http_Error m c new_writer) = c"
  by (simp add: http_Error_def http_simps)

lemma receiver_decides:
  assumes "ticks w = []" and "int64_ok ts" and "0 \<le> to_unix (clock w)" and "to_unix (clock w) < 2 ^ 62"
    and "sig \<noteq> []" and "decode payload \<noteq> None"
  shows "status_of (fst (webhookHandler D H decode secret (delivered (signed_request url sig ts i payload)) new_writer w))
    = (if \<bar>to_unix (clock w) - ts\<bar> \<le> 300 \<and> sig = GenerateSignature H (D secret) (word_of_int ts) payload
       then 200 else 401)"
proof -
  obtain ok w1 where v: "verifySignature D H sig (format_int ts) payload secret w = (ok, w1)" by fastforce
  with verifySignature_signed [OF assms(1-4), of D H sig payload secret]
  have "ok \<longleftrightarrow> \<bar>to_unix (clock w) - ts\<bar> \<le> 300 \<and> sig = GenerateSignature H (D secret) (word_of_int ts) payload" by simp
  then show ?thesis
    using assms(5,6) v
    by (cases ok) (auto simp: webhookHandler_def delivered_simps Let_def http_Error_status http_simps)
qed

lemma hex_digit_inj: "a < 16 \<Longrightarrow> b < 16 \<Longrightarrow> hex_digit a = hex_digit b \<Longrightarrow> a = b"
  by (auto simp: hex_digit_def split: if_splits dest!: arg_cong [where f = "of_char :: char \<Rightarrow> nat"])

lemma hex_encode_inj: "hex_encode s = hex_encode t \<Longrightarrow> s = t"
proof (induction s arbitrary: t)
  case Nil
  then show ?case by (cases t) (simp_all add: hex_encode_def)
next
  case (Cons c s)
  then obtain d u where t: "t = d # u" by (cases t) (simp_all add: hex_encode_def)
  have b: "(of_char x :: nat) div 16 < 16" for x :: char
    by (simp add: less_mult_imp_div_less)
  from Cons.prems t have "hex_digit (of_char c div 16) = hex_digit (of_char d div 16)"
      and "hex_digit (of_char c mod 16) = hex_digit (of_char d mod 16)" and "hex_encode s = hex_encode u"
    by (simp_all add: hex_encode_def)
  then have "(of_char c :: nat) div 16 = of_char d div 16" and "(of_char c :: nat) mod 16 = of_char d mod 16"
      and "s = u"
    using hex_digit_inj b Cons.IH by simp_all
  then have "(of_char c :: nat) = of_char d" by (metis div_mult_mod_eq)
  with \<open>s = u\<close> t show ?case by simp
qed

text \<open>C35: The example receiver against the server's own deliveries. For every delivery of an endpoint whose
  stored secret is the hash of the receiver's secret, at every time of signing and of receipt, with a body
  that decodes: the receiver answers 200 only if the timestamp is at most 300 seconds away and the HMAC
  under the raw digest of the secret, which the receiver and the documentation use, equals that under its
  hexadecimal text, which the server uses; otherwise it answers 401. So all deliveries are refused, but for
  a coincidence of the two codes.\<close>
theorem receiver_refuses_deliveries:
  assumes "e_secret_hash e = HashSecret D secret" and "decode (d_payload_json d) \<noteq> None"
    and "\<And>k m. length (H k m) = 32" and "ticks w = []" and "int64_ok ts"
    and "0 \<le> to_unix (clock w)" and "to_unix (clock w) < 2 ^ 62"
  shows "let text = format_int ts @ ''.'' @ d_payload_json d in
    status_of (fst (webhookHandler D H decode secret (delivered (build_request H d e ts)) new_writer w))
      = (if \<bar>to_unix (clock w) - ts\<bar> \<le> 300 \<and> H (D secret) text = H (hex_encode (D secret)) text then 200 else 401)"
proof -
  have "sint (word_of_int ts :: 64 word) = ts"
    using assms(5) by (simp add: int64_ok_def sint_sbintrunc' signed_take_bit_int_eq_self)
  then have made: "GenerateSignature H k (word_of_int ts) (d_payload_json d)
      = hex_encode (H k (format_int ts @ ''.'' @ d_payload_json d))" for k
    by (simp add: GenerateSignature_def Let_def)
  have "hex_encode (H k m) \<noteq> []" for k m
    using assms(3) [of k m] by (cases "H k m") (simp_all add: hex_encode_def)
  then show ?thesis
    using receiver_decides [where decode = decode and payload = "d_payload_json d", OF assms(4-7) _ assms(2)]
    by (auto simp: build_request_signed made assms(1) HashSecret_def Let_def dest!: hex_encode_inj)
qed

definition receiver_endpoint :: endpoint where
  "receiver_endpoint = sample_endpoint\<lparr>e_secret_hash := HashSecret (\<lambda>s. s) ''s''\<rparr>"

text \<open>A code that shows its key: no two keys of up to 32 characters agree.\<close>

definition first_key :: hmac where
  "first_key k m = take 32 (k @ replicate 32 CHR ''.'')"

theorem receiver_refuses_deliveries_witness:
  "status_of (fst (webhookHandler (\<lambda>s. s) first_key (\<lambda>s. Some ()) ''s''
     (delivered (build_request first_key sample_delivery receiver_endpoint 90)) new_writer
     (empty_world (100 * second) ()))) = 401"
proof -
  have len: "\<And>k m. length (first_key k m) = 32" by (simp add: first_key_def)
  have hash: "e_secret_hash receiver_endpoint = HashSecret (\<lambda>s. s) ''s''" by (simp add: receiver_endpoint_def)
  let ?text = "format_int 90 @ ''.'' @ d_payload_json sample_delivery"
  have "hd (first_key ''s'' ?text) \<noteq> hd (first_key (hex_encode ''s'') ?text)" by code_simp
  then have "first_key ''s'' ?text \<noteq> first_key (hex_encode ''s'') ?text" by metis
  with receiver_refuses_deliveries [where decode = "\<lambda>s. Some ()" and D = "\<lambda>s. s" and secret = "''s''"
      and d = sample_delivery and ts = 90 and w = "empty_world (100 * second) ()", OF hash _ len]
  show ?thesis
    by (simp add: empty_world_def int64_ok_def to_unix_def second_def Let_def)
qed

end
