(* ===== verification/Analytics_Handler.thy ===== *)
theory Analytics_Handler imports "HOL-Library.Multiset" Http Click_Repo begin

text \<open>
  \<open>internal/handler/analytics.go\<close> with the responses of \<open>internal/model/click_event.go\<close>: the period
  and the parts that a request asks for, and the breakdowns of the response. \<open>Q\<close> is the order in which
  a Go map is iterated, a permutation of its entries.

  Shown: the exchange sort yields the largest counts in order, the splitting of \<open>include\<close> is that of the
  library without the empty parts, and the period never reaches past now or beyond 90 days.
\<close>

section \<open>Responses\<close>

record daily_breakdown =
  db_date :: string
  db_total_clicks :: int
  db_unique_visitors :: int

record referrer_breakdown =
  rb_domain :: string
  rb_clicks :: int

record country_breakdown =
  cb_code :: string
  cb_name :: string
  cb_clicks :: int

record analytics_response =
  ar_link_id :: string
  ar_short_code :: string
  ar_from :: string
  ar_to :: string
  ar_summary :: analytics_summary
  ar_daily :: "daily_breakdown list"
  ar_referrers :: "referrer_breakdown list"
  ar_countries :: "country_breakdown list"
  ar_generated_at :: instant

definition omit_nil :: "string \<Rightarrow> ('a \<Rightarrow> json) \<Rightarrow> 'a list \<Rightarrow> (string \<times> json) list" where
  "omit_nil k f xs = (if xs = [] then [] else [(k, JArr (map f xs))])"

definition daily_json :: "daily_breakdown \<Rightarrow> json" where
  "daily_json b = JObj [(''date'', JStr (db_date b)), (''total_clicks'', JInt (db_total_clicks b)),
     (''unique_visitors'', JInt (db_unique_visitors b))]"

definition referrer_json :: "referrer_breakdown \<Rightarrow> json" where
  "referrer_json b = JObj [(''domain'', JStr (rb_domain b)), (''clicks'', JInt (rb_clicks b))]"

definition country_json :: "country_breakdown \<Rightarrow> json" where
  "country_json b = JObj [(''code'', JStr (cb_code b)), (''name'', JStr (cb_name b)),
     (''clicks'', JInt (cb_clicks b))]"

definition summary_json :: "analytics_summary \<Rightarrow> json" where
  "summary_json s = JObj [(''total_clicks'', JInt (as_total_clicks s)),
     (''unique_visitors'', JInt (as_unique_visitors s)),
     (''avg_clicks_per_day'', JNum (as_avg_clicks_per_day s))]"

definition analytics_json :: "analytics_response \<Rightarrow> json" where
  "analytics_json r = JObj [(''link_id'', JStr (ar_link_id r)), (''short_code'', JStr (ar_short_code r)),
     (''period'', JObj [(''from'', JStr (ar_from r)), (''to'', JStr (ar_to r))]),
     (''summary'', summary_json (ar_summary r)),
     (''breakdown'', JObj (omit_nil ''daily'' daily_json (ar_daily r)
        @ omit_nil ''referrers'' referrer_json (ar_referrers r)
        @ omit_nil ''countries'' country_json (ar_countries r))),
     (''generated_at'', JTime (ar_generated_at r))]"

section \<open>Sorting the breakdowns\<close>

text \<open>The inner and the outer loop of the exchange sort, over the indexes as the code has them.\<close>

function exchange_from :: "('a \<Rightarrow> int) \<Rightarrow> nat \<Rightarrow> nat \<Rightarrow> 'a list \<Rightarrow> 'a list" where
  "exchange_from clicks i j result =
     (if j < length result
      then exchange_from clicks i (j + 1)
        (if clicks (result ! i) < clicks (result ! j)
         then result[i := result ! j, j := result ! i] else result)
      else result)"
  by auto
termination by (relation "measure (\<lambda>(c, i, j, r). length r - j)") auto

declare exchange_from.simps [simp del]

lemma length_exchange_from [simp]: "length (exchange_from clicks i j result) = length result"
proof (induction clicks i j result rule: exchange_from.induct)
  case (1 clicks i j result)
  then show ?case by (subst exchange_from.simps) (cases "j < length result"; simp)
qed

function exchange_sort :: "('a \<Rightarrow> int) \<Rightarrow> nat \<Rightarrow> 'a list \<Rightarrow> 'a list" where
  "exchange_sort clicks i result =
     (if i < length result then exchange_sort clicks (i + 1) (exchange_from clicks i (i + 1) result)
      else result)"
  by auto
termination by (relation "measure (\<lambda>(c, i, r). length r - i)") auto

declare exchange_sort.simps [simp del]

type_synonym map_iter = "(string \<times> int) list \<Rightarrow> (string \<times> int) list"

definition sortedBreakdown :: "map_iter \<Rightarrow> (string \<times> int) list \<Rightarrow> nat \<Rightarrow> referrer_breakdown list" where
  "sortedBreakdown Q m limit =
     (let result = exchange_sort rb_clicks 0
            (map (\<lambda>(domain, clicks). \<lparr>rb_domain = domain, rb_clicks = clicks\<rparr>) (Q m))
      in if limit < length result then take limit result else result)"

definition handler_country_names :: "(string \<times> string) list" where
  "handler_country_names = [(''US'', ''United States''), (''VN'', ''Vietnam''), (''GB'', ''United Kingdom''),
     (''DE'', ''Germany''), (''FR'', ''France''), (''JP'', ''Japan''), (''CN'', ''China''),
     (''KR'', ''South Korea''), (''IN'', ''India''), (''BR'', ''Brazil''), (''CA'', ''Canada''),
     (''AU'', ''Australia''), (''SG'', ''Singapore''), (''TH'', ''Thailand''), (''ID'', ''Indonesia'')]"

definition handler_countryName :: "string \<Rightarrow> string" where
  "handler_countryName code =
     (case map_of handler_country_names code of Some name \<Rightarrow> name | None \<Rightarrow> code)"

definition sortedCountryBreakdown :: "map_iter \<Rightarrow> (string \<times> int) list \<Rightarrow> nat \<Rightarrow> country_breakdown list" where
  "sortedCountryBreakdown Q m limit =
     (let result = exchange_sort cb_clicks 0 (map (\<lambda>(code, clicks).
            \<lparr>cb_code = code, cb_name = handler_countryName code, cb_clicks = clicks\<rparr>) (Q m))
      in if limit < length result then take limit result else result)"

section \<open>The request\<close>

function comma_parts :: "string \<Rightarrow> nat \<Rightarrow> nat \<Rightarrow> string list" where
  "comma_parts s start i =
     (if i \<le> length s
      then (if i = length s \<or> s ! i = CHR '',''
            then (if start < i then [drop start (take i s)] else []) @ comma_parts s (i + 1) (i + 1)
            else comma_parts s start (i + 1))
      else [])"
  by auto
termination by (relation "measure (\<lambda>(s, start, i). Suc (length s) - i)") auto

declare comma_parts.simps [simp del]

definition splitComma :: "string \<Rightarrow> string list" where
  "splitComma s = (if s = [] then [] else comma_parts s 0 0)"

definition date_or :: "string \<Rightarrow> instant \<Rightarrow> instant" where
  "date_or s d = (if s = [] then d else case parse_date s of Some t \<Rightarrow> t | None \<Rightarrow> d)"

definition parseTimeRange :: "request \<Rightarrow> 'r world \<Rightarrow> (instant \<times> instant) \<times> 'r world" where
  "parseTimeRange q w = (case time_now w of (now, w') \<Rightarrow>
     let since = date_or (query_get q ''from'') (now - 7 * day);
         until = date_or (query_get q ''to'') now;
         since = (if 90 * day < until - since then until - 90 * day else since);
         until = (if now < until then now else until)
     in ((since, until), w'))"

definition parseIncludes :: "request \<Rightarrow> string list" where
  "parseIncludes q = (let includeStr = query_get q ''include'' in
     if includeStr = [] then [''referrers'', ''countries'', ''daily''] else splitComma includeStr)"

definition day_entry :: "daily_stats \<Rightarrow> daily_breakdown" where
  "day_entry stat = \<lparr>db_date = format_date (ds_date stat), db_total_clicks = ds_total_clicks stat,
     db_unique_visitors = ds_unique_visitors stat\<rparr>"

definition totals :: "(daily_stats \<Rightarrow> (string \<times> int) list) \<Rightarrow> daily_stats list \<Rightarrow> (string \<times> int) list" where
  "totals breakdown stats = foldl (\<lambda>m stat. add_breakdown m (breakdown stat)) [] stats"

definition buildAnalyticsResponse :: "map_iter \<Rightarrow> string \<Rightarrow> instant \<Rightarrow> instant \<Rightarrow> analytics_summary
    \<Rightarrow> daily_stats list \<Rightarrow> string list \<Rightarrow> 'r world \<Rightarrow> analytics_response \<times> 'r world" where
  "buildAnalyticsResponse Q linkID since until summary dailyStats includes w =
     (case time_now w of (now, w') \<Rightarrow>
        (\<lparr>ar_link_id = linkID, ar_short_code = [], ar_from = format_date since, ar_to = format_date until,
          ar_summary = summary,
          ar_daily = (if ''daily'' \<in> set includes then map day_entry dailyStats else []),
          ar_referrers = (if ''referrers'' \<in> set includes
             then sortedBreakdown Q (totals ds_referrers dailyStats) 10 else []),
          ar_countries = (if ''countries'' \<in> set includes
             then sortedCountryBreakdown Q (totals ds_countries dailyStats) 10 else []),
          ar_generated_at = now\<rparr>, w'))"

definition analytics_error :: "int \<Rightarrow> string \<Rightarrow> string \<Rightarrow> writer \<Rightarrow> writer" where
  "analytics_error status code message x = writeJSON status (ErrorResponse message code) x"

definition GetLinkAnalytics :: "map_iter \<Rightarrow> 'r handler" where
  "GetLinkAnalytics Q q x w =
     (let linkID = path_value q ''id'' in
      if linkID = [] then (analytics_error 400 ''INVALID_REQUEST'' ''Link ID is required'' x, w)
      else (case parseTimeRange q w of ((since, until), w1) \<Rightarrow>
        let includes = parseIncludes q in
        (case GetAnalyticsSummary linkID since until w1 of
           (Inl err, w2) \<Rightarrow> (analytics_error 500 ''INTERNAL_ERROR'' ''Failed to fetch analytics'' x, w2)
         | (Inr summary, w2) \<Rightarrow>
             (case GetDailyStats linkID since until w2 of
                (Inl err, w3) \<Rightarrow> (analytics_error 500 ''INTERNAL_ERROR'' ''Failed to fetch analytics'' x, w3)
              | (Inr dailyStats, w3) \<Rightarrow>
                  (case buildAnalyticsResponse Q linkID since until summary dailyStats includes w3 of
                     (response, w4) \<Rightarrow> (writeJSON 200 (analytics_json response) x, w4))))))"

section \<open>The exchange sort is a sort\<close>

lemma exchange_from_mset: "i < j \<Longrightarrow> mset (exchange_from clicks i j result) = mset result"
proof (induction clicks i j result rule: exchange_from.induct)
  case (1 clicks i j result)
  show ?case
  proof (cases "j < length result")
    case True
    with 1 show ?thesis
      by (subst exchange_from.simps) (simp add: mset_swap)
  qed (simp add: exchange_from.simps)
qed

text \<open>Position \<open>i\<close> ends with the largest of the elements from \<open>i\<close> on; those before it stay.\<close>

lemma exchange_from_max:
  assumes "i < j" and "\<And>k. i \<le> k \<Longrightarrow> k < j \<Longrightarrow> k < length result \<Longrightarrow> clicks (result ! k) \<le> clicks (result ! i)"
  shows "take i (exchange_from clicks i j result) = take i result"
    and "i \<le> k \<Longrightarrow> k < length result \<Longrightarrow>
      clicks (exchange_from clicks i j result ! k) \<le> clicks (exchange_from clicks i j result ! i)"
proof -
  have "take i (exchange_from clicks i j result) = take i result \<and> (\<forall>k. i \<le> k \<and> k < length result \<longrightarrow>
      clicks (exchange_from clicks i j result ! k) \<le> clicks (exchange_from clicks i j result ! i))"
    using assms
  proof (induction clicks i j result rule: exchange_from.induct)
    case (1 clicks i j result)
    show ?case
    proof (cases "j < length result")
      case True
      let ?r = "if clicks (result ! i) < clicks (result ! j) then result[i := result ! j, j := result ! i] else result"
      have "clicks (?r ! k) \<le> clicks (?r ! i)" if "i \<le> k" "k < j + 1" "k < length ?r" for k
        using that 1(2) 1(3) [of k] True by (auto simp: nth_list_update less_Suc_eq)
      with 1(1) [OF True] 1(2) have "take i (exchange_from clicks i (j + 1) ?r) = take i ?r
          \<and> (\<forall>k. i \<le> k \<and> k < length ?r \<longrightarrow> clicks (exchange_from clicks i (j + 1) ?r ! k)
             \<le> clicks (exchange_from clicks i (j + 1) ?r ! i))" by simp
      moreover have "take i ?r = take i result" and "length ?r = length result"
        using 1(2) by simp_all
      moreover have "exchange_from clicks i j result = exchange_from clicks i (j + 1) ?r"
        using True by (subst exchange_from.simps) simp
      ultimately show ?thesis by simp
    qed (use 1(3) in \<open>simp add: exchange_from.simps\<close>)
  qed
  then show "take i (exchange_from clicks i j result) = take i result"
    and "i \<le> k \<Longrightarrow> k < length result \<Longrightarrow>
      clicks (exchange_from clicks i j result ! k) \<le> clicks (exchange_from clicks i j result ! i)" by blast+
qed

definition sorted_to :: "('a \<Rightarrow> int) \<Rightarrow> nat \<Rightarrow> 'a list \<Rightarrow> bool" where
  "sorted_to clicks i xs = (\<forall>a < i. \<forall>b < length xs. a < b \<longrightarrow> clicks (xs ! b) \<le> clicks (xs ! a))"

lemma in_drop_nth: "x \<in> set (drop i xs) \<longleftrightarrow> (\<exists>k \<ge> i. k < length xs \<and> xs ! k = x)"
proof
  assume "x \<in> set (drop i xs)"
  then obtain n where "n < length xs - i" "xs ! (i + n) = x"
    by (auto simp: in_set_conv_nth)
  then show "\<exists>k \<ge> i. k < length xs \<and> xs ! k = x" by (intro exI [of _ "i + n"]) simp
next
  assume "\<exists>k \<ge> i. k < length xs \<and> xs ! k = x"
  then obtain k where "i \<le> k" "k < length xs" "xs ! k = x" by blast
  then have "k - i < length (drop i xs)" and "drop i xs ! (k - i) = x" by simp_all
  then show "x \<in> set (drop i xs)" unfolding in_set_conv_nth by blast
qed

lemma sorted_to_exchange:
  assumes "sorted_to clicks i xs" and "i < length xs"
  shows "sorted_to clicks (i + 1) (exchange_from clicks i (i + 1) xs)"
proof -
  let ?r = "exchange_from clicks i (i + 1) xs"
  have top: "take i ?r = take i xs" "\<And>k. i \<le> k \<Longrightarrow> k < length xs \<Longrightarrow> clicks (?r ! k) \<le> clicks (?r ! i)"
    by (rule exchange_from_max; use le_less_Suc_eq in force)+
  have "mset (take i ?r) + mset (drop i ?r) = mset (take i xs) + mset (drop i xs)"
    by (simp add: exchange_from_mset mset_append [symmetric] del: mset_append)
  with top(1) have rest: "set (drop i ?r) = set (drop i xs)"
    by (metis add_left_cancel set_mset_mset)
  have "clicks (?r ! b) \<le> clicks (?r ! a)" if "a < i + 1" "b < length ?r" "a < b" for a b
  proof (cases "a = i")
    case True
    with top(2) [of b] that show ?thesis by simp
  next
    case False
    with that(1) have a: "a < i" by simp
    then have ra: "?r ! a = xs ! a" using top(1) by (metis nth_take)
    show ?thesis
    proof (cases "b < i")
      case True
      then have "?r ! b = xs ! b" using top(1) by (metis nth_take)
      with ra a True assms that(3) show ?thesis by (simp add: sorted_to_def)
    next
      case False
      then have "?r ! b \<in> set (drop i ?r)"
        using that(2) unfolding in_drop_nth by (auto intro!: exI [of _ b])
      then obtain c where "i \<le> c" "c < length xs" "?r ! b = xs ! c"
        unfolding rest in_drop_nth by metis
      with ra a assms(1) show ?thesis by (simp add: sorted_to_def)
    qed
  qed
  then show ?thesis by (simp add: sorted_to_def)
qed

lemma exchange_sort_sorts:
  "sorted_to clicks i xs \<Longrightarrow> mset (exchange_sort clicks i xs) = mset xs
    \<and> sorted_to clicks (length xs) (exchange_sort clicks i xs)"
proof (induction clicks i xs rule: exchange_sort.induct)
  case (1 clicks i xs)
  show ?case
  proof (cases "i < length xs")
    case True
    with 1(1) [OF True] sorted_to_exchange [OF 1(2) True] show ?thesis
      by (subst (1 2) exchange_sort.simps) (simp add: exchange_from_mset)
  qed (use 1(2) in \<open>simp add: exchange_sort.simps sorted_to_def\<close>)
qed

text \<open>The sort against the library's: the counts come out in descending order.\<close>

lemma exchange_sort_counts: "map clicks (exchange_sort clicks 0 xs) = rev (sort (map clicks xs))"
proof -
  let ?s = "exchange_sort clicks 0 xs"
  have s: "mset ?s = mset xs" "sorted_to clicks (length xs) ?s"
    using exchange_sort_sorts [of clicks 0 xs] by (simp_all add: sorted_to_def)
  then have "length ?s = length xs" by (metis size_mset)
  with s(2) have "sorted_wrt (\<ge>) (map clicks ?s)"
    by (simp add: sorted_wrt_iff_nth_less sorted_to_def)
  then have "sorted (rev (map clicks ?s))" by (simp add: sorted_wrt_rev)
  moreover have "mset (rev (map clicks ?s)) = mset (map clicks xs)"
    using s(1) by simp
  ultimately have "sort (map clicks xs) = rev (map clicks ?s)"
    using properties_for_sort by blast
  then show ?thesis by simp
qed

text \<open>A sorted breakdown, for either record: its counts, its keys and its entries.\<close>

lemma top_entries:
  fixes limit :: nat and clicks :: "'b \<Rightarrow> int"
  assumes "mset (Q m) = mset m" and "distinct (map fst m)"
    and "\<And>kv. key (rec kv) = fst kv" and "\<And>kv. clicks (rec kv) = snd kv"
  defines "best \<equiv> take limit (exchange_sort clicks 0 (map rec (Q m)))"
  shows "map clicks best = take limit (rev (sort (map snd m)))" and "distinct (map key best)"
    and "b \<in> set best \<Longrightarrow> \<exists>kv \<in> set m. b = rec kv"
proof -
  let ?s = "exchange_sort clicks 0 (map rec (Q m))"
  have "map clicks (map rec (Q m)) = map snd (Q m)" using assms(4) by simp
  then have "map clicks ?s = rev (sort (map snd (Q m)))"
    by (simp only: exchange_sort_counts)
  moreover have "mset (map snd (Q m)) = mset (map snd m)" using assms(1) by simp
  then have "sort (map snd (Q m)) = sort (map snd m)"
    by (intro properties_for_sort) simp_all
  ultimately show "map clicks best = take limit (rev (sort (map snd m)))"
    by (simp add: best_def take_map [symmetric])
  have same: "mset ?s = mset (map rec (Q m))"
    using exchange_sort_sorts [of clicks 0 "map rec (Q m)"] by (simp add: sorted_to_def)
  then have "mset (map key ?s) = mset (map key (map rec (Q m)))"
    by (metis mset_map)
  also have "\<dots> = mset (map fst m)"
  proof -
    have "map key (map rec (Q m)) = map fst (Q m)" using assms(3) by simp
    then show ?thesis by (simp only: mset_map assms(1))
  qed
  finally have "distinct (map key ?s)"
    using assms(2) mset_eq_imp_distinct_iff by blast
  then show "distinct (map key best)"
    by (simp add: best_def take_map [symmetric])
  show "\<exists>kv \<in> set m. b = rec kv" if "b \<in> set best"
  proof -
    have "b \<in> set ?s" using that by (auto simp: best_def dest: in_set_takeD)
    then have "b \<in> set (map rec (Q m))" using same by (metis set_mset_mset)
    moreover have "set (Q m) = set m" using assms(1) by (metis set_mset_mset)
    ultimately show ?thesis by auto
  qed
qed

lemma breakdown_parts:
  shows "sortedBreakdown Q m limit = take limit (exchange_sort rb_clicks 0
      (map (\<lambda>(domain, clicks). \<lparr>rb_domain = domain, rb_clicks = clicks\<rparr>) (Q m)))"
    and "sortedCountryBreakdown Q m limit = take limit (exchange_sort cb_clicks 0 (map (\<lambda>(code, clicks).
      \<lparr>cb_code = code, cb_name = handler_countryName code, cb_clicks = clicks\<rparr>) (Q m)))"
  by (simp_all add: sortedBreakdown_def sortedCountryBreakdown_def Let_def)

lemma breakdown_counts:
  assumes "mset (Q m) = mset m" and "distinct (map fst m)"
  shows "map rb_clicks (sortedBreakdown Q m limit) = take limit (rev (sort (map snd m)))"
    and "map cb_clicks (sortedCountryBreakdown Q m limit) = take limit (rev (sort (map snd m)))"
    and "distinct (map rb_domain (sortedBreakdown Q m limit))"
    and "distinct (map cb_code (sortedCountryBreakdown Q m limit))"
proof -
  let ?r = "\<lambda>(domain, clicks). \<lparr>rb_domain = domain, rb_clicks = clicks\<rparr>"
  let ?c = "\<lambda>(code, clicks). \<lparr>cb_code = code, cb_name = handler_countryName code, cb_clicks = clicks\<rparr>"
  note r = top_entries [where Q = Q and m = m and limit = limit and rec = ?r and key = rb_domain
      and clicks = rb_clicks, OF assms]
    and c = top_entries [where Q = Q and m = m and limit = limit and rec = ?c and key = cb_code
      and clicks = cb_clicks, OF assms]
  show "map rb_clicks (sortedBreakdown Q m limit) = take limit (rev (sort (map snd m)))"
    and "distinct (map rb_domain (sortedBreakdown Q m limit))"
    unfolding breakdown_parts by (rule r(1), simp_all add: case_prod_beta) (rule r(2), simp_all add: case_prod_beta)
  show "map cb_clicks (sortedCountryBreakdown Q m limit) = take limit (rev (sort (map snd m)))"
    and "distinct (map cb_code (sortedCountryBreakdown Q m limit))"
    unfolding breakdown_parts by (rule c(1), simp_all add: case_prod_beta) (rule c(2), simp_all add: case_prod_beta)
qed

lemma breakdown_entries:
  assumes "mset (Q m) = mset m" and "distinct (map fst m)"
  shows "b \<in> set (sortedBreakdown Q m limit) \<Longrightarrow> (rb_domain b, rb_clicks b) \<in> set m"
    and "c \<in> set (sortedCountryBreakdown Q m limit) \<Longrightarrow> (cb_code c, cb_clicks c) \<in> set m
      \<and> cb_name c = handler_countryName (cb_code c)"
  using top_entries(3) [where Q = Q and m = m and limit = limit and key = rb_domain and clicks = rb_clicks
      and rec = "\<lambda>(domain, clicks). \<lparr>rb_domain = domain, rb_clicks = clicks\<rparr>", OF assms]
    top_entries(3) [where Q = Q and m = m and limit = limit and key = cb_code and clicks = cb_clicks
      and rec = "\<lambda>(code, clicks). \<lparr>cb_code = code, cb_name = handler_countryName code, cb_clicks = clicks\<rparr>", OF assms]
  unfolding breakdown_parts by (force simp: case_prod_beta)+

text \<open>C34: Both sorted breakdowns are the reference ranking: for every iteration order of the map their
  counts are the largest \<open>limit\<close> counts in descending order, as the library's sort gives them, no key
  appears twice, and every entry is an entry of the map, a country with its full name.\<close>

theorem breakdown_is_top:
  assumes "mset (Q m) = mset m" and "distinct (map fst m)"
  shows "map rb_clicks (sortedBreakdown Q m limit) = take limit (rev (sort (map snd m)))
    \<and> distinct (map rb_domain (sortedBreakdown Q m limit))
    \<and> (\<forall>b \<in> set (sortedBreakdown Q m limit). (rb_domain b, rb_clicks b) \<in> set m)
    \<and> map cb_clicks (sortedCountryBreakdown Q m limit) = take limit (rev (sort (map snd m)))
    \<and> distinct (map cb_code (sortedCountryBreakdown Q m limit))
    \<and> (\<forall>b \<in> set (sortedCountryBreakdown Q m limit). (cb_code b, cb_clicks b) \<in> set m
         \<and> cb_name b = handler_countryName (cb_code b))"
  using breakdown_counts [where Q = Q and m = m, OF assms] breakdown_entries [where Q = Q and m = m, OF assms]
  by blast

theorem breakdown_is_top_witness:
  "map rb_clicks (sortedBreakdown rev [(''a.org'', 2), (''b.org'', 5), (''c.org'', 3)] 2) = [5, 3]"
  using breakdown_is_top [of rev "[(''a.org'', 2), (''b.org'', 5), (''c.org'', 3)]" 2]
  by (simp add: sort_key_def)

section \<open>The request\<close>

lemma split_on_prefix:
  "d \<notin> set p \<Longrightarrow> split_on d (p @ s) = (p @ hd (split_on d s)) # tl (split_on d s)"
  by (induction p) auto

lemma comma_parts_spec:
  assumes "start \<le> i" and "i \<le> length s" and "CHR '','' \<notin> set (drop start (take i s))"
  shows "comma_parts s start i = filter (\<lambda>p. p \<noteq> []) (split_on CHR '','' (drop start (take i s) @ drop i s))"
  using assms
proof (induction s start i rule: comma_parts.induct)
  case (1 s start i)
  let ?p = "drop start (take i s)"
  show ?case
  proof (cases "i < length s")
    case False
    with 1(4) have i: "i = length s" by simp
    have "CHR '','' \<notin> set (drop start s)" using 1(5) i by simp
    then have "split_on CHR '','' (drop start s) = [drop start s]"
      using split_on_prefix [of "CHR '',''" "drop start s" "[]"] by simp
    moreover have "comma_parts s (i + 1) (i + 1) = []" by (simp add: comma_parts.simps i)
    ultimately show ?thesis
      using i 1(3) by (subst comma_parts.simps) simp
  next
    case True
    then have rest: "drop i s = s ! i # drop (i + 1) s"
      by (simp add: Cons_nth_drop_Suc)
    show ?thesis
    proof (cases "s ! i = CHR '',''")
      case comma: True
      have "comma_parts s (i + 1) (i + 1) = filter (\<lambda>p. p \<noteq> []) (split_on CHR '','' (drop (i + 1) s))"
        using 1(1) True comma by simp
      with True comma rest show ?thesis
        using split_on_prefix [OF 1(5), of "drop i s"] 1(3)
        by (subst comma_parts.simps) auto
    next
      case False
      have p: "drop start (take (i + 1) s) = ?p @ [s ! i]"
        using True 1(3) by (simp add: take_Suc_conv_app_nth)
      have "comma_parts s start (i + 1)
          = filter (\<lambda>p. p \<noteq> []) (split_on CHR '','' (drop start (take (i + 1) s) @ drop (i + 1) s))"
        using 1(2) 1(3,4,5) True False p by auto
      then show ?thesis
        unfolding p rest using True False by (subst comma_parts.simps) simp
    qed
  qed
qed

lemma splitComma_reference: "splitComma s = filter (\<lambda>p. p \<noteq> []) (split_on CHR '','' s)"
  using comma_parts_spec [of 0 0 s] by (simp add: splitComma_def)

text \<open>The period of an analytics request ends at now at the latest and spans at most 90 days, whatever
  the request says; a period given by two valid dates that is within these limits is used as given.\<close>

theorem period_bounded:
  assumes "parseTimeRange q w = ((since, until), w')"
  shows "until \<le> clock w' \<and> until - since \<le> 90 * day
    \<and> (parse_date (query_get q ''from'') = Some f \<and> parse_date (query_get q ''to'') = Some t
       \<and> t \<le> clock w' \<and> t - f \<le> 90 * day \<longrightarrow> since = f \<and> until = t)"
proof -
  obtain now v where now: "time_now w = (now, v)" by fastforce
  have "clock w' = now" and "w' = v"
    using assms now time_now_mono [OF now] by (auto simp: parseTimeRange_def Let_def)
  moreover have "date_or s d = u" if "parse_date s = Some u" for s d u
    using that by (auto simp: date_or_def parse_date_def)
  ultimately show ?thesis
    using assms now by (auto simp: parseTimeRange_def Let_def)
qed

theorem period_bounded_witness:
  "snd (fst (parseTimeRange (plain_request ''GET'' ''/'') (empty_world (1000 * day) ()))) \<le> 1000 * day"
  using period_bounded [of "plain_request ''GET'' ''/''" "empty_world (1000 * day) ()"]
  by (cases "parseTimeRange (plain_request ''GET'' ''/'') (empty_world (1000 * day) ())")
    (auto simp: parseTimeRange_def Let_def)

text \<open>
  The cap is applied before the end is pulled back to now: a request for a far future end gets an
  empty period.
\<close>

lemma future_end_is_empty:
  assumes "parse_date (query_get q ''to'') = Some t" and "clock (snd (time_now w)) + 90 * day < t"
    and "query_get q ''from'' = []"
  shows "snd (fst (parseTimeRange q w)) < fst (fst (parseTimeRange q w))"
proof -
  obtain now v where now: "time_now w = (now, v)" by fastforce
  then have "clock v = now" using time_now_mono [OF now] by simp
  then show ?thesis
    using assms by (auto simp: parseTimeRange_def Let_def now date_or_def duration_defs day_def
        parse_date_def split: if_splits)
qed

section \<open>The response\<close>

text \<open>The reference total of a key over rows, each row's entries of that key added up.\<close>

definition total_of :: "(daily_stats \<Rightarrow> (string \<times> int) list) \<Rightarrow> daily_stats list \<Rightarrow> string \<Rightarrow> int" where
  "total_of f rows k = sum_list (map (\<lambda>r. sum_list (map snd (filter (\<lambda>kv. fst kv = k) (f r)))) rows)"

lemma add_breakdown_snoc: "add_breakdown m (kvs @ [kv]) = bump (fst kv) (snd kv) (add_breakdown m kvs)"
  by (simp add: add_breakdown_def case_prod_beta)

lemma add_breakdown_entry:
  "entry (add_breakdown m kvs) k = entry m k + sum_list (map snd (filter (\<lambda>kv. fst kv = k) kvs))"
  by (induction kvs rule: rev_induct) (simp_all add: add_breakdown_snoc bump_entry add_breakdown_def [of _ "[]"])

lemma add_breakdown_distinct: "distinct (map fst m) \<Longrightarrow> distinct (map fst (add_breakdown m kvs))"
  by (induction kvs rule: rev_induct) (simp_all add: add_breakdown_snoc bump_distinct add_breakdown_def [of _ "[]"])

lemma totals_snoc: "totals f (rows @ [r]) = add_breakdown (totals f rows) (f r)"
  by (simp add: totals_def)

lemma totals_entry: "entry (totals f rows) k = total_of f rows k"
  by (induction rows rule: rev_induct)
    (simp_all add: totals_snoc add_breakdown_entry total_of_def totals_def [of _ "[]"] entry_def [of "[]"])

lemma totals_distinct: "distinct (map fst (totals f rows))"
  by (induction rows rule: rev_induct) (simp_all add: totals_snoc add_breakdown_distinct totals_def [of _ "[]"])

lemma entry_in: "distinct (map fst m) \<Longrightarrow> (k, v) \<in> set m \<Longrightarrow> entry m k = v"
  by (simp add: entry_def)

lemma sum_list_same: "mset xs = mset ys \<Longrightarrow> sum_list (map f xs) = sum_list (map f ys)" for f :: "'a \<Rightarrow> int"
  by (metis mset_map sum_mset_sum_list)

lemma total_of_same: "mset xs = mset ys \<Longrightarrow> total_of f xs k = total_of f ys k"
  unfolding total_of_def by (rule sum_list_same)

lemma Summary_Inr:
  assumes "GetAnalyticsSummary i a b w = (r, w')"
  shows "w_daily_stats w' = w_daily_stats w"
    and "r = Inr s \<Longrightarrow> as_total_clicks s = sum_list (map ds_total_clicks (filter (in_period i a b) (w_daily_stats w)))
      \<and> as_unique_visitors s = sum_list (map ds_unique_visitors (filter (in_period i a b) (w_daily_stats w)))"
proof -
  obtain g v where g: "call (pg_summary i a b) w = (g, v)" by fastforce
  from g obtain os where at: "v = w\<lparr>outcomes := os\<rparr> \<or> v = snd (pg_summary i a b (w\<lparr>outcomes := os\<rparr>))"
    and got: "\<And>y. g = Inr y \<Longrightarrow> pg_summary i a b (w\<lparr>outcomes := os\<rparr>) = (Inr y, v)"
    by (rule call_at) blast
  from assms g have "w' = v" by (auto simp: GetAnalyticsSummary_def Let_def split: sum.splits prod.splits)
  with at show "w_daily_stats w' = w_daily_stats w" by (auto simp: pg_summary_def Let_def)
  show "as_total_clicks s = sum_list (map ds_total_clicks (filter (in_period i a b) (w_daily_stats w)))
      \<and> as_unique_visitors s = sum_list (map ds_unique_visitors (filter (in_period i a b) (w_daily_stats w)))"
    if "r = Inr s"
    using that assms g got
    by (cases g) (auto simp: GetAnalyticsSummary_def pg_summary_def Let_def split: prod.splits)
qed

lemma DailyStats_Inr:
  assumes "GetDailyStats i a b w = (Inr stats, w')"
  shows "stats = sort_key (\<lambda>r. - ds_date r) (filter (in_period i a b) (w_daily_stats w))"
proof -
  obtain g v where g: "call (pg_daily_stats i a b) w = (g, v)" by fastforce
  with assms have "g = Inr stats" by (auto simp: GetDailyStats_def split: sum.splits)
  with g have "call (pg_daily_stats i a b) w = (Inr stats, v)" by simp
  then obtain u where "next_outcome w = (Up, u)" and "pg_daily_stats i a b u = (Inr stats, v)"
    by (rule call_Inr_cases)
  moreover from this(1) have "w_daily_stats u = w_daily_stats w"
    using next_outcome_frame(5) [of w] by simp
  ultimately show ?thesis by (simp add: pg_daily_stats_def)
qed

text \<open>C36: A response 200 to an analytics request agrees with the rows of daily statistics of its period:
  the totals of the summary are the sums over these rows, the daily part lists them newest first, the
  clicks of every listed referrer and country are its total over them, and the list holds the ten
  largest totals in descending order.\<close>

theorem analytics_response_exact:
  assumes "GetLinkAnalytics Q q x w = (x', w')" and "rw_reply x = None" and "status_of x' = 200"
    and "\<And>m. mset (Q m) = mset m"
    and "parseTimeRange q w = ((since, until), v)"
    and "rows = sort_key (\<lambda>r. - ds_date r) (filter (in_period (path_value q ''id'') since until) (w_daily_stats w))"
  shows "\<exists>r. rw_body x' = rw_body x @ [Json (analytics_json r)] \<and> ar_link_id r = path_value q ''id''
    \<and> ar_from r = format_date since \<and> ar_to r = format_date until
    \<and> as_total_clicks (ar_summary r) = sum_list (map ds_total_clicks rows)
    \<and> as_unique_visitors (ar_summary r) = sum_list (map ds_unique_visitors rows)
    \<and> (''daily'' \<in> set (parseIncludes q) \<longrightarrow> ar_daily r = map day_entry rows)
    \<and> (''referrers'' \<in> set (parseIncludes q) \<longrightarrow>
        map rb_clicks (ar_referrers r) = take 10 (rev (sort (map snd (totals ds_referrers rows)))))
    \<and> (\<forall>b \<in> set (ar_referrers r). rb_clicks b = total_of ds_referrers rows (rb_domain b))
    \<and> (\<forall>b \<in> set (ar_countries r). cb_clicks b = total_of ds_countries rows (cb_code b))"
proof -
  let ?i = "path_value q ''id''"
  have w1: "w_daily_stats v = w_daily_stats w"
    using assms(5) time_now_frame(5) [of w]
    by (cases "time_now w") (auto simp: parseTimeRange_def Let_def)
  obtain g w2 where g: "GetAnalyticsSummary ?i since until v = (g, w2)" by fastforce
  obtain d w3 where d: "GetDailyStats ?i since until w2 = (d, w3)" by fastforce
  have i: "?i \<noteq> []" using assms(1-3) by (auto simp: GetLinkAnalytics_def analytics_error_def http_simps)
  obtain summary where summary: "g = Inr summary"
    using assms(1-3,5) i g by (cases g) (auto simp: GetLinkAnalytics_def analytics_error_def http_simps)
  obtain stats where stats: "d = Inr stats"
    using assms(1-3,5) i g summary d by (cases d) (auto simp: GetLinkAnalytics_def analytics_error_def http_simps)
  obtain r w4 where r: "buildAnalyticsResponse Q ?i since until summary stats (parseIncludes q) w3 = (r, w4)"
    by fastforce
  have x': "x' = writeJSON 200 (analytics_json r) x"
    using assms(1,5) i g summary d stats r by (simp add: GetLinkAnalytics_def Let_def)
  have rows: "stats = rows"
    using DailyStats_Inr [OF d [unfolded stats]] Summary_Inr(1) [OF g] w1 assms(6) by simp
  have sums: "as_total_clicks summary = sum_list (map ds_total_clicks rows)"
    "as_unique_visitors summary = sum_list (map ds_unique_visitors rows)"
    using Summary_Inr(2) [OF g summary] w1 assms(6)
      sum_list_same [OF mset_sort, of _ "\<lambda>r. - ds_date r" "filter (in_period ?i since until) (w_daily_stats w)"]
    by simp_all
  have ref: "rb_clicks b = total_of ds_referrers rows (rb_domain b)"
    if "b \<in> set (sortedBreakdown Q (totals ds_referrers rows) 10)" for b
    using breakdown_entries(1) [where Q = Q, OF assms(4) totals_distinct that]
    by (auto simp: totals_entry [symmetric] entry_in [OF totals_distinct])
  have cty: "cb_clicks b = total_of ds_countries rows (cb_code b)"
    if "b \<in> set (sortedCountryBreakdown Q (totals ds_countries rows) 10)" for b
    using breakdown_entries(2) [where Q = Q, OF assms(4) totals_distinct that]
    by (auto simp: totals_entry [symmetric] entry_in [OF totals_distinct])
  show ?thesis
    using r x' rows sums ref cty breakdown_counts(1) [where Q = Q and m = "totals ds_referrers rows" and limit = 10, OF assms(4) totals_distinct]
    by (intro exI [of _ r]) (auto simp: buildAnalyticsResponse_def http_simps split: prod.splits)
qed

definition stats_world :: "unit world" where
  "stats_world = (empty_world (1000 * day) ())\<lparr>w_daily_stats :=
     [\<lparr>ds_id = ''s1'', ds_link_id = ''l1'', ds_date = 999 * day, ds_total_clicks = 4, ds_unique_visitors = 2,
       ds_referrers = [(''a.org'', 3), (''(direct)'', 1)], ds_ua_families = [], ds_countries = [(''TH'', 4)],
       ds_created_at = 0, ds_updated_at = 0\<rparr>]\<rparr>"

theorem analytics_response_exact_witness:
  "\<exists>r. rw_body (fst (GetLinkAnalytics rev ((plain_request ''GET'' ''/'')\<lparr>rq_params := [(''id'', ''l1'')]\<rparr>) new_writer
      stats_world)) = [Json (analytics_json r)] \<and> as_total_clicks (ar_summary r) = 4"
proof -
  let ?q = "(plain_request ''GET'' ''/'')\<lparr>rq_params := [(''id'', ''l1'')]\<rparr>"
  have id: "path_value ?q ''id'' = ''l1''" by (simp add: path_value_def lookup_str_def)
  have none: "query_get ?q k = []" for k by (simp add: query_get_def plain_request_def lookup_str_def)
  have range: "parseTimeRange ?q stats_world = ((993 * day, 1000 * day), stats_world)"
    by (simp add: parseTimeRange_def none date_or_def stats_world_def empty_world_def duration_defs day_def)
  obtain x' w' where run: "GetLinkAnalytics rev ?q new_writer stats_world = (x', w')" by fastforce
  have "outcomes stats_world = []" by (simp add: stats_world_def empty_world_def)
  then have "status_of x' = 200"
    using run range by (auto simp: GetLinkAnalytics_def id Let_def GetAnalyticsSummary_def pg_summary_def
        GetDailyStats_def pg_daily_stats_def http_simps split: prod.splits)
  moreover have "filter (in_period ''l1'' (993 * day) (1000 * day)) (w_daily_stats stats_world) = w_daily_stats stats_world"
    by (simp add: stats_world_def in_period_def day_start_def day_def duration_defs)
  ultimately show ?thesis
    using analytics_response_exact [OF run _ _ _ range refl] run
    by (auto simp: id stats_world_def)
qed

end
