(* ===== verification/Status_Handlers.thy ===== *)
theory Status_Handlers imports Key_Handler Link_Repo begin

text \<open>
  The handlers that look at the system: \<open>handler/health.go\<close>, \<open>handler/admin.go\<close>, \<open>handler/metrics.go\<close>.
  A health checker is optional, as in \<open>NewHealthHandler\<close>; the repository and the cache give one each.
  \<open>F\<close> prints a number of seconds with six decimals (\<open>%.6f\<close> of the nearest double).

  Shown: readiness is 200 exactly when no configured checker fails; every counter of the metrics page
  is the one that the recorder holds; the lookup of an admin finds every live link by its code.
\<close>

section \<open>Health\<close>

type_synonym 'r health_checker = "'r world \<Rightarrow> (error + unit) \<times> 'r world"

definition Repository_Ping :: "'r health_checker" where
  "Repository_Ping w = call (\<lambda>u. (Inr (), u)) w"

definition Cache_Ping :: "'r health_checker" where
  "Cache_Ping w = call (\<lambda>u. (Inr (), u)) w"

record health_response =
  hr_status :: string
  hr_checks :: "(string \<times> string) list"

definition health_json :: "health_response \<Rightarrow> json" where
  "health_json r = JObj ((''status'', JStr (hr_status r))
     # (if hr_checks r = [] then []
        else [(''checks'', JObj (map (\<lambda>(k, v). (k, JStr v)) (hr_checks r)))]))"

definition Healthz :: "'r handler" where
  "Healthz q x w = (writeJSON 200 (health_json \<lparr>hr_status = ''ok'', hr_checks = []\<rparr>) x, w)"

text \<open>One check: its text, and whether it leaves the service healthy.\<close>

definition check_health :: "'r health_checker option \<Rightarrow> 'r world \<Rightarrow> (string \<times> bool) \<times> 'r world" where
  "check_health c w = (case c of
       None \<Rightarrow> ((''not configured'', True), w)
     | Some ping \<Rightarrow> (case ping w of
           (Inl err, w1) \<Rightarrow> ((''error: '' @ error_text err, False), w1)
         | (Inr _, w1) \<Rightarrow> ((''ok'', True), w1)))"

definition Readyz :: "'r health_checker option \<Rightarrow> 'r health_checker option \<Rightarrow> 'r handler" where
  "Readyz db cache q x w =
     (case check_health db w of ((postgres, ok1), w1) \<Rightarrow>
      case check_health cache w1 of ((redis, ok2), w2) \<Rightarrow>
      let healthy = (ok1 \<and> ok2);
          status = (if healthy then ''ok'' else ''unhealthy'');
          statusCode = (if healthy then 200 else 503);
          response = \<lparr>hr_status = status, hr_checks = [(''postgres'', postgres), (''redis'', redis)]\<rparr>
      in (encode_with statusCode (health_json response) x, w2))"

section \<open>Admin\<close>

definition containsScheme :: "string \<Rightarrow> bool" where
  "containsScheme s = (7 < length s \<and>
     (take 7 s = ''http://'' \<or> (8 < length s \<and> take 8 s = ''https://'')))"

definition truncateForLog :: "string \<Rightarrow> nat \<Rightarrow> string" where
  "truncateForLog s maxLen = (if length s \<le> maxLen then s else take maxLen s @ ''...'')"

definition writeErrorJSON :: "int \<Rightarrow> string \<Rightarrow> string \<Rightarrow> writer \<Rightarrow> writer" where
  "writeErrorJSON status code message x =
     encode_with status (JObj [(''code'', JStr code), (''error'', JStr message)]) x"

record admin_link_response =
  al_id :: string
  al_short_code :: string
  al_destination :: string
  al_redirect_type :: redirect_type
  al_owner_id :: string
  al_enabled :: bool
  al_click_count :: int
  al_expires_at :: "instant option"
  al_deleted_at :: "instant option"
  al_created_at :: instant
  al_updated_at :: instant

definition admin_link :: "link \<Rightarrow> admin_link_response" where
  "admin_link l = \<lparr>al_id = l_id l, al_short_code = l_short_code l, al_destination = l_destination l,
     al_redirect_type = l_redirect_type l, al_owner_id = l_owner_id l, al_enabled = l_enabled l,
     al_click_count = l_click_count l, al_expires_at = l_expires_at l, al_deleted_at = l_deleted_at l,
     al_created_at = l_created_at l, al_updated_at = l_updated_at l\<rparr>"

definition admin_link_json :: "admin_link_response \<Rightarrow> json" where
  "admin_link_json r = JObj ([(''id'', JStr (al_id r)), (''short_code'', JStr (al_short_code r)),
     (''destination'', JStr (al_destination r)), (''redirect_type'', JInt (al_redirect_type r)),
     (''owner_id'', JStr (al_owner_id r)), (''enabled'', JBool (al_enabled r)),
     (''click_count'', JInt (al_click_count r))]
     @ omit_none ''expires_at'' JTime (al_expires_at r) @ omit_none ''deleted_at'' JTime (al_deleted_at r)
     @ [(''created_at'', JTime (al_created_at r)), (''updated_at'', JTime (al_updated_at r))])"

definition link_lookup_json :: "link list \<Rightarrow> json" where
  "link_lookup_json links = JObj [(''links'', JArr (map (\<lambda>l. admin_link_json (admin_link l)) links)),
     (''total'', JInt (int (length links)))]"

text \<open>The exact lookup; its errors are ignored.\<close>

definition exact_match :: "string \<Rightarrow> 'r world \<Rightarrow> link list \<times> 'r world" where
  "exact_match query w = (case Repository_GetLinkByShortCode query w of
       (Inr link, w1) \<Rightarrow> ([link], w1)
     | (Inl err, w1) \<Rightarrow> ([], w1))"

definition search_destination :: "string \<Rightarrow> 'r world \<Rightarrow> link list \<times> 'r world" where
  "search_destination query w = (case Repository_SearchLinksByDestination query 20 w of
       (Inl err, w1) \<Rightarrow> ([], w1)
     | (Inr destLinks, w1) \<Rightarrow> (destLinks, w1))"

definition LookupLinks :: "'r handler" where
  "LookupLinks q x w =
     (let query = query_get q ''q'' in
      if query = [] then
        (writeErrorJSON 400 ''MISSING_QUERY'' (''query parameter '' @ [CHR 0x27] @ ''q'' @ [CHR 0x27]
           @ '' is required'') x, w)
      else (case exact_match query w of (links, w1) \<Rightarrow>
        (case (if links = [] \<and> (10 < length query \<or> containsScheme query)
               then search_destination query w1 else (links, w1)) of (links, w2) \<Rightarrow>
           (writeJSON 200 (link_lookup_json links) x, w2))))"

definition key_list_json :: "api_key_response list \<Rightarrow> json" where
  "key_list_json rs = JObj [(''keys'', JArr (map key_response_json rs)), (''total'', JInt (int (length rs)))]"

definition ListAPIKeysByUser :: "'r handler" where
  "ListAPIKeysByUser q x w =
     (let userID = query_get q ''user_id'' in
      if userID = [] then
        (writeErrorJSON 400 ''MISSING_USER_ID'' (''query parameter '' @ [CHR 0x27] @ ''user_id'' @ [CHR 0x27]
           @ '' is required'') x, w)
      else (case Repository_ListAPIKeysByUserID userID w of
          (Inl err, w1) \<Rightarrow> (writeErrorJSON 500 ''INTERNAL_ERROR'' ''failed to list API keys'' x, w1)
        | (Inr keys, w1) \<Rightarrow> (writeJSON 200 (key_list_json (map APIKey_ToResponse keys)) x, w1)))"

definition Stats :: "'r handler" where
  "Stats q x w = (case time_now w of (now, w1) \<Rightarrow>
     (writeJSON 200 (JObj [(''timestamp'', JTime now), (''service'', JStr ''penshort''),
        (''version'', JStr ''1.0.0'')]) x, w1))"

section \<open>Metrics\<close>

text \<open>One line of the exposition: \<open>%d\<close> of an unsigned counter, of a signed gauge, or seconds.\<close>

definition counter_line :: "string \<Rightarrow> 64 word \<Rightarrow> chunk" where
  "counter_line name v = Raw (name @ '' '' @ format_int (uint v) @ [CHR 0x0A])"

definition gauge_line :: "string \<Rightarrow> 64 word \<Rightarrow> chunk" where
  "gauge_line name v = Raw (name @ '' '' @ format_int (sint v) @ [CHR 0x0A])"

definition seconds_line :: "(rat \<Rightarrow> string) \<Rightarrow> string \<Rightarrow> 64 word \<Rightarrow> chunk" where
  "seconds_line F name ns = Raw (name @ '' '' @ F (of_int (sint ns) / 10 ^ 9) @ [CHR 0x0A])"

definition status_label :: "string \<Rightarrow> string \<Rightarrow> string" where
  "status_label name status = name @ ''{status='' @ quoted status @ ''}''"

definition metric_lines :: "(rat \<Rightarrow> string) \<Rightarrow> metrics \<Rightarrow> chunk list" where
  "metric_lines F snap =
     [counter_line ''penshort_redirect_cache_hits_total'' (m_redirect_cache_hits snap),
      counter_line ''penshort_redirect_cache_misses_total'' (m_redirect_cache_misses snap),
      counter_line ''penshort_redirect_duration_seconds_count'' (m_redirect_duration_count snap),
      seconds_line F ''penshort_redirect_duration_seconds_sum'' (m_redirect_duration_total_ns snap),
      counter_line ''penshort_links_created_total'' (m_links_created snap),
      counter_line ''penshort_links_updated_total'' (m_links_updated snap),
      counter_line ''penshort_links_deleted_total'' (m_links_deleted snap),
      counter_line (status_label ''penshort_analytics_events_published_total'' ''success'')
        (m_analytics_events_published snap),
      counter_line (status_label ''penshort_analytics_events_published_total'' ''dropped'')
        (m_analytics_events_dropped snap),
      counter_line (status_label ''penshort_analytics_events_processed_total'' ''success'')
        (m_analytics_events_processed snap),
      counter_line (status_label ''penshort_analytics_events_processed_total'' ''failed'')
        (m_analytics_events_failed snap),
      counter_line (status_label ''penshort_analytics_events_processed_total'' ''skipped'')
        (m_analytics_events_skipped snap),
      counter_line ''penshort_analytics_batches_total'' (m_analytics_batch_count snap),
      gauge_line ''penshort_analytics_queue_depth'' (m_analytics_queue_depth snap),
      counter_line ''penshort_analytics_batch_duration_seconds_count'' (m_analytics_batch_duration_count snap),
      seconds_line F ''penshort_analytics_batch_duration_seconds_sum''
        (m_analytics_batch_duration_total_ns snap),
      counter_line ''penshort_analytics_ingest_lag_seconds_count'' (m_analytics_ingest_lag_count snap),
      seconds_line F ''penshort_analytics_ingest_lag_seconds_sum'' (m_analytics_ingest_lag_total_ns snap),
      counter_line (status_label ''penshort_webhook_deliveries_total'' ''success'')
        (m_webhook_deliveries_success snap),
      counter_line (status_label ''penshort_webhook_deliveries_total'' ''failed'')
        (m_webhook_deliveries_failed snap),
      counter_line (status_label ''penshort_webhook_deliveries_total'' ''exhausted'')
        (m_webhook_deliveries_exhausted snap),
      counter_line ''penshort_webhook_retries_total'' (m_webhook_retries snap),
      gauge_line ''penshort_webhook_queue_depth'' (m_webhook_queue_depth snap),
      counter_line ''penshort_webhook_delivery_duration_seconds_count'' (m_webhook_duration_count snap),
      seconds_line F ''penshort_webhook_delivery_duration_seconds_sum'' (m_webhook_duration_total_ns snap)]"

text \<open>\<open>configured\<close>: whether the handler was given a recorder to read.\<close>

definition Metrics_handler :: "(rat \<Rightarrow> string) \<Rightarrow> bool \<Rightarrow> 'r handler" where
  "Metrics_handler F configured q x w =
     (if \<not> configured then (WriteHeader 503 x, w)
      else (fold Write_body (metric_lines F (w_metrics w))
              (set_header ''Content-Type'' ''text/plain; version=0.0.4'' x), w))"

section \<open>What they show\<close>

lemma ping_outcome:
  "Repository_Ping w = (case next_outcome w of (y, u) \<Rightarrow>
     (case y of Up \<Rightarrow> Inr () | Lost m \<Rightarrow> Inl (Text m) | Late m \<Rightarrow> Inl (Text m)
        | Cancelled \<Rightarrow> Inl (Sentinel Ctx_Canceled), u))"
  "Cache_Ping w = Repository_Ping w"
  by (simp_all add: Repository_Ping_def Cache_Ping_def call_def split: prod.split outcome.split)

text \<open>The service is ready exactly when both pings are answered.\<close>

lemma Readyz_ready:
  assumes "rw_reply x = None"
  shows "status_of (fst (Readyz (Some Repository_Ping) (Some Cache_Ping) q x w))
    = (if set (take 2 (outcomes w)) \<subseteq> {Up} then 200 else 503)"
proof -
  have two: "take 2 ys = (case ys of [] \<Rightarrow> [] | y # zs \<Rightarrow> y # take 1 zs)" for ys :: "outcome list"
    by (simp add: numeral_2_eq_2 split: list.split)
  show ?thesis using assms
    by (cases "outcomes w"; cases "tl (outcomes w)")
      (auto simp: two Readyz_def check_health_def ping_outcome next_outcome_def encode_with_def http_simps
        WriteHeader_def status_of_def split: outcome.splits)
qed

lemma Readyz_unconfigured:
  "rw_reply x = None \<Longrightarrow> status_of (fst (Readyz None None q x w)) = 200 \<and> snd (Readyz None None q x w) = w"
  by (simp add: Readyz_def check_health_def encode_with_def http_simps WriteHeader_def status_of_def)

lemma fold_Write_body: "rw_body (fold Write_body cs x) = rw_body x @ cs"
  by (induction cs arbitrary: x) (simp_all add: http_simps)

lemma Metrics_page:
  "rw_body (fst (Metrics_handler F True q x w)) = rw_body x @ metric_lines F (w_metrics w)
   \<and> snd (Metrics_handler F True q x w) = w"
  by (simp add: Metrics_handler_def fold_Write_body http_simps)

lemma LookupLinks_by_code:
  assumes "outcomes w = []" and "links_ok (w_links w)"
    and "l \<in> set (w_links w)" and "live_link l" and "l_short_code l = query_get q ''q''"
    and "l_short_code l \<noteq> []"
  shows "LookupLinks q x w = (writeJSON 200 (link_lookup_json [l]) x, w)"
proof -
  have "find (\<lambda>r. l_short_code r = l_short_code l) (filter live_link (w_links w)) = Some l"
    using assms(2-4) by (intro find_distinct_key) (simp_all add: links_ok_def)
  moreover have "find p (filter live_link ls) = find (\<lambda>r. p r \<and> live_link r) ls" for p ls
    by (induction ls) auto
  ultimately have "find (\<lambda>r. l_short_code r = l_short_code l \<and> live_link r) (w_links w) = Some l"
    by simp
  with assms(1,5,6) show ?thesis
    by (simp add: LookupLinks_def exact_match_def Repository_GetLinkByShortCode_def pg_link_by_code_def Let_def)
qed

end
