(* ===== verification/Server.thy ===== *)
theory Server imports Middleware begin

text \<open>
  The life of the server process: \<open>internal/server/server.go\<close>, the derived settings of
  \<open>internal/config/config.go\<close>, the helpers of \<open>cmd/api/main.go\<close> that are not the router, and
  \<open>analytics/consumer_id.go\<close>. A component registered for shutdown is a function on the state \<open>'s\<close> of
  the process, which may fail; stopping the HTTP server is one too.

  Shown: a shutdown stops every registered component exactly once, the last registered first, whatever
  fails, and reports the first failure; the origins of the configuration are trimmed and not empty.
\<close>

section \<open>server.go\<close>

type_synonym 's shutdown_func = "'s \<Rightarrow> error option \<times> 's"

record ('h, 's) server =
  sv_addr :: string
  sv_handler :: 'h
  sv_read_timeout :: duration
  sv_write_timeout :: duration
  sv_http_shutdown :: "'s shutdown_func"
  sv_shutdown_timeout :: duration
  sv_shutdown_funcs :: "'s shutdown_func list"

definition Server_New :: "'s shutdown_func \<Rightarrow> 'h \<Rightarrow> int \<Rightarrow> duration \<Rightarrow> duration \<Rightarrow> duration
    \<Rightarrow> ('h, 's) server" where
  "Server_New httpShutdown handler port readTimeout writeTimeout shutdownTimeout =
     \<lparr>sv_addr = CHR '':'' # format_int port, sv_handler = handler, sv_read_timeout = readTimeout,
      sv_write_timeout = writeTimeout, sv_http_shutdown = httpShutdown,
      sv_shutdown_timeout = shutdownTimeout, sv_shutdown_funcs = []\<rparr>"

definition OnShutdown :: "string \<Rightarrow> 's shutdown_func \<Rightarrow> ('h, 's) server \<Rightarrow> ('h, 's) server" where
  "OnShutdown name fn sv = sv\<lparr>sv_shutdown_funcs := sv_shutdown_funcs sv
     @ [\<lambda>s. case fn s of (Some err, s') \<Rightarrow> (Some err, s') | (None, s') \<Rightarrow> (None, s')]\<rparr>"

text \<open>The loop at the index after the next one to run, with the errors so far.\<close>

fun shutdown_loop :: "'s shutdown_func list \<Rightarrow> nat \<Rightarrow> error list \<Rightarrow> 's \<Rightarrow> error list \<times> 's" where
  "shutdown_loop funcs 0 errs s = (errs, s)"
| "shutdown_loop funcs (Suc i) errs s = (case (funcs ! i) s of
     (Some err, s') \<Rightarrow> shutdown_loop funcs i (errs @ [err]) s'
   | (None, s') \<Rightarrow> shutdown_loop funcs i errs s')"

definition gracefulShutdown :: "('h, 's) server \<Rightarrow> 's \<Rightarrow> error option \<times> 's" where
  "gracefulShutdown sv s =
     (case sv_http_shutdown sv s of (_, s1) \<Rightarrow>
      let funcs = sv_shutdown_funcs sv in
      (case shutdown_loop funcs (length funcs) [] s1 of (errs, s2) \<Rightarrow>
        (if errs \<noteq> [] then (Some (hd errs), s2) else (None, s2))))"

text \<open>What \<open>Run\<close> waits for: the end of the listener, or a signal.\<close>

datatype server_event = ServerErr error | ShutdownSignal

definition Server_Run :: "server_event \<Rightarrow> ('h, 's) server \<Rightarrow> 's \<Rightarrow> error option \<times> 's" where
  "Server_Run e sv s = (case e of
       ServerErr err \<Rightarrow> (Some (Wrap ''server error'' err), s)
     | ShutdownSignal \<Rightarrow> gracefulShutdown sv s)"

definition Server_Addr :: "('h, 's) server \<Rightarrow> string" where "Server_Addr sv = sv_addr sv"

section \<open>config.go and main.go\<close>

record app_config =
  cf_app_env :: string
  cf_app_port :: int
  cf_database_url :: string
  cf_redis_url :: string
  cf_base_url :: string
  cf_log_level :: string
  cf_log_format :: string
  cf_read_timeout :: duration
  cf_write_timeout :: duration
  cf_shutdown_timeout :: duration
  cf_rate_limit_api_enabled :: bool
  cf_rate_limit_redirect_enabled :: bool
  cf_rate_limit_redirect_rps :: int
  cf_rate_limit_redirect_burst :: int
  cf_cors_allowed_origins :: string
  cf_max_request_body_size :: int
  cf_webhook_allow_insecure :: bool

definition IsDevelopment :: "app_config \<Rightarrow> bool" where
  "IsDevelopment c = (cf_app_env c = ''development'')"

definition IsProduction :: "app_config \<Rightarrow> bool" where
  "IsProduction c = (cf_app_env c = ''production'')"

definition GetCORSAllowedOrigins :: "app_config \<Rightarrow> string list" where
  "GetCORSAllowedOrigins c = (if cf_cors_allowed_origins c = [] then []
     else let origins = split_on (CHR '','') (cf_cors_allowed_origins c) in
       foldl (\<lambda>result origin. let trimmed = trim_space origin
         in if trimmed \<noteq> [] then result @ [trimmed] else result) [] origins)"

definition parseLogLevel :: "string \<Rightarrow> log_level" where
  "parseLogLevel level = (if level = ''debug'' then LevelDebug else if level = ''info'' then LevelInfo
     else if level = ''warn'' then LevelWarn else if level = ''error'' then LevelError else LevelInfo)"

text \<open>The part of \<open>net/url\<close> that \<open>redactURL\<close> uses.\<close>

record 'u url_ops =
  uo_parse :: "string \<Rightarrow> 'u option"
  uo_user :: "'u \<Rightarrow> string option"
  uo_set_user :: "string \<Rightarrow> 'u \<Rightarrow> 'u"
  uo_string :: "'u \<Rightarrow> string"

definition redactURL :: "'u url_ops \<Rightarrow> string \<Rightarrow> string" where
  "redactURL N raw = (if raw = [] then []
     else (case uo_parse N raw of
         None \<Rightarrow> ''[redacted]''
       | Some parsed \<Rightarrow> (case uo_user N parsed of
             None \<Rightarrow> uo_string N parsed
           | Some username \<Rightarrow> uo_string N (uo_set_user N
               (if username = [] then ''redacted'' else username) parsed))))"

text \<open>\<open>strings.ReplaceAll\<close> of a non-empty text.\<close>

function ReplaceAll :: "string \<Rightarrow> string \<Rightarrow> string \<Rightarrow> string" where
  "ReplaceAll s old new = (if s = [] \<or> old = [] then s
     else if has_prefix s old then new @ ReplaceAll (drop (length old) s) old new
     else hd s # ReplaceAll (tl s) old new)"
  by auto
termination by (relation "measure (\<lambda>(s, old, new). length s)") auto

declare ReplaceAll.simps [simp del]

text \<open>The pattern \<open>(?i)password=[^\\s]+\<close> and its replacement.\<close>

definition pattern_space :: "char \<Rightarrow> bool" where
  "pattern_space c = (c \<in> {CHR '' '', CHR 0x09, CHR 0x0A, CHR 0x0C, CHR 0x0D})"

definition password_at :: "string \<Rightarrow> bool" where
  "password_at s = (has_prefix (to_lower s) ''password='')"

definition passwordPattern_at :: "string \<Rightarrow> bool" where
  "passwordPattern_at s = (password_at s \<and> 9 < length s \<and> \<not> pattern_space (s ! 9))"

function redact_passwords :: "string \<Rightarrow> string" where
  "redact_passwords s = (if s = [] then []
     else if passwordPattern_at s
       then ''password=redacted'' @ redact_passwords (dropWhile (\<lambda>c. \<not> pattern_space c) (drop 9 s))
     else hd s # redact_passwords (tl s))"
  by auto
termination
proof (relation "measure length")
  show "wf (measure length)" by simp
next
  fix s :: string
  assume "s \<noteq> []" and "passwordPattern_at s"
  have "length (dropWhile (\<lambda>c. \<not> pattern_space c) (drop 9 s)) \<le> length (drop 9 s)"
    by (rule length_dropWhile_le)
  also have "\<dots> < length s" using \<open>s \<noteq> []\<close> by (cases s) auto
  finally show "(dropWhile (\<lambda>c. \<not> pattern_space c) (drop 9 s), s) \<in> measure length" by simp
next
  fix s :: string
  assume "s \<noteq> []"
  then show "(tl s, s) \<in> measure length" by (cases s) auto
qed

declare redact_passwords.simps [simp del]

definition replace_secret :: "'u url_ops \<Rightarrow> string \<Rightarrow> string \<Rightarrow> string" where
  "replace_secret N msg secret = (if secret = [] then msg
     else let redacted = redactURL N secret;
              redacted = (if redacted = [] then ''[redacted]'' else redacted)
          in ReplaceAll msg secret redacted)"

definition sanitizeError :: "'u url_ops \<Rightarrow> error option \<Rightarrow> string list \<Rightarrow> string" where
  "sanitizeError N err secrets = (case err of None \<Rightarrow> []
     | Some e \<Rightarrow> redact_passwords (foldl (replace_secret N) (error_text e) secrets))"

text \<open>\<open>host\<close> is what \<open>os.Hostname\<close> gives, \<open>pid\<close> the process id.\<close>

definition NewConsumerID :: "string option \<Rightarrow> int \<Rightarrow> 'r world \<Rightarrow> string \<times> 'r world" where
  "NewConsumerID hostname pid w =
     (let host = (case hostname of None \<Rightarrow> ''worker'' | Some h \<Rightarrow> if h = [] then ''worker'' else h)
      in case time_now w of (now, w1) \<Rightarrow>
        (host @ ''-'' @ format_int pid @ ''-'' @ format_int now, w1))"

section \<open>What a shutdown does\<close>

text \<open>The order promised: one after the other, never stopping at an error.\<close>

fun stop_each :: "'s shutdown_func list \<Rightarrow> 's \<Rightarrow> error list \<times> 's" where
  "stop_each [] s = ([], s)"
| "stop_each (f # fs) s = (case f s of (e, s1) \<Rightarrow> (case stop_each fs s1 of (es, s2) \<Rightarrow>
     ((case e of None \<Rightarrow> es | Some err \<Rightarrow> err # es), s2)))"

lemma shutdown_loop_stop_each:
  "n \<le> length funcs \<Longrightarrow> shutdown_loop funcs n errs s
     = (case stop_each (rev (take n funcs)) s of (es, s') \<Rightarrow> (errs @ es, s'))"
proof (induction n arbitrary: errs s)
  case (Suc n)
  then have "rev (take (Suc n) funcs) = funcs ! n # rev (take n funcs)"
    by (simp add: take_Suc_conv_app_nth)
  with Suc show ?case
    by (auto split: prod.split option.split)
qed simp

lemma OnShutdown_registers: "sv_shutdown_funcs (OnShutdown name fn sv) = sv_shutdown_funcs sv @ [fn]"
proof -
  have "(\<lambda>s. case fn s of (Some err, s') \<Rightarrow> (Some err, s') | (None, s') \<Rightarrow> (None, s')) = fn"
    by (auto split: prod.split option.split)
  then show ?thesis by (simp add: OnShutdown_def)
qed

lemma OnShutdown_keeps [simp]: "sv_http_shutdown (OnShutdown name fn sv) = sv_http_shutdown sv"
  by (simp add: OnShutdown_def)

lemma register_all:
  "sv_shutdown_funcs (foldl (\<lambda>sv (name, fn). OnShutdown name fn sv) sv regs)
     = sv_shutdown_funcs sv @ map snd regs"
  "sv_http_shutdown (foldl (\<lambda>sv (name, fn). OnShutdown name fn sv) sv regs) = sv_http_shutdown sv"
  by (induction regs arbitrary: sv) (auto simp: OnShutdown_registers)

text \<open>A server that was given the components of a list, in any number and under any names, and then
  receives the signal, stops the HTTP server first and then every component exactly once, the last
  registered first. No error stops it: neither that of the HTTP server, which is only logged, nor that of
  a component. What it returns is the first error of a component, if there was one.\<close>
theorem shutdown_runs_all:
  "Server_Run ShutdownSignal (foldl (\<lambda>sv (name, fn). OnShutdown name fn sv) (Server_New H h port rt wt t) regs) s
   = (case stop_each (rev (map snd regs)) (snd (H s)) of (errs, s') \<Rightarrow>
       (case errs of [] \<Rightarrow> (None, s') | err # _ \<Rightarrow> (Some err, s')))"
  by (auto simp: Server_Run_def gracefulShutdown_def register_all shutdown_loop_stop_each Server_New_def Let_def
      split: prod.split list.split)

section \<open>What the helpers do\<close>

lemma GetCORSAllowedOrigins_filter:
  "GetCORSAllowedOrigins c = (if cf_cors_allowed_origins c = [] then []
     else filter (\<lambda>s. s \<noteq> []) (map trim_space (split_on (CHR '','') (cf_cors_allowed_origins c))))"
proof -
  have "foldl (\<lambda>result origin. let trimmed = trim_space origin
      in if trimmed \<noteq> [] then result @ [trimmed] else result) acc os
    = acc @ filter (\<lambda>s. s \<noteq> []) (map trim_space os)" for acc os
    by (induction os arbitrary: acc) (auto simp: Let_def)
  then show ?thesis by (simp add: GetCORSAllowedOrigins_def Let_def)
qed

lemma configured_origins: "o1 \<in> set (GetCORSAllowedOrigins c) \<Longrightarrow> o1 \<noteq> [] \<and> (\<exists>s. o1 = trim_space s)"
  by (auto simp: GetCORSAllowedOrigins_filter split: if_splits)

end
