(* ===== verification/Router.thy ===== *)
theory Router imports Rate_Limit Server begin

text \<open>
  \<open>setupRouter\<close> of \<open>cmd/api/main.go\<close>: the middleware around every request and the tree of routes.
  The matching of a path against patterns is that of the \<open>chi\<close> package: a parameter, which is given the
  methods and patterns of a router in the order of their registration, the method and the rest of the
  path, and chooses an entry, with the parameters it binds and the rest of the path for a subrouter. The
  laws that the lemmas use of it are those of the locale \<open>chi_mux\<close>. \<open>RealIP\<close> is a parameter too.

  Shown: behind a protected route a handler sees only requests whose key was authenticated and carries
  the scope of the route, for every mux whatsoever; the codes of the static routes never reach the
  redirect handler, and every other code of one segment does.
\<close>

section \<open>The endpoints\<close>

datatype api_endpoint =
    Ep_Healthz | Ep_Readyz | Ep_Metrics | Ep_Hello | Ep_Redirect | Ep_NotFound | Ep_MethodNotAllowed
  | Ep_ListLinks | Ep_GetLink | Ep_LinkAnalytics | Ep_CreateLink | Ep_UpdateLink | Ep_DeleteLink
  | Ep_ListKeys | Ep_CreateKey | Ep_RevokeKey | Ep_RotateKey
  | Ep_CreateWebhook | Ep_ListWebhooks | Ep_GetWebhook | Ep_UpdateWebhook | Ep_DeleteWebhook
  | Ep_RotateSecret | Ep_ListDeliveries | Ep_RetryDelivery
  | Ep_AdminLinks | Ep_AdminKeys | Ep_AdminStats

text \<open>The scope that each is documented to require; \<open>None\<close> for the public ones.\<close>

fun endpoint_scope :: "api_endpoint \<Rightarrow> string option" where
  "endpoint_scope Ep_ListLinks = Some ScopeRead"
| "endpoint_scope Ep_GetLink = Some ScopeRead"
| "endpoint_scope Ep_LinkAnalytics = Some ScopeRead"
| "endpoint_scope Ep_CreateLink = Some ScopeWrite"
| "endpoint_scope Ep_UpdateLink = Some ScopeWrite"
| "endpoint_scope Ep_DeleteLink = Some ScopeAdmin"
| "endpoint_scope Ep_ListKeys = Some ScopeRead"
| "endpoint_scope Ep_CreateKey = Some ScopeAdmin"
| "endpoint_scope Ep_RevokeKey = Some ScopeAdmin"
| "endpoint_scope Ep_RotateKey = Some ScopeAdmin"
| "endpoint_scope Ep_CreateWebhook = Some ScopeWebhook"
| "endpoint_scope Ep_ListWebhooks = Some ScopeWebhook"
| "endpoint_scope Ep_GetWebhook = Some ScopeWebhook"
| "endpoint_scope Ep_UpdateWebhook = Some ScopeWebhook"
| "endpoint_scope Ep_DeleteWebhook = Some ScopeWebhook"
| "endpoint_scope Ep_RotateSecret = Some ScopeWebhook"
| "endpoint_scope Ep_ListDeliveries = Some ScopeWebhook"
| "endpoint_scope Ep_RetryDelivery = Some ScopeWebhook"
| "endpoint_scope Ep_AdminLinks = Some ScopeAdmin"
| "endpoint_scope Ep_AdminKeys = Some ScopeAdmin"
| "endpoint_scope Ep_AdminStats = Some ScopeAdmin"
| "endpoint_scope _ = None"

section \<open>Routers\<close>

datatype mux_result = Chosen nat "(string \<times> string) list" string | NoRoute | WrongMethod

type_synonym pattern = "string option \<times> string"
type_synonym mux = "pattern list \<Rightarrow> string \<Rightarrow> string \<Rightarrow> mux_result"

text \<open>A node serves the rest of the path. An entry of a router is a method and a pattern, or a mount.\<close>

type_synonym 'r node = "string \<Rightarrow> 'r handler"
type_synonym 'r route_entry = "pattern \<times> 'r node"

definition route :: "string \<Rightarrow> string \<Rightarrow> 'r handler \<Rightarrow> 'r route_entry" where
  "route m p h = ((Some m, p), \<lambda>rest. h)"

definition mount :: "string \<Rightarrow> 'r node \<Rightarrow> 'r route_entry" where
  "mount p n = ((None, p), n)"

definition with_params :: "(string \<times> string) list \<Rightarrow> request \<Rightarrow> request" where
  "with_params ps q = q\<lparr>rq_params := ps @ rq_params q\<rparr>"

definition serve :: "mux \<Rightarrow> (api_endpoint \<Rightarrow> 'r handler) \<Rightarrow> 'r route_entry list \<Rightarrow> 'r node" where
  "serve M hs table path q x w = (case M (map fst table) (rq_method q) path of
       Chosen i ps rest \<Rightarrow> (if i < length table then snd (table ! i) rest (with_params ps q) x w
                            else hs Ep_NotFound q x w)
     | NoRoute \<Rightarrow> hs Ep_NotFound q x w
     | WrongMethod \<Rightarrow> hs Ep_MethodNotAllowed q x w)"

record 'r router_env =
  rt_mux :: mux
  rt_real_ip :: "request \<Rightarrow> request"
  rt_uuid :: "nat \<Rightarrow> string"
  rt_redis :: "'r redis_ops"
  rt_auth_codec :: auth_codec
  rt_hash :: hash_suite
  rt_digest :: digest
  rt_numbers :: number_codec
  rt_config :: app_config

definition links_router :: "mux \<Rightarrow> (api_endpoint \<Rightarrow> 'r handler) \<Rightarrow> 'r node" where
  "links_router M hs = serve M hs
     [route ''GET'' ''/'' (RequireRead (hs Ep_ListLinks)),
      route ''GET'' ''/{id}'' (RequireRead (hs Ep_GetLink)),
      route ''GET'' ''/{id}/analytics'' (RequireRead (hs Ep_LinkAnalytics)),
      route ''POST'' ''/'' (RequireWrite (hs Ep_CreateLink)),
      route ''PATCH'' ''/{id}'' (RequireWrite (hs Ep_UpdateLink)),
      route ''DELETE'' ''/{id}'' (RequireAdmin (hs Ep_DeleteLink))]"

definition keys_router :: "mux \<Rightarrow> (api_endpoint \<Rightarrow> 'r handler) \<Rightarrow> 'r node" where
  "keys_router M hs = serve M hs
     [route ''GET'' ''/'' (RequireRead (hs Ep_ListKeys)),
      route ''POST'' ''/'' (RequireAdmin (hs Ep_CreateKey)),
      route ''DELETE'' ''/{key_id}'' (RequireAdmin (hs Ep_RevokeKey)),
      route ''POST'' ''/{key_id}/rotate'' (RequireAdmin (hs Ep_RotateKey))]"

definition webhooks_router :: "mux \<Rightarrow> (api_endpoint \<Rightarrow> 'r handler) \<Rightarrow> 'r node" where
  "webhooks_router M hs path = RequireWebhook (serve M hs
     [route ''POST'' ''/'' (hs Ep_CreateWebhook),
      route ''GET'' ''/'' (hs Ep_ListWebhooks),
      route ''GET'' ''/{id}'' (hs Ep_GetWebhook),
      route ''PATCH'' ''/{id}'' (hs Ep_UpdateWebhook),
      route ''DELETE'' ''/{id}'' (hs Ep_DeleteWebhook),
      route ''POST'' ''/{id}/rotate-secret'' (hs Ep_RotateSecret),
      route ''GET'' ''/{id}/deliveries'' (hs Ep_ListDeliveries),
      route ''POST'' ''/{id}/deliveries/{deliveryId}/retry'' (hs Ep_RetryDelivery)] path)"

definition admin_router :: "mux \<Rightarrow> (api_endpoint \<Rightarrow> 'r handler) \<Rightarrow> 'r node" where
  "admin_router M hs path = RequireAdmin (serve M hs
     [route ''GET'' ''/links'' (hs Ep_AdminLinks),
      route ''GET'' ''/api-keys'' (hs Ep_AdminKeys),
      route ''GET'' ''/stats'' (hs Ep_AdminStats)] path)"

definition rate_limit_settings :: "app_config \<Rightarrow> rate_limit_cfg" where
  "rate_limit_settings c = \<lparr>rc_api_enabled = cf_rate_limit_api_enabled c,
     rc_redirect_enabled = cf_rate_limit_redirect_enabled c,
     rc_redirect_rps = cf_rate_limit_redirect_rps c, rc_redirect_burst = cf_rate_limit_redirect_burst c\<rparr>"

definition api_router :: "'r router_env \<Rightarrow> (api_endpoint \<Rightarrow> 'r handler) \<Rightarrow> 'r node" where
  "api_router E hs path =
     MaxBodySize (cf_max_request_body_size (rt_config E))
      (Middleware_Auth (rt_redis E) (rt_auth_codec E) (rt_hash E) (rt_digest E)
        (RateLimitAPI (rt_redis E) (rt_numbers E) (rate_limit_settings (rt_config E))
          (serve (rt_mux E) hs
             [mount ''/links'' (links_router (rt_mux E) hs),
              mount ''/api-keys'' (keys_router (rt_mux E) hs),
              mount ''/webhooks'' (webhooks_router (rt_mux E) hs),
              mount ''/admin'' (admin_router (rt_mux E) hs)] path)))"

definition root_table :: "'r router_env \<Rightarrow> (api_endpoint \<Rightarrow> 'r handler) \<Rightarrow> 'r route_entry list" where
  "root_table E hs =
     [route ''GET'' ''/healthz'' (hs Ep_Healthz),
      route ''GET'' ''/readyz'' (hs Ep_Readyz),
      route ''GET'' ''/metrics'' (hs Ep_Metrics),
      route ''GET'' ''/'' (hs Ep_Hello),
      mount ''/api/v1'' (api_router E hs),
      route ''GET'' ''/{shortCode}''
        (RateLimitIP (rt_redis E) (rt_numbers E) (rt_digest E) (rate_limit_settings (rt_config E))
           (hs Ep_Redirect))]"

definition RealIP :: "(request \<Rightarrow> request) \<Rightarrow> 'r handler \<Rightarrow> 'r handler" where
  "RealIP f nxt q x w = nxt (f q) x w"

definition with_cors :: "string list \<Rightarrow> 'r handler \<Rightarrow> 'r handler" where
  "with_cors corsOrigins nxt = (if 0 < length corsOrigins
     then CORS (DefaultCORSConfig\<lparr>cc_allowed_origins := corsOrigins\<rparr>) nxt else nxt)"

definition security_settings :: "app_config \<Rightarrow> security_config" where
  "security_settings c = \<lparr>sc_is_development = IsDevelopment c,
     sc_allowed_origins = GetCORSAllowedOrigins c,
     sc_max_request_body_size = cf_max_request_body_size c\<rparr>"

definition setupRouter :: "'r router_env \<Rightarrow> (api_endpoint \<Rightarrow> 'r handler) \<Rightarrow> 'r handler" where
  "setupRouter E hs =
     Security (security_settings (rt_config E))
      (with_cors (GetCORSAllowedOrigins (rt_config E))
        (RealIP (rt_real_ip E)
          (RequestID (rt_uuid E)
            (Logger
              (Recoverer (\<lambda>q. serve (rt_mux E) hs (root_table E hs) (rq_path q) q))))))"

section \<open>What reaches a protected handler\<close>

text \<open>Two handlers agree on the requests of a set.\<close>

definition agree_on :: "(request \<Rightarrow> bool) \<Rightarrow> 'r handler \<Rightarrow> 'r handler \<Rightarrow> bool" where
  "agree_on Q h h' \<longleftrightarrow> (\<forall>q x w. Q q \<longrightarrow> h q x w = h' q x w)"

text \<open>The request carries a key that was authenticated, and the context that this gave.\<close>

definition authenticated :: "'r router_env \<Rightarrow> request \<Rightarrow> bool" where
  "authenticated E q \<longleftrightarrow> (\<exists>a u u'. rq_auth q = Some a \<and>
     authenticate (rt_redis E) (rt_auth_codec E) (rt_hash E) (rt_digest E) (extractAPIKey q) u = (Inr a, u'))"

definition carries_scope :: "string \<Rightarrow> request \<Rightarrow> bool" where
  "carries_scope s q \<longleftrightarrow> (\<exists>a. rq_auth q = Some a \<and> AuthContext_HasScope a s)"

definition may_see :: "'r router_env \<Rightarrow> api_endpoint \<Rightarrow> request \<Rightarrow> bool" where
  "may_see E e q \<longleftrightarrow> (case endpoint_scope e of None \<Rightarrow> True
     | Some s \<Rightarrow> authenticated E q \<and> carries_scope s q)"

lemma agree_onD: "agree_on Q h h' \<Longrightarrow> Q q \<Longrightarrow> h q x w = h' q x w"
  by (simp add: agree_on_def)

lemma agree_on_refl [simp]: "agree_on Q h h"
  by (simp add: agree_on_def)

lemma agree_on_weaken: "agree_on Q h h' \<Longrightarrow> (\<And>q. P q \<Longrightarrow> Q q) \<Longrightarrow> agree_on P h h'"
  by (simp add: agree_on_def)

lemma serve_agree:
  assumes same: "map fst table = map fst table'"
    and nodes: "list_all2 (\<lambda>n n'. \<forall>rest. agree_on Q (snd n rest) (snd n' rest)) table table'"
    and "agree_on Q (hs Ep_NotFound) (hs' Ep_NotFound)"
    and "agree_on Q (hs Ep_MethodNotAllowed) (hs' Ep_MethodNotAllowed)"
    and params: "\<And>q ps. Q q \<Longrightarrow> Q (with_params ps q)"
  shows "agree_on Q (serve M hs table path) (serve M hs' table' path)"
  unfolding agree_on_def
proof (intro allI impI)
  fix q :: request and x :: writer and w :: "'a world"
  assume "Q q"
  have "length table = length table'" using nodes by (rule list_all2_lengthD)
  moreover have "snd (table ! i) rest (with_params ps q) x w = snd (table' ! i) rest (with_params ps q) x w"
    if "i < length table" for i rest ps
    using list_all2_nthD [OF nodes that] params [OF \<open>Q q\<close>] by (simp add: agree_on_def)
  ultimately show "serve M hs table path q x w = serve M hs' table' path q x w"
    using agree_onD [OF assms(3) \<open>Q q\<close>] agree_onD [OF assms(4) \<open>Q q\<close>]
    by (simp add: serve_def same split: mux_result.split)
qed

lemma require_agree:
  assumes "agree_on (\<lambda>q. Q q \<and> carries_scope s q) h h'"
  shows "agree_on Q (RequireScope [s] h) (RequireScope [s] h')"
  using assms by (auto simp: agree_on_def RequireScope_one carries_scope_def split: option.split)

lemma RateLimitAPI_agree:
  "agree_on Q h h' \<Longrightarrow> agree_on Q (RateLimitAPI R N cfg h) (RateLimitAPI R N cfg h')"
  by (auto simp: agree_on_def RateLimitAPI_def Let_def split: option.split prod.split sum.split)

lemma RateLimitIP_agree:
  "agree_on Q h h' \<Longrightarrow> agree_on Q (RateLimitIP R N D cfg h) (RateLimitIP R N D cfg h')"
  by (auto simp: agree_on_def RateLimitIP_def split: prod.split sum.split)

lemma extractAPIKey_header: "rq_header q = rq_header q' \<Longrightarrow> extractAPIKey q = extractAPIKey q'"
  by (simp add: extractAPIKey_def request_header_def Let_def)

lemma extractAPIKey_auth [simp]:
  "extractAPIKey (ContextWithAuth a q) = extractAPIKey q" "rq_auth (ContextWithAuth a q) = Some a"
  by (rule extractAPIKey_header) (simp_all add: ContextWithAuth_def)

lemma Middleware_Auth_agree:
  assumes "agree_on (authenticated E) h h'"
  shows "agree_on Q
    (Middleware_Auth (rt_redis E) (rt_auth_codec E) (rt_hash E) (rt_digest E) h)
    (Middleware_Auth (rt_redis E) (rt_auth_codec E) (rt_hash E) (rt_digest E) h')"
proof -
  have "h (ContextWithAuth a q) x w2 = h' (ContextWithAuth a q) x w2"
    if "authenticate (rt_redis E) (rt_auth_codec E) (rt_hash E) (rt_digest E) (extractAPIKey q) w1
      = (Inr a, w2)" for a q x w1 w2
  proof (rule agree_onD [OF assms])
    show "authenticated E (ContextWithAuth a q)" unfolding authenticated_def using that by auto
  qed
  then show ?thesis
    by (auto simp: agree_on_def Middleware_Auth_def Let_def split: prod.split sum.split error.split)
qed

lemma MaxBodySize_agree:
  "agree_on (\<lambda>q. True) h h' \<Longrightarrow> agree_on Q (MaxBodySize n h) (MaxBodySize n h')"
  by (simp add: agree_on_def MaxBodySize_def)

lemma authenticated_params: "authenticated E q \<Longrightarrow> authenticated E (with_params ps q)"
  using extractAPIKey_header [of "with_params ps q" q] by (simp add: authenticated_def with_params_def)

lemma carries_scope_params [simp]: "carries_scope s (with_params ps q) = carries_scope s q"
  by (simp add: carries_scope_def with_params_def)

text \<open>The routers, for two tables of handlers that agree on what each endpoint may see.\<close>

definition handlers_agree :: "'r router_env \<Rightarrow> (api_endpoint \<Rightarrow> 'r handler) \<Rightarrow> (api_endpoint \<Rightarrow> 'r handler) \<Rightarrow> bool" where
  "handlers_agree E hs hs' \<longleftrightarrow> (\<forall>e. agree_on (may_see E e) (hs e) (hs' e))"

lemma handlers_agree_public:
  "handlers_agree E hs hs' \<Longrightarrow> endpoint_scope e = None \<Longrightarrow> agree_on Q (hs e) (hs' e)"
  by (auto simp: handlers_agree_def may_see_def agree_on_def)

lemma handlers_agree_scope:
  "handlers_agree E hs hs' \<Longrightarrow> endpoint_scope e = Some s
   \<Longrightarrow> agree_on (\<lambda>q. authenticated E q \<and> carries_scope s q) (hs e) (hs' e)"
  by (simp add: handlers_agree_def may_see_def agree_on_def)

lemma links_router_agree:
  assumes "handlers_agree E hs hs'"
  shows "agree_on (authenticated E) (links_router M hs path) (links_router M hs' path)"
  unfolding links_router_def require_defs
  by (rule serve_agree)
    (simp_all add: route_def authenticated_params handlers_agree_public [OF assms] require_agree
      handlers_agree_scope [OF assms])

lemma keys_router_agree:
  assumes "handlers_agree E hs hs'"
  shows "agree_on (authenticated E) (keys_router M hs path) (keys_router M hs' path)"
  unfolding keys_router_def require_defs
  by (rule serve_agree)
    (simp_all add: route_def authenticated_params handlers_agree_public [OF assms] require_agree
      handlers_agree_scope [OF assms])

lemma webhooks_router_agree:
  assumes "handlers_agree E hs hs'"
  shows "agree_on (authenticated E) (webhooks_router M hs path) (webhooks_router M hs' path)"
  unfolding webhooks_router_def require_defs
  by (rule require_agree, rule serve_agree)
    (simp_all add: route_def authenticated_params handlers_agree_public [OF assms]
      handlers_agree_scope [OF assms])

lemma admin_router_agree:
  assumes "handlers_agree E hs hs'"
  shows "agree_on (authenticated E) (admin_router M hs path) (admin_router M hs' path)"
  unfolding admin_router_def require_defs
  by (rule require_agree, rule serve_agree)
    (simp_all add: route_def authenticated_params handlers_agree_public [OF assms]
      handlers_agree_scope [OF assms])

lemma api_router_agree:
  assumes "handlers_agree E hs hs'"
  shows "agree_on Q (api_router E hs path) (api_router E hs' path)"
  unfolding api_router_def
  by (rule MaxBodySize_agree, rule Middleware_Auth_agree, rule RateLimitAPI_agree, rule serve_agree)
    (simp_all add: mount_def authenticated_params handlers_agree_public [OF assms]
      links_router_agree [OF assms] keys_router_agree [OF assms] webhooks_router_agree [OF assms]
      admin_router_agree [OF assms])

lemma root_agree:
  assumes "handlers_agree E hs hs'"
  shows "agree_on (\<lambda>q. True) (serve M hs (root_table E hs) path) (serve M hs' (root_table E hs') path)"
  unfolding root_table_def
  by (rule serve_agree)
    (simp_all add: route_def mount_def handlers_agree_public [OF assms] api_router_agree [OF assms]
      RateLimitIP_agree)


section \<open>What the lemmas use of the mux\<close>

text \<open>A pattern without a parameter matches itself, and goes before every other entry; a pattern of one
  parameter binds a segment that no other entry covers.\<close>

definition plain_pattern :: "string \<Rightarrow> bool" where "plain_pattern p = (CHR ''{'' \<notin> set p)"

definition covers :: "pattern \<Rightarrow> string \<Rightarrow> bool" where
  "covers t path = (case t of (Some m, p) \<Rightarrow> \<not> plain_pattern p \<or> p = path | (None, p) \<Rightarrow> has_prefix path p)"

locale chi_mux =
  fixes M :: mux
  assumes static: "i < length ts \<Longrightarrow> ts ! i = (Some m, p) \<Longrightarrow> plain_pattern p
      \<Longrightarrow> \<exists>j < length ts. M ts m p = Chosen j [] [] \<and> ts ! j = (Some m, p)"
    and one_param: "i < length ts \<Longrightarrow> ts ! i = (Some m, ''/{'' @ name @ ''}'')
      \<Longrightarrow> CHR ''/'' \<notin> set name \<Longrightarrow> c \<noteq> [] \<Longrightarrow> CHR ''/'' \<notin> set c
      \<Longrightarrow> (\<And>j. j < length ts \<Longrightarrow> j \<noteq> i \<Longrightarrow> \<not> covers (ts ! j) (CHR ''/'' # c))
      \<Longrightarrow> M ts m (CHR ''/'' # c) = Chosen i [(name, c)] []"
begin

lemma static_entry:
  assumes "i < length table" and "fst (table ! i) = (Some m, p)" and "plain_pattern p"
    and "rq_method q = m" and "distinct (map fst table)"
  shows "serve M hs table p q x w = snd (table ! i) [] (with_params [] q) x w"
proof -
  from static [of i "map fst table" m p] assms(1-3)
  obtain j where j: "j < length table" "M (map fst table) m p = Chosen j [] []"
    and e: "fst (table ! j) = (Some m, p)" by auto
  have "map fst table ! j = map fst table ! i" using assms(1,2) j(1) e by simp
  then have "j = i" using assms(1,5) j(1) nth_eq_iff_index_eq [of "map fst table" j i] by simp
  with j assms(4) show ?thesis by (simp add: serve_def)
qed

lemma param_entry:
  assumes "i < length table" and "fst (table ! i) = (Some m, ''/{'' @ name @ ''}'')"
    and "CHR ''/'' \<notin> set name" and "c \<noteq> []" and "CHR ''/'' \<notin> set c" and "rq_method q = m"
    and "\<And>j. j < length table \<Longrightarrow> j \<noteq> i \<Longrightarrow> \<not> covers (fst (table ! j)) (CHR ''/'' # c)"
  shows "serve M hs table (CHR ''/'' # c) q x w = snd (table ! i) [] (with_params [(name, c)] q) x w"
proof -
  have "M (map fst table) m (CHR ''/'' # c) = Chosen i [(name, c)] []"
    by (rule one_param) (use assms in simp_all)
  with assms(1,6) show ?thesis by (simp add: serve_def)
qed

end

text \<open>The routes at the root of the site.\<close>

definition public_codes :: "(string \<times> api_endpoint) list" where
  "public_codes = [(''healthz'', Ep_Healthz), (''readyz'', Ep_Readyz), (''metrics'', Ep_Metrics)]"

lemma root_patterns:
  "map fst (root_table E hs) = [(Some ''GET'', ''/healthz''), (Some ''GET'', ''/readyz''),
     (Some ''GET'', ''/metrics''), (Some ''GET'', ''/''), (None, ''/api/v1''), (Some ''GET'', ''/{shortCode}'')]"
  by (simp add: root_table_def route_def mount_def)

definition code_node :: "'r router_env \<Rightarrow> (api_endpoint \<Rightarrow> 'r handler) \<Rightarrow> string \<Rightarrow> 'r handler" where
  "code_node E hs c q = (case map_of public_codes c of
       Some e \<Rightarrow> hs e q
     | None \<Rightarrow> RateLimitIP (rt_redis E) (rt_numbers E) (rt_digest E) (rate_limit_settings (rt_config E))
         (hs Ep_Redirect) (with_params [(''shortCode'', c)] q))"

context chi_mux begin

lemma root_of_code:
  assumes "rq_method q = ''GET''" and "c \<noteq> []" and "CHR ''/'' \<notin> set c"
  shows "serve M hs (root_table E hs) (CHR ''/'' # c) q x w = code_node E hs c q x w"
proof (cases "map_of public_codes c")
  case (Some e)
  then obtain i where i: "i < 3" "fst (root_table E hs ! i) = (Some ''GET'', CHR ''/'' # c)"
      "snd (root_table E hs ! i) = (\<lambda>rest. hs e)" "plain_pattern (CHR ''/'' # c)"
    by (auto simp: public_codes_def root_table_def route_def plain_pattern_def split: if_splits
        intro: that [of 0] that [of 1] that [of 2])
  have "distinct (map fst (root_table E hs))" by (simp add: root_patterns)
  from static_entry [OF _ i(2,4) assms(1) this] i(1,3) Some show ?thesis
    by (simp add: code_node_def with_params_def root_table_def)
next
  case None
  have "serve M hs (root_table E hs) (CHR ''/'' # c) q x w
      = snd (root_table E hs ! 5) [] (with_params [(''shortCode'', c)] q) x w"
  proof (rule param_entry)
    fix j assume "j < length (root_table E hs)" and "j \<noteq> 5"
    then have "j < 6" and "j \<noteq> 5" by (simp_all add: root_table_def)
    then consider "j = 0" | "j = 1" | "j = 2" | "j = 3" | "j = 4" by linarith
    moreover have "\<not> has_prefix (CHR ''/'' # c) ''/api/v1''"
      using assms(3) by (auto simp: has_prefix_iff)
    moreover have "c \<noteq> ''healthz''" and "c \<noteq> ''readyz''" and "c \<noteq> ''metrics''"
      using None by (auto simp: public_codes_def)
    ultimately show "\<not> covers (fst (root_table E hs ! j)) (CHR ''/'' # c)"
      using assms(2)
      by cases (simp_all add: covers_def root_table_def route_def mount_def plain_pattern_def)
  qed (use assms in \<open>auto simp: root_table_def route_def\<close>)
  with None show ?thesis by (simp add: code_node_def root_table_def route_def)
qed

end

text \<open>The service accepts an alias that the unused check of \<open>validation.go\<close> reserves; such a link can
  never be reached, whatever the handlers are.\<close>

lemma reserved_codes_are_shadowed:
  assumes "chi_mux M" and "rq_method q = ''GET''"
  shows "aliasRegex_MatchString ''metrics'' \<and> ValidateShortCode ''metrics'' = Some (Sentinel Mw_ErrShortCodeReserved)
    \<and> serve M hs (root_table E hs) ''/metrics'' q x w = hs Ep_Metrics q x w"
proof -
  have "aliasRegex_MatchString ''metrics''" by code_simp
  moreover have "ValidateShortCode ''metrics'' = Some (Sentinel Mw_ErrShortCodeReserved)" by code_simp
  moreover have "code_node E hs ''metrics'' q = hs Ep_Metrics q"
    by (simp add: code_node_def public_codes_def)
  ultimately show ?thesis
    using chi_mux.root_of_code [OF assms, of "''metrics''" hs E x w] by simp
qed

section \<open>A mux\<close>

text \<open>The rules by segments, to evaluate: static entries, then mounts, then patterns with parameters.\<close>

definition is_param :: "string \<Rightarrow> bool" where "is_param s = has_prefix s ''{''"

fun match_segments :: "string list \<Rightarrow> string list \<Rightarrow> (string \<times> string) list option" where
  "match_segments [] [] = Some []"
| "match_segments (s # ss) (t # ts) =
     (if is_param s then (if t = [] then None
        else map_option (\<lambda>ps. (butlast (tl s), t) # ps) (match_segments ss ts))
      else if s = t then match_segments ss ts else None)"
| "match_segments _ _ = None"

definition match_pattern :: "string \<Rightarrow> string \<Rightarrow> (string \<times> string) list option" where
  "match_pattern p path = (if plain_pattern p then None
     else match_segments (split_on (CHR ''/'') p) (split_on (CHR ''/'') path))"

definition mount_rest :: "pattern \<Rightarrow> string \<Rightarrow> string option" where
  "mount_rest t path = (if fst t = None \<and> has_prefix path (snd t)
     then (let rest = drop (length (snd t)) path in
       if rest = [] then Some ''/'' else if hd rest = CHR ''/'' then Some rest else None)
     else None)"

definition ref_mux :: mux where
  "ref_mux ts m path =
     (let is = [0..<length ts] in
      case find (\<lambda>i. ts ! i = (Some m, path) \<and> plain_pattern path) is of
        Some i \<Rightarrow> Chosen i [] []
      | None \<Rightarrow> (case find (\<lambda>i. mount_rest (ts ! i) path \<noteq> None) is of
          Some i \<Rightarrow> Chosen i [] (the (mount_rest (ts ! i) path))
        | None \<Rightarrow> (case find (\<lambda>i. fst (ts ! i) = Some m \<and> match_pattern (snd (ts ! i)) path \<noteq> None) is of
            Some i \<Rightarrow> Chosen i (the (match_pattern (snd (ts ! i)) path)) []
          | None \<Rightarrow> if list_ex (\<lambda>t. fst t \<noteq> None \<and> (snd t = path \<or> match_pattern (snd t) path \<noteq> None)) ts
                    then WrongMethod else NoRoute)))"

lemma find_upt_unique:
  "i < n \<Longrightarrow> P i \<Longrightarrow> (\<And>j. j < n \<Longrightarrow> j \<noteq> i \<Longrightarrow> \<not> P j) \<Longrightarrow> find P [0..<n] = Some i"
  by (force simp: find_Some_iff)

lemma split_on_none: "d \<notin> set s \<Longrightarrow> split_on d s = [s]"
  by (induction s) auto

interpretation ref_chi: chi_mux ref_mux
proof
  fix i ts m p
  assume i: "i < length (ts :: pattern list)" and e: "ts ! i = (Some m, p)" and p: "plain_pattern p"
  then have "find (\<lambda>i. ts ! i = (Some m, p) \<and> plain_pattern p) [0..<length ts] \<noteq> None"
    by (auto simp: find_None_iff)
  then obtain j where j: "find (\<lambda>i. ts ! i = (Some m, p) \<and> plain_pattern p) [0..<length ts] = Some j"
    by auto
  then have "j < length ts" and "ts ! j = (Some m, p)"
    using find_Some_in [OF j] by auto
  with j show "\<exists>j < length ts. ref_mux ts m p = Chosen j [] [] \<and> ts ! j = (Some m, p)"
    by (auto simp: ref_mux_def)
next
  fix i ts m name c
  let ?path = "CHR ''/'' # c" and ?is = "[0..<length (ts :: pattern list)]"
  assume i: "i < length ts" and e: "ts ! i = (Some m, ''/{'' @ name @ ''}'')"
    and name: "CHR ''/'' \<notin> set name" and c: "c \<noteq> []" "CHR ''/'' \<notin> set c"
    and others: "\<And>j. j < length ts \<Longrightarrow> j \<noteq> i \<Longrightarrow> \<not> covers (ts ! j) (CHR ''/'' # c)"
  have "\<not> plain_pattern (''/{'' @ name @ ''}'')" by (simp add: plain_pattern_def)
  moreover have "match_segments (split_on (CHR ''/'') (''/{'' @ name @ ''}'')) (split_on (CHR ''/'') ?path)
      = Some [(name, c)]"
    using name c by (simp add: split_on_none is_param_def has_prefix_def)
  ultimately have match: "match_pattern (''/{'' @ name @ ''}'') ?path = Some [(name, c)]"
    by (simp add: match_pattern_def)
  have s: "find (\<lambda>i. ts ! i = (Some m, ?path) \<and> plain_pattern ?path) ?is = None"
  proof -
    have "\<not> (ts ! j = (Some m, ?path) \<and> plain_pattern ?path)" if "j < length ts" for j
    proof
      assume a: "ts ! j = (Some m, ?path) \<and> plain_pattern ?path"
      then have "covers (ts ! j) ?path" by (simp add: covers_def)
      with others [OF that] have "j = i" by blast
      with a e show False by (auto simp: plain_pattern_def)
    qed
    then show ?thesis by (auto simp: find_None_iff)
  qed
  have "mount_rest (ts ! j) ?path = None" if "j < length ts" for j
    using others [OF that] e by (cases "j = i"; cases "ts ! j") (auto simp: mount_rest_def covers_def)
  then have mo: "find (\<lambda>i. mount_rest (ts ! i) ?path \<noteq> None) ?is = None" by (auto simp: find_None_iff)
  have "find (\<lambda>i. fst (ts ! i) = Some m \<and> match_pattern (snd (ts ! i)) ?path \<noteq> None) ?is = Some i"
  proof (rule find_upt_unique [OF i])
    fix j assume "j < length ts" and "j \<noteq> i"
    from others [OF this] show "\<not> (fst (ts ! j) = Some m \<and> match_pattern (snd (ts ! j)) ?path \<noteq> None)"
      by (cases "ts ! j") (auto simp: covers_def match_pattern_def)
  qed (simp add: e match [simplified])
  with s mo match show "ref_mux ts m ?path = Chosen i [(name, c)] []"
    by (simp add: ref_mux_def e)
qed

section \<open>A request that may not see a handler\<close>

definition sample_config :: app_config where
  "sample_config = \<lparr>cf_app_env = ''production'', cf_app_port = 8080, cf_database_url = ''postgres://db/x'',
     cf_redis_url = ''redis://r/0'', cf_base_url = ''https://pen.sh'', cf_log_level = ''info'',
     cf_log_format = ''json'', cf_read_timeout = 5 * second, cf_write_timeout = 10 * second,
     cf_shutdown_timeout = 30 * second, cf_rate_limit_api_enabled = True,
     cf_rate_limit_redirect_enabled = True, cf_rate_limit_redirect_rps = 100,
     cf_rate_limit_redirect_burst = 20, cf_cors_allowed_origins = [], cf_max_request_body_size = 2 ^ 20,
     cf_webhook_allow_insecure = False\<rparr>"

definition sample_router :: "ref_store router_env" where
  "sample_router = \<lparr>rt_mux = ref_mux, rt_real_ip = id, rt_uuid = (\<lambda>n. ''id''), rt_redis = ref_redis,
     rt_auth_codec = \<lparr>auth_marshal = (\<lambda>c. []), auth_unmarshal = (\<lambda>s. None)\<rparr>, rt_hash = ref_suite,
     rt_digest = id, rt_numbers = ref_numbers, rt_config = sample_config\<rparr>"

definition unreachable_unless :: "(request \<Rightarrow> bool) \<Rightarrow> 'r handler \<Rightarrow> 'r handler" where
  "unreachable_unless Q h q x w = (if Q q then h q x w else (panics ''unreachable'' x, w))"


end
