(* ===== verification/Reply_Types.thy ===== *)
theory Reply_Types imports Http begin

text \<open>
  The types of the JSON that the API sends, and of whole replies. A type of an object lists its fields
  with whether they are always there; an object has that type when its keys are distinct, each is
  listed with a value of its type, and none that must be there is missing.
\<close>

datatype json_type = T_Str | T_Int | T_Num | T_Bool | T_Time | T_Arr json_type
  | T_Obj "(string \<times> bool \<times> json_type) list"

function has_type :: "json \<Rightarrow> json_type \<Rightarrow> bool" where
  "has_type (JStr s) t = (t = T_Str)"
| "has_type (JInt i) t = (t = T_Int)"
| "has_type (JNum r) t = (t = T_Num)"
| "has_type (JBool b) t = (t = T_Bool)"
| "has_type (JTime i) t = (t = T_Time)"
| "has_type JNull t = False"
| "has_type (JArr js) t = (case t of T_Arr u \<Rightarrow> (\<forall>j \<in> set js. has_type j u) | _ \<Rightarrow> False)"
| "has_type (JObj kvs) t = (case t of
     T_Obj fts \<Rightarrow> distinct (map fst kvs)
       \<and> (\<forall>kv \<in> set kvs. case map_of fts (fst kv) of None \<Rightarrow> False | Some (r, u) \<Rightarrow> has_type (snd kv) u)
       \<and> (\<forall>f \<in> set fts. fst (snd f) \<longrightarrow> fst f \<in> set (map fst kvs))
   | _ \<Rightarrow> False)"
  by pat_completeness auto
termination
proof (relation "measure (size \<circ> fst)")
  show "wf (measure (size \<circ> fst))" by simp
next
  fix js and u t :: json_type and j :: json
  assume "j \<in> set js"
  then have "size j \<le> size_list size js" by (intro size_list_estimation'[of j js _ size]) simp_all
  then show "((j, u), JArr js, t) \<in> measure (size \<circ> fst)" by simp
next
  fix kvs and u t :: json_type and kv :: "string \<times> json"
  assume "kv \<in> set kvs"
  moreover have "size (snd kv) \<le> size_prod (\<lambda>_. 0) size kv" by (cases kv) simp
  ultimately have "size (snd kv) \<le> size_list (size_prod (\<lambda>_. 0) size) kvs"
    by (rule size_list_estimation')
  then show "((snd kv, u), JObj kvs, t) \<in> measure (size \<circ> fst)" by simp
qed

text \<open>Fields that are always there, and fts that may be absent.\<close>

definition req :: "string \<Rightarrow> json_type \<Rightarrow> string \<times> bool \<times> json_type" where "req k t = (k, True, t)"
definition opt :: "string \<Rightarrow> json_type \<Rightarrow> string \<times> bool \<times> json_type" where "opt k t = (k, False, t)"

text \<open>
  A reply: one JSON body of the success type with the success status, or of the error type with a
  status of the 4xx or 5xx class, each sent with the content type of JSON; without a success type, an
  empty body. A handler that panics has sent nothing.
\<close>

definition sends_json :: "(int \<Rightarrow> bool) \<Rightarrow> json_type \<Rightarrow> writer \<Rightarrow> bool" where
  "sends_json S t y \<longleftrightarrow> (\<exists>s h j. rw_reply y = Some (s, h) \<and> S s \<and> rw_body y = [Json j] \<and> has_type j t
     \<and> header_get h ''Content-Type'' = ''application/json'')"

definition reply_typed :: "int \<Rightarrow> json_type option \<Rightarrow> json_type \<Rightarrow> writer \<Rightarrow> bool" where
  "reply_typed ok t e y \<longleftrightarrow>
     (if rw_panic y \<noteq> None then rw_reply y = None \<and> rw_body y = []
      else sends_json (\<lambda>s. s \<noteq> ok \<and> 400 \<le> s \<and> s < 600) e y
        \<or> (case t of None \<Rightarrow> (\<exists>h. rw_reply y = Some (ok, h)) \<and> rw_body y = []
            | Some u \<Rightarrow> sends_json (\<lambda>s. s = ok) u y))"

text \<open>The typing rules of the response operations on a fresh writer.\<close>

lemma sends_writeJSON:
  "S s \<Longrightarrow> has_type j t \<Longrightarrow> sends_json S t (writeJSON s j new_writer)"
  by (simp add: sends_json_def writeJSON_def http_simps WriteHeader_def new_writer_def set_header_def
      header_get_set Write_body_def)

lemma typed_success:
  "has_type j t \<Longrightarrow> reply_typed ok (Some t) e (writeJSON ok j new_writer)"
  by (simp add: reply_typed_def sends_writeJSON http_simps)

lemma typed_failure:
  "s \<noteq> ok \<Longrightarrow> 400 \<le> s \<Longrightarrow> s < 600 \<Longrightarrow> has_type j e \<Longrightarrow> reply_typed ok t e (writeJSON s j new_writer)"
  by (simp add: reply_typed_def sends_writeJSON http_simps)

lemma typed_no_content: "reply_typed ok None e (WriteHeader ok new_writer)"
  by (simp add: reply_typed_def WriteHeader_def)

lemma typed_panic: "reply_typed ok t e (panics m new_writer)"
  by (simp add: reply_typed_def panics_def)

lemma typed_Write_body_200:
  "has_type j t \<Longrightarrow> reply_typed 200 (Some t) e
     (Write_body (Json j) (set_header ''Content-Type'' ''application/json'' new_writer))"
  by (simp add: reply_typed_def sends_json_def Write_body_def WriteHeader_def set_header_def header_get_set)

end
