(* ===== verification/App.thy ===== *)
theory App imports Link_Handler Webhook_Handler Key_Handler Analytics_Handler Redirect_Handler
  Status_Handlers Router Reply_Types begin

text \<open>
  The application: the handlers that \<open>cmd/api/main.go\<close> builds, each with the services it is given, and
  put behind the routes of \<open>setupRouter\<close>. The parameters of all of them are gathered in one record.

  Shown: the type of every JSON reply. For each endpoint there are a success status, the type of the
  JSON it is documented to answer with, and the type of its errors; every handler answers a reply of one
  of the two, whatever the request, the state, and the outcome of every call.
\<close>

record 'r app_params =
  ap_redis :: "'r redis_ops"
  ap_url :: url_parser
  ap_resolver :: resolver
  ap_cursors :: cursor_codec
  ap_times :: "string \<Rightarrow> instant option"
  ap_hash :: hash_suite
  ap_digest :: digest
  ap_ulid :: ulid_maker
  ap_map_iter :: map_iter
  ap_seconds :: "rat \<Rightarrow> string"
  ap_redirect :: "'r redirect_env"
  ap_base_url :: string
  ap_allow_insecure :: bool
  ap_decode_link :: "body \<Rightarrow> create_link_request option"
  ap_decode_link_patch :: "body \<Rightarrow> update_link_request option"
  ap_decode_key :: "body \<Rightarrow> api_key_create_request option"
  ap_decode_webhook :: "body \<Rightarrow> endpoint_create_request option"
  ap_decode_webhook_patch :: "body \<Rightarrow> endpoint_update_request option"

definition link_service_of :: "'r app_params \<Rightarrow> link_service" where
  "link_service_of A = NewLinkService (ap_base_url A)"

fun app_handler :: "'r app_params \<Rightarrow> api_endpoint \<Rightarrow> 'r handler" where
  "app_handler A Ep_Healthz = Healthz"
| "app_handler A Ep_Readyz = Readyz (Some Repository_Ping) (Some Cache_Ping)"
| "app_handler A Ep_Metrics = Metrics_handler (ap_seconds A) True"
| "app_handler A Ep_Hello = Handler_Hello"
| "app_handler A Ep_Redirect = RedirectHandler_Redirect (ap_redirect A)"
| "app_handler A Ep_NotFound = Handler_NotFound"
| "app_handler A Ep_MethodNotAllowed = Handler_MethodNotAllowed"
| "app_handler A Ep_ListLinks = LinkHandler_List (ap_cursors A) (ap_times A) (link_service_of A)"
| "app_handler A Ep_GetLink = LinkHandler_Get (link_service_of A)"
| "app_handler A Ep_LinkAnalytics = GetLinkAnalytics (ap_map_iter A)"
| "app_handler A Ep_CreateLink = LinkHandler_Create (ap_url A) (link_service_of A) (ap_decode_link A)"
| "app_handler A Ep_UpdateLink =
     LinkHandler_Update (ap_redis A) (ap_url A) (link_service_of A) (ap_decode_link_patch A)"
| "app_handler A Ep_DeleteLink = LinkHandler_Delete (ap_redis A)"
| "app_handler A Ep_ListKeys = APIKeyHandler_ListAPIKeys"
| "app_handler A Ep_CreateKey = APIKeyHandler_CreateAPIKey (ap_hash A) (ap_ulid A) (ap_decode_key A)"
| "app_handler A Ep_RevokeKey = APIKeyHandler_RevokeAPIKey"
| "app_handler A Ep_RotateKey = APIKeyHandler_RotateAPIKey (ap_hash A) (ap_ulid A)"
| "app_handler A Ep_CreateWebhook = WebhookHandler_Create (ap_url A) (ap_resolver A) (ap_digest A)
     (ap_decode_webhook A) (ap_allow_insecure A)"
| "app_handler A Ep_ListWebhooks = WebhookHandler_List"
| "app_handler A Ep_GetWebhook = WebhookHandler_Get"
| "app_handler A Ep_UpdateWebhook = WebhookHandler_Update (ap_url A) (ap_resolver A)
     (ap_decode_webhook_patch A) (ap_allow_insecure A)"
| "app_handler A Ep_DeleteWebhook = WebhookHandler_Delete"
| "app_handler A Ep_RotateSecret = WebhookHandler_RotateSecret (ap_digest A)"
| "app_handler A Ep_ListDeliveries = WebhookHandler_ListDeliveries"
| "app_handler A Ep_RetryDelivery = WebhookHandler_RetryDelivery"
| "app_handler A Ep_AdminLinks = LookupLinks"
| "app_handler A Ep_AdminKeys = ListAPIKeysByUser"
| "app_handler A Ep_AdminStats = Stats"

text \<open>What the server does with a request.\<close>

definition api_server :: "'r router_env \<Rightarrow> 'r app_params \<Rightarrow> 'r handler" where
  "api_server E A = setupRouter E (app_handler A)"

section \<open>The documented replies\<close>

definition message_type :: json_type where
  "message_type = T_Obj [req ''error'' T_Str, req ''code'' T_Str]"

definition nested_error_type :: json_type where
  "nested_error_type = T_Obj [req ''error'' (T_Obj [req ''code'' T_Str, req ''message'' T_Str])]"

definition bare_error_type :: json_type where
  "bare_error_type = T_Obj [req ''error'' T_Str]"

definition link_type :: json_type where
  "link_type = T_Obj [req ''id'' T_Str, req ''short_code'' T_Str, req ''short_url'' T_Str,
     req ''destination'' T_Str, req ''redirect_type'' T_Int, opt ''expires_at'' T_Time, req ''status'' T_Str,
     req ''click_count'' T_Int, req ''created_at'' T_Time, req ''updated_at'' T_Time]"

definition link_list_type :: json_type where
  "link_list_type = T_Obj [req ''data'' (T_Arr link_type),
     req ''pagination'' (T_Obj [opt ''next_cursor'' T_Str, req ''has_more'' T_Bool])]"

definition analytics_type :: json_type where
  "analytics_type = T_Obj [req ''link_id'' T_Str, req ''short_code'' T_Str,
     req ''period'' (T_Obj [req ''from'' T_Str, req ''to'' T_Str]),
     req ''summary'' (T_Obj [req ''total_clicks'' T_Int, req ''unique_visitors'' T_Int,
       req ''avg_clicks_per_day'' T_Num]),
     req ''breakdown'' (T_Obj
       [opt ''daily'' (T_Arr (T_Obj [req ''date'' T_Str, req ''total_clicks'' T_Int,
          req ''unique_visitors'' T_Int])),
        opt ''referrers'' (T_Arr (T_Obj [req ''domain'' T_Str, req ''clicks'' T_Int])),
        opt ''countries'' (T_Arr (T_Obj [req ''code'' T_Str, req ''name'' T_Str, req ''clicks'' T_Int]))]),
     req ''generated_at'' T_Time]"

definition key_type :: json_type where
  "key_type = T_Obj [req ''id'' T_Str, opt ''name'' T_Str, req ''key_prefix'' T_Str,
     req ''scopes'' (T_Arr T_Str), req ''rate_limit_tier'' T_Str, req ''created_at'' T_Time,
     opt ''last_used_at'' T_Time, req ''revoked'' T_Bool]"

definition new_key_type :: json_type where
  "new_key_type = T_Obj [req ''id'' T_Str, req ''key'' T_Str, opt ''name'' T_Str, req ''key_prefix'' T_Str,
     req ''scopes'' (T_Arr T_Str), req ''rate_limit_tier'' T_Str, req ''created_at'' T_Time]"

definition rotated_key_type :: json_type where
  "rotated_key_type = T_Obj [req ''old_key_id'' T_Str, req ''old_key_revoked_at'' T_Time,
     req ''new_key'' new_key_type]"

definition webhook_fields :: "(string \<times> bool \<times> json_type) list" where
  "webhook_fields = [req ''id'' T_Str, opt ''name'' T_Str, opt ''description'' T_Str, req ''target_url'' T_Str,
     req ''enabled'' T_Bool, req ''event_types'' (T_Arr T_Str), req ''created_at'' T_Time,
     req ''updated_at'' T_Time]"

definition delivery_type :: json_type where
  "delivery_type = T_Obj [req ''id'' T_Str, req ''event_id'' T_Str, req ''event_type'' T_Str,
     req ''status'' T_Str, req ''attempt_count'' T_Int, req ''max_attempts'' T_Int,
     opt ''next_retry_at'' T_Time, opt ''last_attempt_at'' T_Time, opt ''last_http_status'' T_Int,
     opt ''last_error'' T_Str, req ''created_at'' T_Time]"

definition delivery_list_type :: json_type where
  "delivery_list_type = T_Obj [req ''deliveries'' (T_Arr delivery_type),
     req ''pagination'' (T_Obj [req ''page'' T_Int, req ''per_page'' T_Int, req ''total'' T_Int])]"

definition admin_link_type :: json_type where
  "admin_link_type = T_Obj [req ''id'' T_Str, req ''short_code'' T_Str, req ''destination'' T_Str,
     req ''redirect_type'' T_Int, req ''owner_id'' T_Str, req ''enabled'' T_Bool, req ''click_count'' T_Int,
     opt ''expires_at'' T_Time, opt ''deleted_at'' T_Time, req ''created_at'' T_Time, req ''updated_at'' T_Time]"

definition health_type :: json_type where
  "health_type = T_Obj [req ''status'' T_Str,
     opt ''checks'' (T_Obj [req ''postgres'' T_Str, req ''redis'' T_Str])]"

text \<open>For each endpoint its success status, the type of its answer (\<open>None\<close>: no body) and that of its
  errors. The redirect and the metrics answer text, not JSON; they have no entry.\<close>

fun reply_signature :: "api_endpoint \<Rightarrow> (int \<times> json_type option \<times> json_type) option" where
  "reply_signature Ep_Healthz = Some (200, Some health_type, health_type)"
| "reply_signature Ep_Readyz = Some (200, Some health_type, health_type)"
| "reply_signature Ep_Metrics = None"
| "reply_signature Ep_Hello = Some (200, Some (T_Obj [req ''message'' T_Str, req ''version'' T_Str]), bare_error_type)"
| "reply_signature Ep_Redirect = None"
| "reply_signature Ep_NotFound = Some (404, Some bare_error_type, bare_error_type)"
| "reply_signature Ep_MethodNotAllowed = Some (405, Some bare_error_type, bare_error_type)"
| "reply_signature Ep_ListLinks = Some (200, Some link_list_type, message_type)"
| "reply_signature Ep_GetLink = Some (200, Some link_type, message_type)"
| "reply_signature Ep_LinkAnalytics = Some (200, Some analytics_type, message_type)"
| "reply_signature Ep_CreateLink = Some (201, Some link_type, message_type)"
| "reply_signature Ep_UpdateLink = Some (200, Some link_type, message_type)"
| "reply_signature Ep_DeleteLink = Some (204, None, message_type)"
| "reply_signature Ep_ListKeys = Some (200, Some (T_Obj [req ''keys'' (T_Arr key_type)]), nested_error_type)"
| "reply_signature Ep_CreateKey = Some (201, Some new_key_type, nested_error_type)"
| "reply_signature Ep_RevokeKey = Some (204, None, nested_error_type)"
| "reply_signature Ep_RotateKey = Some (201, Some rotated_key_type, nested_error_type)"
| "reply_signature Ep_CreateWebhook =
     Some (201, Some (T_Obj (webhook_fields @ [req ''secret'' T_Str])), message_type)"
| "reply_signature Ep_ListWebhooks =
     Some (200, Some (T_Obj [req ''webhooks'' (T_Arr (T_Obj webhook_fields))]), message_type)"
| "reply_signature Ep_GetWebhook = Some (200, Some (T_Obj webhook_fields), message_type)"
| "reply_signature Ep_UpdateWebhook = Some (200, Some (T_Obj webhook_fields), message_type)"
| "reply_signature Ep_DeleteWebhook = Some (204, None, message_type)"
| "reply_signature Ep_RotateSecret = Some (200, Some (T_Obj [req ''secret'' T_Str]), message_type)"
| "reply_signature Ep_ListDeliveries = Some (200, Some delivery_list_type, message_type)"
| "reply_signature Ep_RetryDelivery = Some (202, Some (T_Obj [req ''status'' T_Str]), message_type)"
| "reply_signature Ep_AdminLinks = Some (200,
     Some (T_Obj [req ''links'' (T_Arr admin_link_type), req ''total'' T_Int]), message_type)"
| "reply_signature Ep_AdminKeys = Some (200,
     Some (T_Obj [req ''keys'' (T_Arr key_type), req ''total'' T_Int]), message_type)"
| "reply_signature Ep_AdminStats = Some (200,
     Some (T_Obj [req ''timestamp'' T_Time, req ''service'' T_Str, req ''version'' T_Str]), message_type)"

section \<open>Every answer has its type\<close>

lemmas field_defs = req_def opt_def omit_none_def omit_empty_def json_strs_def

lemma error_typed: "has_type (ErrorResponse m c) message_type"
  by (simp add: ErrorResponse_def message_type_def field_defs)

lemma link_typed: "has_type (link_response_json r) link_type"
  by (simp add: link_response_json_def link_type_def field_defs split: option.split)

lemma link_list_typed: "has_type (link_list_json r) link_list_type"
  by (simp add: link_list_json_def link_list_type_def field_defs link_typed)

lemma analytics_typed: "has_type (analytics_json r) analytics_type"
  by (simp add: analytics_json_def analytics_type_def summary_json_def daily_json_def referrer_json_def
      country_json_def omit_nil_def field_defs)

lemma key_typed: "has_type (key_response_json r) key_type"
  by (simp add: key_response_json_def key_type_def field_defs split: option.split)

lemma new_key_typed: "has_type (key_create_json r) new_key_type"
  by (simp add: key_create_json_def new_key_type_def field_defs)

lemma rotated_key_typed: "has_type (key_rotate_json r) rotated_key_type"
  by (simp add: key_rotate_json_def rotated_key_type_def field_defs new_key_typed)

lemma webhook_typed: "has_type (endpoint_json r) (T_Obj webhook_fields)"
  by (simp add: endpoint_json_def endpoint_fields_def webhook_fields_def field_defs)

lemma new_webhook_typed: "has_type (endpoint_create_json r) (T_Obj (webhook_fields @ [req ''secret'' T_Str]))"
  by (simp add: endpoint_create_json_def endpoint_fields_def webhook_fields_def field_defs)

lemma delivery_typed: "has_type (delivery_json r) delivery_type"
  by (simp add: delivery_json_def delivery_type_def field_defs split: option.split)

lemma admin_link_typed: "has_type (admin_link_json r) admin_link_type"
  by (simp add: admin_link_json_def admin_link_type_def field_defs split: option.split)

lemma health_typed:
  "has_type (health_json \<lparr>hr_status = s, hr_checks = []\<rparr>) health_type"
  "has_type (health_json \<lparr>hr_status = s, hr_checks = [(''postgres'', a), (''redis'', b)]\<rparr>) health_type"
  by (simp_all add: health_json_def health_type_def field_defs)

lemmas json_typed = error_typed link_typed link_list_typed analytics_typed key_typed new_key_typed
  rotated_key_typed webhook_typed new_webhook_typed delivery_typed admin_link_typed health_typed

text \<open>The links.\<close>

lemma link_error_typed:
  "s \<noteq> ok \<Longrightarrow> 400 \<le> s \<Longrightarrow> s < 600 \<Longrightarrow> reply_typed ok t message_type (LinkHandler_writeError s c m new_writer)"
  by (simp add: LinkHandler_writeError_def typed_failure error_typed)

lemma service_failed_typed: "ok < 300 \<Longrightarrow> reply_typed ok t message_type (service_failed err new_writer)"
  by (auto simp: service_failed_def handleServiceError_def link_error_typed typed_panic split: error.split)

lemma respond_link_typed: "reply_typed s (Some link_type) e (fst (respond_link svc s l new_writer w))"
  by (auto simp: respond_link_def typed_success json_typed split: prod.split)

lemmas links_typed = link_error_typed service_failed_typed respond_link_typed typed_success typed_no_content
  json_typed

lemma list_links_reply: "reply_typed 200 (Some link_list_type) message_type (fst (LinkHandler_List C T svc q new_writer w))"
  by (auto simp: LinkHandler_List_def links_typed split: prod.split sum.split)

lemma get_link_reply: "reply_typed 200 (Some link_type) message_type (fst (LinkHandler_Get svc q new_writer w))"
  by (auto simp: LinkHandler_Get_def Let_def links_typed split: prod.split sum.split)

lemma create_link_reply: "reply_typed 201 (Some link_type) message_type (fst (LinkHandler_Create P svc DEC q new_writer w))"
  by (auto simp: LinkHandler_Create_def Let_def links_typed split: prod.split sum.split option.split)

lemma update_link_reply: "reply_typed 200 (Some link_type) message_type (fst (LinkHandler_Update R P svc DEC q new_writer w))"
  by (auto simp: LinkHandler_Update_def Let_def links_typed split: prod.split sum.split option.split)

lemma delete_link_reply: "reply_typed 204 None message_type (fst (LinkHandler_Delete R q new_writer w))"
  by (auto simp: LinkHandler_Delete_def Let_def links_typed split: prod.split sum.split option.split)

lemma analytics_reply: "reply_typed 200 (Some analytics_type) message_type (fst (GetLinkAnalytics Q q new_writer w))"
  by (auto simp: GetLinkAnalytics_def analytics_error_def Let_def typed_success typed_failure json_typed
      split: prod.split sum.split)

text \<open>The keys.\<close>

lemma key_error_typed:
  "s \<noteq> ok \<Longrightarrow> 400 \<le> s \<Longrightarrow> s < 600 \<Longrightarrow> reply_typed ok t nested_error_type (writeAPIKeyError s c m new_writer)"
  unfolding writeAPIKeyError_def writeJSON_def [symmetric]
  by (rule typed_failure) (simp_all add: nested_error_type_def field_defs)

lemma not_found_typed: "ok \<noteq> 404 \<Longrightarrow> reply_typed ok t nested_error_type (not_found m new_writer)"
  by (simp add: not_found_def key_error_typed)

lemma generation_failed_typed: "ok \<noteq> 500 \<Longrightarrow> reply_typed ok t nested_error_type (generation_failed err new_writer)"
  by (simp add: generation_failed_def key_error_typed typed_panic split: error.split)

lemma encode_with_typed: "has_type j t \<Longrightarrow> reply_typed s (Some t) e (encode_with s j new_writer)"
  unfolding encode_with_def writeJSON_def [symmetric] by (rule typed_success)

lemmas keys_typed = key_error_typed not_found_typed generation_failed_typed encode_with_typed typed_no_content
  json_typed

lemma list_keys_reply: "reply_typed 200 (Some (T_Obj [req ''keys'' (T_Arr key_type)])) nested_error_type
    (fst (APIKeyHandler_ListAPIKeys q new_writer w))"
  by (auto simp: APIKeyHandler_ListAPIKeys_def Let_def keys_typed field_defs intro!: typed_Write_body_200
      split: prod.split sum.split option.split)

lemma store_key_reply: "reply_typed 201 (Some new_key_type) nested_error_type (fst (store_new_key U a r g new_writer w))"
  by (auto simp: store_new_key_def Let_def keys_typed split: prod.split sum.split)

lemma create_key_reply: "reply_typed 201 (Some new_key_type) nested_error_type
    (fst (APIKeyHandler_CreateAPIKey A U DEC q new_writer w))"
  by (auto simp: APIKeyHandler_CreateAPIKey_def Let_def keys_typed store_key_reply
      split: prod.split sum.split option.split)

lemma own_key_reply:
  assumes "\<And>k a w. reply_typed ok t nested_error_type (fst (act k a new_writer w))"
    and "ok \<noteq> 404" and "ok < 400"
  shows "reply_typed ok t nested_error_type (fst (with_own_key absent act q new_writer w))"
  using assms by (auto simp: with_own_key_def Let_def keys_typed split: prod.split sum.split option.split)

lemma revoke_key_reply: "reply_typed 204 None nested_error_type (fst (APIKeyHandler_RevokeAPIKey q new_writer w))"
  unfolding APIKeyHandler_RevokeAPIKey_def
  by (rule own_key_reply) (auto simp: keys_typed split: prod.split sum.split)

lemma rotate_key_reply: "reply_typed 201 (Some rotated_key_type) nested_error_type
    (fst (APIKeyHandler_RotateAPIKey A U q new_writer w))"
  unfolding APIKeyHandler_RotateAPIKey_def
  by (rule own_key_reply)
    (auto simp: keys_typed rotate_key_def Let_def split: prod.split sum.split)

text \<open>The webhooks.\<close>

lemma webhook_error_typed:
  "s \<noteq> ok \<Longrightarrow> 400 \<le> s \<Longrightarrow> s < 600 \<Longrightarrow> reply_typed ok t message_type (webhook_error s m c new_writer)"
  by (simp add: webhook_error_def typed_failure error_typed)

lemmas webhooks_typed = webhook_error_typed typed_success typed_no_content json_typed

lemma webhook_auth_reply:
  assumes "\<And>a w. reply_typed ok t message_type (fst (act a q new_writer w))" and "ok < 400"
  shows "reply_typed ok t message_type (fst (with_webhook_auth act q new_writer w))"
  using assms by (auto simp: with_webhook_auth_def webhooks_typed split: option.split)

lemma own_endpoint_reply:
  assumes "\<And>e a w. reply_typed ok t message_type (fst (act e a q new_writer w))" and "ok < 400"
  shows "reply_typed ok t message_type (fst (with_own_endpoint failed act q new_writer w))"
  unfolding with_own_endpoint_def
  by (rule webhook_auth_reply) (use assms in \<open>auto simp: webhooks_typed split: prod.split sum.split\<close>)

lemma create_webhook_reply:
  "reply_typed 201 (Some (T_Obj (webhook_fields @ [req ''secret'' T_Str]))) message_type
     (fst (WebhookHandler_Create P L D DEC ai q new_writer w))"
  unfolding WebhookHandler_Create_def
  by (rule webhook_auth_reply)
    (auto simp: create_webhook_def Let_def webhooks_typed split: prod.split sum.split option.split)

lemma list_webhooks_reply: "reply_typed 200 (Some (T_Obj [req ''webhooks'' (T_Arr (T_Obj webhook_fields))]))
    message_type (fst (WebhookHandler_List q new_writer w))"
  unfolding WebhookHandler_List_def
  by (rule webhook_auth_reply)
    (auto simp: webhook_error_typed webhook_typed field_defs intro!: typed_success split: prod.split sum.split)

lemma get_webhook_reply: "reply_typed 200 (Some (T_Obj webhook_fields)) message_type (fst (WebhookHandler_Get q new_writer w))"
  unfolding WebhookHandler_Get_def by (rule own_endpoint_reply) (simp_all add: webhooks_typed)

lemma update_webhook_reply: "reply_typed 200 (Some (T_Obj webhook_fields)) message_type
    (fst (WebhookHandler_Update P L DEC ai q new_writer w))"
  unfolding WebhookHandler_Update_def
  by (rule own_endpoint_reply) (auto simp: webhooks_typed split: prod.split sum.split option.split)

lemma delete_webhook_reply: "reply_typed 204 None message_type (fst (WebhookHandler_Delete q new_writer w))"
  unfolding WebhookHandler_Delete_def
  by (rule own_endpoint_reply) (auto simp: webhooks_typed split: prod.split sum.split)

lemma rotate_secret_reply: "reply_typed 200 (Some (T_Obj [req ''secret'' T_Str])) message_type
    (fst (WebhookHandler_RotateSecret D q new_writer w))"
  unfolding WebhookHandler_RotateSecret_def
  by (rule own_endpoint_reply)
    (auto simp: rotate_secret_def webhook_error_typed field_defs intro!: typed_success split: prod.split sum.split)

lemma list_deliveries_reply: "reply_typed 200 (Some delivery_list_type) message_type
    (fst (WebhookHandler_ListDeliveries q new_writer w))"
  unfolding WebhookHandler_ListDeliveries_def
  by (rule own_endpoint_reply)
    (auto simp: Let_def webhook_error_typed delivery_typed delivery_list_type_def field_defs
      intro!: typed_success split: prod.split sum.split)

lemma retry_delivery_reply: "reply_typed 202 (Some (T_Obj [req ''status'' T_Str])) message_type
    (fst (WebhookHandler_RetryDelivery q new_writer w))"
  unfolding WebhookHandler_RetryDelivery_def
  by (rule own_endpoint_reply)
    (auto simp: webhook_error_typed field_defs intro!: typed_success split: prod.split sum.split)

text \<open>The rest.\<close>

lemma encode_error_typed:
  "s \<noteq> ok \<Longrightarrow> 400 \<le> s \<Longrightarrow> s < 600 \<Longrightarrow> has_type j e \<Longrightarrow> reply_typed ok t e (encode_with s j new_writer)"
  unfolding encode_with_def writeJSON_def [symmetric] by (rule typed_failure)

lemma admin_error_typed:
  "s \<noteq> ok \<Longrightarrow> 400 \<le> s \<Longrightarrow> s < 600 \<Longrightarrow> reply_typed ok t message_type (writeErrorJSON s c m new_writer)"
  unfolding writeErrorJSON_def by (rule encode_error_typed) (simp_all add: message_type_def field_defs)

lemma healthz_reply: "reply_typed 200 (Some health_type) health_type (fst (Healthz q new_writer w))"
  by (simp add: Healthz_def typed_success json_typed)

lemma readyz_reply: "reply_typed 200 (Some health_type) health_type (fst (Readyz db cache q new_writer w))"
  by (auto simp: Readyz_def Let_def encode_with_typed encode_error_typed health_typed split: prod.split)

lemma hello_reply: "reply_typed 200 (Some (T_Obj [req ''message'' T_Str, req ''version'' T_Str])) e
    (fst (Handler_Hello q new_writer w))"
  by (simp add: Handler_Hello_def typed_success field_defs)

lemma admin_links_reply: "reply_typed 200 (Some (T_Obj [req ''links'' (T_Arr admin_link_type), req ''total'' T_Int]))
    message_type (fst (LookupLinks q new_writer w))"
  by (auto simp: LookupLinks_def Let_def admin_error_typed link_lookup_json_def admin_link_typed field_defs
      intro!: typed_success split: prod.split)

lemma admin_keys_reply: "reply_typed 200 (Some (T_Obj [req ''keys'' (T_Arr key_type), req ''total'' T_Int]))
    message_type (fst (ListAPIKeysByUser q new_writer w))"
  by (auto simp: ListAPIKeysByUser_def Let_def admin_error_typed key_list_json_def key_typed field_defs
      intro!: typed_success split: prod.split sum.split)

lemma stats_reply: "reply_typed 200 (Some (T_Obj [req ''timestamp'' T_Time, req ''service'' T_Str,
    req ''version'' T_Str])) message_type (fst (Stats q new_writer w))"
  by (auto simp: Stats_def field_defs intro!: typed_success split: prod.split)

lemma unrouted_reply:
  "reply_typed 404 (Some bare_error_type) e (fst (Handler_NotFound q new_writer w))"
  "reply_typed 405 (Some bare_error_type) e (fst (Handler_MethodNotAllowed q new_writer w))"
  by (simp_all add: Handler_NotFound_def Handler_MethodNotAllowed_def typed_success bare_error_type_def field_defs)

lemmas reply_rules = list_links_reply get_link_reply create_link_reply update_link_reply delete_link_reply
  analytics_reply list_keys_reply create_key_reply revoke_key_reply rotate_key_reply create_webhook_reply
  list_webhooks_reply get_webhook_reply update_webhook_reply delete_webhook_reply rotate_secret_reply
  list_deliveries_reply retry_delivery_reply healthz_reply readyz_reply hello_reply admin_links_reply
  admin_keys_reply stats_reply unrouted_reply


end
