(* ===== verification/Public_Site.thy ===== *)
theory Public_Site imports App begin

text \<open>
  A visit of a short link through the whole server: the middleware of \<open>setupRouter\<close> around the routes, the
  rate limit of the address, the redirect handler, the cache and the table.

  Shown: whatever the middleware and the mux do on the way, what the client gets for \<open>GET /code\<close> is the
  answer that is right for the links table, or 429.
\<close>

section \<open>Steps that leave the links alone\<close>

text \<open>From one world to a later one with the same links, in which a coherent cache is coherent and no code
  is negatively cached that was not.\<close>

definition leads_to :: "'r redis_ops \<Rightarrow> 'r world \<Rightarrow> 'r world \<Rightarrow> bool" where
  "leads_to R w w' \<longleftrightarrow> w_links w' = w_links w \<and> clock w \<le> clock w'
     \<and> (outcomes w = [] \<longrightarrow> outcomes w' = []) \<and> (coherent R w \<longrightarrow> coherent R w')
     \<and> (\<forall>c. negative_now R w' c \<longrightarrow> negative_now R w c)"

lemma leads_to_refl [simp]: "leads_to R w w"
  by (simp add: leads_to_def)

lemma leads_to_trans: "leads_to R u v \<Longrightarrow> leads_to R v w \<Longrightarrow> leads_to R u w"
  by (auto simp: leads_to_def)

text \<open>The keys of the rate limits and of the authentication are not those of links.\<close>

definition foreign_key :: "string \<Rightarrow> bool" where
  "foreign_key k \<longleftrightarrow> (\<forall>c. link_hash_key c \<noteq> k \<and> neg_key c \<noteq> k)"

lemma foreign_keys:
  "foreign_key (rateLimitIPPrefix @ s)" "foreign_key (rateLimitAPIPrefix @ s)" "foreign_key (auth_cache_key s)"
  by (simp_all add: foreign_key_def rateLimitIPPrefix_def rateLimitAPIPrefix_def authCachePrefix_def auth_cache_key_def
      link_hash_key_def neg_key_def linkKeyPrefix_def)

context redis_server begin

lemma leads_to_store:
  assumes "\<And>c u. hash_at R (link_hash_key c) u s' = hash_at R (link_hash_key c) u (w_redis w)
      \<and> r_exists R (neg_key c) u s' = r_exists R (neg_key c) u (w_redis w)"
  shows "leads_to R w (w\<lparr>w_redis := s'\<rparr>)"
proof -
  have "hash_now R (w\<lparr>w_redis := s'\<rparr>) c = hash_now R w c" "negative_now R (w\<lparr>w_redis := s'\<rparr>) c = negative_now R w c"
    "live_row (w\<lparr>w_redis := s'\<rparr>) c = live_row w c" for c
    using assms by (simp_all add: hash_now_def negative_now_def live_row_def fun_eq_iff)
  moreover from this have "coherent R (w\<lparr>w_redis := s'\<rparr>) = coherent R w"
    by (simp add: coherent_def coherent_at_def)
  ultimately show ?thesis by (simp add: leads_to_def)
qed

lemma leads_to_same_store:
  "w_links w' = w_links w \<Longrightarrow> w_redis w' = w_redis w \<Longrightarrow> clock w \<le> clock w'
   \<Longrightarrow> (outcomes w = [] \<Longrightarrow> outcomes w' = []) \<Longrightarrow> leads_to R w w'"
  using coherent_later [of w w'] exists_fades by (auto simp: leads_to_def negative_now_def)

lemma leads_to_time_now: "leads_to R w (snd (time_now w))"
  by (rule leads_to_same_store) (use time_now_mono [of w "fst (time_now w)" "snd (time_now w)"] in simp_all)

lemma leads_to_next_rand: "leads_to R w (snd (next_rand w))"
  by (rule leads_to_same_store) simp_all

lemma leads_to_script:
  assumes "foreign_key k"
  shows "leads_to R w (snd (tokenBucketScript R N k rate burst now ttl w))"
proof (cases "r_hgetall R k (clock w) (w_redis w)")
  case Inl
  then show ?thesis by (simp add: tokenBucketScript_def)
next
  case (Inr data)
  have "leads_to R w (w\<lparr>w_redis := r_expire R k d (clock w) s'\<rparr>)"
    if "r_hset R k fs (clock w) (w_redis w) = Inr s'" for fs d s'
    using hset_other [OF that] expire_other [of _ k] assms
    by (intro leads_to_store) (metis foreign_key_def)
  with Inr show ?thesis by (simp add: tokenBucketScript_def Let_def split: sum.split)
qed

lemma leads_to_call:
  assumes "\<And>u. leads_to R u (snd (f u))"
  shows "leads_to R w (snd (call f w))"
proof -
  obtain y u where y: "next_outcome w = (y, u)" by fastforce
  have "outcomes w = [] \<Longrightarrow> outcomes u = []" using y by (simp add: next_outcome_def)
  with y have "leads_to R w u"
    using next_outcome_frame [of w] next_outcome_clock [of w] by (intro leads_to_same_store) simp_all
  with y show ?thesis using assms [of u] leads_to_trans by (auto simp: call_def split: outcome.split)
qed

lemma leads_to_limit:
  assumes "foreign_key k"
  shows "leads_to R w (snd (checkRateLimit R N k rate b ttl w))"
proof -
  let ?f = "tokenBucketScript R N k rate b (to_unix (fst (time_now w))) ttl"
  obtain r w2 where c: "call ?f (snd (time_now w)) = (r, w2)" by fastforce
  have "leads_to R (snd (time_now w)) w2"
    using leads_to_call [of ?f "snd (time_now w)", OF leads_to_script [OF assms]] by (simp add: c)
  then have "leads_to R w w2" using leads_to_time_now leads_to_trans by blast
  moreover have "snd (checkRateLimit R N k rate b ttl w) = snd (time_now w2)"
    by (cases r) (simp_all add: checkRateLimit_def open_result_def c case_prod_beta)
  ultimately show ?thesis using leads_to_time_now [of w2] leads_to_trans by metis
qed

lemma leads_to_check:
  "leads_to R w (snd (Cache_CheckIPRateLimit R N D ip rps burst w))"
  using leads_to_limit [OF foreign_keys(1)] by (simp add: Cache_CheckIPRateLimit_def case_prod_beta)

lemma leads_to_api_check:
  "leads_to R w (snd (Cache_CheckAPIRateLimit R N i rpm burst w))"
  using leads_to_limit [OF foreign_keys(2)] leads_to_time_now
  by (simp add: Cache_CheckAPIRateLimit_def open_result_def case_prod_beta)

end

section \<open>What the middleware hands on\<close>

definition fresh :: "writer \<Rightarrow> bool" where
  "fresh x \<longleftrightarrow> rw_reply x = None \<and> rw_body x = [] \<and> rw_panic x = None"

lemma fresh_headers:
  "fresh x \<Longrightarrow> fresh (set_header k v x)" "fresh x \<Longrightarrow> fresh (del_header k x)" "fresh x \<Longrightarrow> fresh (set_headers kvs x)"
proof -
  show set: "fresh (set_header k v x)" if "fresh x" for k v and x :: writer
    using that by (simp add: fresh_def http_simps)
  show "fresh (del_header k x)" if "fresh x" using that by (simp add: fresh_def http_simps)
  show "fresh (set_headers kvs x)" if "fresh x"
    using that unfolding set_headers_def by (induction kvs arbitrary: x) (auto intro: set)
qed

lemma set_nonempty_fresh: "fresh x \<Longrightarrow> fresh (set_nonempty k v x)"
  by (simp add: set_nonempty_def fresh_headers)

lemma fresh_witness: "fresh y \<Longrightarrow> \<exists>z. fresh z \<and> (nxt :: 'r handler) q y w = nxt q z w"
  by blast

lemma CORS_passes:
  assumes "fresh x" and "rq_method q \<noteq> ''OPTIONS''"
  shows "\<exists>y. fresh y \<and> CORS cfg nxt q x w = nxt q y w"
  using assms by (auto simp: CORS_def Let_def intro!: fresh_witness set_nonempty_fresh fresh_headers)

lemma with_cors_passes:
  assumes "fresh x" and "rq_method q \<noteq> ''OPTIONS''"
  shows "\<exists>y. fresh y \<and> with_cors os nxt q x w = nxt q y w"
  using CORS_passes [OF assms] assms(1) by (auto simp: with_cors_def)

lemma Security_passes: "fresh x \<Longrightarrow> \<exists>y. fresh y \<and> Security cfg nxt q x w = nxt q y w"
  by (auto simp: Security_def intro!: fresh_witness fresh_headers)

text \<open>A request id comes with the request or from the random source, which must not fail.\<close>

definition can_name :: "request \<Rightarrow> 'r world \<Rightarrow> bool" where
  "can_name q w \<longleftrightarrow> request_header q ''X-Request-ID'' \<noteq> [] \<or> fst (next_rand w) \<noteq> None"

lemma with_request_id_passes:
  "fresh x \<Longrightarrow> \<exists>y. fresh y \<and> with_request_id i nxt q x w = nxt (q\<lparr>rq_request_id := i\<rparr>) y w"
  by (auto simp: with_request_id_def Let_def intro!: fresh_witness fresh_headers)

lemma RequestID_passes:
  assumes "fresh x" and "can_name q w"
  shows "\<exists>i y v. fresh y \<and> v \<in> {w, snd (next_rand w)} \<and> RequestID V nxt q x w = nxt (q\<lparr>rq_request_id := i\<rparr>) y v"
proof (cases "request_header q ''X-Request-ID'' = []")
  case True
  then obtain n where "fst (next_rand w) = Some n" using assms(2) by (auto simp: can_name_def)
  then have "new_uuid V w = (Some (V n), snd (next_rand w))" by (simp add: new_uuid_def case_prod_beta)
  with True with_request_id_passes [OF assms(1), of "V n" nxt q "snd (next_rand w)"] show ?thesis
    by (auto simp: RequestID_def)
next
  case False
  with with_request_id_passes [OF assms(1), of "request_header q ''X-Request-ID''" nxt q w] show ?thesis
    by (auto simp: RequestID_def)
qed

text \<open>Through all of it: the rest of the server runs on a fresh writer and on the request with another
  peer address and an id.\<close>

definition site :: "'r router_env \<Rightarrow> (api_endpoint \<Rightarrow> 'r handler) \<Rightarrow> 'r handler" where
  "site E hs = Recoverer (\<lambda>q. serve (rt_mux E) hs (root_table E hs) (rq_path q) q)"

context redis_server begin

lemma server_passes:
  assumes "rq_method q = ''GET''" and "rt_real_ip E q = q\<lparr>rq_remote_addr := addr\<rparr>" and "can_name q w"
  obtains i y v v' where "fresh y" and "leads_to R w v"
    and "leads_to R (snd (site E hs (q\<lparr>rq_remote_addr := addr, rq_request_id := i\<rparr>) y v)) v'"
    and "setupRouter E hs q new_writer w
      = (fst (site E hs (q\<lparr>rq_remote_addr := addr, rq_request_id := i\<rparr>) y v), v')"
proof -
  let ?log = "Logger (site E hs)" and ?q = "q\<lparr>rq_remote_addr := addr\<rparr>"
  let ?ids = "RequestID (rt_uuid E) ?log" and ?os = "GetCORSAllowedOrigins (rt_config E)"
  let ?cors = "with_cors ?os (RealIP (rt_real_ip E) ?ids)"
  have get: "rq_method q \<noteq> ''OPTIONS''" by (simp add: assms(1))
  have "fresh new_writer" by (simp add: fresh_def)
  from Security_passes [OF this, of "security_settings (rt_config E)" ?cors q w]
  obtain x1 where 1: "fresh x1" "Security (security_settings (rt_config E)) ?cors q new_writer w = ?cors q x1 w"
    by blast
  from with_cors_passes [OF 1(1) get, of ?os "RealIP (rt_real_ip E) ?ids" w]
  obtain x2 where 2: "fresh x2" "?cors q x1 w = RealIP (rt_real_ip E) ?ids q x2 w" by blast
  have "can_name ?q w" using assms(3) by (simp add: can_name_def request_header_def)
  from RequestID_passes [OF 2(1) this, of "rt_uuid E" ?log] obtain i y u where 3: "fresh y"
      "u \<in> {w, snd (next_rand w)}" "?ids ?q x2 w = ?log (?q\<lparr>rq_request_id := i\<rparr>) y u"
    by blast
  have all: "setupRouter E hs q new_writer w = ?log (?q\<lparr>rq_request_id := i\<rparr>) y u"
    using 1(2) 2(2) 3(3) by (simp add: setupRouter_def site_def RealIP_def assms(2))
  let ?v = "snd (time_now u)" and ?r = "site E hs (?q\<lparr>rq_request_id := i\<rparr>) y (snd (time_now u))"
  have "leads_to R w u" using 3(2) leads_to_next_rand by auto
  then have "leads_to R w ?v" using leads_to_time_now leads_to_trans by blast
  moreover have "setupRouter E hs q new_writer w = (fst ?r, snd (time_now (snd ?r)))"
    unfolding all Logger_def by (simp add: case_prod_beta site_def Recoverer_no_panic)
  ultimately show thesis using that [OF 3(1)] leads_to_time_now by blast
qed

end

section \<open>A visit\<close>

lemma faithful_from:
  assumes "leads_to R w v" and "redirect_faithful v c t x" and "t \<le> t'"
  shows "redirect_faithful w c t' x"
proof -
  have "live_row v c = live_row w c"
    using assms(1) by (simp add: leads_to_def live_row_def fun_eq_iff)
  then have "redirect_faithful w c t x"
    using assms(1,2) by (auto simp: redirect_faithful_def leads_to_def)
  then show ?thesis using assms(3) by (rule redirect_faithful_later)
qed

lemma refuse_rate_429: "fresh x \<Longrightarrow> status_of (refuse_rate r x) = 429 \<and> rw_panic (refuse_rate r x) = None"
  by (simp add: refuse_rate_def writeRateLimitError_def http_simps fresh_def)

text \<open>The handlers behind the address limit, on a request that carries the code.\<close>

lemma limited_redirect:
  assumes "redis_server (re_redis V)" and "coherent (re_redis V) w" and "links_inv w"
    and "times_ok (w_links w)" and "codes_clean (w_links w)"
    and "destinations_absolute (re_parse V) (w_links w)"
    and "path_value q ''shortCode'' = c" and "c \<noteq> []" and "fresh x0"
    and "RateLimitIP (re_redis V) N D cfg (RedirectHandler_Redirect V) q x0 w = (x, w')"
  shows "(redirect_faithful w c (clock w') x \<or> status_of x = 429 \<and> rc_redirect_enabled cfg) \<and> rw_panic x = None"
proof -
  have handled: ?thesis if "leads_to (re_redis V) w v" and run: "RedirectHandler_Redirect V q x0 v = (x, w')" for v
  proof -
    have "coherent (re_redis V) v" "w_links v = w_links w" using that(1) assms(2) by (simp_all add: leads_to_def)
    with assms(3-6) Redirect_response [OF assms(1) _ _ _ _ _ assms(7,8) _ run] assms(9)
    have "redirect_faithful v c (clock w') x" "rw_panic x = None"
      by (simp_all add: links_inv_def fresh_def)
    then show ?thesis using faithful_from [OF that(1)] by blast
  qed
  obtain rr v where check: "Cache_CheckIPRateLimit (re_redis V) N D (mw_getClientIP q) (rc_redirect_rps cfg)
      (rc_redirect_burst cfg) w = (rr, v)" by fastforce
  then have lead: "leads_to (re_redis V) w v"
    using redis_server.leads_to_check [OF assms(1)] by (metis snd_conv)
  show ?thesis
  proof (cases "rc_redirect_enabled cfg")
    case False
    then show ?thesis using handled [OF leads_to_refl] assms(10) by (simp add: RateLimitIP_def)
  next
    case True
    then have "RedirectHandler_Redirect V q x0 v = (x, w') \<or> (\<exists>r. x = refuse_rate r x0)"
      using assms(10) by (auto simp: RateLimitIP_def check split: sum.splits if_splits)
    then show ?thesis using handled [OF lead] refuse_rate_429 [OF assms(9)] True by (elim disjE exE) simp_all
  qed
qed

lemma visit_faithful:
  assumes "chi_mux (rt_mux E)" and "redis_server (rt_redis E)" and "re_redis (ap_redirect A) = rt_redis E"
    and "coherent (rt_redis E) w" and "links_inv w" and "times_ok (w_links w)" and "codes_clean (w_links w)"
    and "destinations_absolute (re_parse (ap_redirect A)) (w_links w)"
    and "rq_method q = ''GET''" and "rq_path q = CHR ''/'' # c" and "c \<noteq> []" and "CHR ''/'' \<notin> set c"
    and "c \<notin> {''healthz'', ''readyz'', ''metrics''}"
    and "rt_real_ip E q = q\<lparr>rq_remote_addr := addr\<rparr>" and "can_name q w"
    and "api_server E A q new_writer w = (x, w')"
  shows "(redirect_faithful w c (clock w') x
      \<or> status_of x = 429 \<and> cf_rate_limit_redirect_enabled (rt_config E)) \<and> rw_panic x = None"
proof -
  let ?hs = "app_handler A" and ?V = "ap_redirect A" and ?cfg = "rate_limit_settings (rt_config E)"
  obtain i y v v' where y: "fresh y" and v: "leads_to (rt_redis E) w v"
    and last: "leads_to (rt_redis E) (snd (site E ?hs (q\<lparr>rq_remote_addr := addr, rq_request_id := i\<rparr>) y v)) v'"
    and all: "setupRouter E ?hs q new_writer w
      = (fst (site E ?hs (q\<lparr>rq_remote_addr := addr, rq_request_id := i\<rparr>) y v), v')"
    by (rule redis_server.server_passes [OF assms(2,9,14,15), of ?hs])
  let ?q = "q\<lparr>rq_remote_addr := addr, rq_request_id := i\<rparr>"
  let ?p = "with_params [(''shortCode'', c)] ?q"
  obtain x1 u where run: "RateLimitIP (rt_redis E) (rt_numbers E) (rt_digest E) ?cfg
      (RedirectHandler_Redirect ?V) ?p y v = (x1, u)" by fastforce
  have "map_of public_codes c = None" using assms(13) by (simp add: public_codes_def)
  then have "serve (rt_mux E) ?hs (root_table E ?hs) (rq_path ?q) ?q y v = (x1, u)"
    using chi_mux.root_of_code [OF assms(1) _ assms(11,12), of ?q ?hs E y v] assms(9,10) run
    by (simp add: code_node_def)
  moreover have code: "path_value ?p ''shortCode'' = c"
    by (simp add: path_value_def lookup_str_def with_params_def)
  have links: "w_links v = w_links w" "coherent (rt_redis E) v" using v assms(4) by (simp_all add: leads_to_def)
  have inner: "(redirect_faithful v c (clock u) x1 \<or> status_of x1 = 429 \<and> rc_redirect_enabled ?cfg)
      \<and> rw_panic x1 = None"
    using limited_redirect [OF _ _ _ _ _ _ code assms(11) y run [folded assms(3)]] assms(2-8) links
    by (simp add: links_inv_def)
  ultimately have "site E ?hs ?q y v = (x1, u)" by (simp add: site_def Recoverer_quiet)
  with all last assms(16) have "x = x1" "clock u \<le> clock w'"
    by (simp_all add: api_server_def leads_to_def)
  then show ?thesis using inner faithful_from [OF v, of c "clock u" x1 "clock w'"]
    by (auto simp: rate_limit_settings_def)
qed

text \<open>C29: A visit of a short link is answered rightly by the whole server. Over a coherent cache, for every
  mux that obeys the laws of chi and every outcome of every call: \<open>GET\<close> of a code of one segment, other
  than the three of the static routes, through the security headers, CORS, the request id, the log, the
  recovery, the routes and the address limit ends in the answer that is right for the links table (301 or
  302 with the type and the destination of the live row, 410 only for an expiring one, 404 only without
  an enabled one, 500 only when a call failed), or in 429, and then only if the limit is switched on. No
  panic is left.\<close>
theorem visit_is_faithful:
  assumes "chi_mux (rt_mux E)" and "redis_server (rt_redis E)" and "re_redis (ap_redirect A) = rt_redis E"
    and "coherent (rt_redis E) w" and "links_inv w" and "times_ok (w_links w)" and "codes_clean (w_links w)"
    and "destinations_absolute (re_parse (ap_redirect A)) (w_links w)"
    and "rq_method q = ''GET''" and "rq_path q = CHR ''/'' # c" and "c \<noteq> []" and "CHR ''/'' \<notin> set c"
    and "c \<notin> {''healthz'', ''readyz'', ''metrics''}"
    and "rt_real_ip E q = q\<lparr>rq_remote_addr := addr\<rparr>" and "can_name q w"
    and "api_server E A q new_writer w = (x, w')"
  shows "(redirect_faithful w c (clock w') x
      \<or> status_of x = 429 \<and> cf_rate_limit_redirect_enabled (rt_config E)) \<and> rw_panic x = None"
  using assms by (rule visit_faithful)

lemma request_id_key: "canonical_key ''X-Request-ID'' = ''X-Request-Id''"
  by code_simp

definition visit_request :: request where
  "visit_request = (plain_request ''GET'' ''/abd'')\<lparr>rq_header := no_header(''X-Request-Id'' := [''r1''])\<rparr>"

theorem visit_is_faithful_witness:
  "\<forall>A X. status_of (fst (api_server sample_router (A\<lparr>ap_redirect := sample_redirect_env X\<rparr>)
      visit_request new_writer sample_world)) \<in> {301, 302, 404, 410, 429}"
proof (intro allI)
  fix A :: "ref_store app_params" and X :: "ref_store stream_ops"
  let ?A = "A\<lparr>ap_redirect := sample_redirect_env X\<rparr>"
  obtain x w' where run: "api_server sample_router ?A visit_request new_writer sample_world = (x, w')"
    by fastforce
  have "chi_mux (rt_mux sample_router)" "redis_server (rt_redis sample_router)"
      "coherent (rt_redis sample_router) sample_world"
    by (simp_all add: sample_router_def ref_chi.chi_mux_axioms ref_server.redis_server_axioms)
  moreover have "re_redis (ap_redirect ?A) = rt_redis sample_router"
      "destinations_absolute (re_parse (ap_redirect ?A)) (w_links sample_world)"
    by (simp_all add: sample_router_def sample_redirect_env_def destinations_absolute_def)
  moreover have "rq_method visit_request = ''GET''" "rq_path visit_request = CHR ''/'' # ''abd''"
      "rt_real_ip sample_router visit_request
        = visit_request\<lparr>rq_remote_addr := rq_remote_addr visit_request\<rparr>"
      "can_name visit_request sample_world"
    by (simp_all add: visit_request_def plain_request_def sample_router_def can_name_def
        request_header_def header_get_def request_id_key)
  moreover have "''abd'' \<noteq> []" "CHR ''/'' \<notin> set ''abd''" "''abd'' \<notin> {''healthz'', ''readyz'', ''metrics''}"
    by simp_all
  ultimately have "redirect_faithful sample_world ''abd'' (clock w') x \<or> status_of x = 429"
    using visit_is_faithful [OF _ _ _ _ sample_world_inv sample_ok _ _ _ _ _ _ _ _ run] by blast
  then show "status_of (fst (api_server sample_router ?A visit_request new_writer sample_world))
      \<in> {301, 302, 404, 410, 429}"
    unfolding run by (auto simp: redirect_faithful_def)
qed

end
