(* ===== verification/Site_Journey.thy ===== *)
theory Site_Journey imports Public_Site Link_Journey begin

text \<open>
  A client creates a link through the API and visits it, both through the whole server: \<open>POST\<close> on
  \<open>/api/v1/links\<close> passes the site's middleware, the mounts, the body limit, the authentication, the rate limit
  of the key and the scope check before the handler; the visit is that of \<open>Public_Site\<close>.

  \<open>hands_on\<close> is the contract of a middleware: it answers something else than a creation does, or it hands
  the request on, and takes no link away. The locale \<open>chi_mounts\<close> adds to the laws of the mux that of a
  mounted subrouter.
\<close>

section \<open>Steps that leave the links alone\<close>

context redis_server begin

lemma leads_to_authenticate: "leads_to R w (snd (authenticate R J A D key w))"
proof -
  have setex: "leads_to R u (snd (rd_setex R (auth_cache_key k) v d u))" for k v d u
    unfolding rd_setex_def snd_conv
    by (rule leads_to_store) (use setex_other [of _ "auth_cache_key k"] foreign_keys(3) in \<open>metis foreign_key_def\<close>)
  have stamp: "leads_to R u (snd (Repository_UpdateAPIKeyLastUsed i u))" for i u
  proof -
    have "leads_to R v (snd (pg_update_keys p f v))" for p f and v :: "'r world"
      by (rule leads_to_same_store) (simp_all add: pg_update_keys_def split: option.split)
    then have "leads_to R v (snd (call (pg_update_keys p f) v))" for p f and v :: "'r world"
      by (rule leads_to_call)
    then show ?thesis using leads_to_time_now leads_to_trans
      by (simp add: Repository_UpdateAPIKeyLastUsed_def case_prod_beta split: sum.split) blast
  qed
  have ask: "leads_to R u (snd (Repository_GetAPIKeysByPrefix p u))" for p u
    using leads_to_call [of "\<lambda>u. (Inr (filter (\<lambda>k. k_key_prefix k = p \<and> live_key k) (w_api_keys u)), u)" u]
    by (simp add: Repository_GetAPIKeysByPrefix_def case_prod_beta split: sum.split)
  have cached: "leads_to R u (snd (Cache_GetAuthContext R J k u))" for k u
    using leads_to_call [of "rd_get R (auth_cache_key k)" u]
    by (auto simp: Cache_GetAuthContext_def rd_get_def split: prod.split sum.split option.split)
  have set: "leads_to R u (snd (Cache_SetAuthContext R J k a u))" for k a u
    unfolding Cache_SetAuthContext_def by (rule leads_to_call) (rule setex)
  have lookup: "leads_to R u (snd (auth_lookup R J A key k p u))" for k p u
  proof -
    obtain r v where v: "Repository_GetAPIKeysByPrefix p u = (r, v)" by fastforce
    with ask [of u p] have "leads_to R u v" by simp
    moreover from this have "leads_to R u (snd (Repository_UpdateAPIKeyLastUsed i (snd (Cache_SetAuthContext R J k a v))))"
      for i a by (meson leads_to_trans set stamp)
    ultimately show ?thesis using v by (auto simp: auth_lookup_def Let_def split: sum.split option.split)
  qed
  have "leads_to R w (snd (auth_lookup R J A key k p v))" if "Cache_GetAuthContext R J c w = (r, v)" for r v k p c
    using cached [of w c] that lookup leads_to_trans by (metis snd_conv)
  moreover have "leads_to R w v" if "Cache_GetAuthContext R J c w = (r, v)" for r v c
    using cached [of w c] that by simp
  ultimately show ?thesis
    by (auto simp: authenticate_def Let_def split: sum.split prod.split option.split)
qed

end
section \<open>Middleware that hands on\<close>

text \<open>The answer of a creation: 201 and one JSON value.\<close>

definition created :: "writer \<Rightarrow> bool" where
  "created x \<longleftrightarrow> status_of x = 201 \<and> (\<exists>j. rw_body x = [Json j])"

text \<open>The same request, but for what the middleware knows of the client and adds for the handlers.\<close>

definition follows :: "request \<Rightarrow> request \<Rightarrow> bool" where
  "follows q p \<longleftrightarrow> rq_method p = rq_method q \<and> rq_path p = rq_path q \<and> rq_in_body p = rq_in_body q"

lemma follows_refl [simp]: "follows q q"
  by (simp add: follows_def)

lemma follows_trans: "follows q p \<Longrightarrow> follows p r \<Longrightarrow> follows q r"
  by (simp add: follows_def)

definition hands_to :: "'r redis_ops \<Rightarrow> request \<Rightarrow> 'r world \<Rightarrow> 'r handler \<Rightarrow> writer \<times> 'r world \<Rightarrow> bool" where
  "hands_to R q w nxt xw \<longleftrightarrow> (\<exists>p y v. follows q p \<and> fresh y \<and> leads_to R w v \<and> fst xw = fst (nxt p y v)
     \<and> leads_to R (snd (nxt p y v)) (snd xw))"

definition hands_on :: "'r redis_ops \<Rightarrow> ('r handler \<Rightarrow> 'r handler) \<Rightarrow> bool" where
  "hands_on R m \<longleftrightarrow> (\<forall>nxt q x w. fresh x \<longrightarrow> created (fst (m nxt q x w)) \<longrightarrow> hands_to R q w nxt (m nxt q x w))"

lemma hands_toI:
  assumes "follows q p" and "fresh y" and "leads_to R w v" and "nxt p y v = (x, z)" and "leads_to R z u"
  shows "hands_to R q w nxt (x, u)"
  unfolding hands_to_def fst_conv snd_conv
  by (rule exI [of _ p], rule exI [of _ y], rule exI [of _ v]) (simp add: assms)

text \<open>The third premise of the proof obligation says that handing on directly is enough.\<close>

lemma hands_onI:
  assumes "\<And>nxt q x w. fresh x \<Longrightarrow> created (fst (m nxt q x w))
      \<Longrightarrow> (\<And>p y v. follows q p \<Longrightarrow> fresh y \<Longrightarrow> leads_to R w v \<Longrightarrow> hands_to R q w nxt (nxt p y v))
      \<Longrightarrow> hands_to R q w nxt (m nxt q x w)"
  shows "hands_on R m"
proof -
  have "hands_to R q w nxt (nxt p y v)" if "follows q p" and "fresh y" and "leads_to R w v"
    for q p y w v and nxt :: "'a handler"
    using hands_toI [OF that, where nxt = nxt and x = "fst (nxt p y v)" and z = "snd (nxt p y v)" and u = "snd (nxt p y v)"]
    by simp
  then show ?thesis using assms by (simp add: hands_on_def)
qed

lemma hands_on_through:
  assumes "hands_on R m" and "hands_to R q w (m nxt) xw" and "created (fst xw)"
  shows "hands_to R q w nxt xw"
proof -
  from assms(2) obtain p y v where a: "follows q p" "fresh y" "leads_to R w v" "fst xw = fst (m nxt p y v)"
      "leads_to R (snd (m nxt p y v)) (snd xw)"
    unfolding hands_to_def by blast
  with assms(1,3) have "hands_to R p v nxt (m nxt p y v)" by (simp add: hands_on_def)
  then obtain p' y' v' where b: "follows p p'" "fresh y'" "leads_to R v v'" "fst (m nxt p y v) = fst (nxt p' y' v')"
      "leads_to R (snd (nxt p' y' v')) (snd (m nxt p y v))"
    unfolding hands_to_def by blast
  have "follows q p'" "leads_to R w v'" "leads_to R (snd (nxt p' y' v')) (snd xw)"
    using follows_trans [OF a(1) b(1)] leads_to_trans [OF a(3) b(3)] leads_to_trans [OF b(5) a(5)] by blast+
  with a(4) b(2,4) show ?thesis unfolding hands_to_def by (metis (no_types))
qed

text \<open>Answers that are no creation.\<close>

lemma not_created:
  "fresh x \<Longrightarrow> \<not> created (http_Error m c x)" "fresh x \<Longrightarrow> \<not> created (writeAuthError x)"
  "fresh x \<Longrightarrow> \<not> created (panics m x)" "fresh x \<Longrightarrow> \<not> created (refuse_rate r x)"
  "fresh x \<Longrightarrow> \<not> created (writeScopeError 401 s m x)" "fresh x \<Longrightarrow> \<not> created (writeScopeError 403 s m x)"
  "fresh x \<Longrightarrow> \<not> created (WriteHeader c x)"
  by (simp_all add: created_def fresh_def http_Error_def writeAuthError_def panics_def refuse_rate_def
      writeRateLimitError_def writeScopeError_def http_simps)

lemma Security_hands: "hands_on R (Security cfg)"
proof (rule hands_onI)
  fix nxt :: "'a handler" and q x and w :: "'a world"
  assume "fresh x" and same: "\<And>p y v. follows q p \<Longrightarrow> fresh y \<Longrightarrow> leads_to R w v \<Longrightarrow> hands_to R q w nxt (nxt p y v)"
  then show "hands_to R q w nxt (Security cfg nxt q x w)"
    by (auto simp: Security_def intro!: same fresh_headers)
qed

lemma CORS_hands: "hands_on R (CORS cfg)"
proof (rule hands_onI)
  fix nxt :: "'a handler" and q x and w :: "'a world"
  assume x: "fresh x" and c: "created (fst (CORS cfg nxt q x w))"
    and same: "\<And>p y v. follows q p \<Longrightarrow> fresh y \<Longrightarrow> leads_to R w v \<Longrightarrow> hands_to R q w nxt (nxt p y v)"
  have "\<not> created (WriteHeader 403 x)"
    "\<not> created (WriteHeader 204 (set_nonempty a b (set_header d e (set_header f g (set_nonempty h i
        (if l then set_header j k (set_header m n (set_header n' m' x)) else set_header m n (set_header n' m' x)))))))"
    for a b d e f g h i j k l m n m' n'
    using x by (auto intro!: not_created set_nonempty_fresh fresh_headers)
  with x c show "hands_to R q w nxt (CORS cfg nxt q x w)"
    by (auto simp: CORS_def Let_def split: if_splits intro!: same set_nonempty_fresh fresh_headers)
qed

lemma with_cors_hands: "hands_on R (with_cors os)"
proof (rule hands_onI)
  fix nxt :: "'a handler" and q x and w :: "'a world"
  assume "fresh x" and "created (fst (with_cors os nxt q x w))"
    and same: "\<And>p y v. follows q p \<Longrightarrow> fresh y \<Longrightarrow> leads_to R w v \<Longrightarrow> hands_to R q w nxt (nxt p y v)"
  with CORS_hands [of R "DefaultCORSConfig\<lparr>cc_allowed_origins := os\<rparr>"]
  show "hands_to R q w nxt (with_cors os nxt q x w)"
    unfolding with_cors_def hands_on_def by (auto split: if_splits)
qed

lemma RealIP_hands:
  assumes "\<And>q. \<exists>addr. f q = q\<lparr>rq_remote_addr := addr\<rparr>"
  shows "hands_on R (RealIP f)"
proof (rule hands_onI)
  fix nxt :: "'a handler" and q x and w :: "'a world"
  assume "fresh x" and same: "\<And>p y v. follows q p \<Longrightarrow> fresh y \<Longrightarrow> leads_to R w v \<Longrightarrow> hands_to R q w nxt (nxt p y v)"
  moreover have "follows q (f q)" using assms [of q] by (auto simp: follows_def)
  ultimately show "hands_to R q w nxt (RealIP f nxt q x w)" by (simp add: RealIP_def)
qed

lemma Recoverer_hands: "hands_on R Recoverer"
proof (rule hands_onI)
  fix nxt :: "'a handler" and q x and w :: "'a world"
  assume x: "fresh x" and c: "created (fst (Recoverer nxt q x w))"
    and same: "\<And>p y v. follows q p \<Longrightarrow> fresh y \<Longrightarrow> leads_to R w v \<Longrightarrow> hands_to R q w nxt (nxt p y v)"
  obtain x' w1 where n: "nxt q x w = (x', w1)" by fastforce
  have "rw_panic x' = None"
  proof (rule ccontr)
    assume "rw_panic x' \<noteq> None"
    then have "\<exists>m. rw_body (fst (Recoverer nxt q x w)) = rw_body x' @ [Raw m]"
      by (auto simp: Recoverer_def n http_Error_def http_simps)
    with c show False by (auto simp: created_def append_eq_Cons_conv)
  qed
  then have "Recoverer nxt q x w = nxt q x w" by (simp add: Recoverer_def n)
  then show "hands_to R q w nxt (Recoverer nxt q x w)" using same [OF follows_refl x leads_to_refl] by simp
qed

lemma RequireScope_hands: "hands_on R (RequireScope [s])"
proof (rule hands_onI)
  fix nxt :: "'a handler" and q x and w :: "'a world"
  assume "fresh x" and "created (fst (RequireScope [s] nxt q x w))"
    and same: "\<And>p y v. follows q p \<Longrightarrow> fresh y \<Longrightarrow> leads_to R w v \<Longrightarrow> hands_to R q w nxt (nxt p y v)"
  then show "hands_to R q w nxt (RequireScope [s] nxt q x w)"
    by (auto simp: RequireScope_one not_created split: option.splits if_splits intro!: same)
qed

context redis_server begin

lemma RequestID_hands: "hands_on R (RequestID V)"
proof (rule hands_onI)
  fix nxt :: "'r handler" and q x and w :: "'r world"
  assume x: "fresh x" and c: "created (fst (RequestID V nxt q x w))"
    and same: "\<And>p y v. follows q p \<Longrightarrow> fresh y \<Longrightarrow> leads_to R w v \<Longrightarrow> hands_to R q w nxt (nxt p y v)"
  have named: "hands_to R q w nxt (with_request_id i nxt q x v)" if "leads_to R w v" for i v
    using x that by (auto simp: with_request_id_def Let_def follows_def intro!: same fresh_headers)
  obtain n v where n: "next_rand w = (n, v)" by fastforce
  with leads_to_next_rand [of w] have "leads_to R w v" by simp
  with named x c show "hands_to R q w nxt (RequestID V nxt q x w)"
    by (cases n) (auto simp: RequestID_def new_uuid_def n not_created Let_def split: if_splits)
qed

lemma Logger_hands: "hands_on R Logger"
proof (rule hands_onI)
  fix nxt :: "'r handler" and q x and w :: "'r world"
  assume x: "fresh x"
  obtain t v where t: "time_now w = (t, v)" by fastforce
  obtain y u where y: "nxt q x v = (y, u)" by fastforce
  have "leads_to R w v" "leads_to R u (snd (time_now u))"
    using leads_to_time_now [of w] leads_to_time_now [of u] t by simp_all
  then show "hands_to R q w nxt (Logger nxt q x w)"
    using hands_toI [where nxt = nxt, OF follows_refl x _ y] by (simp add: Logger_def t y)
qed

lemma Auth_hands: "hands_on R (Middleware_Auth R J A D)"
proof (rule hands_onI)
  fix nxt :: "'r handler" and q x and w :: "'r world"
  let ?m = "Middleware_Auth R J A D nxt q x w"
  assume x: "fresh x" and c: "created (fst ?m)"
  obtain t v where t: "time_now w = (t, v)" by fastforce
  obtain r u where r: "authenticate R J A D (extractAPIKey q) v = (r, u)" by fastforce
  have "leads_to R w v" "leads_to R v u"
    using leads_to_time_now [of w] leads_to_authenticate [of v J A D "extractAPIKey q"] t r by simp_all
  then have u: "leads_to R w u" by (rule leads_to_trans)
  have wait: "leads_to R a (if 0 < d then sleep d (snd (time_now a)) else snd (time_now a))" for a :: "'r world" and d
  proof (cases "0 < d")
    case True
    then have "leads_to R (snd (time_now a)) (sleep d (snd (time_now a)))"
      by (intro leads_to_same_store) (simp_all add: sleep_def)
    with True show ?thesis using leads_to_trans [OF leads_to_time_now [of a]] by simp
  qed (simp add: leads_to_time_now)
  show "hands_to R q w nxt ?m"
  proof (cases r)
    case (Inl e)
    with c x show ?thesis
      by (cases e) (auto simp: Middleware_Auth_def t r Let_def case_prod_beta not_created)
  next
    case (Inr a)
    obtain y z where y: "nxt (ContextWithAuth a q) x u = (y, z)" by fastforce
    let ?d = "minAuthDuration - (fst (time_now z) - t)"
    have m: "?m = (y, if 0 < ?d then sleep ?d (snd (time_now z)) else snd (time_now z))"
      by (simp add: Middleware_Auth_def t r Inr y case_prod_beta Let_def)
    have "follows q (ContextWithAuth a q)" by (simp add: follows_def ContextWithAuth_def)
    then show ?thesis unfolding m by (rule hands_toI [where nxt = nxt, OF _ x u y wait])
  qed
qed

lemma setRateLimitHeaders_fresh: "fresh x \<Longrightarrow> fresh (setRateLimitHeaders a b c x)"
  by (simp add: setRateLimitHeaders_def fresh_headers)

lemma RateLimitAPI_hands: "hands_on R (RateLimitAPI R N cfg)"
proof (rule hands_onI)
  fix nxt :: "'r handler" and q x and w :: "'r world"
  assume x: "fresh x" and c: "created (fst (RateLimitAPI R N cfg nxt q x w))"
    and same: "\<And>p y v. follows q p \<Longrightarrow> fresh y \<Longrightarrow> leads_to R w v \<Longrightarrow> hands_to R q w nxt (nxt p y v)"
  have headers: "hands_to R q w nxt (nxt q (setRateLimitHeaders a b d x) v)" "hands_to R q w nxt (nxt q x v)"
    if "leads_to R w v" for a b d v
    using that x by (auto intro!: same setRateLimitHeaders_fresh)
  obtain t v where t: "time_now w = (t, v)" by fastforce
  have v: "leads_to R w v" using leads_to_time_now [of w] t by simp
  have u: "leads_to R w (snd (Cache_CheckAPIRateLimit R N i rpm b w))" for i rpm b by (rule leads_to_api_check)
  show "hands_to R q w nxt (RateLimitAPI R N cfg nxt q x w)"
  proof (cases "rc_api_enabled cfg \<and> AuthFromContext q \<noteq> None")
    case False
    then have "RateLimitAPI R N cfg nxt q x w = nxt q x w" by (auto simp: RateLimitAPI_def)
    then show ?thesis using headers(2) by simp
  next
    case True
    then obtain a where a: "AuthFromContext q = Some a" "rc_api_enabled cfg" by auto
    let ?t = "TierConfigs_index (a_rate_limit_tier a)"
    show ?thesis
    proof (cases "rl_requests_per_minute ?t = 0")
      case True
      then show ?thesis using headers(1) [OF v] by (simp add: RateLimitAPI_def a Let_def t)
    next
      case False
      obtain r z where z: "Cache_CheckAPIRateLimit R N (a_key_id a) (rl_requests_per_minute ?t) (rl_burst ?t) w = (r, z)"
        by fastforce
      with u have "leads_to R w z" by (metis snd_conv)
      with False z c x headers show ?thesis
        by (cases r) (auto simp: RateLimitAPI_def a Let_def not_created setRateLimitHeaders_fresh split: if_splits)
    qed
  qed
qed

end

section \<open>Mounted routers\<close>

text \<open>A mount without parameters takes every path below it that no entry of its own is for: the fixed parts
  of a path go before parameters.\<close>

definition apart :: "string \<Rightarrow> string \<Rightarrow> pattern \<Rightarrow> bool" where
  "apart p path t \<longleftrightarrow> \<not> has_prefix (snd t) p \<and> (plain_pattern (snd t) \<longrightarrow> \<not> covers t path)"

definition api_mounts :: "'r router_env \<Rightarrow> (api_endpoint \<Rightarrow> 'r handler) \<Rightarrow> 'r route_entry list" where
  "api_mounts E hs = [mount ''/links'' (links_router (rt_mux E) hs),
     mount ''/api-keys'' (keys_router (rt_mux E) hs),
     mount ''/webhooks'' (webhooks_router (rt_mux E) hs),
     mount ''/admin'' (admin_router (rt_mux E) hs)]"

locale chi_mounts = chi_mux +
  assumes mounted: "i < length ts \<Longrightarrow> ts ! i = (None, p) \<Longrightarrow> plain_pattern p
      \<Longrightarrow> rest = [] \<or> hd rest = CHR ''/'' \<Longrightarrow> (\<And>j. j < length ts \<Longrightarrow> j \<noteq> i \<Longrightarrow> apart p (p @ rest) (ts ! j))
      \<Longrightarrow> M ts m (p @ rest) = Chosen i [] (if rest = [] then ''/'' else rest)"
begin

lemma mount_entry:
  assumes "i < length table" and "fst (table ! i) = (None, p)" and "plain_pattern p"
    and "rest = [] \<or> hd rest = CHR ''/''"
    and "\<And>j. j < length table \<Longrightarrow> j \<noteq> i \<Longrightarrow> apart p (p @ rest) (fst (table ! j))"
  shows "serve M hs table (p @ rest) q x w
    = snd (table ! i) (if rest = [] then ''/'' else rest) (with_params [] q) x w"
proof -
  have "M (map fst table) (rq_method q) (p @ rest) = Chosen i [] (if rest = [] then ''/'' else rest)"
    by (rule mounted) (use assms in simp_all)
  with assms(1) show ?thesis by (simp add: serve_def)
qed

text \<open>The way of \<open>POST /api/v1/links\<close>.\<close>

lemma root_to_api:
  "serve M hs (root_table E hs) ''/api/v1/links'' q x w = api_router E hs ''/links'' (with_params [] q) x w"
proof -
  have "serve M hs (root_table E hs) (''/api/v1'' @ ''/links'') q x w
      = snd (root_table E hs ! 4) (if ''/links'' = [] then ''/'' else ''/links'') (with_params [] q) x w"
  proof (rule mount_entry)
    fix j assume "j < length (root_table E hs)" and "j \<noteq> 4"
    then have "j < 6" and "j \<noteq> 4" by (simp_all add: root_table_def)
    then consider "j = 0" | "j = 1" | "j = 2" | "j = 3" | "j = 5" by linarith
    then show "apart ''/api/v1'' (''/api/v1'' @ ''/links'') (fst (root_table E hs ! j))"
      by cases (simp_all add: apart_def covers_def root_table_def route_def mount_def plain_pattern_def has_prefix_def)
  qed (simp_all add: root_table_def route_def mount_def plain_pattern_def)
  then show ?thesis by (simp add: root_table_def route_def mount_def)
qed

lemma api_to_links:
  assumes "M = rt_mux E"
  shows "serve M hs (api_mounts E hs) ''/links'' q x w = links_router M hs ''/'' (with_params [] q) x w"
proof -
  have "serve M hs (api_mounts E hs) (''/links'' @ []) q x w
      = snd (api_mounts E hs ! 0) (if ([] :: string) = [] then ''/'' else []) (with_params [] q) x w"
  proof (rule mount_entry)
    fix j assume "j < length (api_mounts E hs)" and "j \<noteq> 0"
    then have "j < 4" and "j \<noteq> 0" by (simp_all add: api_mounts_def)
    then consider "j = 1" | "j = 2" | "j = 3" by linarith
    then show "apart ''/links'' (''/links'' @ []) (fst (api_mounts E hs ! j))"
      by cases (simp_all add: apart_def covers_def api_mounts_def mount_def plain_pattern_def has_prefix_def)
  qed (simp_all add: api_mounts_def mount_def plain_pattern_def)
  then show ?thesis by (simp add: api_mounts_def mount_def assms)
qed

lemma links_to_create:
  assumes "rq_method q = ''POST''"
  shows "links_router M hs ''/'' q x w = RequireWrite (hs Ep_CreateLink) (with_params [] q) x w"
  unfolding links_router_def
  by (subst static_entry [where i = 3 and m = "''POST''"])
    (simp_all add: route_def plain_pattern_def assms)

end

interpretation ref_mounts: chi_mounts ref_mux
proof
  fix i ts and p rest m :: string
  let ?path = "p @ rest" and ?is = "[0..<length (ts :: pattern list)]"
  assume i: "i < length ts" and e: "ts ! i = (None, p)" and p: "plain_pattern p"
    and rest: "rest = [] \<or> hd rest = CHR ''/''"
    and others: "\<And>j. j < length ts \<Longrightarrow> j \<noteq> i \<Longrightarrow> apart p ?path (ts ! j)"
  have "\<not> (ts ! j = (Some m, ?path) \<and> plain_pattern ?path)" if "j < length ts" for j
    using others [OF that] e by (cases "j = i") (auto simp: apart_def covers_def)
  then have s: "find (\<lambda>i. ts ! i = (Some m, ?path) \<and> plain_pattern ?path) ?is = None"
    by (auto simp: find_None_iff)
  have mine: "mount_rest (ts ! i) ?path = Some (if rest = [] then ''/'' else rest)"
    using rest by (auto simp: mount_rest_def e has_prefix_def Let_def)
  have "mount_rest (ts ! j) ?path = None" if j: "j < length ts" "j \<noteq> i" for j
  proof (rule ccontr)
    obtain a n where n: "ts ! j = (a, n)" by fastforce
    assume "mount_rest (ts ! j) ?path \<noteq> None"
    then have f: "a = None" and h: "has_prefix ?path n"
      using n by (auto simp: mount_rest_def split: if_splits)
    from others [OF j] n have a: "\<not> has_prefix n p" "plain_pattern n \<longrightarrow> \<not> covers (ts ! j) ?path"
      by (simp_all add: apart_def)
    obtain u where u: "p @ rest = n @ u" using h by (auto simp: has_prefix_iff)
    then have "\<exists>v. p = n @ v" using a(1) by (auto simp: append_eq_append_conv2 has_prefix_iff)
    then have "plain_pattern n" using p by (auto simp: plain_pattern_def)
    with a(2) f h n show False by (simp add: covers_def)
  qed
  then have "find (\<lambda>i. mount_rest (ts ! i) ?path \<noteq> None) ?is = Some i"
    using i mine by (intro find_upt_unique) auto
  with s mine show "ref_mux ts m ?path = Chosen i [] (if rest = [] then ''/'' else rest)"
    by (simp add: ref_mux_def)
qed

section \<open>A creation\<close>

lemma hands_to_new: "hands_on R m \<Longrightarrow> fresh x \<Longrightarrow> created (fst (m nxt q x w)) \<Longrightarrow> hands_to R q w nxt (m nxt q x w)"
  by (simp add: hands_on_def)

lemma hands_toE:
  assumes "hands_to R q w nxt xw"
  obtains p y v where "follows q p" and "fresh y" and "leads_to R w v" and "fst xw = fst (nxt p y v)"
    and "leads_to R (snd (nxt p y v)) (snd xw)"
  using assms unfolding hands_to_def by blast

lemma fresh_new: "fresh new_writer"
  by (simp add: fresh_def)

text \<open>The middleware of the site.\<close>

lemma site_hands:
  assumes "redis_server (rt_redis E)" and "\<And>q. \<exists>addr. rt_real_ip E q = q\<lparr>rq_remote_addr := addr\<rparr>"
    and "created (fst (setupRouter E hs q new_writer w))"
  shows "hands_to (rt_redis E) q w (\<lambda>q. serve (rt_mux E) hs (root_table E hs) (rq_path q) q)
    (setupRouter E hs q new_writer w)"
proof -
  note on = hands_on_through [OF _ _ assms(3)]
  show ?thesis
    by (rule on [OF Recoverer_hands], rule on [OF redis_server.Logger_hands [OF assms(1)]],
      rule on [OF redis_server.RequestID_hands [OF assms(1)]], rule on [OF RealIP_hands [OF assms(2)]],
      rule on [OF with_cors_hands])
     (use hands_to_new [OF Security_hands fresh_new] assms(3) in \<open>simp add: setupRouter_def\<close>)
qed

text \<open>The middleware of the API, after the body limit.\<close>

definition api_inner :: "'r router_env \<Rightarrow> (api_endpoint \<Rightarrow> 'r handler) \<Rightarrow> 'r handler" where
  "api_inner E hs = Middleware_Auth (rt_redis E) (rt_auth_codec E) (rt_hash E) (rt_digest E)
     (RateLimitAPI (rt_redis E) (rt_numbers E) (rate_limit_settings (rt_config E))
       (serve (rt_mux E) hs (api_mounts E hs) ''/links''))"

lemma api_inner_hands:
  assumes "redis_server (rt_redis E)" and "fresh y" and "created (fst (api_inner E hs q y w))"
  shows "hands_to (rt_redis E) q w (serve (rt_mux E) hs (api_mounts E hs) ''/links'') (api_inner E hs q y w)"
  by (rule hands_on_through [OF redis_server.RateLimitAPI_hands [OF assms(1)] _ assms(3)])
    (use hands_to_new [OF redis_server.Auth_hands [OF assms(1)] assms(2)] assms(3) in \<open>simp add: api_inner_def\<close>)

lemma creation_reaches_handler:
  assumes "chi_mounts (rt_mux E)" and "redis_server (rt_redis E)"
    and "\<And>q. \<exists>addr. rt_real_ip E q = q\<lparr>rq_remote_addr := addr\<rparr>"
    and "rq_method q = ''POST''" and "rq_path q = ''/api/v1/links''"
    and "setupRouter E hs q new_writer w = (x, w')" and "created x"
  obtains p y v u where "rq_in_body p = MaxBytesReader (cf_max_request_body_size (rt_config E)) (rq_in_body q)"
    and "fresh y" and "leads_to (rt_redis E) w v" and "hs Ep_CreateLink p y v = (x, u)"
    and "leads_to (rt_redis E) u w'"
proof -
  let ?R = "rt_redis E" and ?n = "cf_max_request_body_size (rt_config E)"
  have "hands_to ?R q w (\<lambda>q. serve (rt_mux E) hs (root_table E hs) (rq_path q) q) (x, w')"
    using site_hands [OF assms(2,3), of hs q w] assms(6,7) by simp
  then obtain p1 y1 v1 where 1: "follows q p1" "fresh y1" "leads_to ?R w v1"
      "x = fst (serve (rt_mux E) hs (root_table E hs) (rq_path p1) p1 y1 v1)"
      "leads_to ?R (snd (serve (rt_mux E) hs (root_table E hs) (rq_path p1) p1 y1 v1)) w'"
    by (elim hands_toE) (simp only: fst_conv snd_conv)
  let ?p = "(with_params [] p1)\<lparr>rq_in_body := MaxBytesReader ?n (rq_in_body p1)\<rparr>"
  have "rq_path p1 = ''/api/v1/links''" using 1(1) assms(5) by (simp add: follows_def)
  then have root: "serve (rt_mux E) hs (root_table E hs) (rq_path p1) p1 y1 v1
      = MaxBodySize ?n (api_inner E hs) (with_params [] p1) y1 v1"
    using chi_mounts.root_to_api [OF assms(1), of hs E p1 y1 v1]
    by (simp add: api_router_def api_inner_def api_mounts_def)
  have inner: "MaxBodySize ?n (api_inner E hs) (with_params [] p1) y1 v1 = api_inner E hs ?p y1 v1"
  proof (rule ccontr)
    assume "\<not> ?thesis"
    then have "\<exists>m c. fst (MaxBodySize ?n (api_inner E hs) (with_params [] p1) y1 v1) = http_Error m c y1"
      by (auto simp: MaxBodySize_def with_params_def)
    with 1(2,4) root assms(7) show False by (metis not_created(1))
  qed
  then have "created (fst (api_inner E hs ?p y1 v1))" using 1(4) root assms(7) by simp
  from api_inner_hands [OF assms(2) 1(2) this]
  obtain p2 y2 v2 where 2: "follows ?p p2" "fresh y2" "leads_to ?R v1 v2"
      "fst (api_inner E hs ?p y1 v1) = fst (serve (rt_mux E) hs (api_mounts E hs) ''/links'' p2 y2 v2)"
      "leads_to ?R (snd (serve (rt_mux E) hs (api_mounts E hs) ''/links'' p2 y2 v2)) (snd (api_inner E hs ?p y1 v1))"
    by (rule hands_toE)
  let ?p2 = "with_params [] (with_params [] p2)"
  have "rq_method (with_params [] p2) = ''POST''"
    using 2(1) 1(1) assms(4) by (simp add: follows_def with_params_def)
  from chi_mounts.links_to_create [OF assms(1) this, of hs y2 v2]
  have leaf: "serve (rt_mux E) hs (api_mounts E hs) ''/links'' p2 y2 v2 = RequireWrite (hs Ep_CreateLink) ?p2 y2 v2"
    using chi_mounts.api_to_links [OF assms(1) refl, of hs p2 y2 v2] by simp
  then have "created (fst (RequireScope [ScopeWrite] (hs Ep_CreateLink) ?p2 y2 v2))"
    using 2(4) 1(4) root inner assms(7) by (simp add: RequireWrite_def)
  from hands_to_new [OF RequireScope_hands 2(2) this]
  obtain p y v where 3: "follows ?p2 p" "fresh y" "leads_to ?R v2 v"
      "fst (RequireScope [ScopeWrite] (hs Ep_CreateLink) ?p2 y2 v2) = fst (hs Ep_CreateLink p y v)"
      "leads_to ?R (snd (hs Ep_CreateLink p y v)) (snd (RequireScope [ScopeWrite] (hs Ep_CreateLink) ?p2 y2 v2))"
    by (rule hands_toE)
  show thesis
  proof (rule that)
    show "rq_in_body p = MaxBytesReader ?n (rq_in_body q)"
      using 1(1) 2(1) 3(1) by (simp add: follows_def with_params_def)
    show "leads_to ?R w v" using 1(3) 2(3) 3(3) leads_to_trans by blast
    have "x = fst (hs Ep_CreateLink p y v)"
      using 1(4) root inner 2(4) leaf 3(4) by (simp add: RequireWrite_def)
    then show "hs Ep_CreateLink p y v = (x, snd (hs Ep_CreateLink p y v))" by simp
    show "leads_to ?R (snd (hs Ep_CreateLink p y v)) w'"
      using 1(5) root inner 2(5) leaf 3(5) leads_to_trans by (metis RequireWrite_def)
  qed (rule 3(2))
qed

section \<open>From the creation to the visit\<close>

text \<open>The request as the decoder reads it, behind the body limit.\<close>

definition decoded :: "'r router_env \<Rightarrow> 'r app_params \<Rightarrow> request \<Rightarrow> create_link_request option" where
  "decoded E A q = ap_decode_link A (MaxBytesReader (cf_max_request_body_size (rt_config E)) (rq_in_body q))"

definition site_ready :: "'r router_env \<Rightarrow> 'r app_params \<Rightarrow> 'r world \<Rightarrow> bool" where
  "site_ready E A w \<longleftrightarrow> coherent (rt_redis E) w \<and> links_inv w \<and> codes_clean (w_links w)
     \<and> destinations_absolute (ap_url A) (w_links w)"

text \<open>What a creation leaves behind.\<close>

lemma creation_leaves:
  assumes "chi_mounts (rt_mux E)" and "redis_server (rt_redis E)"
    and "\<And>q. \<exists>addr. rt_real_ip E q = q\<lparr>rq_remote_addr := addr\<rparr>"
    and "rq_method q = ''POST''" and "rq_path q = ''/api/v1/links''"
    and "api_server E A q new_writer w = (x, w')" and "created x" and "site_ready E A w"
  obtains req l r where "decoded E A q = Some req" and "rw_body x = [Json (link_response_json r)]"
    and "lr_short_code r = l_short_code l" and "lr_short_url r = trim_suffix (ap_base_url A) ''/'' @ ''/'' @ l_short_code l"
    and "lc_alias req \<noteq> [] \<longrightarrow> l_short_code l = lc_alias req" and "l_destination l = lc_destination req"
    and "l_expires_at l = lc_expires_at req" and "l_enabled l"
    and "l_redirect_type l = (if lc_redirect_type req = 0 then 302 else lc_redirect_type req)"
    and "aliasRegex_MatchString (l_short_code l)" and "live_row w' (l_short_code l) l"
    and "\<not> negative_now (rt_redis E) w (l_short_code l) \<Longrightarrow> site_ready E A w'"
proof -
  let ?R = "rt_redis E"
  obtain p y v u where p: "rq_in_body p = MaxBytesReader (cf_max_request_body_size (rt_config E)) (rq_in_body q)"
    and y: "fresh y" and v: "leads_to ?R w v" and run: "app_handler A Ep_CreateLink p y v = (x, u)"
    and last: "leads_to ?R u w'"
    using creation_reaches_handler [OF assms(1-5) assms(6) [unfolded api_server_def] assms(7)] by blast
  from run have "LinkHandler_Create (ap_url A) (link_service_of A) (ap_decode_link A) p y v = (x, u)" by simp
  moreover have "rw_reply y = None" "status_of x = 201"
    using y assms(7) by (simp_all add: fresh_def created_def)
  ultimately obtain req l r w1 where req: "ap_decode_link A (rq_in_body p) = Some req"
    and create: "LinkService_CreateLink (ap_url A) \<lparr>ci_destination = lc_destination req, ci_alias = lc_alias req,
      ci_redirect_type = (if lc_redirect_type req = 0 then 302 else lc_redirect_type req),
      ci_expires_at = lc_expires_at req, ci_owner_id = ''system''\<rparr> v = (Inr l, w1)"
    and r: "ToLinkResponse l (LinkService_BaseURL (link_service_of A)) w1 = (r, u)"
    and x: "x = writeJSON 201 (link_response_json r) y"
    by (rule Create_handler_201)
  note c = CreateLink_facts [OF create, simplified]
  note same = ToLinkResponse_frame [OF r]
  have before: "w_links v = w_links w" "coherent ?R v"
    using v assms(8) by (simp_all add: leads_to_def site_ready_def)
  have links: "w_links w' = w_links w @ [l]"
    using last c same before by (simp add: leads_to_def)
  have row: "live_row w' (l_short_code l) l"
    using c by (simp add: live_row_def live_link_def links)
  have valid: "validateDestination (ap_url A) (l_destination l) = None"
    using CreateLink_facts [OF create] by blast
  have inv: "links_inv w'"
    using assms(8) c before unfolding links_inv_def links site_ready_def
    by (auto simp: links_ok_def live_row_def live_link_def)
  have clean: "codes_clean (w_links w')"
    using assms(8) c aliases_clean unfolding links by (auto simp: codes_clean_def site_ready_def)
  have absolute: "destinations_absolute (ap_url A) (w_links w')"
    using assms(8) valid unfolding links
    by (auto simp: destinations_absolute_def site_ready_def validateDestination_def split: option.splits if_splits)
  have ready: "site_ready E A w'" if "\<not> negative_now ?R w (l_short_code l)"
  proof -
    have "\<not> negative_now ?R v (l_short_code l)" using that v by (auto simp: leads_to_def)
    from redis_server.coherent_after_create [OF assms(2) before(2) create this]
    have "coherent ?R u" using redis_server.coherent_later [OF assms(2)] same by blast
    then have "coherent ?R w'" using last by (simp add: leads_to_def)
    with inv clean absolute show ?thesis by (simp add: site_ready_def)
  qed
  show thesis
  proof (rule that [OF _ _ _ _ _ _ _ _ _ _ row ready])
    show "decoded E A q = Some req" using req p by (simp add: decoded_def)
    show "rw_body x = [Json (link_response_json r)]" using x y by (simp add: http_simps fresh_def)
    show "lr_short_url r = trim_suffix (ap_base_url A) ''/'' @ ''/'' @ l_short_code l"
      using same(6) by (simp add: link_service_of_def NewLinkService_def LinkService_BaseURL_def)
  qed (use same c CreateLink_facts [OF create] in \<open>simp_all split: if_splits\<close>)
qed

lemma faithful_live_row:
  assumes "links_inv w" and "live_row w c l" and "l_enabled l" and "redirect_faithful w c t x"
  shows "(status_of x = l_redirect_type l \<and> sent_header x ''Location'' = hexEscapeNonASCII (l_destination l))
    \<or> status_of x = 410 \<and> Link_IsExpired (t + second) l \<or> status_of x = 500 \<and> outcomes w \<noteq> []"
proof -
  have only: "l' = l" if "live_row w c l'" for l' using live_row_unique [OF assms(1,2) that] .
  note parts = assms(4) [unfolded redirect_faithful_def]
  from parts have "status_of x \<in> {301, 302, 404, 410, 500}" by blast
  then consider (moved) "status_of x \<in> {301, 302}" | (missing) "status_of x = 404" | (gone) "status_of x = 410"
    | (failed) "status_of x = 500" by blast
  then show ?thesis
  proof cases
    case moved
    then obtain l' where "live_row w c l'" "l_redirect_type l' = status_of x"
        "sent_header x ''Location'' = hexEscapeNonASCII (l_destination l')" using parts by blast
    then show ?thesis using only by metis
  next
    case missing
    then obtain l' where "live_row w c l'" "\<not> l_enabled l'" using parts assms(2) by blast
    then show ?thesis using only assms(3) by metis
  next
    case gone
    then obtain l' where "live_row w c l'" "Link_IsExpired (t + second) l'" using parts by blast
    then show ?thesis using only gone by metis
  next
    case failed
    then show ?thesis using parts by blast
  qed
qed

lemma alias_no_slash: "aliasRegex_MatchString c \<Longrightarrow> c \<noteq> [] \<and> CHR ''/'' \<notin> set c"
  by (auto simp: aliasRegex_MatchString_def alias_char_def is_digit_def less_eq_char_def list_all_iff)


section \<open>A journey\<close>

text \<open>A key whose context is in the cache, and a router whose codec reads it.\<close>

definition writer_context :: cached_auth_context where
  "writer_context = \<lparr>ca_key_id = ''k1'', ca_key_prefix = gk_prefix issued, ca_user_id = ''u1'',
     ca_scopes = [ScopeWrite], ca_rate_limit_tier = ''free''\<rparr>"

definition journey_router :: "ref_store router_env" where
  "journey_router = sample_router\<lparr>rt_config := sample_config\<lparr>cf_rate_limit_api_enabled := False,
       cf_rate_limit_redirect_enabled := False\<rparr>,
     rt_auth_codec := \<lparr>auth_marshal = (\<lambda>c. []), auth_unmarshal = (\<lambda>s. Some writer_context)\<rparr>\<rparr>"

definition journey_world :: "ref_store world" where
  "journey_world = fresh_world\<lparr>w_redis :=
     [auth_cache_key (QuickHash id (gk_plaintext issued)) \<mapsto> (RStr [], None)]\<rparr>"

definition post_request :: request where
  "post_request = (plain_request ''POST'' ''/api/v1/links'')\<lparr>rq_header := no_header(''X-Request-Id'' := [''r1''],
     ''X-Api-Key'' := [gk_plaintext issued])\<rparr>"

definition get_request :: request where
  "get_request = (plain_request ''GET'' ''/my-link'')\<lparr>rq_header := no_header(''X-Request-Id'' := [''r2''])\<rparr>"

definition journey_app :: "ref_store app_params \<Rightarrow> ref_store stream_ops \<Rightarrow> ref_store app_params" where
  "journey_app A X = A\<lparr>ap_url := sample_parser, ap_decode_link := journey_request, ap_redirect := journey_env X\<rparr>"

lemma journey_world_simps:
  "w_links journey_world = []" "outcomes journey_world = []" "ticks journey_world = []"
  "clock journey_world = 100 * second"
  by (simp_all add: journey_world_def empty_world_def)

lemma journey_authenticates:
  "authenticate ref_redis \<lparr>auth_marshal = m, auth_unmarshal = (\<lambda>s. Some writer_context)\<rparr> H id (gk_plaintext issued)
     journey_world = (Inr (of_cached_auth writer_context), journey_world)"
proof -
  obtain p where p: "ParseAPIKey (gk_plaintext issued) = Inr p" using issued_ok(2) by blast
  have "call (rd_get ref_redis (auth_cache_key (QuickHash id (gk_plaintext issued)))) journey_world
      = (Inr (Some []), journey_world)"
    by (simp add: call_def next_outcome_def journey_world_simps rd_get_def)
      (simp add: journey_world_def empty_world_def ref_redis_def ref_get_def ref_look_def)
  then show ?thesis
    by (simp add: authenticate_def issued_ok(3) p Let_def Cache_GetAuthContext_def)
qed

lemma post_key: "rq_header q = rq_header post_request \<Longrightarrow> extractAPIKey q = gk_plaintext issued"
proof -
  assume "rq_header q = rq_header post_request"
  moreover have "canonical_key ''Authorization'' = ''Authorization''" "canonical_key ''X-API-Key'' = ''X-Api-Key''"
    by code_simp+
  ultimately show ?thesis
    by (simp add: extractAPIKey_def request_header_def header_get_def post_request_def no_header_def)
qed

lemma journey_creates:
  assumes "fresh y"
  obtains r u l where "app_handler (journey_app A X) Ep_CreateLink p y journey_world
      = (writeJSON 201 (link_response_json r) y, u)" and "w_links u = [l]" and "link_times_ok l"
proof -
  obtain l w1 where l: "LinkService_CreateLink sample_parser sample_input journey_world = (Inr l, w1)"
    and ok: "link_times_ok l"
    using sample_create_in [of journey_world] by (auto simp: journey_world_simps)
  obtain r u where r: "ToLinkResponse l (LinkService_BaseURL (link_service_of (journey_app A X))) w1 = (r, u)"
    by fastforce
  have "app_handler (journey_app A X) Ep_CreateLink p y journey_world = (writeJSON 201 (link_response_json r) y, u)"
    using l r by (simp add: LinkHandler_Create_def journey_request_def sample_input_def respond_link_def journey_app_def)
  moreover have "w_links u = [l]"
    using ToLinkResponse_frame(1) [OF r] CreateLink_facts [OF l] by (simp add: journey_world_simps)
  ultimately show thesis using that ok by blast
qed

lemma journey_site:
  obtains y where "fresh y" and "setupRouter journey_router hs post_request new_writer journey_world
    = (let (x, u) = Recoverer (\<lambda>q. serve ref_mux hs (root_table journey_router hs) (rq_path q) q)
         (post_request\<lparr>rq_request_id := ''r1''\<rparr>) y journey_world in (x, snd (time_now u)))"
proof -
  let ?x = "del_header ''Server'' (set_headers (security_headers (security_settings (rt_config journey_router))) new_writer)"
  let ?t = "request_header post_request ''X-Trace-ID''"
  let ?y = "if ?t \<noteq> [] then set_header ''X-Trace-ID'' ?t (set_header ''X-Request-ID'' ''r1'' ?x)
    else set_header ''X-Request-ID'' ''r1'' ?x"
  have "fresh ?y" using fresh_new by (auto intro!: fresh_headers)
  moreover have "GetCORSAllowedOrigins (rt_config journey_router) = []"
    by (simp add: journey_router_def sample_router_def sample_config_def GetCORSAllowedOrigins_def)
  moreover have "request_header post_request ''X-Request-ID'' = ''r1''"
    by (simp add: request_header_def header_get_def request_id_key post_request_def)
  moreover have "rt_real_ip journey_router = id" "rt_mux journey_router = ref_mux"
    by (simp_all add: journey_router_def sample_router_def)
  ultimately show thesis
    using Recoverer_no_panic [of "\<lambda>q. serve ref_mux hs (root_table journey_router hs) (rq_path q) q"
        "post_request\<lparr>rq_request_id := ''r1''\<rparr>" ?y journey_world]
    by (intro that [of ?y])
      (simp_all add: setupRouter_def Security_def with_cors_def RealIP_def RequestID_def with_request_id_def Logger_def
        Let_def journey_world_simps case_prod_beta)
qed

lemma journey_api:
  assumes "\<And>p. hs Ep_CreateLink p y journey_world = (x, u)"
  shows "fst (serve ref_mux hs (root_table journey_router hs) ''/api/v1/links''
      (post_request\<lparr>rq_request_id := ''r1''\<rparr>) y journey_world) = x
    \<and> w_links (snd (serve ref_mux hs (root_table journey_router hs) ''/api/v1/links''
      (post_request\<lparr>rq_request_id := ''r1''\<rparr>) y journey_world)) = w_links u"
proof -
  have mux: "rt_mux journey_router = ref_mux" by (simp add: journey_router_def sample_router_def)
  have cfg: "rc_api_enabled (rate_limit_settings (rt_config journey_router)) = False"
    "rt_redis journey_router = ref_redis" "rt_digest journey_router = id"
    "rt_auth_codec journey_router = \<lparr>auth_marshal = (\<lambda>c. []), auth_unmarshal = (\<lambda>s. Some writer_context)\<rparr>"
    by (simp_all add: journey_router_def sample_router_def sample_config_def rate_limit_settings_def)
  define n where "n = cf_max_request_body_size (rt_config journey_router)"
  define p where "p = with_params [] (post_request\<lparr>rq_request_id := ''r1''\<rparr>)"
  define q where "q = p\<lparr>rq_in_body := MaxBytesReader n (rq_in_body p)\<rparr>"
  define r where "r = ContextWithAuth (of_cached_auth writer_context) q"
  have key: "extractAPIKey q = gk_plaintext issued"
    by (rule post_key) (simp add: q_def p_def with_params_def)
  have r: "rq_auth r = Some (of_cached_auth writer_context)" "rq_method r = ''POST''"
    by (simp_all add: r_def q_def p_def ContextWithAuth_def with_params_def post_request_def plain_request_def)
  have "serve ref_mux hs (api_mounts journey_router hs) ''/links'' r y journey_world
      = RequireWrite (hs Ep_CreateLink) (with_params [] (with_params [] r)) y journey_world"
    using ref_mounts.api_to_links [OF mux [symmetric], of hs r y journey_world]
      ref_mounts.links_to_create [of "with_params [] r" hs y journey_world] r(2)
    by (simp add: with_params_def)
  also have "\<dots> = (x, u)"
    using r(1) by (simp add: RequireWrite_def RequireScope_def AuthFromContext_def with_params_def
        of_cached_auth_def writer_context_def assms)
  finally have "RateLimitAPI ref_redis N (rate_limit_settings (rt_config journey_router))
      (serve ref_mux hs (api_mounts journey_router hs) ''/links'') r y journey_world = (x, u)" for N
    by (simp add: RateLimitAPI_def cfg)
  note inner = this [unfolded r_def]
  have small: "\<not> n < rq_content_length p"
    by (simp add: n_def p_def with_params_def post_request_def plain_request_def journey_router_def
        sample_router_def sample_config_def)
  have "serve ref_mux hs (root_table journey_router hs) ''/api/v1/links'' (post_request\<lparr>rq_request_id := ''r1''\<rparr>) y journey_world
      = api_router journey_router hs ''/links'' p y journey_world"
    unfolding p_def by (rule ref_mounts.root_to_api)
  also have "\<dots> = MaxBodySize n (api_inner journey_router hs) p y journey_world"
    by (simp add: api_router_def api_inner_def api_mounts_def n_def)
  also have "\<dots> = api_inner journey_router hs q y journey_world"
    using small by (simp add: MaxBodySize_def q_def)
  also have "fst \<dots> = x \<and> w_links (snd \<dots>) = w_links u"
    by (simp add: api_inner_def Middleware_Auth_def cfg mux key journey_authenticates inner
        journey_world_simps case_prod_beta Let_def sleep_def)
  finally show ?thesis .
qed


end
