(* ===== verification/Bootstrap.thy ===== *)
theory Bootstrap imports Key_Handler begin

text \<open>
  \<open>scripts/bootstrap-api-key.go\<close>: the command that creates the first user and the first key. The flags
  are a record; what the command prints is its result, a message and the exit status 1 or the output.

  Shown: the scopes it stores are valid and never empty; after \<open>ensureUser\<close> the user exists; a run that
  succeeds leaves one new live key of that user, with the hash of the key that it prints.
\<close>

record bootstrap_flags =
  bf_database_url :: string
  bf_user_id :: string
  bf_email :: string
  bf_name :: string
  bf_scopes :: string
  bf_format :: string

record bootstrap_output =
  bo_user_id :: string
  bo_email :: string
  bo_key_id :: string
  bo_key :: string
  bo_key_prefix :: string
  bo_scopes :: "string list"

definition isValidScope :: "string \<Rightarrow> bool" where
  "isValidScope scope = list_ex (\<lambda>allowed. scope = allowed) ValidScopes"

text \<open>The loop over the parts.\<close>

fun parse_parts :: "string list \<Rightarrow> string list \<Rightarrow> string + string list" where
  "parse_parts [] scopes = Inr scopes"
| "parse_parts (part # parts) scopes =
     (let scope = trim_space part in
      if scope = [] then parse_parts parts scopes
      else if \<not> isValidScope scope then Inl (''invalid scope: '' @ scope)
      else parse_parts parts (scopes @ [scope]))"

definition parseScopes :: "string \<Rightarrow> string + string list" where
  "parseScopes input =
     (if trim_space input = [] then Inr [ScopeAdmin]
      else (case parse_parts (split_on (CHR '','') input) [] of
          Inl err \<Rightarrow> Inl err
        | Inr scopes \<Rightarrow> Inr (if scopes = [] then [ScopeAdmin] else scopes)))"

definition ensureUser :: "string \<Rightarrow> string \<Rightarrow> 'r world \<Rightarrow> string option \<times> 'r world" where
  "ensureUser userID email w =
     (case Repository_GetUserByID userID w of
        (Inr existing, w1) \<Rightarrow>
          (if u_email existing \<noteq> email
           then (Some (''user '' @ userID @ '' exists with different email: '' @ u_email existing), w1)
           else (None, w1))
      | (Inl err, w1) \<Rightarrow> (case Repository_GetUserByEmail email w1 of
            (Inr byEmail, w2) \<Rightarrow>
              (if u_id byEmail \<noteq> userID
               then (Some (''email '' @ email @ '' already used by user '' @ u_id byEmail), w2)
               else (None, w2))
          | (Inl err, w2) \<Rightarrow> (case time_now w2 of (now, w3) \<Rightarrow>
              (case Repository_CreateUser \<lparr>u_id = userID, u_email = email, u_created_at = now\<rparr> w3 of
                 (Inl err, w4) \<Rightarrow> (Some (''create user: '' @ error_text err), w4)
               | (Inr _, w4) \<Rightarrow> (None, w4)))))"

text \<open>What is printed: the key, or all of the output as JSON.\<close>

datatype printed = PrintKey string | PrintJSON bootstrap_output

definition print_output :: "string \<Rightarrow> bootstrap_output \<Rightarrow> string + printed" where
  "print_output format out =
     (let f = to_lower format in
      if f = ''plain'' then Inr (PrintKey (bo_key out))
      else if f = ''json'' then Inr (PrintJSON out)
      else Inl ''invalid format; use plain or json'')"

definition bootstrap_key :: "bootstrap_flags \<Rightarrow> string list \<Rightarrow> generated_key \<Rightarrow> string \<Rightarrow> instant \<Rightarrow> api_key" where
  "bootstrap_key fl scopes generated i now = \<lparr>k_id = i, k_user_id = bf_user_id fl,
     k_key_hash = gk_hash generated, k_key_prefix = gk_prefix generated, k_scopes = scopes,
     k_rate_limit_tier = TierUnlimited, k_name = bf_name fl, k_revoked_at = None, k_last_used_at = None,
     k_created_at = now\<rparr>"

text \<open>The command after the connection; \<open>connect\<close> is the error of connecting.\<close>

definition bootstrap_main :: "hash_suite \<Rightarrow> ulid_maker \<Rightarrow> error option \<Rightarrow> bootstrap_flags \<Rightarrow> 'r world
    \<Rightarrow> (string + printed) \<times> 'r world" where
  "bootstrap_main A U connect fl w =
     (if bf_database_url fl = [] then (Inl ''DATABASE_URL is required'', w)
      else (case parseScopes (bf_scopes fl) of
          Inl err \<Rightarrow> (Inl err, w)
        | Inr scopes \<Rightarrow> (case connect of
              Some err \<Rightarrow> (Inl (''connect database: '' @ error_text err), w)
            | None \<Rightarrow> (case ensureUser (bf_user_id fl) (bf_email fl) w of
                (Some err, w1) \<Rightarrow> (Inl err, w1)
              | (None, w1) \<Rightarrow> (case GenerateAPIKey A EnvLive w1 of
                  (Inl err, w2) \<Rightarrow> (Inl (''generate api key: '' @ error_text err), w2)
                | (Inr generated, w2) \<Rightarrow> (case ulid_Make U w2 of (i, w3) \<Rightarrow>
                    (case time_now w3 of (now, w4) \<Rightarrow>
                     let apiKey = bootstrap_key fl scopes generated i now in
                     (case Repository_CreateAPIKey apiKey w4 of
                        (Inl err, w5) \<Rightarrow> (Inl (''create api key: '' @ error_text err), w5)
                      | (Inr _, w5) \<Rightarrow>
                          (print_output (bf_format fl) \<lparr>bo_user_id = bf_user_id fl, bo_email = bf_email fl,
                             bo_key_id = k_id apiKey, bo_key = gk_plaintext generated,
                             bo_key_prefix = k_key_prefix apiKey, bo_scopes = scopes\<rparr>, w5)))))))))"

section \<open>What the command leaves\<close>

lemma isValidScope_iff: "isValidScope s \<longleftrightarrow> s \<in> set ValidScopes"
  by (auto simp: isValidScope_def list_ex_iff)

lemma parse_parts_valid:
  "parse_parts parts scopes = Inr ss \<Longrightarrow> set scopes \<subseteq> set ValidScopes \<Longrightarrow> set ss \<subseteq> set ValidScopes"
  by (induction parts arbitrary: scopes) (auto simp: Let_def isValidScope_iff split: if_splits)

lemma parseScopes_valid:
  assumes "parseScopes input = Inr ss"
  shows "ss \<noteq> [] \<and> set ss \<subseteq> set ValidScopes"
proof -
  have "ScopeAdmin \<in> set ValidScopes" by (simp add: ValidScopes_def)
  with assms show ?thesis
    by (auto simp: parseScopes_def split: if_splits sum.splits dest: parse_parts_valid)
qed

lemma get_user_found:
  assumes "get_user p m w = (Inr u, w')"
  shows "u \<in> set (w_users w')" and "p u"
  using assms
  by (auto simp: get_user_def split: sum.splits option.splits prod.splits elim!: call_Inr_cases
      dest: find_Some_in)

lemma CreateUser_stored: "Repository_CreateUser u w = (Inr (), w') \<Longrightarrow> u \<in> set (w_users w')"
  by (auto simp: Repository_CreateUser_def pg_insert_user_def
      split: sum.splits prod.splits if_splits elim!: call_Inr_cases)

lemma ensureUser_exists:
  assumes "ensureUser i email w = (None, w')"
  shows "\<exists>u \<in> set (w_users w'). u_id u = i"
proof -
  have found: "\<exists>u \<in> set (w_users w'). u_id u = i" if "u \<in> set (w_users w')" and "u_id u = i" for u
    using that by blast
  from assms show ?thesis
    by (auto simp: ensureUser_def Repository_GetUserByID_def Repository_GetUserByEmail_def
        split: prod.splits sum.splits if_splits
        dest!: CreateUser_stored dest: get_user_found intro: found)
qed

lemma CreateAPIKey_stored:
  assumes "Repository_CreateAPIKey k w = (Inr (), w')" and "k_revoked_at k = None" and "k_last_used_at k = None"
  shows "k \<in> set (w_api_keys w')"
proof -
  have "k\<lparr>k_revoked_at := None, k_last_used_at := None\<rparr> = k" using assms(2,3) by simp
  with assms(1) show ?thesis
    by (auto simp: Repository_CreateAPIKey_def pg_insert_key_def
        split: sum.splits prod.splits if_splits option.splits elim!: call_Inr_cases)
qed

text \<open>A run that succeeds leaves a live key of the user with valid scopes, and prints its secret.\<close>

definition prints_key :: "printed \<Rightarrow> string \<Rightarrow> bool" where
  "prints_key p s = (case p of PrintKey k \<Rightarrow> k = s | PrintJSON out \<Rightarrow> bo_key out = s)"

lemma print_output_key: "print_output f out = Inr p \<Longrightarrow> prints_key p (bo_key out)"
  by (auto simp: print_output_def Let_def prints_key_def split: if_splits)

lemma bootstrap_key_fields [simp]:
  "k_id (bootstrap_key fl scopes g i now) = i" "k_key_prefix (bootstrap_key fl scopes g i now) = gk_prefix g"
  by (simp_all add: bootstrap_key_def)

lemma bootstrap_leaves_key:
  fixes w :: "'r world"
  assumes "bootstrap_main A U connect fl w = (Inr p, w')"
  shows "\<exists>k \<in> set (w_api_keys w'). k_user_id k = bf_user_id fl \<and> live_key k
    \<and> k_scopes k \<noteq> [] \<and> set (k_scopes k) \<subseteq> set ValidScopes
    \<and> (\<exists>g (u :: 'r world) u'. GenerateAPIKey A EnvLive u = (Inr g, u') \<and> k_key_hash k = gk_hash g
         \<and> prints_key p (gk_plaintext g))"
proof -
  obtain scopes and u :: "'r world" and g u' i now and v :: "'r world"
    where scopes: "parseScopes (bf_scopes fl) = Inr scopes"
    and g: "GenerateAPIKey A EnvLive u = (Inr g, u')"
    and stored: "Repository_CreateAPIKey (bootstrap_key fl scopes g i now) v = (Inr (), w')"
    and p: "print_output (bf_format fl) \<lparr>bo_user_id = bf_user_id fl, bo_email = bf_email fl,
        bo_key_id = i, bo_key = gk_plaintext g, bo_key_prefix = gk_prefix g, bo_scopes = scopes\<rparr> = Inr p"
    using assms
    by (simp add: bootstrap_main_def Let_def split: if_splits sum.splits option.splits prod.splits)
  let ?k = "bootstrap_key fl scopes g i now"
  have "?k \<in> set (w_api_keys w')"
    using stored by (rule CreateAPIKey_stored) (simp_all add: bootstrap_key_def)
  moreover have "k_user_id ?k = bf_user_id fl" "live_key ?k" "k_scopes ?k = scopes" "k_key_hash ?k = gk_hash g"
    by (simp_all add: bootstrap_key_def live_key_def)
  moreover have "prints_key p (gk_plaintext g)" using print_output_key [OF p] by simp
  ultimately show ?thesis using g parseScopes_valid [OF scopes] by metis
qed

end
