(* ===== verification/Evolution.thy ===== *)
theory Evolution imports App Bootstrap Click_Worker Webhook_Worker begin

text \<open>
  How the whole program changes the state. A relation \<open>E\<close> between an earlier and a later world is kept by
  every operation if it is kept by the few that write: the locale \<open>quiet\<close> asks that \<open>E\<close> is reflexive and
  transitive and allows every change of the store, the metrics and the environment at the clock's pace,
  and shows it for every operation that writes no table; the locale \<open>evolution\<close> adds the statements that
  write, and shows it for the handlers, the middleware, the routes and the workers.

  The rules are collected in \<open>evolves\<close>: one for each operation, and one for each form of the code.
\<close>

named_theorems evolves

definition tables_of :: "'r world \<Rightarrow> _" where
  "tables_of w = (w_links w, w_users w, w_api_keys w, w_click_events w, w_daily_stats w, w_endpoints w,
     w_deliveries w)"

lemma tables_of_unchanged [simp]:
  "tables_of (w\<lparr>w_redis := r\<rparr>) = tables_of w" "tables_of (w\<lparr>w_metrics := m\<rparr>) = tables_of w"
  "tables_of (w\<lparr>clock := t\<rparr>) = tables_of w" "tables_of (w\<lparr>ticks := ds\<rparr>) = tables_of w"
  "tables_of (w\<lparr>outcomes := os\<rparr>) = tables_of w" "tables_of (w\<lparr>rands := ns\<rparr>) = tables_of w"
  "tables_of (snd (time_now w)) = tables_of w" "tables_of (snd (next_outcome w)) = tables_of w"
  "tables_of (snd (next_rand w)) = tables_of w" "tables_of (record_metric f w) = tables_of w"
  by (simp_all add: tables_of_def next_rand_def split: list.split)

locale quiet =
  fixes E :: "'r world \<Rightarrow> 'r world \<Rightarrow> bool"
  assumes E_refl [simp]: "E w w"
    and E_trans: "E u v \<Longrightarrow> E v w \<Longrightarrow> E u w"
    and E_quiet: "tables_of v = tables_of w \<Longrightarrow> clock v \<le> clock w \<Longrightarrow> E v w"
begin

section \<open>The forms of the code\<close>

text \<open>A result is a world, a pair with a world, or a triple of a value, the state of a worker and a world.\<close>

lemma E_pair [evolves]:
  "E w0 (snd p) \<Longrightarrow> (\<And>x w1. E w0 w1 \<Longrightarrow> E w0 (g x w1)) \<Longrightarrow> E w0 (case p of (x, w1) \<Rightarrow> g x w1)"
  "E w0 (snd p) \<Longrightarrow> (\<And>x w1. E w0 w1 \<Longrightarrow> E w0 (snd (h x w1))) \<Longrightarrow> E w0 (snd (case p of (x, w1) \<Rightarrow> h x w1))"
  "E w0 (snd p) \<Longrightarrow> (\<And>x w1. E w0 w1 \<Longrightarrow> E w0 (snd (snd (m x w1))))
    \<Longrightarrow> E w0 (snd (snd (case p of (x, w1) \<Rightarrow> m x w1)))"
  by (cases p, simp)+

lemma E_nested [evolves]:
  "E w0 (snd (snd p)) \<Longrightarrow> (\<And>x kw. E w0 (snd kw) \<Longrightarrow> E w0 (g x kw)) \<Longrightarrow> E w0 (case p of (x, kw) \<Rightarrow> g x kw)"
  "E w0 (snd (snd p)) \<Longrightarrow> (\<And>x kw. E w0 (snd kw) \<Longrightarrow> E w0 (snd (h x kw)))
    \<Longrightarrow> E w0 (snd (case p of (x, kw) \<Rightarrow> h x kw))"
  "E w0 (snd (snd p)) \<Longrightarrow> (\<And>x kw. E w0 (snd kw) \<Longrightarrow> E w0 (snd (snd (m x kw))))
    \<Longrightarrow> E w0 (snd (snd (case p of (x, kw) \<Rightarrow> m x kw)))"
  by (cases p, simp)+

lemma E_tuples:
  "(\<And>x y. E w0 (snd (h x y))) \<Longrightarrow> E w0 (snd (case v of (x, y) \<Rightarrow> h x y))"
  "(\<And>x y. E w0 (snd (snd (m x y)))) \<Longrightarrow> E w0 (snd (snd (case v of (x, y) \<Rightarrow> m x y)))"
  by (cases v, simp)+

lemma E_if [evolves]:
  "E w0 w \<Longrightarrow> E w0 w' \<Longrightarrow> E w0 (if b then w else w')"
  "E w0 (snd p) \<Longrightarrow> E w0 (snd q) \<Longrightarrow> E w0 (snd (if b then p else q))"
  "E w0 (snd (snd r)) \<Longrightarrow> E w0 (snd (snd s)) \<Longrightarrow> E w0 (snd (snd (if b then r else s)))"
  by simp_all

lemma E_sum [evolves]:
  "(\<And>e. E w0 (f e)) \<Longrightarrow> (\<And>x. E w0 (g x)) \<Longrightarrow> E w0 (case s of Inl e \<Rightarrow> f e | Inr x \<Rightarrow> g x)"
  "(\<And>e. E w0 (snd (h e))) \<Longrightarrow> (\<And>x. E w0 (snd (j x))) \<Longrightarrow> E w0 (snd (case s of Inl e \<Rightarrow> h e | Inr x \<Rightarrow> j x))"
  "(\<And>e. E w0 (snd (snd (m e)))) \<Longrightarrow> (\<And>x. E w0 (snd (snd (n x))))
    \<Longrightarrow> E w0 (snd (snd (case s of Inl e \<Rightarrow> m e | Inr x \<Rightarrow> n x)))"
  by (cases s, simp_all)+

lemma E_option [evolves]:
  "E w0 w \<Longrightarrow> (\<And>y. E w0 (f y)) \<Longrightarrow> E w0 (case z of None \<Rightarrow> w | Some y \<Rightarrow> f y)"
  "E w0 (snd p) \<Longrightarrow> (\<And>y. E w0 (snd (h y))) \<Longrightarrow> E w0 (snd (case z of None \<Rightarrow> p | Some y \<Rightarrow> h y))"
  "E w0 (snd (snd r)) \<Longrightarrow> (\<And>y. E w0 (snd (snd (k y)))) \<Longrightarrow> E w0 (snd (snd (case z of None \<Rightarrow> r | Some y \<Rightarrow> k y)))"
  by (cases z, simp_all)+

lemma E_list [evolves]:
  "E w0 w \<Longrightarrow> (\<And>y ys. E w0 (f y ys)) \<Longrightarrow> E w0 (case l of [] \<Rightarrow> w | y # ys \<Rightarrow> f y ys)"
  "E w0 (snd p) \<Longrightarrow> (\<And>y ys. E w0 (snd (h y ys))) \<Longrightarrow> E w0 (snd (case l of [] \<Rightarrow> p | y # ys \<Rightarrow> h y ys))"
  "E w0 (snd (snd r)) \<Longrightarrow> (\<And>y ys. E w0 (snd (snd (k y ys))))
    \<Longrightarrow> E w0 (snd (snd (case l of [] \<Rightarrow> r | y # ys \<Rightarrow> k y ys)))"
  by (cases l, simp_all)+

lemma E_bool [evolves]:
  "E w0 (snd p) \<Longrightarrow> E w0 (snd q) \<Longrightarrow> E w0 (snd (case b of True \<Rightarrow> p | False \<Rightarrow> q))"
  "E w0 (snd (snd r)) \<Longrightarrow> E w0 (snd (snd s)) \<Longrightarrow> E w0 (snd (snd (case b of True \<Rightarrow> r | False \<Rightarrow> s)))"
  by (cases b, simp_all)+

lemma E_done [evolves]: "E w0 w \<Longrightarrow> E w0 (snd (x, w))" "E w0 w \<Longrightarrow> E w0 (snd (snd (x, k, w)))"
  by simp_all

lemma E_step: "E w0 w \<Longrightarrow> tables_of w' = tables_of w \<Longrightarrow> clock w \<le> clock w' \<Longrightarrow> E w0 w'"
  using E_quiet E_trans by metis

lemma E_env [evolves]:
  assumes "E w0 w"
  shows "E w0 (snd (time_now w))" and "E w0 (snd (next_outcome w))" and "E w0 (snd (next_rand w))"
    and "E w0 (record_metric f w)" and "E w0 (w\<lparr>w_redis := r\<rparr>)" and "E w0 (w\<lparr>w_metrics := m\<rparr>)"
proof -
  show "E w0 (snd (time_now w))"
    by (rule E_step [OF assms]) (use time_now_mono [of w "fst (time_now w)" "snd (time_now w)"] in simp_all)
  show "E w0 (snd (next_outcome w))" and "E w0 (snd (next_rand w))"
    and "E w0 (record_metric f w)" and "E w0 (w\<lparr>w_redis := r\<rparr>)" and "E w0 (w\<lparr>w_metrics := m\<rparr>)"
    by (rule E_step [OF assms]; simp)+
qed

lemma E_call [evolves]:
  "E w0 w \<Longrightarrow> (\<And>u. E w0 u \<Longrightarrow> E w0 (snd (f u))) \<Longrightarrow> E w0 (snd (call f w))"
  by (rule call_keeps) (auto intro: E_env)

lemma E_on_store [evolves]: "E w0 w \<Longrightarrow> E w0 (snd (on_store f w))"
  unfolding on_store_def by (simp add: case_prod_beta E_env)

lemma E_rd [evolves]:
  assumes "E w0 w"
  shows "E w0 (snd (rd_hgetall R k w))" "E w0 (snd (rd_hset R k fs w))" "E w0 (snd (rd_expire R k d w))"
    "E w0 (snd (rd_del R ks w))" "E w0 (snd (rd_exists R k w))" "E w0 (snd (rd_get R k w))"
    "E w0 (snd (rd_getdel R k w))" "E w0 (snd (rd_setex R k v d w))" "E w0 (snd (rd_incr R k w))"
  using assms by (auto simp: rd_defs E_env split: sum.split)

lemma E_both [evolves]:
  "E w0 w \<Longrightarrow> (\<And>u. E w0 u \<Longrightarrow> E w0 (snd (a u))) \<Longrightarrow> (\<And>u. E w0 u \<Longrightarrow> E w0 (snd (b u)))
   \<Longrightarrow> E w0 (snd (both a b w))"
  unfolding both_snd by (intro E_call)

section \<open>The cache\<close>

lemma E_link_cache [evolves]:
  assumes "E w0 w"
  shows "E w0 (snd (Cache_GetLink R c w))" "E w0 (snd (Cache_SetLink R c l w))"
    "E w0 (snd (Cache_DeleteLink R c w))" "E w0 (snd (Cache_IsNegativelyCached R c w))"
    "E w0 (snd (Cache_SetNegativeCache R c w))" "E w0 (snd (Cache_IncrementClicks R c w))"
    "E w0 (snd (Cache_GetAndResetClicks R c w))"
  unfolding Cache_GetLink_def Cache_SetLink_def store_hash_def Cache_DeleteLink_def Cache_IsNegativelyCached_def
    Cache_SetNegativeCache_def Cache_IncrementClicks_def Cache_GetAndResetClicks_def Let_def
  by (insert assms, (intro evolves | assumption | rule E_tuples)+)

lemma E_auth_cache [evolves]:
  assumes "E w0 w"
  shows "E w0 (snd (Cache_GetAuthContext R C h w))" "E w0 (snd (Cache_SetAuthContext R C h a w))"
    "E w0 (snd (Cache_DeleteAuthContext R h w))" "E w0 (snd (Cache_InvalidateUserAuthContexts u w))"
  unfolding Cache_GetAuthContext_def Cache_SetAuthContext_def Cache_DeleteAuthContext_def
    Cache_InvalidateUserAuthContexts_def Let_def
  by (insert assms, (intro evolves | assumption | rule E_tuples)+)

lemma E_script [evolves]: "E w0 w \<Longrightarrow> E w0 (snd (tokenBucketScript R N k rate burst now ttl w))"
  unfolding tokenBucketScript_def Let_def by (intro evolves | assumption | rule E_tuples)+

lemma E_rate_cache [evolves]:
  assumes "E w0 w"
  shows "E w0 (snd (open_result b w))" "E w0 (snd (checkRateLimit R N k rate b ttl w))"
    "E w0 (snd (Cache_CheckAPIRateLimit R N i rpm b w))" "E w0 (snd (Cache_CheckIPRateLimit R N D i rps b w))"
  unfolding open_result_def checkRateLimit_def Cache_CheckAPIRateLimit_def Cache_CheckIPRateLimit_def Let_def
  by (insert assms, (intro evolves | assumption | rule E_tuples)+)

section \<open>Reads of the tables\<close>

lemma E_read_links [evolves]:
  assumes "E w0 w"
  shows "E w0 (snd (Repository_GetLinkByID i w))" "E w0 (snd (Repository_GetLinkByShortCode c w))"
    "E w0 (snd (Repository_GetLinkByCode c w))" "E w0 (snd (Repository_ListLinks C f cur n w))"
    "E w0 (snd (Repository_ShortCodeExists c w))" "E w0 (snd (Repository_SearchLinksByDestination q m w))"
  unfolding Repository_GetLinkByID_def Repository_GetLinkByShortCode_def Repository_GetLinkByCode_def
    Repository_ListLinks_def Repository_ShortCodeExists_def Repository_SearchLinksByDestination_def
    pg_link_by_id_def pg_link_by_code_def pg_list_links_def pg_search_links_def Let_def
  by (insert assms, (intro evolves | assumption | rule E_tuples)+)

lemma E_read_accounts [evolves]:
  assumes "E w0 w"
  shows "E w0 (snd (Repository_GetAPIKeyByID i w))" "E w0 (snd (Repository_GetAPIKeysByPrefix p w))"
    "E w0 (snd (Repository_ListAPIKeysByUserID u w))" "E w0 (snd (Repository_GetUserByID u w))"
    "E w0 (snd (Repository_GetUserByEmail m w))"
  unfolding Repository_GetAPIKeyByID_def Repository_GetAPIKeysByPrefix_def Repository_ListAPIKeysByUserID_def
    Repository_GetUserByID_def Repository_GetUserByEmail_def get_user_def Let_def
  by (insert assms, (intro evolves | assumption | rule E_tuples)+)

lemma E_read_webhooks [evolves]:
  assumes "E w0 w"
  shows "E w0 (snd (Repository_GetEndpoint i w))" "E w0 (snd (Repository_ListEndpointsByUser u w))"
    "E w0 (snd (Repository_ListActiveEndpointsByUserAndEvent u et w))"
    "E w0 (snd (Repository_GetPendingDeliveries n w))" "E w0 (snd (Repository_GetDeliveryWithEndpoint i w))"
    "E w0 (snd (Repository_ListDeliveriesByEndpoint i ss m j w))" "E w0 (snd (Repository_GetQueueDepth w))"
  unfolding Repository_GetEndpoint_def Repository_ListEndpointsByUser_def
    Repository_ListActiveEndpointsByUserAndEvent_def Repository_GetPendingDeliveries_def
    Repository_GetDeliveryWithEndpoint_def Repository_ListDeliveriesByEndpoint_def Repository_GetQueueDepth_def
    pg_endpoint_by_id_def pg_endpoints_by_user_def pg_active_endpoints_def pg_pending_def
    pg_delivery_by_id_def pg_count_deliveries_def pg_list_deliveries_def Let_def
  by (insert assms, (intro evolves | assumption | rule E_tuples)+)

lemma E_read_clicks [evolves]:
  assumes "E w0 w"
  shows "E w0 (snd (recalculateDailyStat l d w))" "E w0 (snd (GetDailyStats l a b w))"
    "E w0 (snd (GetAnalyticsSummary l a b w))" "E w0 (snd (GetTopReferrers l a b n w))"
    "E w0 (snd (GetTopCountries l a b n w))"
  unfolding recalculateDailyStat_def GetDailyStats_def GetAnalyticsSummary_def GetTopReferrers_def
    GetTopCountries_def pg_events_of_day_def pg_daily_stats_def pg_summary_def pg_top_def Let_def
  by (insert assms, (intro evolves | assumption | rule E_tuples)+)

section \<open>The public handlers\<close>

lemma E_resolve [evolves]:
  assumes "E w0 w"
  shows "E w0 (snd (validateRedirectLink R l c w))" "E w0 (snd (LinkService_ResolveRedirect R c w))"
    "E w0 (IncrementClickAsync R c w)"
  unfolding LinkService_ResolveRedirect_def resolve_def resolve_from_table_def validateRedirectLink_def
    is_expired_now_def IncrementClickAsync_def Let_def
  by (insert assms, (intro evolves | assumption | rule E_tuples)+)

lemma E_publish_click [evolves]:
  assumes "E w0 w"
  shows "E w0 (snd (Publish X J event w))" "E w0 (publish_click V q c l w)"
  unfolding publish_click_def PublishAsync_def Publish_def Let_def
  by (insert assms, (intro evolves | assumption | rule E_tuples)+)

lemma E_public_handlers [evolves]:
  assumes "E w0 w"
  shows "E w0 (snd (Healthz q x w))" "E w0 (snd (Readyz (Some Repository_Ping) (Some Cache_Ping) q x w))"
    "E w0 (snd (Metrics_handler F b q x w))" "E w0 (snd (Handler_Hello q x w))"
    "E w0 (snd (Handler_NotFound q x w))" "E w0 (snd (Handler_MethodNotAllowed q x w))"
    "E w0 (snd (RedirectHandler_Redirect V q x w))"
  unfolding Healthz_def Readyz_def check_health_def Repository_Ping_def Cache_Ping_def Metrics_handler_def
    Handler_Hello_def Handler_NotFound_def Handler_MethodNotAllowed_def RedirectHandler_Redirect_def Let_def
    option.case
  by (insert assms, (intro evolves | assumption | rule E_tuples)+)

section \<open>The middleware\<close>

text \<open>What comes behind a middleware sees requests with the same header.\<close>

lemma E_middleware [evolves]:
  assumes "E w0 w" and "\<And>q' x u. rq_header q' = rq_header q \<Longrightarrow> E w0 u \<Longrightarrow> E w0 (snd (nxt q' x u))"
  shows "E w0 (snd (Security c nxt q x w))" "E w0 (snd (CORS cc nxt q x w))"
    "E w0 (snd (RequestID V nxt q x w))" "E w0 (snd (Logger nxt q x w))"
    "E w0 (snd (Recoverer nxt q x w))" "E w0 (snd (MaxBodySize n nxt q x w))"
    "E w0 (snd (RateLimitIP R N D rc nxt q x w))"
  unfolding Security_def CORS_def RequestID_def new_uuid_def with_request_id_def
    Logger_def Recoverer_def MaxBodySize_def RateLimitIP_def Let_def
  by (insert assms(1), (intro evolves assms(2) | assumption | rule E_tuples | simp)+)

lemma E_with_cors [evolves]:
  "E w0 w \<Longrightarrow> (\<And>q' x u. rq_header q' = rq_header q \<Longrightarrow> E w0 u \<Longrightarrow> E w0 (snd (nxt q' x u)))
   \<Longrightarrow> E w0 (snd (with_cors os nxt q x w))"
  by (simp add: with_cors_def E_middleware)

lemma E_real_ip [evolves]:
  "E w0 w \<Longrightarrow> (\<And>x u. E w0 u \<Longrightarrow> E w0 (snd (nxt (f q) x u))) \<Longrightarrow> E w0 (snd (RealIP f nxt q x w))"
  by (simp add: RealIP_def)

lemma E_serve:
  assumes "E w0 w"
    and "\<And>n rest q' x u. n \<in> set table \<Longrightarrow> rq_header q' = rq_header q \<Longrightarrow> E w0 u
      \<Longrightarrow> E w0 (snd (snd n rest q' x u))"
    and "\<And>e x u. endpoint_scope e = None \<Longrightarrow> E w0 u \<Longrightarrow> E w0 (snd (hs e q x u))"
  shows "E w0 (snd (serve M hs table path q x w))"
  using assms by (simp add: serve_def with_params_def split: mux_result.split)

lemma E_sleep: "E w0 w \<Longrightarrow> E w0 (if b < minAuthDuration then sleep (minAuthDuration - b) w else w)"
  using E_step [of w0 w] by (simp add: sleep_def)

text \<open>A request whose credential is missing or not of the format of a key writes nothing, whatever the protected handlers do.\<close>

lemma E_no_credential:
  assumes "E w0 w" and "\<not> ValidateKeyFormat (extractAPIKey q)"
  shows "E w0 (snd (Middleware_Auth R J A D nxt q x w))"
proof -
  have "authenticate R J A D (extractAPIKey q) u
      \<in> {(Inl (Text ''missing_key''), u), (Inl (Sentinel Auth_ErrInvalidKeyFormat), u)}" for u
  proof -
    have "ParseAPIKey (extractAPIKey q) = Inl (Sentinel Auth_ErrInvalidKeyFormat)"
      using assms(2) by (auto simp: ValidateKeyFormat_def ParseAPIKey_def split: option.split)
    then show ?thesis by (simp add: authenticate_def)
  qed
  then obtain e where "authenticate R J A D (extractAPIKey q) (snd (time_now w)) = (Inl e, snd (time_now w))"
      and "\<And>m. e \<noteq> Panic m" by blast
  then have "snd (Middleware_Auth R J A D nxt q x w) = (let v = snd (time_now (snd (time_now w)));
      b = fst (time_now (snd (time_now w))) - fst (time_now w)
    in if b < minAuthDuration then sleep (minAuthDuration - b) v else v)"
    by (cases e) (simp_all add: Middleware_Auth_def Let_def case_prod_beta)
  then show ?thesis unfolding Let_def by (simp only:) (intro E_sleep evolves assms(1))
qed

lemma E_anonymous:
  assumes "E w0 w" and q: "\<not> ValidateKeyFormat (extractAPIKey q)"
    and real_ip: "\<And>q. rq_header (rt_real_ip V q) = rq_header q"
    and public: "\<And>e q x u. endpoint_scope e = None \<Longrightarrow> E w0 u \<Longrightarrow> E w0 (snd (hs e q x u))"
  shows "E w0 (snd (setupRouter V hs q x w))"
proof -
  have gate: "E w0 (snd (api_router V hs path q' x u))" if "E w0 u" "rq_header q' = rq_header q" for path q' x u
    unfolding api_router_def
  proof (rule E_middleware(6) [OF that(1)])
    fix q'' :: request and x :: writer and u :: "'r world"
    assume "rq_header q'' = rq_header q'" and "E w0 u"
    then show "E w0 (snd (Middleware_Auth (rt_redis V) (rt_auth_codec V) (rt_hash V) (rt_digest V)
        (RateLimitAPI (rt_redis V) (rt_numbers V) (rate_limit_settings (rt_config V))
          (serve (rt_mux V) hs
             [mount ''/links'' (links_router (rt_mux V) hs), mount ''/api-keys'' (keys_router (rt_mux V) hs),
              mount ''/webhooks'' (webhooks_router (rt_mux V) hs),
              mount ''/admin'' (admin_router (rt_mux V) hs)] path)) q'' x u))"
      using q extractAPIKey_header [of q'' q] that(2) by (intro E_no_credential) simp_all
  qed
  have root: "E w0 (snd (serve (rt_mux V) hs (root_table V hs) path q' x u))"
    if "E w0 u" "rq_header q' = rq_header q" for path q' x u
    by (rule E_serve [OF that(1)])
      (auto simp: root_table_def route_def mount_def that(2) intro!: gate public E_middleware)
  have inside: "E w0 (snd (RequestID (rt_uuid V) (Logger (Recoverer
      (\<lambda>q. serve (rt_mux V) hs (root_table V hs) (rq_path q) q))) q' x u))"
    if "E w0 u" "rq_header q' = rq_header q" for q' x u
    using that by (intro E_middleware root) simp_all
  show ?thesis
    unfolding setupRouter_def
    by (intro E_middleware E_with_cors E_real_ip assms(1) inside) (simp_all add: real_ip)
qed

end

section \<open>The statements that write\<close>

locale evolution = quiet E for E :: "'r world \<Rightarrow> 'r world \<Rightarrow> bool" +
  assumes E_write_links:
      "E w (snd (pg_insert_link l w))"
      "E w (snd (pg_update_links (\<lambda>r. l_id r = i \<and> live_link r) (set_link_fields l) w))"
      "E w (snd (pg_update_links (\<lambda>r. l_id r = i \<and> live_link r) (delete_link_row t) w))"
    and E_write_accounts:
      "E w (snd (pg_insert_key k w))"
      "E w (snd (pg_update_keys (\<lambda>r. k_id r = i \<and> live_key r) (revoke_row t) w))"
      "E w (snd (pg_update_keys (\<lambda>r. k_id r = i) (use_row t) w))"
      "E w (snd (pg_insert_user u w))"
    and E_write_endpoints:
      "E w (snd (pg_insert_endpoint e w))"
      "E w (snd (pg_update_endpoints (\<lambda>r. e_id r = i \<and> live_endpoint r) (set_endpoint_fields e t) w))"
      "E w (snd (pg_update_endpoints (\<lambda>r. e_id r = i \<and> live_endpoint r)
         (\<lambda>r. r\<lparr>e_secret_hash := s, e_updated_at := t\<rparr>) w))"
      "E w (snd (pg_update_endpoints (\<lambda>r. e_id r = i \<and> live_endpoint r) (delete_endpoint_row t) w))"
    and E_write_deliveries:
      "E w (snd (pg_insert_delivery d w))"
      "E w (snd (pg_update_deliveries (\<lambda>r. d_id r = i) (succeed_row t n) w))"
      "E w (snd (pg_update_deliveries (\<lambda>r. d_id r = i) (fail_row t st m t' x) w))"
      "E w (snd (pg_update_deliveries (\<lambda>r. d_id r = i \<and> d_status r = Exhausted) (reset_row t) w))"
    and E_write_clicks:
      "E w (snd (pg_send_batch es w))" "E w (snd (pg_upsert_stats acc w))"
begin

lemmas E_statements = E_trans [OF _ E_write_links(1)] E_trans [OF _ E_write_links(2)]
  E_trans [OF _ E_write_links(3)] E_trans [OF _ E_write_accounts(1)] E_trans [OF _ E_write_accounts(2)]
  E_trans [OF _ E_write_accounts(3)] E_trans [OF _ E_write_accounts(4)] E_trans [OF _ E_write_endpoints(1)]
  E_trans [OF _ E_write_endpoints(2)] E_trans [OF _ E_write_endpoints(3)] E_trans [OF _ E_write_endpoints(4)]
  E_trans [OF _ E_write_deliveries(1)] E_trans [OF _ E_write_deliveries(2)]
  E_trans [OF _ E_write_deliveries(3)] E_trans [OF _ E_write_deliveries(4)]
  E_trans [OF _ E_write_clicks(1)] E_trans [OF _ E_write_clicks(2)]

lemma E_writes [evolves]:
  assumes "E w0 w"
  shows "E w0 (snd (Repository_CreateLink l w))" "E w0 (snd (Repository_UpdateLink l w))"
    "E w0 (snd (Repository_DeleteLink i w))" "E w0 (snd (Repository_CreateAPIKey k w))"
    "E w0 (snd (Repository_RevokeAPIKey i w))" "E w0 (snd (Repository_UpdateAPIKeyLastUsed i w))"
    "E w0 (snd (Repository_CreateUser u w))" "E w0 (snd (Repository_CreateEndpoint e w))"
    "E w0 (snd (Repository_UpdateEndpoint e w))" "E w0 (snd (Repository_UpdateEndpointSecret i s w))"
    "E w0 (snd (Repository_DeleteEndpoint i w))" "E w0 (snd (Repository_CreateDelivery d w))"
    "E w0 (snd (Repository_UpdateDeliverySuccess i n w))"
    "E w0 (snd (Repository_UpdateDeliveryFailure i st m t x w))"
    "E w0 (snd (Repository_ResetDeliveryForRetry i w))" "E w0 (snd (BulkInsert es w))"
    "E w0 (snd (upsertDailyStat acc w))"
  unfolding Repository_CreateLink_def Repository_UpdateLink_def Repository_DeleteLink_def
    Repository_CreateAPIKey_def Repository_RevokeAPIKey_def Repository_UpdateAPIKeyLastUsed_def
    Repository_CreateUser_def Repository_CreateEndpoint_def Repository_UpdateEndpoint_def
    Repository_UpdateEndpointSecret_def Repository_DeleteEndpoint_def exec_on_endpoint_def
    Repository_CreateDelivery_def Repository_UpdateDeliverySuccess_def Repository_UpdateDeliveryFailure_def
    Repository_ResetDeliveryForRetry_def BulkInsert_def upsertDailyStat_def Let_def
  by (insert assms, (intro evolves E_statements | assumption | rule E_tuples)+)

section \<open>The link service and its handlers\<close>

lemma E_clock_ids [evolves]:
  assumes "E w0 w"
  shows "E w0 (snd (cryptoRandReadReal n w))" "E w0 (snd (cryptoRandInt m w))"
    "E w0 (snd (webhook_generateULID w))" "E w0 (snd (generateID w))" "E w0 (snd (ulid_Make U w))"
    "E w0 (snd (analytics_generateULID w))" "E w0 (snd (random_unit w))"
  unfolding cryptoRandReadReal_def cryptoRandInt_def webhook_generateULID_def generateID_def ulid_Make_def
    analytics_generateULID_def random_unit_def Let_def
  by (insert assms, (intro evolves | assumption | rule E_tuples)+)

lemma E_random_chars [evolves]: "E w0 w \<Longrightarrow> E w0 (snd (random_chars n w))"
proof (induction n arbitrary: w)
  case (Suc n)
  show ?case
    unfolding random_chars.simps Let_def
    by (insert Suc.prems, (intro evolves Suc.IH | assumption | rule E_tuples)+)
qed simp

lemma E_random [evolves]:
  assumes "E w0 w"
  shows "E w0 (snd (generateRandomAlias w))" "E w0 (snd (generateULID w))" "E w0 (snd (GenerateSecret w))"
    "E w0 (snd (HashPassword A p w))" "E w0 (snd (GenerateAPIKey A v w))"
  unfolding generateRandomAlias_def generateULID_def GenerateSecret_def HashPassword_def GenerateAPIKey_def
    Let_def
  by (insert assms, (intro evolves | assumption | rule E_tuples)+)

lemma E_alias_retries [evolves]: "E w0 w \<Longrightarrow> E w0 (snd (alias_retries n w))"
proof (induction n arbitrary: w)
  case (Suc n)
  show ?case
    unfolding alias_retries.simps Let_def
    by (insert Suc.prems, (intro evolves Suc.IH | assumption | rule E_tuples)+)
qed simp

lemma E_clock_reads [evolves]:
  assumes "E w0 w"
  shows "E w0 (snd (past e w))" "E w0 (snd (status_now l w))" "E w0 (snd (is_expired_now l w))"
  unfolding past_def status_now_def is_expired_now_def Let_def
  by (insert assms, (intro evolves | assumption | rule E_tuples)+)

lemma E_filter_status [evolves]: "E w0 w \<Longrightarrow> E w0 (snd (filter_status t ls w))"
proof (induction ls arbitrary: w)
  case (Cons l ls)
  show ?case
    unfolding filter_status.simps Let_def
    by (insert Cons.prems, (intro evolves Cons.IH | assumption | rule E_tuples)+)
qed simp

lemma E_link_service [evolves]:
  assumes "E w0 w"
  shows "E w0 (snd (LinkService_CreateLink P i w))" "E w0 (snd (LinkService_GetLink j w))"
    "E w0 (snd (LinkService_ListLinks C li w))" "E w0 (snd (LinkService_UpdateLink R P ui w))"
    "E w0 (snd (LinkService_DeleteLink R j w))"
  unfolding LinkService_CreateLink_def choose_alias_def generateUniqueAlias_def insert_new_link_def
    LinkService_GetLink_def LinkService_ListLinks_def LinkService_UpdateLink_def apply_expiry_def
    save_and_invalidate_def LinkService_DeleteLink_def Let_def
  by (insert assms, (intro evolves | assumption | rule E_tuples)+)

lemma E_link_response [evolves]:
  assumes "E w0 w"
  shows "E w0 (snd (ToLinkResponse l b w))"
  unfolding ToLinkResponse_def Let_def
  by (insert assms, (intro evolves | assumption | rule E_tuples)+)

lemma E_link_responses [evolves]: "E w0 w \<Longrightarrow> E w0 (snd (link_responses ls b w))"
proof (induction ls arbitrary: w)
  case (Cons l ls)
  show ?case
    unfolding link_responses.simps Let_def
    by (insert Cons.prems, (intro evolves Cons.IH | assumption | rule E_tuples)+)
qed simp

lemma E_link_handlers [evolves]:
  assumes "E w0 w"
  shows "E w0 (snd (LinkHandler_Create P svc DEC q x w))" "E w0 (snd (LinkHandler_Get svc q x w))"
    "E w0 (snd (LinkHandler_List C T svc q x w))" "E w0 (snd (LinkHandler_Update R P svc DEC2 q x w))"
    "E w0 (snd (LinkHandler_Delete R q x w))"
  unfolding LinkHandler_Create_def LinkHandler_Get_def LinkHandler_List_def LinkHandler_Update_def
    LinkHandler_Delete_def respond_link_def ToLinkListResponse_def Let_def
  by (insert assms, (intro evolves | assumption | rule E_tuples)+)

section \<open>Accounts and authentication\<close>

lemma E_accounts [evolves]:
  assumes "E w0 w"
  shows "E w0 (snd (Repository_GetOrCreateUser u w))" "E w0 (snd (store_new_key U a r g x w))"
    "E w0 (snd (rotate_key U k g x w))" "E w0 (snd (auth_lookup R J A key ck pre w))"
    "E w0 (snd (authenticate R J A D key w))"
  unfolding Repository_GetOrCreateUser_def store_new_key_def rotate_key_def authenticate_def auth_lookup_def
    Let_def
  by (insert assms, (intro evolves | assumption | rule E_tuples)+)

lemma E_with_own_key [evolves]:
  "E w0 w \<Longrightarrow> (\<And>k a x u. E w0 u \<Longrightarrow> E w0 (snd (act k a x u))) \<Longrightarrow> E w0 (snd (with_own_key m act q x w))"
  unfolding with_own_key_def Let_def by (intro evolves | assumption)+

lemma E_key_handlers [evolves]:
  assumes "E w0 w"
  shows "E w0 (snd (APIKeyHandler_CreateAPIKey A U DEC q x w))"
    "E w0 (snd (APIKeyHandler_ListAPIKeys q x w))" "E w0 (snd (APIKeyHandler_RevokeAPIKey q x w))"
    "E w0 (snd (APIKeyHandler_RotateAPIKey A U q x w))"
  unfolding APIKeyHandler_CreateAPIKey_def APIKeyHandler_ListAPIKeys_def APIKeyHandler_RevokeAPIKey_def
    APIKeyHandler_RotateAPIKey_def Let_def
  by (insert assms, (intro evolves | assumption | rule E_tuples)+)

lemma E_admin_handlers [evolves]:
  assumes "E w0 w"
  shows "E w0 (snd (LookupLinks q x w))" "E w0 (snd (ListAPIKeysByUser q x w))" "E w0 (snd (Stats q x w))"
    "E w0 (snd (GetLinkAnalytics Q q x w))"
  unfolding LookupLinks_def exact_match_def search_destination_def ListAPIKeysByUser_def Stats_def
    GetLinkAnalytics_def parseTimeRange_def buildAnalyticsResponse_def Let_def
  by (insert assms, (intro evolves | assumption | rule E_tuples)+)

section \<open>Webhooks\<close>

lemma E_with_webhook_auth [evolves]:
  "E w0 w \<Longrightarrow> (\<And>a q x u. E w0 u \<Longrightarrow> E w0 (snd (act a q x u))) \<Longrightarrow> E w0 (snd (with_webhook_auth act q x w))"
  unfolding with_webhook_auth_def Let_def by (intro evolves | assumption)+

lemma E_with_own_endpoint [evolves]:
  "E w0 w \<Longrightarrow> (\<And>e a q x u. E w0 u \<Longrightarrow> E w0 (snd (act e a q x u))) \<Longrightarrow> E w0 (snd (with_own_endpoint m act q x w))"
  unfolding with_own_endpoint_def Let_def by (intro evolves | assumption)+

lemma E_webhook_handlers [evolves]:
  assumes "E w0 w"
  shows "E w0 (snd (WebhookHandler_Create P L D DEC b q x w))" "E w0 (snd (WebhookHandler_List q x w))"
    "E w0 (snd (WebhookHandler_Get q x w))" "E w0 (snd (WebhookHandler_Update P L DEC2 b q x w))"
    "E w0 (snd (WebhookHandler_Delete q x w))" "E w0 (snd (WebhookHandler_RotateSecret D q x w))"
    "E w0 (snd (WebhookHandler_ListDeliveries q x w))" "E w0 (snd (WebhookHandler_RetryDelivery q x w))"
  unfolding WebhookHandler_Create_def create_webhook_def WebhookHandler_List_def WebhookHandler_Get_def
    WebhookHandler_Update_def WebhookHandler_Delete_def WebhookHandler_RotateSecret_def rotate_secret_def
    WebhookHandler_ListDeliveries_def WebhookHandler_RetryDelivery_def Let_def
  by (insert assms, (intro evolves | assumption | rule E_tuples)+)

lemma E_fan_out [evolves]: "E w0 w \<Longrightarrow> E w0 (fan_out es click pj now w)"
proof (induction es arbitrary: w)
  case (Cons e es)
  show ?case
    unfolding fan_out.simps Let_def
    by (insert Cons.prems, (intro evolves Cons.IH | assumption | rule E_tuples)+)
qed simp

lemma E_deliver [evolves]:
  assumes "E w0 w"
  shows "E w0 (snd (PublishClickEvent J u click w))" "E w0 (snd (deliver H P X d w))"
  unfolding PublishClickEvent_def deliver_def give_up_def send_delivery_def handleDeliveryError_def
    NextRetryAt_def NextRetryDelay_def Let_def
  by (insert assms, (intro evolves | assumption | rule E_tuples)+)

lemma E_deliver_all [evolves]: "E w0 w \<Longrightarrow> E w0 (deliver_all H P X ds w)"
proof (induction ds arbitrary: w)
  case (Cons d ds)
  show ?case
    unfolding deliver_all.simps Let_def
    by (insert Cons.prems, (intro evolves Cons.IH | assumption | rule E_tuples)+)
qed simp

lemma E_webhook_pass [evolves]:
  assumes "E w0 w"
  shows "E w0 (snd (maybeUpdateQueueDepth k w))" "E w0 (snd (snd (processOnce H P X k w)))"
  unfolding maybeUpdateQueueDepth_def processOnce_def Let_def
  by (insert assms, (intro evolves | assumption | rule E_tuples)+)

section \<open>Clicks\<close>

lemma E_update_stats [evolves]: "E w0 w \<Longrightarrow> E w0 (snd (update_stats ks w))"
proof (induction ks arbitrary: w)
  case (Cons k ks)
  show ?case
    unfolding update_stats.simps update_stat_def Let_def
    by (insert Cons.prems, (intro evolves Cons.IH | assumption | rule E_tuples)+)
qed simp

lemma E_take [evolves]:
  assumes "E w0 w"
  shows "E w0 (snd (ensureConsumerGroup X w))" "E w0 (snd (snd (take_messages X k w)))"
    "E w0 (snd (Analytics_maybeUpdateQueueDepth X k w))" "E w0 (deadLetterMessage X msg r d w)"
    "E w0 (snd (ackMessages X ids w))"
  unfolding ensureConsumerGroup_def take_messages_def maybeClaimPending_def too_soon_def readBatch_def
    Analytics_maybeUpdateQueueDepth_def note_depth_def deadLetterMessage_def ackMessages_def Let_def
  by (insert assms, (intro evolves | assumption | rule E_tuples)+)

lemma E_parse [evolves]: "E w0 w \<Longrightarrow> E w0 (snd (snd (parseMessages X U ms w)))"
proof (induction ms arbitrary: w)
  case (Cons m ms)
  show ?case
    unfolding parseMessages.simps
    by (insert Cons.prems, (intro evolves Cons.IH | assumption | rule E_tuples)+)
qed simp

lemma E_publish_each [evolves]: "E w0 w \<Longrightarrow> E w0 (snd (publish_each J es w))"
proof (induction es arbitrary: w)
  case (Cons e es)
  show ?case
    unfolding publish_each.simps Let_def
    by (insert Cons.prems, (intro evolves Cons.IH | assumption | rule E_tuples)+)
qed simp

lemma E_record_processed [evolves]: "E w0 w \<Longrightarrow> E w0 (record_processed es w)"
proof (induction es arbitrary: w)
  case (Cons e es)
  show ?case
    unfolding record_processed.simps Let_def
    by (insert Cons.prems, (intro evolves Cons.IH | assumption | rule E_tuples)+)
qed simp

lemma E_record_failed [evolves]: "E w0 w \<Longrightarrow> E w0 (record_failed es w)"
proof (induction es arbitrary: w)
  case (Cons e es)
  show ?case
    unfolding record_failed.simps Let_def
    by (insert Cons.prems, (intro evolves Cons.IH | assumption | rule E_tuples)+)
qed simp

lemma E_batch [evolves]:
  assumes "E w0 w"
  shows "E w0 (snd (processBatch J Q k es w))"
  unfolding processBatch_def UpdateDailyStats_def publishWebhooks_def record_batch_def Let_def
  by (insert assms, (intro evolves | assumption | rule E_tuples)+)

lemma E_wait [evolves]: "E w0 w \<Longrightarrow> E w0 (snd (wait_backoff (2 ^ n * second) w))"
proof -
  assume w: "E w0 w"
  obtain y u where u: "next_outcome w = (y, u)" by fastforce
  with E_env(2) [OF w] have "E w0 u" by simp
  moreover from this have "E w0 (u\<lparr>clock := clock u + 2 ^ n * second\<rparr>)"
    by (rule E_step) (simp_all add: second_def)
  ultimately show ?thesis by (cases y) (simp_all add: wait_backoff_def u)
qed

lemma E_retry_batch [evolves]: "E w0 w \<Longrightarrow> E w0 (snd (retry_batch J Q k es n m r w))"
proof (induction n arbitrary: m r w)
  case 0
  then show ?case by (simp add: E_record_failed)
next
  case (Suc n)
  show ?case
    unfolding retry_batch.simps by (insert Suc.prems, (intro evolves Suc.IH | assumption)+)
qed

lemma E_click_pass [evolves]: "E w0 w \<Longrightarrow> E w0 (snd (snd (Analytics_processOnce X U J Q k w)))"
  unfolding Analytics_processOnce_def handle_messages_def processBatchWithRetry_def Let_def
  by (intro evolves | assumption | rule E_tuples)+

section \<open>The routes\<close>

lemma E_auth_middleware [evolves]:
  assumes "E w0 w" and "\<And>q x u. E w0 u \<Longrightarrow> E w0 (snd (nxt q x u))"
  shows "E w0 (snd (RequireScope ss nxt q x w))" "E w0 (snd (RateLimitAPI R N cfg nxt q x w))"
  unfolding RequireScope_def RateLimitAPI_def Let_def
  by (insert assms(1), (intro evolves assms(2) | assumption | rule E_tuples)+)

lemma E_authentication [evolves]:
  assumes "E w0 w" and "\<And>q x u. E w0 u \<Longrightarrow> E w0 (snd (nxt q x u))"
  shows "E w0 (snd (Middleware_Auth R J A D nxt q x w))"
proof -
  have sleep: "E w0 (if b < minAuthDuration then sleep (minAuthDuration - b) u else u)" if "E w0 u" for b u
    using E_step [OF that] that by (simp add: sleep_def)
  have panic: "E w0 (snd (case err of Panic m \<Rightarrow> f m | _ \<Rightarrow> p))"
    if "\<And>m. E w0 (snd (f m))" and "E w0 (snd p)" for err and f :: "string \<Rightarrow> writer \<times> 'r world" and p
    using that by (cases err) simp_all
  show ?thesis
    unfolding Middleware_Auth_def Let_def
    by (insert assms(1), (intro evolves sleep panic assms(2) | assumption | rule E_tuples)+)
qed

lemma E_routers [evolves]:
  assumes "E w0 w" and hs: "\<And>e q x u. E w0 u \<Longrightarrow> E w0 (snd (hs e q x u))"
  shows "E w0 (snd (links_router M hs path q x w))" "E w0 (snd (keys_router M hs path q x w))"
    "E w0 (snd (webhooks_router M hs path q x w))" "E w0 (snd (admin_router M hs path q x w))"
  unfolding links_router_def keys_router_def webhooks_router_def admin_router_def require_defs
  by (insert assms(1), (intro E_auth_middleware E_serve hs | assumption |
    (auto simp: route_def intro!: E_auth_middleware hs)[1])+)

lemma E_api_router [evolves]:
  assumes "E w0 w" and "\<And>e q x u. E w0 u \<Longrightarrow> E w0 (snd (hs e q x u))"
  shows "E w0 (snd (api_router V hs path q x w))"
  unfolding api_router_def
  by (insert assms(1), (intro E_middleware E_authentication E_auth_middleware E_serve assms(2) | assumption |
    (auto simp: mount_def intro!: E_routers assms(2))[1])+)

lemma E_root:
  assumes "E w0 w" and "\<And>e q x u. E w0 u \<Longrightarrow> E w0 (snd (hs e q x u))"
  shows "E w0 (snd (setupRouter V hs q x w))"
proof -
  have root: "E w0 (snd (serve (rt_mux V) hs (root_table V hs) path q' x u))" if "E w0 u" for path q' x u
    by (rule E_serve [OF that])
      (auto simp: root_table_def route_def mount_def intro!: E_api_router E_middleware assms(2))
  show ?thesis
    unfolding setupRouter_def by (intro E_middleware E_with_cors E_real_ip assms(1) root)
qed

lemma E_app_handler: "E w0 w \<Longrightarrow> E w0 (snd (app_handler A e q x w))"
  by (cases e; simp only: app_handler.simps; (rule evolves)?)

theorem E_api_server: "E w (snd (api_server V A q x w))"
  unfolding api_server_def by (rule E_root [OF E_refl E_app_handler])

text \<open>The command that creates the first key.\<close>

theorem E_bootstrap: "E w (snd (bootstrap_main A U c fl w))"
  unfolding bootstrap_main_def ensureUser_def Let_def
  by (intro evolves E_refl | assumption | rule E_tuples)+

section \<open>The loops of the workers\<close>

lemma E_run_loop [evolves]: "E w0 w \<Longrightarrow> E w0 (snd (snd (run_loop H P X es k w)))"
proof (induction H P X es k w rule: run_loop.induct)
  case (3 H P X es k w)
  have pass: "E w0 (snd (snd (processOnce H P X k w)))" by (rule E_webhook_pass [OF "3.prems"])
  then show ?case using "3.IH" by (auto split: prod.split sum.split)
qed simp_all

lemma E_click_loop [evolves]: "E w0 w \<Longrightarrow> E w0 (snd (snd (click_loop X U J Q rs k w)))"
proof (induction X U J Q rs k w rule: click_loop.induct)
  case (4 X U J Q rs k w)
  have pass: "E w0 (snd (snd (Analytics_processOnce X U J Q k w)))" by (rule E_click_pass [OF "4.prems"])
  have pause: "E w0 u \<Longrightarrow> E w0 (u\<lparr>clock := clock u + second\<rparr>)" for u
    by (rule E_step [of w0 u]) (simp_all add: second_def)
  from pass show ?case using "4.IH" pause by (auto split: prod.split sum.split)
qed simp_all

theorem E_workers: "E w (snd (snd (Worker_Run H P X es k w)))" "E w (snd (snd (Analytics_Run Y U J Q rs m w)))"
  unfolding Worker_Run_def Analytics_Run_def Let_def by (intro evolves E_refl | assumption | rule E_tuples)+

end

end
