(* ===== verification/Whole_System.thy ===== *)
theory Whole_System imports Evolution Public_Site Webhook_Ownership Webhook_Lifecycle begin

text \<open>
  The running system: one server, the analytics worker and the webhook worker over one database and one
  store. A step is a request, a round of a worker, a run of the bootstrap command, or the passing of
  time, in which the store may lose or gain any key; the outcomes of the calls to come are arbitrary, too.

  Shown: the constraints of all tables hold in every state that can be reached; rows are never lost, a
  deleted link and a deleted endpoint are never changed again, a revoked key is never restored; and a
  request without a credential changes no table.
\<close>

section \<open>The system\<close>

record 'r system =
  sy_router :: "'r router_env"
  sy_app :: "'r app_params"
  sy_stream :: "'r stream_ops"
  sy_decode :: "string \<Rightarrow> error + click_event_payload"
  sy_payload :: "webhook_payload \<Rightarrow> string"
  sy_order :: map_order
  sy_hmac :: hmac
  sy_url :: url_parser
  sy_client :: http_client

record 'r state =
  st_world :: "'r world"
  st_clicks :: click_worker
  st_webhooks :: worker

inductive system_step :: "'r system \<Rightarrow> 'r state \<Rightarrow> 'r state \<Rightarrow> bool" for Y where
  request: "system_step Y s (s\<lparr>st_world := snd (api_server (sy_router Y) (sy_app Y) q new_writer (st_world s))\<rparr>)"
| clicks: "click_loop (sy_stream Y) (sy_decode Y) (sy_payload Y) (sy_order Y) [r] (st_clicks s) (st_world s)
    = (result, k, w) \<Longrightarrow> system_step Y s (s\<lparr>st_clicks := k, st_world := w\<rparr>)"
| webhooks: "run_loop (sy_hmac Y) (sy_url Y) (sy_client Y) [ev] (st_webhooks s) (st_world s) = (result, j, w)
    \<Longrightarrow> system_step Y s (s\<lparr>st_webhooks := j, st_world := w\<rparr>)"
| bootstrap: "system_step Y s
    (s\<lparr>st_world := snd (bootstrap_main (ap_hash (sy_app Y)) (ap_ulid (sy_app Y)) c fl (st_world s))\<rparr>)"
| passing: "clock (st_world s) \<le> t \<Longrightarrow> system_step Y s
    (s\<lparr>st_world := st_world s\<lparr>clock := t, ticks := ds, outcomes := os, rands := ns, w_redis := r\<rparr>\<rparr>)"

abbreviation runs_to :: "'r system \<Rightarrow> 'r state \<Rightarrow> 'r state \<Rightarrow> bool" where
  "runs_to Y \<equiv> (system_step Y)\<^sup>*\<^sup>*"

context evolution begin

lemma E_system_step: "system_step Y s s' \<Longrightarrow> E (st_world s) (st_world s')"
proof (induction rule: system_step.induct)
  case (clicks r s result k w)
  then show ?case
    using E_click_loop [OF E_refl, of "st_world s" "sy_stream Y" "sy_decode Y" "sy_payload Y" "sy_order Y"
        "[r]" "st_clicks s"] by simp
next
  case (webhooks ev s result j w)
  then show ?case
    using E_run_loop [OF E_refl, of "st_world s" "sy_hmac Y" "sy_url Y" "sy_client Y" "[ev]" "st_webhooks s"]
    by simp
next
  case (passing s t ds os ns r)
  then show ?case by (intro E_quiet) simp_all
qed (simp_all add: E_api_server E_bootstrap)

theorem E_runs_to: "runs_to Y s s' \<Longrightarrow> E (st_world s) (st_world s')"
  by (induction rule: rtranclp_induct) (auto intro: E_trans E_system_step)

end

section \<open>The constraints of the tables\<close>

definition stats_ok :: "daily_stats list \<Rightarrow> bool" where
  "stats_ok rs = (distinct (map ds_id rs) \<and> distinct (map (\<lambda>r. (ds_link_id r, ds_date r)) rs))"

definition tables_inv :: "'r world \<Rightarrow> bool" where
  "tables_inv w \<longleftrightarrow> links_inv w \<and> accounts_inv w \<and> endpoint_ids_ok w \<and> deliveries_ok (w_deliveries w)
     \<and> d_endpoint_id ` set (w_deliveries w) \<subseteq> e_id ` set (w_endpoints w)
     \<and> clicks_ok (w_click_events w) \<and> stats_ok (w_daily_stats w)"

lemma tables_inv_quiet: "tables_of v = tables_of w \<Longrightarrow> tables_inv v \<Longrightarrow> tables_inv w"
  by (simp add: tables_of_def tables_inv_def links_inv_def accounts_inv_def endpoint_ids_ok_def)

text \<open>A statement of one group of tables leaves the others alone.\<close>

lemma link_statements_frame:
  "\<exists>ls. snd (pg_insert_link l w) = w\<lparr>w_links := ls\<rparr>" "\<exists>ls. snd (pg_update_links p f w) = w\<lparr>w_links := ls\<rparr>"
  by (auto simp: pg_insert_link_def pg_update_links_def split: option.split intro: exI [of _ "w_links w"])

lemma account_statements_frame:
  "\<exists>us ks. snd (pg_insert_key k w) = w\<lparr>w_users := us, w_api_keys := ks\<rparr>"
  "\<exists>us ks. snd (pg_insert_user u w) = w\<lparr>w_users := us, w_api_keys := ks\<rparr>"
  "\<exists>us ks. snd (pg_update_keys p f w) = w\<lparr>w_users := us, w_api_keys := ks\<rparr>"
proof -
  have same: "\<exists>us ks. w = w\<lparr>w_users := us, w_api_keys := ks\<rparr>"
    by (intro exI [of _ "w_users w"] exI [of _ "w_api_keys w"]) simp
  moreover have "\<exists>us ks'. w\<lparr>w_api_keys := ks\<rparr> = w\<lparr>w_users := us, w_api_keys := ks'\<rparr>" for ks
    by (intro exI [of _ "w_users w"] exI [of _ ks]) simp
  moreover have "\<exists>us' ks. w\<lparr>w_users := us\<rparr> = w\<lparr>w_users := us', w_api_keys := ks\<rparr>" for us
    by (intro exI [of _ us] exI [of _ "w_api_keys w"]) simp
  ultimately show "\<exists>us ks. snd (pg_insert_key k w) = w\<lparr>w_users := us, w_api_keys := ks\<rparr>"
      "\<exists>us ks. snd (pg_insert_user u w) = w\<lparr>w_users := us, w_api_keys := ks\<rparr>"
      "\<exists>us ks. snd (pg_update_keys p f w) = w\<lparr>w_users := us, w_api_keys := ks\<rparr>"
    by (simp_all add: pg_insert_key_def pg_insert_user_def pg_update_keys_def split: option.split)
qed

lemma tables_inv_links: "tables_inv w \<Longrightarrow> links_ok ls \<Longrightarrow> tables_inv (w\<lparr>w_links := ls\<rparr>)"
  by (simp add: tables_inv_def links_inv_def accounts_inv_def endpoint_ids_ok_def)

lemma tables_inv_accounts:
  "tables_inv w \<Longrightarrow> accounts_inv (w\<lparr>w_users := us, w_api_keys := ks\<rparr>)
   \<Longrightarrow> tables_inv (w\<lparr>w_users := us, w_api_keys := ks\<rparr>)"
  by (simp add: tables_inv_def links_inv_def accounts_inv_def endpoint_ids_ok_def)

lemma link_writes_inv:
  assumes "tables_inv w"
  shows "tables_inv (snd (pg_insert_link l w))"
    "tables_inv (snd (pg_update_links (\<lambda>r. l_id r = i \<and> live_link r) (set_link_fields l) w))"
    "tables_inv (snd (pg_update_links (\<lambda>r. l_id r = i \<and> live_link r) (delete_link_row t) w))"
proof -
  have ok: "links_ok (w_links w)" using assms by (simp add: tables_inv_def links_inv_def)
  have by_rows: "tables_inv (snd p)" if "\<exists>ls. snd p = w\<lparr>w_links := ls\<rparr>" and "links_ok (w_links (snd p))"
    for p :: "(error + 'b) \<times> 'a world" using that tables_inv_links [OF assms] by auto
  show "tables_inv (snd (pg_insert_link l w))"
    by (rule by_rows [OF link_statements_frame(1) pg_insert_link_ok [OF ok]])
  show "tables_inv (snd (pg_update_links (\<lambda>r. l_id r = i \<and> live_link r) (set_link_fields l) w))"
    by (rule by_rows [OF link_statements_frame(2) pg_update_links_ok [OF ok]]) (simp_all add: set_link_fields_keeps)
  show "tables_inv (snd (pg_update_links (\<lambda>r. l_id r = i \<and> live_link r) (delete_link_row t) w))"
    by (rule by_rows [OF link_statements_frame(2) pg_update_links_ok [OF ok]]) (simp_all add: delete_link_row_keeps)
qed

lemma account_writes_inv:
  assumes "tables_inv w"
  shows "tables_inv (snd (pg_insert_key k w))" "tables_inv (snd (pg_insert_user u w))"
    "tables_inv (snd (pg_update_keys (\<lambda>r. k_id r = i \<and> live_key r) (revoke_row t) w))"
    "tables_inv (snd (pg_update_keys (\<lambda>r. k_id r = i) (use_row t) w))"
proof -
  have inv: "accounts_inv w" using assms by (simp add: tables_inv_def)
  have by_rows: "tables_inv (snd p)"
    if "\<exists>us ks. snd p = w\<lparr>w_users := us, w_api_keys := ks\<rparr>" and "accounts_inv (snd p)"
    for p :: "(error + 'b) \<times> 'a world" using that tables_inv_accounts [OF assms] by auto
  show "tables_inv (snd (pg_insert_key k w))"
    by (rule by_rows [OF account_statements_frame(1) insert_key_inv [OF inv]])
  show "tables_inv (snd (pg_insert_user u w))"
    by (rule by_rows [OF account_statements_frame(2) insert_user_inv [OF inv]])
  show "tables_inv (snd (pg_update_keys (\<lambda>r. k_id r = i \<and> live_key r) (revoke_row t) w))"
    by (rule by_rows [OF account_statements_frame(3) update_keys_inv [OF inv]]) simp_all
  show "tables_inv (snd (pg_update_keys (\<lambda>r. k_id r = i) (use_row t) w))"
    by (rule by_rows [OF account_statements_frame(3) update_keys_inv [OF inv]]) simp_all
qed

lemma endpoint_writes_inv:
  assumes "tables_inv w" and "\<And>r. e_id (f r) = e_id r"
  shows "tables_inv (snd (pg_insert_endpoint e w))" "tables_inv (snd (pg_update_endpoints p f w))"
proof -
  show "tables_inv (snd (pg_insert_endpoint e w))"
    using assms(1)
    by (auto simp: tables_inv_def links_inv_def accounts_inv_def endpoint_ids_ok_def pg_insert_endpoint_def
        list_ex_key)
  have "map e_id (snd (update_where p f (w_endpoints w))) = map e_id (w_endpoints w)"
    by (rule map_update_where) (rule assms(2))
  then show "tables_inv (snd (pg_update_endpoints p f w))"
    using assms(1)
    by (simp add: tables_inv_def links_inv_def accounts_inv_def endpoint_ids_ok_def pg_update_endpoints_def
        flip: set_map)
qed

lemma delivery_writes_inv:
  assumes "tables_inv w"
    and "\<And>r. (d_id (f r), d_event_id (f r), d_endpoint_id (f r)) = (d_id r, d_event_id r, d_endpoint_id r)"
  shows "tables_inv (snd (pg_insert_delivery d w))" "tables_inv (snd (pg_update_deliveries p f w))"
proof -
  show "tables_inv (snd (pg_insert_delivery d w))"
    using assms(1)
    by (auto simp: tables_inv_def links_inv_def accounts_inv_def endpoint_ids_ok_def pg_insert_delivery_def
        deliveries_ok_def list_ex_iff) (metis image_eqI)
  have "map d_id (snd (update_where p f ds)) = map d_id ds"
    "map (\<lambda>r. (d_event_id r, d_endpoint_id r)) (snd (update_where p f ds)) = map (\<lambda>r. (d_event_id r, d_endpoint_id r)) ds"
    "map d_endpoint_id (snd (update_where p f ds)) = map d_endpoint_id ds" for ds
    by (rule map_update_where; use assms(2) in simp)+
  then show "tables_inv (snd (pg_update_deliveries p f w))"
    using assms(1)
    by (simp add: tables_inv_def links_inv_def accounts_inv_def endpoint_ids_ok_def pg_update_deliveries_def
        deliveries_ok_def flip: set_map)
qed

lemma click_writes_inv:
  assumes "tables_inv w"
  shows "tables_inv (snd (pg_send_batch es w))" "tables_inv (snd (pg_upsert_stats acc w))"
proof -
  show "tables_inv (snd (pg_send_batch es w))"
    using assms insert_clicks_Inr(2)
    by (auto simp: tables_inv_def links_inv_def accounts_inv_def endpoint_ids_ok_def pg_send_batch_def
        split: sum.split)
  show "tables_inv (snd (pg_upsert_stats acc w))"
    using assms
    by (auto simp: tables_inv_def links_inv_def accounts_inv_def endpoint_ids_ok_def pg_upsert_stats_def
        stats_ok_def map_update_where list_ex_iff image_iff Let_def)
qed

interpretation constraints: evolution "\<lambda>v w. tables_inv v \<longrightarrow> tables_inv w"
proof unfold_locales
  show "tables_inv v \<longrightarrow> tables_inv w" if "tables_of v = tables_of w" for v w :: "'a world"
    using that tables_inv_quiet by blast
qed (auto intro!: link_writes_inv account_writes_inv endpoint_writes_inv delivery_writes_inv click_writes_inv
    simp: set_endpoint_fields_def delete_endpoint_row_def succeed_row_def fail_row_def reset_row_def)

declare constraints.E_refl [simp del]

section \<open>What is never lost\<close>

text \<open>The rows of a table stay, in order, each related to what it becomes; new rows come behind them.\<close>

definition rows_grow :: "('a \<Rightarrow> 'a \<Rightarrow> bool) \<Rightarrow> 'a list \<Rightarrow> 'a list \<Rightarrow> bool" where
  "rows_grow R rs rs' \<longleftrightarrow> list_all2 R rs (take (length rs) rs')"

lemma rows_grow_nth:
  "rows_grow R rs rs' \<longleftrightarrow> length rs \<le> length rs' \<and> (\<forall>i < length rs. R (rs ! i) (rs' ! i))"
  by (auto simp: rows_grow_def list_all2_conv_all_nth)

lemma rows_grow_refl: "(\<And>r. R r r) \<Longrightarrow> rows_grow R rs rs"
  by (simp add: rows_grow_nth)

lemma rows_grow_trans:
  "(\<And>a b c. R a b \<Longrightarrow> R b c \<Longrightarrow> R a c) \<Longrightarrow> rows_grow R xs ys \<Longrightarrow> rows_grow R ys zs \<Longrightarrow> rows_grow R xs zs"
  unfolding rows_grow_nth by (metis le_trans less_le_trans)

lemma rows_grow_append: "(\<And>r. R r r) \<Longrightarrow> rows_grow R rs (rs @ new)"
  by (simp add: rows_grow_nth nth_append)

lemma rows_grow_update:
  "(\<And>r. R r r) \<Longrightarrow> (\<And>r. p r \<Longrightarrow> R r (f r)) \<Longrightarrow> rows_grow R rs (snd (update_where p f rs))"
  by (simp add: rows_grow_nth update_where_def)

lemma rows_grow_obtain:
  assumes "rows_grow R rs rs'" and "r \<in> set rs"
  obtains r' where "r' \<in> set rs'" and "R r r'"
proof -
  obtain i where i: "i < length rs" "rs ! i = r" using assms(2) by (auto simp: in_set_conv_nth)
  with assms(1) have "R r (rs' ! i)" "i < length rs'" by (auto simp: rows_grow_nth)
  then show thesis using that nth_mem by blast
qed

definition link_after :: "link \<Rightarrow> link \<Rightarrow> bool" where
  "link_after a b \<longleftrightarrow> l_id b = l_id a \<and> l_short_code b = l_short_code a \<and> l_owner_id b = l_owner_id a
     \<and> l_click_count b = l_click_count a \<and> l_created_at b = l_created_at a
     \<and> (l_deleted_at a \<noteq> None \<longrightarrow> b = a)"

definition key_after :: "api_key \<Rightarrow> api_key \<Rightarrow> bool" where
  "key_after a b \<longleftrightarrow> b = a\<lparr>k_revoked_at := k_revoked_at b, k_last_used_at := k_last_used_at b\<rparr>
     \<and> (k_revoked_at a \<noteq> None \<longrightarrow> k_revoked_at b = k_revoked_at a)"

definition endpoint_after :: "endpoint \<Rightarrow> endpoint \<Rightarrow> bool" where
  "endpoint_after a b \<longleftrightarrow> e_id b = e_id a \<and> e_user_id b = e_user_id a \<and> e_created_at b = e_created_at a
     \<and> (e_deleted_at a \<noteq> None \<longrightarrow> b = a)"

definition delivery_after :: "delivery \<Rightarrow> delivery \<Rightarrow> bool" where
  "delivery_after a b \<longleftrightarrow> d_id b = d_id a \<and> d_endpoint_id b = d_endpoint_id a \<and> d_event_id b = d_event_id a
     \<and> d_payload_json b = d_payload_json a \<and> d_attempt_count a \<le> d_attempt_count b"

definition stats_after :: "daily_stats \<Rightarrow> daily_stats \<Rightarrow> bool" where
  "stats_after a b \<longleftrightarrow> ds_id b = ds_id a \<and> ds_link_id b = ds_link_id a \<and> ds_date b = ds_date a"

lemmas after_defs = link_after_def key_after_def endpoint_after_def delivery_after_def stats_after_def

definition history_kept :: "'r world \<Rightarrow> 'r world \<Rightarrow> bool" where
  "history_kept v w \<longleftrightarrow> clock v \<le> clock w
     \<and> rows_grow link_after (w_links v) (w_links w) \<and> rows_grow (=) (w_users v) (w_users w)
     \<and> rows_grow key_after (w_api_keys v) (w_api_keys w) \<and> rows_grow (=) (w_click_events v) (w_click_events w)
     \<and> rows_grow stats_after (w_daily_stats v) (w_daily_stats w)
     \<and> rows_grow endpoint_after (w_endpoints v) (w_endpoints w)
     \<and> rows_grow delivery_after (w_deliveries v) (w_deliveries w)"

lemma after_refl: "link_after l l" "key_after k k" "endpoint_after e e" "delivery_after d d" "stats_after r r"
  by (simp_all add: after_defs)

lemma after_trans:
  "link_after l l' \<Longrightarrow> link_after l' l'' \<Longrightarrow> link_after l l''"
  "key_after k k' \<Longrightarrow> key_after k' k'' \<Longrightarrow> key_after k k''"
  "endpoint_after e e' \<Longrightarrow> endpoint_after e' e'' \<Longrightarrow> endpoint_after e e''"
  "delivery_after d d' \<Longrightarrow> delivery_after d' d'' \<Longrightarrow> delivery_after d d''"
  "stats_after r r' \<Longrightarrow> stats_after r' r'' \<Longrightarrow> stats_after r r''"
      apply (auto simp: link_after_def) [1]
     apply (cases k; cases k'; cases k''; auto simp: key_after_def) [1]
    apply (auto simp: endpoint_after_def delivery_after_def stats_after_def)
  done

lemmas grown = rows_grow_refl rows_grow_append rows_grow_update after_refl

lemma history_refl: "history_kept w w"
  by (auto simp: history_kept_def intro: grown)

lemma history_trans: "history_kept u v \<Longrightarrow> history_kept v w \<Longrightarrow> history_kept u w"
  unfolding history_kept_def by (auto intro: rows_grow_trans after_trans)

lemma insert_clicks_grow: "insert_clicks now i es rows = Inr rows' \<Longrightarrow> rows_grow (=) rows rows'"
  by (drule insert_clicks_Inr(1)) (auto intro: rows_grow_append)

lemma history_links: "rows_grow link_after (w_links w) ls \<Longrightarrow> history_kept w (w\<lparr>w_links := ls\<rparr>)"
  by (simp add: history_kept_def grown)

lemma history_writes:
  "history_kept w (snd (pg_insert_link l w))"
  "(\<And>r u. p r \<Longrightarrow> link_after r (touch_link u (f r))) \<Longrightarrow> history_kept w (snd (pg_update_links p f w))"
  "history_kept w (snd (pg_insert_key k w))"
  "(\<And>r. q r \<Longrightarrow> key_after r (g r)) \<Longrightarrow> history_kept w (snd (pg_update_keys q g w))"
  "history_kept w (snd (pg_insert_user u w))"
  "history_kept w (snd (pg_insert_endpoint e w))"
  "(\<And>r. p' r \<Longrightarrow> endpoint_after r (f' r)) \<Longrightarrow> history_kept w (snd (pg_update_endpoints p' f' w))"
  "history_kept w (snd (pg_insert_delivery d w))"
  "(\<And>r. q' r \<Longrightarrow> delivery_after r (g' r)) \<Longrightarrow> history_kept w (snd (pg_update_deliveries q' g' w))"
  "history_kept w (snd (pg_send_batch es w))"
  "history_kept w (snd (pg_upsert_stats acc w))"
  by (auto simp: history_kept_def grown pg_insert_link_def pg_update_links_def pg_insert_key_def
      pg_update_keys_def pg_insert_user_def pg_insert_endpoint_def pg_update_endpoints_def
      pg_insert_delivery_def pg_update_deliveries_def pg_send_batch_def pg_upsert_stats_def Let_def
      insert_clicks_grow stats_after_def split: option.split sum.split intro!: rows_grow_update)

interpretation history: evolution history_kept
proof unfold_locales
  show "history_kept w w" for w :: "'a world" by (rule history_refl)
  show "history_kept u w" if "history_kept u v" and "history_kept v w" for u v w :: "'a world"
    using that by (rule history_trans)
  show "history_kept v w" if "tables_of v = tables_of w" and "clock v \<le> clock w" for v w :: "'a world"
    using that by (simp add: history_kept_def tables_of_def grown)
qed (rule history_writes; auto simp: after_defs touch_link_def set_link_fields_def delete_link_row_def live_link_def
    revoke_row_def use_row_def live_key_def set_endpoint_fields_def delete_endpoint_row_def live_endpoint_def
    succeed_row_def fail_row_def reset_row_def)+

section \<open>The properties of the system\<close>


definition sample_state :: "ref_store state" where
  "sample_state = \<lparr>st_world = sample_world, st_clicks = Analytics_NewWorker ''c'', st_webhooks = NewWorker\<rparr>"

lemma sample_tables_inv: "tables_inv sample_world"
  using sample_world_inv
  by (simp add: tables_inv_def sample_world_def empty_world_def accounts_inv_def users_ok_def keys_ok_def
      endpoint_ids_ok_def deliveries_ok_def clicks_ok_def stats_ok_def)

lemma sample_run:
  "runs_to Y sample_state (sample_state\<lparr>st_world :=
     snd (api_server (sy_router Y) (sy_app Y) visit_request new_writer sample_world)\<rparr>)"
  using system_step.request [of Y sample_state visit_request] by (auto simp: sample_state_def)




interpretation unwritten: quiet "\<lambda>v w. tables_of w = tables_of v \<and> clock v \<le> clock w"
  by unfold_locales auto

declare unwritten.E_refl [simp del]

lemma public_endpoints:
  "endpoint_scope e = None
   \<Longrightarrow> e \<in> {Ep_Healthz, Ep_Readyz, Ep_Metrics, Ep_Hello, Ep_NotFound, Ep_MethodNotAllowed, Ep_Redirect}"
  by (cases e) simp_all

lemma public_handlers_write_nothing:
  fixes v w :: "'r world"
  assumes "endpoint_scope e = None" and "tables_of v = tables_of w \<and> clock w \<le> clock v"
  shows "tables_of (snd (app_handler A e q x v)) = tables_of w \<and> clock w \<le> clock (snd (app_handler A e q x v))"
  using public_endpoints [OF assms(1)]
  by (elim insertE; simp only: app_handler.simps empty_iff unwritten.E_public_handlers [OF assms(2)])

text \<open>C26: A request without the credential of a key changes no table. Whatever its method, path, body and
  headers are, if what it offers as a key is missing or not of the format of a key, then links, users,
  keys, clicks, statistics, webhooks and deliveries are after it what they were before, on every route,
  for every mux and every outcome of every call. Only the cache, the metrics and the clock may move.\<close>
theorem anonymous_changes_nothing:
  assumes "\<not> ValidateKeyFormat (extractAPIKey q)"
    and "\<And>q. \<exists>addr. rt_real_ip E q = q\<lparr>rq_remote_addr := addr\<rparr>"
  shows "tables_of (snd (api_server E A q x w)) = tables_of w"
proof -
  have "rq_header (rt_real_ip E q) = rq_header q" for q
    using assms(2) [of q] by auto
  from unwritten.E_anonymous [OF unwritten.E_refl assms(1) this, where hs = "app_handler A"]
    public_handlers_write_nothing [of _ _ w A]
  show ?thesis unfolding api_server_def by blast
qed

theorem anonymous_changes_nothing_witness:
  "\<forall>A. w_links (snd (api_server sample_router A (plain_request ''DELETE'' ''/api/v1/links/a1'') new_writer sample_world))
     = w_links sample_world"
proof
  fix A :: "ref_store app_params"
  let ?q = "plain_request ''DELETE'' ''/api/v1/links/a1''"
  have "extractAPIKey ?q = []"
    by (simp add: extractAPIKey_def plain_request_def request_header_def header_get_def no_header_def)
  moreover have "\<not> ValidateKeyFormat []" by code_simp
  ultimately have "\<not> ValidateKeyFormat (extractAPIKey ?q)" by simp
  moreover have "\<exists>addr. rt_real_ip sample_router q = q\<lparr>rq_remote_addr := addr\<rparr>" for q
    by (intro exI [of _ "rq_remote_addr q"]) (simp add: sample_router_def)
  ultimately have "tables_of (snd (api_server sample_router A ?q new_writer sample_world)) = tables_of sample_world"
    by (rule anonymous_changes_nothing)
  then show "w_links (snd (api_server sample_router A ?q new_writer sample_world)) = w_links sample_world"
    by (simp only: tables_of_def prod.inject)
qed

end
