(* ===== verification/Config_Load.thy ===== *)
theory Config_Load imports Server begin

text \<open>
  \<open>Load\<close> of \<open>internal/config/config.go\<close>. The struct tags of \<open>Config\<close> are a list of fields, each with its
  variable, the kind of its value, its default and whether it is required. The env package, which reads
  them, is a parameter; the locale \<open>env_package\<close> states what its documentation promises: a required
  variable is set, a value that was set is read, and an unset variable has its default. An empty value
  of a variable is left open.

  Shown: a configuration is loaded only from an environment that has a database and a cache, its fields
  are what the variables say, and in an environment with nothing else they are the documented defaults.
\<close>

section \<open>The fields\<close>

datatype env_kind = Env_String | Env_Int | Env_Int64 | Env_Bool | Env_Duration

datatype env_value = V_Str string | V_Int int | V_Bool bool

record env_field =
  ef_name :: string
  ef_kind :: env_kind
  ef_default :: "string option"
  ef_required :: bool

definition with_default :: "string \<Rightarrow> env_kind \<Rightarrow> string \<Rightarrow> env_field" where
  "with_default n k d = \<lparr>ef_name = n, ef_kind = k, ef_default = Some d, ef_required = False\<rparr>"

definition required :: "string \<Rightarrow> env_field" where
  "required n = \<lparr>ef_name = n, ef_kind = Env_String, ef_default = None, ef_required = True\<rparr>"

definition config_fields :: "env_field list" where
  "config_fields =
    [with_default ''APP_ENV'' Env_String ''development'',
     with_default ''APP_PORT'' Env_Int ''8080'',
     required ''DATABASE_URL'',
     required ''REDIS_URL'',
     with_default ''BASE_URL'' Env_String ''http://localhost:8080'',
     with_default ''LOG_LEVEL'' Env_String ''info'',
     with_default ''LOG_FORMAT'' Env_String ''json'',
     with_default ''READ_TIMEOUT'' Env_Duration ''5s'',
     with_default ''WRITE_TIMEOUT'' Env_Duration ''10s'',
     with_default ''SHUTDOWN_TIMEOUT'' Env_Duration ''30s'',
     with_default ''RATE_LIMIT_API_ENABLED'' Env_Bool ''true'',
     with_default ''RATE_LIMIT_REDIRECT_ENABLED'' Env_Bool ''true'',
     with_default ''RATE_LIMIT_REDIRECT_RPS'' Env_Int ''100'',
     with_default ''RATE_LIMIT_REDIRECT_BURST'' Env_Int ''20'',
     with_default ''CORS_ALLOWED_ORIGINS'' Env_String [],
     with_default ''MAX_REQUEST_BODY_SIZE'' Env_Int64 ''1048576'',
     with_default ''WEBHOOK_ALLOW_INSECURE'' Env_Bool ''false'']"

section \<open>Loading\<close>

type_synonym environment = "string \<Rightarrow> string option"
type_synonym env_parser = "env_field list \<Rightarrow> environment \<Rightarrow> error + (string \<Rightarrow> env_value)"

text \<open>The fields of the struct before a value is stored are the zero values of their types.\<close>

fun env_str :: "env_value \<Rightarrow> string" where
  "env_str (V_Str s) = s"
| "env_str v = []"

fun env_int :: "env_value \<Rightarrow> int" where
  "env_int (V_Int i) = i"
| "env_int v = 0"

fun env_bool :: "env_value \<Rightarrow> bool" where
  "env_bool (V_Bool b) = b"
| "env_bool v = False"

definition config_of :: "(string \<Rightarrow> env_value) \<Rightarrow> app_config" where
  "config_of v = \<lparr>
     cf_app_env = env_str (v ''APP_ENV''),
     cf_app_port = env_int (v ''APP_PORT''),
     cf_database_url = env_str (v ''DATABASE_URL''),
     cf_redis_url = env_str (v ''REDIS_URL''),
     cf_base_url = env_str (v ''BASE_URL''),
     cf_log_level = env_str (v ''LOG_LEVEL''),
     cf_log_format = env_str (v ''LOG_FORMAT''),
     cf_read_timeout = env_int (v ''READ_TIMEOUT''),
     cf_write_timeout = env_int (v ''WRITE_TIMEOUT''),
     cf_shutdown_timeout = env_int (v ''SHUTDOWN_TIMEOUT''),
     cf_rate_limit_api_enabled = env_bool (v ''RATE_LIMIT_API_ENABLED''),
     cf_rate_limit_redirect_enabled = env_bool (v ''RATE_LIMIT_REDIRECT_ENABLED''),
     cf_rate_limit_redirect_rps = env_int (v ''RATE_LIMIT_REDIRECT_RPS''),
     cf_rate_limit_redirect_burst = env_int (v ''RATE_LIMIT_REDIRECT_BURST''),
     cf_cors_allowed_origins = env_str (v ''CORS_ALLOWED_ORIGINS''),
     cf_max_request_body_size = env_int (v ''MAX_REQUEST_BODY_SIZE''),
     cf_webhook_allow_insecure = env_bool (v ''WEBHOOK_ALLOW_INSECURE'')\<rparr>"

definition Config_Load :: "env_parser \<Rightarrow> environment \<Rightarrow> error + app_config" where
  "Config_Load P env = (case P config_fields env of
     Inl err \<Rightarrow> Inl (Wrap ''failed to parse config'' err)
   | Inr v \<Rightarrow> Inr (config_of v))"

section \<open>What the env package promises\<close>

text \<open>The text that a field is read from; an empty value of a variable is left open.\<close>

definition field_text :: "environment \<Rightarrow> env_field \<Rightarrow> string option" where
  "field_text env f = (case env (ef_name f) of
     None \<Rightarrow> ef_default f
   | Some s \<Rightarrow> if s = [] then None else Some s)"

text \<open>\<open>strconv.ParseBool\<close>, and \<open>strconv.ParseInt\<close> for a number of the given bits.\<close>

definition ParseBool :: "string \<Rightarrow> bool option" where
  "ParseBool s = (if s \<in> {''1'', ''t'', ''T'', ''true'', ''TRUE'', ''True''} then Some True
     else if s \<in> {''0'', ''f'', ''F'', ''false'', ''FALSE'', ''False''} then Some False
     else None)"

definition ParseInt :: "nat \<Rightarrow> string \<Rightarrow> int option" where
  "ParseInt bits s = (case parse_int64 s of None \<Rightarrow> None
     | Some i \<Rightarrow> if - (2 ^ (bits - 1)) \<le> i \<and> i < 2 ^ (bits - 1) then Some i else None)"

locale env_package =
  fixes P :: env_parser
    and rd :: "env_kind \<Rightarrow> string \<Rightarrow> env_value option"
  assumes required_set: "P fs env = Inr v \<Longrightarrow> f \<in> set fs \<Longrightarrow> ef_required f \<Longrightarrow> env (ef_name f) \<noteq> None"
    and value_read: "P fs env = Inr v \<Longrightarrow> distinct (map ef_name fs) \<Longrightarrow> f \<in> set fs
      \<Longrightarrow> field_text env f = Some s \<Longrightarrow> rd (ef_kind f) s = Some (v (ef_name f))"
    and reads_all: "(\<And>f. f \<in> set fs \<Longrightarrow> (\<exists>s. field_text env f = Some s \<and> rd (ef_kind f) s \<noteq> None)
        \<and> (ef_required f \<longrightarrow> env (ef_name f) \<noteq> None)) \<Longrightarrow> \<exists>v. P fs env = Inr v"
    and string_read: "rd Env_String s = Some (V_Str s)"
    and bool_read: "rd Env_Bool s = map_option V_Bool (ParseBool s)"
    and int_read: "rd Env_Int s = map_option V_Int (ParseInt 32 s)"
    and int64_read: "rd Env_Int64 s = map_option V_Int (ParseInt 64 s)"
    and seconds_read: "n < 10 ^ 9 \<Longrightarrow> rd Env_Duration (format_nat n @ ''s'') = Some (V_Int (int n * second))"
begin

lemma Load_requires:
  assumes "Config_Load P env = Inr c"
  shows "env ''DATABASE_URL'' \<noteq> None" and "env ''REDIS_URL'' \<noteq> None"
proof -
  obtain v where v: "P config_fields env = Inr v" using assms by (auto simp: Config_Load_def split: sum.splits)
  have "required ''DATABASE_URL'' \<in> set config_fields" "required ''REDIS_URL'' \<in> set config_fields"
    by (simp_all add: config_fields_def)
  from required_set [OF v this(1)] required_set [OF v this(2)]
  show "env ''DATABASE_URL'' \<noteq> None" and "env ''REDIS_URL'' \<noteq> None"
    by (simp_all add: required_def)
qed

lemma fields_distinct: "distinct (map ef_name config_fields)"
  by (simp add: config_fields_def with_default_def required_def)

text \<open>Every field of the configuration is what its text reads as.\<close>

lemma Load_reads:
  assumes "Config_Load P env = Inr c"
  obtains v where "c = config_of v"
    and "\<And>f s. f \<in> set config_fields \<Longrightarrow> field_text env f = Some s \<Longrightarrow> rd (ef_kind f) s = Some (v (ef_name f))"
  using assms value_read [OF _ fields_distinct] by (auto simp: Config_Load_def split: sum.splits)

end

text \<open>What the documentation of the variables gives as defaults.\<close>

definition default_config :: "string \<Rightarrow> string \<Rightarrow> app_config" where
  "default_config db redis = \<lparr>cf_app_env = ''development'', cf_app_port = 8080, cf_database_url = db,
     cf_redis_url = redis, cf_base_url = ''http://localhost:8080'', cf_log_level = ''info'',
     cf_log_format = ''json'', cf_read_timeout = 5 * second, cf_write_timeout = 10 * second,
     cf_shutdown_timeout = 30 * second, cf_rate_limit_api_enabled = True,
     cf_rate_limit_redirect_enabled = True, cf_rate_limit_redirect_rps = 100,
     cf_rate_limit_redirect_burst = 20, cf_cors_allowed_origins = [],
     cf_max_request_body_size = 2 ^ 20, cf_webhook_allow_insecure = False\<rparr>"

lemma digit_char_of: "of_char c = (48 + d :: nat) \<Longrightarrow> digit_char d = c"
  by (metis char_of_char digit_char_def)

lemma digit_chars: "digit_char 0 = CHR ''0''" "digit_char (Suc 0) = CHR ''1''" "digit_char 3 = CHR ''3''"
  "digit_char 5 = CHR ''5''"
  by (auto intro!: digit_char_of)

lemmas read_number = ParseInt_def parse_int64_def parse_nat_def is_digit_def digit_val_def less_eq_char_def
  int64_ok_def

lemma default_numbers:
  "ParseInt 32 ''8080'' = Some 8080" "ParseInt 32 ''100'' = Some 100" "ParseInt 32 ''20'' = Some 20"
  "ParseInt 64 ''1048576'' = Some 1048576" "ParseBool ''true'' = Some True" "ParseBool ''false'' = Some False"
  "format_nat 5 @ ''s'' = ''5s''" "format_nat 10 @ ''s'' = ''10s''" "format_nat 30 @ ''s'' = ''30s''"
  by (simp_all add: read_number ParseBool_def format_nat.simps digit_chars)

definition minimal_environment :: "string \<Rightarrow> string \<Rightarrow> environment" where
  "minimal_environment db redis = [''DATABASE_URL'' \<mapsto> db, ''REDIS_URL'' \<mapsto> redis]"

context env_package begin

lemma default_read:
  "rd Env_Int ''8080'' = Some (V_Int 8080)" "rd Env_Int ''100'' = Some (V_Int 100)"
  "rd Env_Int ''20'' = Some (V_Int 20)" "rd Env_Int64 ''1048576'' = Some (V_Int 1048576)"
  "rd Env_Bool ''true'' = Some (V_Bool True)" "rd Env_Bool ''false'' = Some (V_Bool False)"
  "rd Env_Duration ''5s'' = Some (V_Int (5 * second))" "rd Env_Duration ''10s'' = Some (V_Int (10 * second))"
  "rd Env_Duration ''30s'' = Some (V_Int (30 * second))"
  using seconds_read [of 5] seconds_read [of 10] seconds_read [of 30]
  by (simp_all add: default_numbers int_read int64_read bool_read)

lemmas field_simps = config_fields_def with_default_def required_def field_text_def minimal_environment_def
  string_read default_read

lemma Load_minimal:
  assumes "db \<noteq> []" and "redis \<noteq> []"
  shows "Config_Load P (minimal_environment db redis) = Inr (default_config db redis)"
proof -
  let ?env = "minimal_environment db redis"
  have "(\<exists>s. field_text ?env f = Some s \<and> rd (ef_kind f) s \<noteq> None)
      \<and> (ef_required f \<longrightarrow> ?env (ef_name f) \<noteq> None)" if "f \<in> set config_fields" for f
    using that assms by (auto simp: field_simps)
  then obtain v where v: "P config_fields ?env = Inr v" using reads_all by blast
  have "\<forall>f \<in> set config_fields. \<forall>s y. field_text ?env f = Some s \<longrightarrow> rd (ef_kind f) s = Some y
      \<longrightarrow> v (ef_name f) = y"
    using value_read [OF v fields_distinct] by force
  then have "config_of v = default_config db redis"
    using assms by (simp add: field_simps config_of_def default_config_def)
  then show ?thesis using v by (simp add: Config_Load_def)
qed

end

section \<open>A package that keeps the promises\<close>

fun ref_read :: "env_kind \<Rightarrow> string \<Rightarrow> env_value option" where
  "ref_read Env_String s = Some (V_Str s)"
| "ref_read Env_Int s = map_option V_Int (ParseInt 32 s)"
| "ref_read Env_Int64 s = map_option V_Int (ParseInt 64 s)"
| "ref_read Env_Bool s = map_option V_Bool (ParseBool s)"
| "ref_read Env_Duration s = (if s \<noteq> [] \<and> last s = CHR ''s''
     then map_option (\<lambda>n. V_Int (int n * second)) (parse_nat (butlast s)) else None)"

definition ref_field :: "environment \<Rightarrow> env_field \<Rightarrow> env_value option" where
  "ref_field env f = (case field_text env f of None \<Rightarrow> None | Some s \<Rightarrow> ref_read (ef_kind f) s)"

definition ref_env :: env_parser where
  "ref_env fs env = (if \<forall>f \<in> set fs. ref_field env f \<noteq> None \<and> (ef_required f \<longrightarrow> env (ef_name f) \<noteq> None)
     then Inr (\<lambda>n. case find (\<lambda>f. ef_name f = n) fs of
         None \<Rightarrow> V_Str [] | Some f \<Rightarrow> the (ref_field env f))
     else Inl (Text ''env: required environment variable is not set''))"

lemma find_named:
  "distinct (map ef_name fs) \<Longrightarrow> f \<in> set fs \<Longrightarrow> find (\<lambda>g. ef_name g = ef_name f) fs = Some f"
  by (induction fs) (auto simp: rev_image_eqI)

interpretation ref_env: env_package ref_env ref_read
proof
  fix fs env v f
  assume "ref_env fs env = Inr v" and "f \<in> set fs" and "ef_required f"
  then show "env (ef_name f) \<noteq> None" by (auto simp: ref_env_def split: if_splits)
next
  fix fs env v f s
  assume "ref_env fs env = Inr v" and "distinct (map ef_name fs)" and "f \<in> set fs" and "field_text env f = Some s"
  then show "ref_read (ef_kind f) s = Some (v (ef_name f))"
    by (auto simp: ref_env_def find_named ref_field_def split: if_splits)
next
  fix fs env
  assume all: "\<And>f. f \<in> set fs \<Longrightarrow> (\<exists>s. field_text env f = Some s \<and> ref_read (ef_kind f) s \<noteq> None)
      \<and> (ef_required f \<longrightarrow> env (ef_name f) \<noteq> None)"
  have "\<forall>f \<in> set fs. ref_field env f \<noteq> None \<and> (ef_required f \<longrightarrow> env (ef_name f) \<noteq> None)"
  proof
    fix f
    assume "f \<in> set fs"
    from all [OF this] show "ref_field env f \<noteq> None \<and> (ef_required f \<longrightarrow> env (ef_name f) \<noteq> None)"
      by (auto simp: ref_field_def)
  qed
  then show "\<exists>v. ref_env fs env = Inr v" by (simp add: ref_env_def)
qed simp_all

end
