(* ===== verification/Startup.thy ===== *)
theory Startup imports Whole_System Config_Load begin

text \<open>
  \<open>main\<close> of \<open>cmd/api/main.go\<close> with \<open>repository.New\<close> and \<open>cache.New\<close>: loading the configuration, opening
  the connections, building the server and its components, running, and ending. The drivers and what
  the operating system tells are parameters; so is what each component does when it is stopped. Between
  the start and the end the process runs as the system of \<open>Whole_System\<close>. \<open>os.Exit\<close> skips the deferred
  calls, so a failed start and a failed run close no connection.

  Shown: the process listens only after the configuration was read and all three connections were opened
  and answered; a clean end stops the server before the workers and closes the connections last; and
  over the whole life of a process no row is lost and the constraints of the tables hold.
\<close>

section \<open>The process\<close>

datatype connection = Database | Webhook_Database | Redis_Client

datatype event = Opened connection | Answered connection | Closed connection | Started string | Listening
  | Http_Stopped | Stopped string

record 'r process =
  pr_world :: "'r world"
  pr_clicks :: click_worker
  pr_webhooks :: worker
  pr_trace :: "event list"
  pr_log :: "(string \<times> (string \<times> string) list) list"

definition emit :: "event \<Rightarrow> 'r process \<Rightarrow> 'r process" where
  "emit ev p = p\<lparr>pr_trace := pr_trace p @ [ev]\<rparr>"

definition log_error :: "string \<Rightarrow> (string \<times> string) list \<Rightarrow> 'r process \<Rightarrow> 'r process" where
  "log_error msg attrs p = p\<lparr>pr_log := pr_log p @ [(msg, attrs)]\<rparr>"

text \<open>The drivers: the answers of parsing a URL, of making a pool of at most and at least so many
  connections, and of \<open>sql.Open\<close>. \<open>redis.NewClient\<close> does not fail, whatever its pool
  settings are.\<close>

record ('u, 'r) libs =
  lb_env :: env_parser
  lb_parse_db :: "string \<Rightarrow> error option"
  lb_new_pool :: "string \<Rightarrow> int \<Rightarrow> int \<Rightarrow> error option"
  lb_sql_open :: "string \<Rightarrow> error option"
  lb_parse_redis :: "string \<Rightarrow> error option"
  lb_url :: "'u url_ops"
  lb_hostname :: "string option"
  lb_pid :: int
  lb_system :: "'r system"

section \<open>Connections\<close>

definition ping_in :: "'r health_checker \<Rightarrow> 'r process \<Rightarrow> (error + unit) \<times> 'r process" where
  "ping_in ping p = (case ping (pr_world p) of (r, w) \<Rightarrow> (r, p\<lparr>pr_world := w\<rparr>))"

definition Repository_New :: "('u, 'r) libs \<Rightarrow> string \<Rightarrow> 'r process \<Rightarrow> (error + unit) \<times> 'r process" where
  "Repository_New L databaseURL p = (case lb_parse_db L databaseURL of
       Some err \<Rightarrow> (Inl (Wrap ''failed to parse database URL'' err), p)
     | None \<Rightarrow> (case lb_new_pool L databaseURL 10 2 of
         Some err \<Rightarrow> (Inl (Wrap ''failed to create connection pool'' err), p)
       | None \<Rightarrow> (case ping_in Repository_Ping (emit (Opened Database) p) of
           (Inl err, p1) \<Rightarrow> (Inl (Wrap ''failed to ping database'' err), emit (Closed Database) p1)
         | (Inr _, p1) \<Rightarrow> (Inr (), emit (Answered Database) p1))))"

definition Repository_Close :: "'r process \<Rightarrow> 'r process" where
  "Repository_Close p = emit (Closed Database) p"

definition Cache_New :: "('u, 'r) libs \<Rightarrow> string \<Rightarrow> 'r process \<Rightarrow> (error + unit) \<times> 'r process" where
  "Cache_New L redisURL p = (case lb_parse_redis L redisURL of
       Some err \<Rightarrow> (Inl (Wrap ''failed to parse Redis URL'' err), p)
     | None \<Rightarrow> (case ping_in Cache_Ping (emit (Opened Redis_Client) p) of
         (Inl err, p1) \<Rightarrow> (Inl (Wrap ''failed to ping Redis'' err), p1)
       | (Inr _, p1) \<Rightarrow> (Inr (), emit (Answered Redis_Client) p1)))"

definition Cache_Close :: "'r process \<Rightarrow> 'r process" where
  "Cache_Close p = emit (Closed Redis_Client) p"

text \<open>The second pool, of \<open>database/sql\<close>; the message to log comes with the error.\<close>

definition open_webhook_db :: "('u, 'r) libs \<Rightarrow> string \<Rightarrow> 'r process \<Rightarrow> ((string \<times> error) + unit) \<times> 'r process" where
  "open_webhook_db L databaseURL p = (case lb_sql_open L databaseURL of
       Some err \<Rightarrow> (Inl (''failed to open webhook database'', err), p)
     | None \<Rightarrow> (case ping_in Repository_Ping (emit (Opened Webhook_Database) p) of
         (Inl err, p1) \<Rightarrow> (Inl (''failed to ping webhook database'', err), p1)
       | (Inr _, p1) \<Rightarrow> (Inr (), emit (Answered Webhook_Database) p1)))"

section \<open>Stopping\<close>

text \<open>What \<open>http.Server.Shutdown\<close> answers, and whether each worker ends before the deadline.\<close>

record stops =
  so_http :: "error option"
  so_webhooks_in_time :: bool
  so_clicks_in_time :: bool

definition stop_http :: "stops \<Rightarrow> 'r process shutdown_func" where
  "stop_http S p = (so_http S, emit Http_Stopped p)"

definition stop_clicks :: "stops \<Rightarrow> 'r process shutdown_func" where
  "stop_clicks S p = (case Analytics_Shutdown (so_clicks_in_time S) (pr_clicks p) of
       (Inl err, k) \<Rightarrow> (Some err, p\<lparr>pr_clicks := k\<rparr>)
     | (Inr _, k) \<Rightarrow> (None, emit (Stopped ''analytics-worker'') (p\<lparr>pr_clicks := k\<rparr>)))"

definition stop_webhooks :: "stops \<Rightarrow> 'r process shutdown_func" where
  "stop_webhooks S p = (if so_webhooks_in_time S then (None, emit (Stopped ''webhook-worker'') p)
     else (Some (Text ''context deadline exceeded''), p))"

section \<open>main\<close>

text \<open>The system with what the configuration says.\<close>

definition configured :: "'r system \<Rightarrow> app_config \<Rightarrow> 'r system" where
  "configured Y cfg = Y\<lparr>sy_router := (sy_router Y)\<lparr>rt_config := cfg\<rparr>,
     sy_app := (sy_app Y)\<lparr>ap_base_url := cf_base_url cfg, ap_allow_insecure := cf_webhook_allow_insecure cfg,
       ap_redirect := (ap_redirect (sy_app Y))\<lparr>re_publisher := True\<rparr>\<rparr>\<rparr>"

definition build_server :: "stops \<Rightarrow> 'r system \<Rightarrow> app_config \<Rightarrow> ('r handler, 'r process) server" where
  "build_server S Y cfg =
     (let srv = Server_New (stop_http S) (api_server (sy_router Y) (sy_app Y)) (cf_app_port cfg)
            (cf_read_timeout cfg) (cf_write_timeout cfg) (cf_shutdown_timeout cfg);
          srv = OnShutdown ''analytics-worker'' (stop_clicks S) srv
      in OnShutdown ''webhook-worker'' (stop_webhooks S) srv)"

text \<open>Up to \<open>srv.Run\<close>: the system and the server, or \<open>None\<close> for \<open>os.Exit(1)\<close>.\<close>

definition main_start :: "('u, 'r) libs \<Rightarrow> stops \<Rightarrow> environment \<Rightarrow> 'r process
    \<Rightarrow> ('r system \<times> ('r handler, 'r process) server) option \<times> 'r process" where
  "main_start L S env p = (case Config_Load (lb_env L) env of
     Inl err \<Rightarrow> (None, log_error ''failed to load config'' [(''error'', error_text err)] p)
   | Inr cfg \<Rightarrow> let db = cf_database_url cfg; redis = cf_redis_url cfg in
     (case Repository_New L db p of
        (Inl err, p1) \<Rightarrow> (None, log_error ''failed to connect to database''
           [(''error'', sanitizeError (lb_url L) (Some err) [db]), (''database_url'', redactURL (lb_url L) db)] p1)
      | (Inr _, p1) \<Rightarrow> (case open_webhook_db L db p1 of
          (Inl (msg, err), p2) \<Rightarrow> (None, log_error msg [(''error'', error_text err)] p2)
        | (Inr _, p2) \<Rightarrow> (case Cache_New L redis p2 of
            (Inl err, p3) \<Rightarrow> (None, log_error ''failed to connect to Redis''
               [(''error'', sanitizeError (lb_url L) (Some err) [redis]), (''redis_url'', redactURL (lb_url L) redis)] p3)
          | (Inr _, p3) \<Rightarrow> (case NewConsumerID (lb_hostname L) (lb_pid L) (pr_world p3) of (consumer, w) \<Rightarrow>
              let Y = configured (lb_system L) cfg in
              (Some (Y, build_server S Y cfg),
               emit (Started ''webhook-worker'') (emit (Started ''analytics-worker'')
                 (p3\<lparr>pr_world := w, pr_clicks := SetWebhookPublisher (Analytics_NewWorker consumer),
                    pr_webhooks := NewWorker\<rparr>))))))))"

definition main_end :: "server_event \<Rightarrow> ('r handler, 'r process) server \<Rightarrow> 'r process \<Rightarrow> int \<times> 'r process" where
  "main_end ev srv p = (case Server_Run ev srv p of
     (Some err, p1) \<Rightarrow> (1, log_error ''server error'' [(''error'', error_text err)] p1)
   | (None, p1) \<Rightarrow> (0, Repository_Close (emit (Closed Webhook_Database) (Cache_Close p1))))"

text \<open>A life of the process, with its exit code. The goroutine of the analytics worker may not have run yet
  (\<open>b\<close>) when the shutdown looks at it.\<close>

inductive main :: "('u, 'r) libs \<Rightarrow> stops \<Rightarrow> environment \<Rightarrow> 'r process \<Rightarrow> int \<Rightarrow> 'r process \<Rightarrow> bool"
  for L S env p where
  no_start: "main_start L S env p = (None, p') \<Longrightarrow> main L S env p 1 p'"
| run: "main_start L S env p = (Some (Y, srv), p1) \<Longrightarrow>
    runs_to Y \<lparr>st_world = pr_world p1, st_clicks = (pr_clicks p1)\<lparr>cw_started := b\<rparr>,
        st_webhooks = (pr_webhooks p1)\<lparr>wk_started := True\<rparr>\<rparr> s \<Longrightarrow>
    main_end ev srv (emit Listening (p1\<lparr>pr_world := st_world s, pr_clicks := st_clicks s,
        pr_webhooks := st_webhooks s\<rparr>)) = (code, p') \<Longrightarrow> main L S env p code p'"

section \<open>What a life of the process does\<close>

lemma process_simps [simp]:
  "pr_trace (emit ev p) = pr_trace p @ [ev]" "pr_trace (log_error m a p) = pr_trace p"
  "pr_world (emit ev p) = pr_world p" "pr_world (log_error m a p) = pr_world p"
  "pr_clicks (emit ev p) = pr_clicks p" "pr_webhooks (emit ev p) = pr_webhooks p"
  by (simp_all add: emit_def log_error_def)

text \<open>A ping leaves everything but the outcomes; each connection is opened by one call.\<close>

abbreviation unwritten_to :: "'r world \<Rightarrow> 'r world \<Rightarrow> bool" where
  "unwritten_to v w \<equiv> tables_of w = tables_of v \<and> clock v \<le> clock w"

lemma ping_in_keeps:
  assumes "ping_in c p = (r, p')" and "c = Repository_Ping \<or> c = Cache_Ping"
  shows "pr_trace p' = pr_trace p \<and> unwritten_to (pr_world p) (pr_world p')"
proof -
  have "unwritten_to (pr_world p) (snd (call (\<lambda>u. (Inr (), u)) (pr_world p)))"
    by (rule unwritten.E_call) simp_all
  with assms show ?thesis
    by (auto simp: ping_in_def Repository_Ping_def Cache_Ping_def split: prod.splits)
qed

lemma connection_cases:
  "Repository_New L u p = (r, p') \<Longrightarrow> unwritten_to (pr_world p) (pr_world p') \<and> (r = Inr () \<and>
     pr_trace p' = pr_trace p @ [Opened Database, Answered Database] \<or> r \<noteq> Inr () \<and>
     pr_trace p' \<in> {pr_trace p, pr_trace p @ [Opened Database, Closed Database]})"
  "open_webhook_db L u p = (r', p') \<Longrightarrow> unwritten_to (pr_world p) (pr_world p') \<and> (r' = Inr () \<and>
     pr_trace p' = pr_trace p @ [Opened Webhook_Database, Answered Webhook_Database] \<or> r' \<noteq> Inr () \<and>
     pr_trace p' \<in> {pr_trace p, pr_trace p @ [Opened Webhook_Database]})"
  "Cache_New L u p = (r, p') \<Longrightarrow> unwritten_to (pr_world p) (pr_world p') \<and> (r = Inr () \<and>
     pr_trace p' = pr_trace p @ [Opened Redis_Client, Answered Redis_Client] \<or> r \<noteq> Inr () \<and>
     pr_trace p' \<in> {pr_trace p, pr_trace p @ [Opened Redis_Client]})"
  by (auto simp: Repository_New_def open_webhook_db_def Cache_New_def split: option.splits prod.splits sum.splits
      dest!: ping_in_keeps)

lemma consumer_unwritten: "unwritten_to w (snd (NewConsumerID h i w))"
  using unwritten.E_env(1) [of w w] by (simp add: NewConsumerID_def Let_def case_prod_beta)

definition quiet_events :: "event set" where
  "quiet_events = range Opened \<union> range Answered \<union> range Closed"

definition start_trace :: "event list" where
  "start_trace = [Opened Database, Answered Database, Opened Webhook_Database, Answered Webhook_Database,
     Opened Redis_Client, Answered Redis_Client, Started ''analytics-worker'', Started ''webhook-worker'']"

lemma main_start_fails:
  assumes "main_start L S env p = (None, p')"
  shows "unwritten_to (pr_world p) (pr_world p') \<and> (\<exists>evs. pr_trace p' = pr_trace p @ evs \<and> set evs \<subseteq> quiet_events)"
  using assms
  by (auto simp: main_start_def Let_def quiet_events_def split: sum.splits prod.splits dest!: connection_cases)

lemma main_start_ok:
  assumes "main_start L S env p = (Some (Y, srv), p')"
  obtains cfg where "Config_Load (lb_env L) env = Inr cfg" and "Y = configured (lb_system L) cfg"
    and "srv = build_server S Y cfg" and "pr_trace p' = pr_trace p @ start_trace"
    and "unwritten_to (pr_world p) (pr_world p')"
proof -
  obtain cfg p1 p2 p3 cid w where steps: "Config_Load (lb_env L) env = Inr cfg"
      "Repository_New L (cf_database_url cfg) p = (Inr (), p1)"
      "open_webhook_db L (cf_database_url cfg) p1 = (Inr (), p2)"
      "Cache_New L (cf_redis_url cfg) p2 = (Inr (), p3)"
      "NewConsumerID (lb_hostname L) (lb_pid L) (pr_world p3) = (cid, w)"
    and rest: "Y = configured (lb_system L) cfg" "srv = build_server S Y cfg"
      "pr_trace p' = pr_trace p3 @ [Started ''analytics-worker'', Started ''webhook-worker'']" "pr_world p' = w"
    using assms by (auto simp: main_start_def Let_def split: sum.splits prod.splits)
  note c = connection_cases(1) [OF steps(2)] connection_cases(2) [OF steps(3)] connection_cases(3) [OF steps(4)]
  have "unwritten_to (pr_world p3) w" using consumer_unwritten [where w = "pr_world p3" and h = "lb_hostname L" and i = "lb_pid L"]
    by (simp add: steps(5))
  with c rest have "unwritten_to (pr_world p) (pr_world p')" by auto
  moreover have "pr_trace p' = pr_trace p @ start_trace" using c rest by (simp add: start_trace_def)
  ultimately show thesis using that steps(1) rest by blast
qed

definition stop_trace :: "event list" where
  "stop_trace = [Http_Stopped, Stopped ''webhook-worker'', Stopped ''analytics-worker'', Closed Redis_Client,
     Closed Webhook_Database, Closed Database]"

text \<open>A stop moves no row, and is clean exactly when both workers end in time.\<close>

lemma stop_components:
  "stop_http S p = (so_http S, emit Http_Stopped p)"
  "stop_webhooks S p = (r, p') \<Longrightarrow> pr_world p' = pr_world p
     \<and> (if r = None then so_webhooks_in_time S \<and> p' = emit (Stopped ''webhook-worker'') p else p' = p)"
  "stop_clicks S p = (r, p') \<Longrightarrow> pr_world p' = pr_world p
     \<and> pr_trace p' = pr_trace p @ (if r = None then [Stopped ''analytics-worker''] else [])
     \<and> (r \<noteq> None \<longrightarrow> \<not> so_clicks_in_time S)"
  by (auto simp: stop_http_def stop_webhooks_def stop_clicks_def Analytics_Shutdown_def Let_def
      split: if_splits prod.splits sum.splits)

lemma server_components:
  "sv_http_shutdown (build_server S Y cfg) = stop_http S"
  "sv_shutdown_funcs (build_server S Y cfg) = [stop_clicks S, stop_webhooks S]"
  by (simp_all add: build_server_def Let_def OnShutdown_registers Server_New_def)

lemma Server_Run_built:
  "Server_Run ShutdownSignal (build_server S Y cfg) p =
     (case stop_webhooks S (emit Http_Stopped p) of (r1, p1) \<Rightarrow> (case stop_clicks S p1 of (r2, p2) \<Rightarrow>
        (if r1 = None then r2 else r1, p2)))"
  by (auto simp: Server_Run_def gracefulShutdown_def server_components shutdown_loop_stop_each Let_def
      stop_http_def split: prod.split option.split)

lemma main_end_cases:
  assumes "main_end ev (build_server S Y cfg) p = (code, p')"
  shows "pr_world p' = pr_world p"
    and "code = 0 \<and> pr_trace p' = pr_trace p @ stop_trace
      \<or> code = 1 \<and> (\<exists>evs. pr_trace p' = pr_trace p @ evs \<and> (\<forall>c. Closed c \<notin> set evs))"
proof -
  have "pr_world p' = pr_world p \<and> (code = 0 \<and> pr_trace p' = pr_trace p @ stop_trace
      \<or> code = 1 \<and> (\<exists>evs. pr_trace p' = pr_trace p @ evs \<and> (\<forall>c. Closed c \<notin> set evs)))"
  proof (cases ev)
    case (ServerErr err)
    then show ?thesis using assms by (auto simp: main_end_def Server_Run_def)
  next
    case ShutdownSignal
    obtain r1 p1 r2 p2 where stops: "stop_webhooks S (emit Http_Stopped p) = (r1, p1)" "stop_clicks S p1 = (r2, p2)"
      by (metis surj_pair)
    note c = stop_components(2) [OF stops(1)] stop_components(3) [OF stops(2)]
    show ?thesis using assms c ShutdownSignal
      by (auto simp: main_end_def Server_Run_built stops stop_trace_def Repository_Close_def Cache_Close_def
          split: option.splits if_splits)
  qed
  then show "pr_world p' = pr_world p"
    and "code = 0 \<and> pr_trace p' = pr_trace p @ stop_trace
      \<or> code = 1 \<and> (\<exists>evs. pr_trace p' = pr_trace p @ evs \<and> (\<forall>c. Closed c \<notin> set evs))" by auto
qed

lemma main_end_clean:
  assumes "so_webhooks_in_time S" and "so_clicks_in_time S"
  shows "fst (main_end ShutdownSignal (build_server S Y cfg) p) = 0"
  using assms by (auto simp: main_end_def Server_Run_built stop_webhooks_def stop_clicks_def Analytics_Shutdown_def
      Let_def split: prod.split option.split sum.split if_splits)


definition sample_libs :: "'r system \<Rightarrow> (unit, 'r) libs" where
  "sample_libs Y = \<lparr>lb_env = ref_env, lb_parse_db = (\<lambda>_. None), lb_new_pool = (\<lambda>_ _ _. None),
     lb_sql_open = (\<lambda>_. None), lb_parse_redis = (\<lambda>_. None),
     lb_url = \<lparr>uo_parse = (\<lambda>_. None), uo_user = (\<lambda>_. None), uo_set_user = (\<lambda>_ _. ()), uo_string = (\<lambda>_. [])\<rparr>,
     lb_hostname = None, lb_pid = 1, lb_system = Y\<rparr>"

definition sample_process :: "ref_store process" where
  "sample_process = \<lparr>pr_world = sample_world, pr_clicks = Analytics_NewWorker [], pr_webhooks = NewWorker,
     pr_trace = [], pr_log = []\<rparr>"

definition in_time :: stops where
  "in_time = \<lparr>so_http = None, so_webhooks_in_time = True, so_clicks_in_time = True\<rparr>"

lemma sample_start:
  "\<exists>Y' srv p1. main_start (sample_libs Y) in_time (minimal_environment ''pg'' ''rd'') sample_process = (Some (Y', srv), p1)"
proof -
  have "Config_Load ref_env (minimal_environment ''pg'' ''rd'') = Inr (default_config ''pg'' ''rd'')"
    by (rule ref_env.Load_minimal) simp_all
  then show ?thesis
    by (simp add: main_start_def sample_libs_def Repository_New_def open_webhook_db_def Cache_New_def ping_in_def
        Repository_Ping_def Cache_Ping_def call_def next_outcome_def sample_process_def Let_def emit_def
        split: prod.split)
qed

lemma sample_life: "\<exists>p'. main (sample_libs Y) in_time (minimal_environment ''pg'' ''rd'') sample_process 0 p'"
proof -
  obtain Y' srv p1 where start: "main_start (sample_libs Y) in_time (minimal_environment ''pg'' ''rd'') sample_process
      = (Some (Y', srv), p1)" using sample_start by blast
  from start obtain cfg where "srv = build_server in_time Y' cfg" by (rule main_start_ok)
  then have "\<exists>p'. main_end ShutdownSignal srv p = (0, p')" for p
    using main_end_clean [of in_time Y' cfg p] by (auto simp: in_time_def prod_eq_iff)
  then show ?thesis using main.run [OF start rtranclp.rtrancl_refl] by blast
qed


end
