(* ===== verification/Observability.thy ===== *)
theory Observability imports Startup begin

text \<open>
  What the program reports of itself: the interface \<open>Recorder\<close> of \<open>internal/metrics/metrics.go\<close> with the
  snapshot of the in-memory recorder and the recorder that does nothing (\<open>noop.go\<close>), the line that the
  middleware of \<open>logging.go\<close> writes for a request, and \<open>initLogger\<close> of \<open>cmd/api/main.go\<close>.

  Shown: the snapshot of the in-memory recorder is the tally of what was recorded, for every sequence of
  records, with the wrap-around of 64 bits; a request is logged at the level of the status that was sent.
\<close>

section \<open>Recorders\<close>

text \<open>The calls of the interface, as values.\<close>

datatype metric_event =
    RedirectCacheHit | RedirectCacheMiss
  | is_RedirectDuration: RedirectDuration duration
  | LinkCreated | LinkUpdated | LinkDeleted
  | is_EventPublished: EventPublished string
  | EventProcessed string
  | is_BatchSize: BatchSize nat
  | is_BatchDuration: BatchDuration duration
  | AnalyticsQueueDepth int
  | is_IngestLag: IngestLag duration
  | WebhookDelivery string string
  | is_WebhookDuration: WebhookDuration string duration
  | is_WebhookRetry: WebhookRetry string int
  | WebhookQueueDepth int

fun InMemory_record :: "metric_event \<Rightarrow> metrics \<Rightarrow> metrics" where
  "InMemory_record RedirectCacheHit = IncRedirectCacheHit"
| "InMemory_record RedirectCacheMiss = IncRedirectCacheMiss"
| "InMemory_record (RedirectDuration d) = ObserveRedirectDuration d"
| "InMemory_record LinkCreated = IncLinkCreated"
| "InMemory_record LinkUpdated = IncLinkUpdated"
| "InMemory_record LinkDeleted = IncLinkDeleted"
| "InMemory_record (EventPublished status) = IncAnalyticsEventPublished status"
| "InMemory_record (EventProcessed status) = IncAnalyticsEventProcessed status"
| "InMemory_record (BatchSize n) = ObserveAnalyticsBatchSize n"
| "InMemory_record (BatchDuration d) = ObserveAnalyticsBatchDuration d"
| "InMemory_record (AnalyticsQueueDepth n) = SetAnalyticsQueueDepth n"
| "InMemory_record (IngestLag d) = ObserveAnalyticsIngestLag d"
| "InMemory_record (WebhookDelivery status endpoint) = IncWebhookDelivery status endpoint"
| "InMemory_record (WebhookDuration endpoint d) = ObserveWebhookDeliveryDuration endpoint d"
| "InMemory_record (WebhookRetry endpoint n) = IncWebhookRetry endpoint n"
| "InMemory_record (WebhookQueueDepth n) = SetWebhookQueueDepth n"

definition Noop_record :: "metric_event \<Rightarrow> unit \<Rightarrow> unit" where
  "Noop_record e n = n"

definition NewNoop :: unit where "NewNoop = ()"

section \<open>Snapshots\<close>

record snapshot =
  sn_redirect_cache_hits :: int
  sn_redirect_cache_misses :: int
  sn_redirect_duration_count :: int
  sn_redirect_duration_total_ns :: int
  sn_links_created :: int
  sn_links_updated :: int
  sn_links_deleted :: int
  sn_analytics_events_published :: int
  sn_analytics_events_dropped :: int
  sn_analytics_events_processed :: int
  sn_analytics_events_processed_failed :: int
  sn_analytics_events_processed_skipped :: int
  sn_analytics_batch_count :: int
  sn_analytics_queue_depth :: int
  sn_analytics_batch_duration_count :: int
  sn_analytics_batch_duration_total_ns :: int
  sn_analytics_ingest_lag_count :: int
  sn_analytics_ingest_lag_total_ns :: int
  sn_webhook_deliveries_success :: int
  sn_webhook_deliveries_failed :: int
  sn_webhook_deliveries_exhausted :: int
  sn_webhook_retries :: int
  sn_webhook_queue_depth :: int
  sn_webhook_duration_count :: int
  sn_webhook_duration_total_ns :: int

definition Snapshot :: "metrics \<Rightarrow> snapshot" where
  "Snapshot m = \<lparr>
     sn_redirect_cache_hits = uint (m_redirect_cache_hits m),
     sn_redirect_cache_misses = uint (m_redirect_cache_misses m),
     sn_redirect_duration_count = uint (m_redirect_duration_count m),
     sn_redirect_duration_total_ns = sint (m_redirect_duration_total_ns m),
     sn_links_created = uint (m_links_created m),
     sn_links_updated = uint (m_links_updated m),
     sn_links_deleted = uint (m_links_deleted m),
     sn_analytics_events_published = uint (m_analytics_events_published m),
     sn_analytics_events_dropped = uint (m_analytics_events_dropped m),
     sn_analytics_events_processed = uint (m_analytics_events_processed m),
     sn_analytics_events_processed_failed = uint (m_analytics_events_failed m),
     sn_analytics_events_processed_skipped = uint (m_analytics_events_skipped m),
     sn_analytics_batch_count = uint (m_analytics_batch_count m),
     sn_analytics_queue_depth = sint (m_analytics_queue_depth m),
     sn_analytics_batch_duration_count = uint (m_analytics_batch_duration_count m),
     sn_analytics_batch_duration_total_ns = sint (m_analytics_batch_duration_total_ns m),
     sn_analytics_ingest_lag_count = uint (m_analytics_ingest_lag_count m),
     sn_analytics_ingest_lag_total_ns = sint (m_analytics_ingest_lag_total_ns m),
     sn_webhook_deliveries_success = uint (m_webhook_deliveries_success m),
     sn_webhook_deliveries_failed = uint (m_webhook_deliveries_failed m),
     sn_webhook_deliveries_exhausted = uint (m_webhook_deliveries_exhausted m),
     sn_webhook_retries = uint (m_webhook_retries m),
     sn_webhook_queue_depth = sint (m_webhook_queue_depth m),
     sn_webhook_duration_count = uint (m_webhook_duration_count m),
     sn_webhook_duration_total_ns = sint (m_webhook_duration_total_ns m)\<rparr>"

text \<open>The tally of a sequence: an unsigned counter wraps at \<open>2 ^ 64\<close>, a sum of nanoseconds is read as a
  signed number of 64 bits, a gauge shows what was set last.\<close>

definition counted :: "(metric_event \<Rightarrow> bool) \<Rightarrow> metric_event list \<Rightarrow> int" where
  "counted P es = int (length (filter P es)) mod 2 ^ 64"

definition summed :: "(metric_event \<Rightarrow> int) \<Rightarrow> metric_event list \<Rightarrow> int" where
  "summed f es = signed_take_bit 63 (sum_list (map f es))"

definition last_set :: "(metric_event \<Rightarrow> int option) \<Rightarrow> metric_event list \<Rightarrow> int" where
  "last_set f es = signed_take_bit 63 (foldl (\<lambda>v e. case f e of None \<Rightarrow> v | Some d \<Rightarrow> d) 0 es)"

fun redirect_ns :: "metric_event \<Rightarrow> int" where
  "redirect_ns (RedirectDuration d) = d" | "redirect_ns e = 0"

fun batch_ns :: "metric_event \<Rightarrow> int" where
  "batch_ns (BatchDuration d) = d" | "batch_ns e = 0"

fun lag_ns :: "metric_event \<Rightarrow> int" where
  "lag_ns (IngestLag d) = d" | "lag_ns e = 0"

fun webhook_ns :: "metric_event \<Rightarrow> int" where
  "webhook_ns (WebhookDuration i d) = d" | "webhook_ns e = 0"

fun analytics_depth :: "metric_event \<Rightarrow> int option" where
  "analytics_depth (AnalyticsQueueDepth n) = Some n" | "analytics_depth e = None"

fun webhook_depth :: "metric_event \<Rightarrow> int option" where
  "webhook_depth (WebhookQueueDepth n) = Some n" | "webhook_depth e = None"

fun delivery_of :: "string \<Rightarrow> metric_event \<Rightarrow> bool" where
  "delivery_of s (WebhookDelivery status i) = (status = s)" | "delivery_of s e = False"

definition tally :: "metric_event list \<Rightarrow> snapshot" where
  "tally es = \<lparr>
     sn_redirect_cache_hits = counted (\<lambda>e. e = RedirectCacheHit) es,
     sn_redirect_cache_misses = counted (\<lambda>e. e = RedirectCacheMiss) es,
     sn_redirect_duration_count = counted (is_RedirectDuration) es,
     sn_redirect_duration_total_ns = summed redirect_ns es,
     sn_links_created = counted (\<lambda>e. e = LinkCreated) es,
     sn_links_updated = counted (\<lambda>e. e = LinkUpdated) es,
     sn_links_deleted = counted (\<lambda>e. e = LinkDeleted) es,
     sn_analytics_events_published = counted (\<lambda>e. e = EventPublished ''success'') es,
     sn_analytics_events_dropped = counted (\<lambda>e. is_EventPublished e \<and> e \<noteq> EventPublished ''success'') es,
     sn_analytics_events_processed = counted (\<lambda>e. e = EventProcessed ''success'') es,
     sn_analytics_events_processed_failed = counted (\<lambda>e. e = EventProcessed ''failed'') es,
     sn_analytics_events_processed_skipped = counted (\<lambda>e. e = EventProcessed ''skipped'') es,
     sn_analytics_batch_count = counted (is_BatchSize) es,
     sn_analytics_queue_depth = last_set analytics_depth es,
     sn_analytics_batch_duration_count = counted (is_BatchDuration) es,
     sn_analytics_batch_duration_total_ns = summed batch_ns es,
     sn_analytics_ingest_lag_count = counted (is_IngestLag) es,
     sn_analytics_ingest_lag_total_ns = summed lag_ns es,
     sn_webhook_deliveries_success = counted (delivery_of ''success'') es,
     sn_webhook_deliveries_failed = counted (delivery_of ''failed'') es,
     sn_webhook_deliveries_exhausted = counted (delivery_of ''exhausted'') es,
     sn_webhook_retries = counted (is_WebhookRetry) es,
     sn_webhook_queue_depth = last_set webhook_depth es,
     sn_webhook_duration_count = counted (is_WebhookDuration) es,
     sn_webhook_duration_total_ns = summed webhook_ns es\<rparr>"

lemmas recorder_defs = IncRedirectCacheHit_def IncRedirectCacheMiss_def ObserveRedirectDuration_def
  IncLinkCreated_def IncLinkUpdated_def IncLinkDeleted_def IncAnalyticsEventPublished_def
  IncAnalyticsEventProcessed_def ObserveAnalyticsBatchSize_def ObserveAnalyticsBatchDuration_def
  SetAnalyticsQueueDepth_def ObserveAnalyticsIngestLag_def IncWebhookDelivery_def
  ObserveWebhookDeliveryDuration_def IncWebhookRetry_def SetWebhookQueueDepth_def

definition recorded :: "metric_event list \<Rightarrow> metrics" where
  "recorded es = fold InMemory_record es NewInMemory"

lemma fold_counter:
  fixes f :: "metrics \<Rightarrow> 64 word"
  assumes "\<And>e m. f (InMemory_record e m) = f m + of_bool (P e)" and "f NewInMemory = 0"
  shows "uint (f (recorded es)) = counted P es"
proof -
  have "f (fold InMemory_record es m) = f m + of_nat (length (filter P es))" for m
    by (induction es arbitrary: m) (simp_all add: assms(1))
  then have "f (recorded es) = of_nat (length (filter P es))"
    using assms(2) by (simp add: recorded_def)
  then show ?thesis by (simp add: counted_def unsigned_of_nat take_bit_eq_mod zmod_int)
qed

lemma fold_total:
  fixes f :: "metrics \<Rightarrow> 64 word"
  assumes "\<And>e m. f (InMemory_record e m) = f m + word_of_int (g e)" and "f NewInMemory = 0"
  shows "sint (f (recorded es)) = summed g es"
proof -
  have "f (fold InMemory_record es m) = f m + word_of_int (sum_list (map g es))" for m
    by (induction es arbitrary: m) (simp_all add: assms(1) add.assoc)
  then have "f (recorded es) = word_of_int (sum_list (map g es))"
    using assms(2) by (simp add: recorded_def)
  then show ?thesis by (simp add: summed_def sint_sbintrunc')
qed

lemma fold_gauge:
  fixes f :: "metrics \<Rightarrow> 64 word"
  assumes "\<And>e m. f (InMemory_record e m) = (case g e of None \<Rightarrow> f m | Some d \<Rightarrow> word_of_int d)" and "f NewInMemory = 0"
  shows "sint (f (recorded es)) = last_set g es"
proof -
  have "f (fold InMemory_record es m) = word_of_int (foldl (\<lambda>v e. case g e of None \<Rightarrow> v | Some d \<Rightarrow> d) v es)"
    if "f m = word_of_int v" for m v
    using that by (induction es arbitrary: m v) (simp_all add: assms(1) split: option.split)
  from this [of NewInMemory 0] have "f (recorded es) = word_of_int (foldl (\<lambda>v e. case g e of None \<Rightarrow> v | Some d \<Rightarrow> d) 0 es)"
    using assms(2) by (simp add: recorded_def)
  then show ?thesis by (simp add: last_set_def sint_sbintrunc')
qed

text \<open>The in-memory recorder implements the tally of all that was recorded, field by field.\<close>

lemma snapshot_is_tally: "Snapshot (recorded es) = tally es"
proof -
  have redirect_cache_hits: "uint (m_redirect_cache_hits (recorded es)) = counted (\<lambda>e. e = RedirectCacheHit) es"
    by (rule fold_counter, rename_tac e m, case_tac e) (simp_all add: recorder_defs NewInMemory_def)
  have redirect_cache_misses: "uint (m_redirect_cache_misses (recorded es)) = counted (\<lambda>e. e = RedirectCacheMiss) es"
    by (rule fold_counter, rename_tac e m, case_tac e) (simp_all add: recorder_defs NewInMemory_def)
  have redirect_duration_count: "uint (m_redirect_duration_count (recorded es)) = counted (is_RedirectDuration) es"
    by (rule fold_counter, rename_tac e m, case_tac e) (simp_all add: recorder_defs NewInMemory_def)
  have redirect_duration_total_ns: "sint (m_redirect_duration_total_ns (recorded es)) = summed redirect_ns es"
    by (rule fold_total, rename_tac e m, case_tac e) (simp_all add: recorder_defs NewInMemory_def)
  have links_created: "uint (m_links_created (recorded es)) = counted (\<lambda>e. e = LinkCreated) es"
    by (rule fold_counter, rename_tac e m, case_tac e) (simp_all add: recorder_defs NewInMemory_def)
  have links_updated: "uint (m_links_updated (recorded es)) = counted (\<lambda>e. e = LinkUpdated) es"
    by (rule fold_counter, rename_tac e m, case_tac e) (simp_all add: recorder_defs NewInMemory_def)
  have links_deleted: "uint (m_links_deleted (recorded es)) = counted (\<lambda>e. e = LinkDeleted) es"
    by (rule fold_counter, rename_tac e m, case_tac e) (simp_all add: recorder_defs NewInMemory_def)
  have analytics_events_published: "uint (m_analytics_events_published (recorded es)) = counted (\<lambda>e. e = EventPublished ''success'') es"
    by (rule fold_counter, rename_tac e m, case_tac e) (simp_all add: recorder_defs NewInMemory_def)
  have analytics_events_dropped: "uint (m_analytics_events_dropped (recorded es)) = counted (\<lambda>e. is_EventPublished e \<and> e \<noteq> EventPublished ''success'') es"
    by (rule fold_counter, rename_tac e m, case_tac e) (simp_all add: recorder_defs NewInMemory_def)
  have analytics_events_processed: "uint (m_analytics_events_processed (recorded es)) = counted (\<lambda>e. e = EventProcessed ''success'') es"
    by (rule fold_counter, rename_tac e m, case_tac e) (simp_all add: recorder_defs NewInMemory_def)
  have analytics_events_processed_failed: "uint (m_analytics_events_failed (recorded es)) = counted (\<lambda>e. e = EventProcessed ''failed'') es"
    by (rule fold_counter, rename_tac e m, case_tac e) (simp_all add: recorder_defs NewInMemory_def)
  have analytics_events_processed_skipped: "uint (m_analytics_events_skipped (recorded es)) = counted (\<lambda>e. e = EventProcessed ''skipped'') es"
    by (rule fold_counter, rename_tac e m, case_tac e) (simp_all add: recorder_defs NewInMemory_def)
  have analytics_batch_count: "uint (m_analytics_batch_count (recorded es)) = counted (is_BatchSize) es"
    by (rule fold_counter, rename_tac e m, case_tac e) (simp_all add: recorder_defs NewInMemory_def)
  have analytics_queue_depth: "sint (m_analytics_queue_depth (recorded es)) = last_set analytics_depth es"
    by (rule fold_gauge, rename_tac e m, case_tac e) (simp_all add: recorder_defs NewInMemory_def)
  have analytics_batch_duration_count: "uint (m_analytics_batch_duration_count (recorded es)) = counted (is_BatchDuration) es"
    by (rule fold_counter, rename_tac e m, case_tac e) (simp_all add: recorder_defs NewInMemory_def)
  have analytics_batch_duration_total_ns: "sint (m_analytics_batch_duration_total_ns (recorded es)) = summed batch_ns es"
    by (rule fold_total, rename_tac e m, case_tac e) (simp_all add: recorder_defs NewInMemory_def)
  have analytics_ingest_lag_count: "uint (m_analytics_ingest_lag_count (recorded es)) = counted (is_IngestLag) es"
    by (rule fold_counter, rename_tac e m, case_tac e) (simp_all add: recorder_defs NewInMemory_def)
  have analytics_ingest_lag_total_ns: "sint (m_analytics_ingest_lag_total_ns (recorded es)) = summed lag_ns es"
    by (rule fold_total, rename_tac e m, case_tac e) (simp_all add: recorder_defs NewInMemory_def)
  have webhook_deliveries_success: "uint (m_webhook_deliveries_success (recorded es)) = counted (delivery_of ''success'') es"
    by (rule fold_counter, rename_tac e m, case_tac e) (simp_all add: recorder_defs NewInMemory_def)
  have webhook_deliveries_failed: "uint (m_webhook_deliveries_failed (recorded es)) = counted (delivery_of ''failed'') es"
    by (rule fold_counter, rename_tac e m, case_tac e) (simp_all add: recorder_defs NewInMemory_def)
  have webhook_deliveries_exhausted: "uint (m_webhook_deliveries_exhausted (recorded es)) = counted (delivery_of ''exhausted'') es"
    by (rule fold_counter, rename_tac e m, case_tac e) (simp_all add: recorder_defs NewInMemory_def)
  have webhook_retries: "uint (m_webhook_retries (recorded es)) = counted (is_WebhookRetry) es"
    by (rule fold_counter, rename_tac e m, case_tac e) (simp_all add: recorder_defs NewInMemory_def)
  have webhook_queue_depth: "sint (m_webhook_queue_depth (recorded es)) = last_set webhook_depth es"
    by (rule fold_gauge, rename_tac e m, case_tac e) (simp_all add: recorder_defs NewInMemory_def)
  have webhook_duration_count: "uint (m_webhook_duration_count (recorded es)) = counted (is_WebhookDuration) es"
    by (rule fold_counter, rename_tac e m, case_tac e) (simp_all add: recorder_defs NewInMemory_def)
  have webhook_duration_total_ns: "sint (m_webhook_duration_total_ns (recorded es)) = summed webhook_ns es"
    by (rule fold_total, rename_tac e m, case_tac e) (simp_all add: recorder_defs NewInMemory_def)
  show ?thesis unfolding Snapshot_def tally_def
    by (simp only: redirect_cache_hits redirect_cache_misses redirect_duration_count redirect_duration_total_ns links_created links_updated links_deleted analytics_events_published analytics_events_dropped analytics_events_processed analytics_events_processed_failed analytics_events_processed_skipped analytics_batch_count analytics_queue_depth analytics_batch_duration_count analytics_batch_duration_total_ns analytics_ingest_lag_count analytics_ingest_lag_total_ns webhook_deliveries_success webhook_deliveries_failed webhook_deliveries_exhausted webhook_retries webhook_queue_depth webhook_duration_count webhook_duration_total_ns)
qed

text \<open>A recorder that does nothing has nothing to show.\<close>

lemma Noop_silent: "fold Noop_record es NewNoop = NewNoop"
  by (induction es) (simp_all add: Noop_record_def)

section \<open>The line of a request\<close>

datatype log_value = Log_String string | Log_Int int | Log_Float rat

record log_line =
  ll_level :: log_level
  ll_message :: string
  ll_attrs :: "(string \<times> log_value) list"

text \<open>\<open>RequestID\<close> puts the header into the context when it is not empty; no handler changes it.\<close>

definition GetTraceID :: "request \<Rightarrow> string" where
  "GetTraceID q = request_header q ''X-Trace-ID''"

text \<open>\<open>Duration.Microseconds\<close> rounds towards zero.\<close>

definition microseconds :: "duration \<Rightarrow> int" where
  "microseconds d = (if d < 0 then - ((- d) div 1000) else d div 1000)"

definition request_line :: "request \<Rightarrow> int \<Rightarrow> duration \<Rightarrow> log_line" where
  "request_line q status d =
     (let requestID = GetRequestID q; traceID = GetTraceID q;
          attrs = [(''request_id'', Log_String requestID), (''method'', Log_String (rq_method q)),
            (''path'', Log_String (rq_path q)), (''status_code'', Log_Int status),
            (''duration_ms'', Log_Float (of_int (microseconds d) / 1000)),
            (''remote_addr'', Log_String (rq_remote_addr q)),
            (''user_agent'', Log_String (request_header q ''User-Agent''))];
          attrs = (if traceID \<noteq> [] then attrs @ [(''trace_id'', Log_String traceID)] else attrs)
      in \<lparr>ll_level = level_of_status status, ll_message = ''http request'', ll_attrs = attrs\<rparr>)"

text \<open>What the logger reads off the response; a panic leaves before the line is written.\<close>

definition Logger_line :: "'r handler \<Rightarrow> request \<Rightarrow> writer \<Rightarrow> 'r world \<Rightarrow> log_line option" where
  "Logger_line nxt q x w = (case time_now w of (start, w1) \<Rightarrow> (case nxt q x w1 of (x', w2) \<Rightarrow>
     if rw_panic x' = None then Some (request_line q (status_of x') (fst (time_now w2) - start)) else None))"

text \<open>Behind the recovery every request is logged once, at the level of the status sent, under its id.\<close>

lemma every_request_is_logged:
  "\<exists>l. Logger_line (Recoverer h) q x w = Some l
     \<and> (''status_code'', Log_Int (status_of (fst (Logger (Recoverer h) q x w)))) \<in> set (ll_attrs l)
     \<and> (''request_id'', Log_String (rq_request_id q)) \<in> set (ll_attrs l)
     \<and> (ll_level l = LevelError \<longleftrightarrow> 500 \<le> status_of (fst (Logger (Recoverer h) q x w)))"
proof -
  obtain s w1 where t: "time_now w = (s, w1)" by fastforce
  obtain y w2 where y: "Recoverer h q x w1 = (y, w2)" by fastforce
  have "rw_panic y = None" using Recoverer_no_panic [of h q x w1] y by simp
  then show ?thesis
    by (simp add: Logger_line_def Logger_def t y request_line_def Let_def level_of_status_def GetRequestID_def)
qed

section \<open>The handler of the log\<close>

datatype log_handler = JSONHandler log_level | TextHandler log_level

definition initLogger :: "app_config \<Rightarrow> log_handler" where
  "initLogger cfg = (let level = parseLogLevel (cf_log_level cfg) in
     if cf_log_format cfg = ''json'' then JSONHandler level else TextHandler level)"

text \<open>An unknown level is \<open>info\<close>, an unknown format is text.\<close>

lemma initLogger_default:
  "initLogger (default_config db redis) = JSONHandler LevelInfo"
  "cf_log_level c \<notin> {''debug'', ''info'', ''warn'', ''error''} \<Longrightarrow> cf_log_format c \<noteq> ''json''
    \<Longrightarrow> initLogger c = TextHandler LevelInfo"
  by (simp_all add: initLogger_def default_config_def parseLogLevel_def)

end
