(* ===== verification/Cache_Race.thy ===== *)
theory Cache_Race imports Link_Writes begin

text \<open>
  Visits and deletions of links, interleaved call by call (\<open>ResolveRedirect\<close> and \<open>DeleteLink\<close> of
  \<open>internal/service/link.go\<close>). A visit and a deletion are cut where the code calls PostgreSQL or Redis;
  the steps of any number of them, arriving at any time, follow each other in any order. A visit or a
  deletion whose steps run without interruption is the method of \<open>Link_Service\<close>.

  Shown: any number of concurrent visits, whatever the calls answer, each answer as the table does and
  leave the cache coherent; visits and deletions together leave it coherent as long as no row is deleted
  while a visit holds it; and without this restriction a visit can put a deleted link back into the
  cache, from which it is served for a day.
\<close>

section \<open>The steps\<close>

datatype visit_phase = V_Started | V_Missed | V_Falling | V_Found link | V_Absent | V_Backfilled link
  | V_Hit link | V_Answered "(error + link) \<times> bool"

fun visit_step :: "'r redis_ops \<Rightarrow> string \<Rightarrow> visit_phase \<Rightarrow> 'r world \<Rightarrow> visit_phase \<times> 'r world" where
  "visit_step R shortCode V_Started w = (case Cache_GetLink R shortCode w of
       (Inr cached, w1) \<Rightarrow> (V_Hit (ToLink shortCode cached), record_metric IncRedirectCacheHit w1)
     | (Inl err, w1) \<Rightarrow> (if \<not> errors_is err Cache_ErrCacheMiss then (V_Falling, w1)
          else (V_Missed, record_metric IncRedirectCacheMiss w1)))"
| "visit_step R shortCode V_Missed w = (case Cache_IsNegativelyCached R shortCode w of
       (neg, w1) \<Rightarrow> (if neg = Inr True then V_Answered (Inl (Sentinel Svc_ErrLinkNotFound), False)
          else V_Falling, w1))"
| "visit_step R shortCode V_Falling w = (case Repository_GetLinkByShortCode shortCode w of
       (Inl err, w1) \<Rightarrow> (if errors_is err Repo_ErrLinkNotFound then V_Absent
          else V_Answered (Inl err, False), w1)
     | (Inr link, w1) \<Rightarrow> (V_Found link, w1))"
| "visit_step R shortCode V_Absent w =
     (V_Answered (Inl (Sentinel Svc_ErrLinkNotFound), False), snd (Cache_SetNegativeCache R shortCode w))"
| "visit_step R shortCode (V_Found link) w = (V_Backfilled link, snd (Cache_SetLink R shortCode link w))"
| "visit_step R shortCode (V_Backfilled link) w = (case validateRedirectLink R link shortCode w of
       (r, w1) \<Rightarrow> (V_Answered (r, False), w1))"
| "visit_step R shortCode (V_Hit link) w = (case validateRedirectLink R link shortCode w of
       (r, w1) \<Rightarrow> (V_Answered (r, True), w1))"
| "visit_step R shortCode (V_Answered res) w = (V_Answered res, w)"

datatype delete_phase = D_Started | D_Found link | D_Marked link | D_Answered "error + unit"

fun delete_step :: "'r redis_ops \<Rightarrow> string \<Rightarrow> delete_phase \<Rightarrow> 'r world \<Rightarrow> delete_phase \<times> 'r world" where
  "delete_step R i D_Started w = (case LinkService_GetLink i w of
       (Inl err, w1) \<Rightarrow> (D_Answered (Inl err), w1)
     | (Inr link, w1) \<Rightarrow> (D_Found link, w1))"
| "delete_step R i (D_Found link) w = (case Repository_DeleteLink i w of
       (Inl err, w1) \<Rightarrow> (D_Answered (Inl err), w1)
     | (Inr _, w1) \<Rightarrow> (D_Marked link, record_metric IncLinkDeleted w1))"
| "delete_step R i (D_Marked link) w =
     (D_Answered (Inr ()), snd (Cache_DeleteLink R (l_short_code link) w))"
| "delete_step R i (D_Answered r) w = (D_Answered r, w)"

datatype update_phase = U_Started | U_Found link | U_Saved link | U_Answered "error + link"

text \<open>What an update does between reading the row and writing it.\<close>

definition edited :: "url_parser \<Rightarrow> update_link_input \<Rightarrow> link \<Rightarrow> 'r world \<Rightarrow> (error + link) \<times> 'r world" where
  "edited P input link w = (case is_expired_now link w of (expired, w1) \<Rightarrow>
     if expired then (Inl (Sentinel Svc_ErrLinkExpired), w1)
     else (case apply_destination P (ui_destination input) link of
         Inl err \<Rightarrow> (Inl err, w1)
       | Inr link2 \<Rightarrow> (case apply_redirect_type (ui_redirect_type input) link2 of
           Inl err \<Rightarrow> (Inl err, w1)
         | Inr link3 \<Rightarrow> (case apply_expiry (ui_clear_expiry input) (ui_expires_at input) link3 w1 of
             (Inl err, w2) \<Rightarrow> (Inl err, w2)
           | (Inr link4, w2) \<Rightarrow> (Inr (apply_enabled (ui_enabled input) link4), w2)))))"

fun update_step :: "'r redis_ops \<Rightarrow> url_parser \<Rightarrow> update_link_input \<Rightarrow> update_phase \<Rightarrow> 'r world
    \<Rightarrow> update_phase \<times> 'r world" where
  "update_step R P input U_Started w = (case LinkService_GetLink (ui_id input) w of
       (Inl err, w1) \<Rightarrow> (U_Answered (Inl err), w1)
     | (Inr link, w1) \<Rightarrow> (U_Found link, w1))"
| "update_step R P input (U_Found link) w = (case edited P input link w of
       (Inl err, w1) \<Rightarrow> (U_Answered (Inl err), w1)
     | (Inr link', w1) \<Rightarrow> (case Repository_UpdateLink link' w1 of
           (Inl err, w2) \<Rightarrow> (U_Answered (Inl err), w2)
         | (Inr _, w2) \<Rightarrow> (U_Saved link', record_metric IncLinkUpdated w2)))"
| "update_step R P input (U_Saved link) w =
     (U_Answered (Inr link), snd (Cache_DeleteLink R (l_short_code link) w))"
| "update_step R P input (U_Answered r) w = (U_Answered r, w)"

datatype actor = Visiting string visit_phase | Deleting string delete_phase
  | Updating update_link_input update_phase

fun actor_step :: "'r redis_ops \<Rightarrow> url_parser \<Rightarrow> actor \<Rightarrow> 'r world \<Rightarrow> actor \<times> 'r world" where
  "actor_step R P (Visiting c p) w = (case visit_step R c p w of (p', w') \<Rightarrow> (Visiting c p', w'))"
| "actor_step R P (Deleting i p) w = (case delete_step R i p w of (p', w') \<Rightarrow> (Deleting i p', w'))"
| "actor_step R P (Updating input p) w = (case update_step R P input p w of (p', w') \<Rightarrow> (Updating input p', w'))"

text \<open>Run without interruption, the steps are the methods.\<close>

fun actor_steps :: "nat \<Rightarrow> 'r redis_ops \<Rightarrow> url_parser \<Rightarrow> actor \<Rightarrow> 'r world \<Rightarrow> actor \<times> 'r world" where
  "actor_steps 0 R P a w = (a, w)"
| "actor_steps (Suc n) R P a w = (case actor_step R P a w of (a', w') \<Rightarrow> actor_steps n R P a' w')"

lemma actor_steps_answered [simp]:
  "actor_steps n R P (Visiting c (V_Answered res)) w = (Visiting c (V_Answered res), w)"
  "actor_steps n R P (Deleting i (D_Answered r)) w = (Deleting i (D_Answered r), w)"
  "actor_steps n R P (Updating input (U_Answered x)) w = (Updating input (U_Answered x), w)"
  by (induction n) simp_all

lemma visit_from_table:
  "actor_steps (Suc (Suc (Suc n))) R P (Visiting c V_Falling) w =
     (case resolve_from_table R c w of (r, w') \<Rightarrow> (Visiting c (V_Answered (r, False)), w'))"
  by (simp add: resolve_from_table_def split: prod.split sum.split)

lemma visit_alone:
  "actor_steps 5 R P (Visiting c V_Started) w =
     (case resolve R c w of (res, w') \<Rightarrow> (Visiting c (V_Answered res), w'))"
proof -
  obtain x w1 where 1: "Cache_GetLink R c w = (x, w1)" by fastforce
  obtain neg w2 where 2: "Cache_IsNegativelyCached R c (record_metric IncRedirectCacheMiss w1) = (neg, w2)"
    by fastforce
  have five: "5 = Suc (Suc (Suc (Suc (Suc 0))))" by simp
  show ?thesis
  proof (cases x)
    case (Inl err)
    with 1 2 show ?thesis
      unfolding five actor_steps.simps(2) [of "Suc (Suc (Suc (Suc 0)))"]
      using visit_from_table [of "Suc 0" R P c w1] visit_from_table [of 0 R P c w2]
      by (simp add: resolve_def del: actor_steps.simps(2)
          split: prod.split) (simp add: actor_steps.simps(2) [of "Suc (Suc (Suc 0))"] split: prod.split)
  next
    case (Inr cached)
    with 1 show ?thesis
      by (simp add: five resolve_def split: prod.split)
  qed
qed

lemma delete_alone:
  "actor_steps 3 R P (Deleting i D_Started) w =
     (case LinkService_DeleteLink R i w of (r, w') \<Rightarrow> (Deleting i (D_Answered r), w'))"
  by (simp add: eval_nat_numeral LinkService_DeleteLink_def split: prod.split sum.split)

lemma update_alone:
  "actor_steps 3 R P (Updating input U_Started) w =
     (case LinkService_UpdateLink R P input w of (r, w') \<Rightarrow> (Updating input (U_Answered r), w'))"
  by (simp add: eval_nat_numeral LinkService_UpdateLink_def edited_def save_and_invalidate_def
      split: prod.split sum.split)

section \<open>Interleavings\<close>

text \<open>
  The actors that arrive are those of \<open>A\<close>; \<open>G\<close> says which steps may be taken next to which others.
\<close>

inductive race_step :: "'r redis_ops \<Rightarrow> url_parser \<Rightarrow> actor set \<Rightarrow> (actor list \<Rightarrow> actor \<Rightarrow> bool)
    \<Rightarrow> actor list \<times> 'r world \<Rightarrow> actor list \<times> 'r world \<Rightarrow> bool" for R P A G where
  arrives: "a \<in> A \<Longrightarrow> race_step R P A G (as, w) (as @ [a], w)"
| moves: "i < length as \<Longrightarrow> G as (as ! i) \<Longrightarrow> actor_step R P (as ! i) w = (a, w')
    \<Longrightarrow> race_step R P A G (as, w) (as[i := a], w')"
| waits: "race_step R P A G (as, w) (as, snd (time_now w))"

inductive_cases race_stepE: "race_step R P A G (as, w) (as', w')"

lemma race_step_cases:
  assumes "race_step R P A G (as, w) (as', w')"
  obtains (arrives) a where "a \<in> A" and "as' = as @ [a]" and "w' = w"
  | (moves) i a where "i < length as" and "G as (as ! i)" and "actor_step R P (as ! i) w = (a, w')"
    and "as' = as[i := a]"
  | (waits) "as' = as" and "w' = snd (time_now w)"
  using assms by (rule race_stepE) (erule (2) that | rule that; assumption)+

definition races :: "'r redis_ops \<Rightarrow> url_parser \<Rightarrow> actor set \<Rightarrow> (actor list \<Rightarrow> actor \<Rightarrow> bool)
    \<Rightarrow> actor list \<times> 'r world \<Rightarrow> actor list \<times> 'r world \<Rightarrow> bool" where
  "races R P A G = (race_step R P A G)\<^sup>*\<^sup>*"

definition any_time :: "actor list \<Rightarrow> actor \<Rightarrow> bool" where "any_time as a = True"

lemma races_invariant [consumes 1, case_names start step]:
  assumes "races R P A G (as0, w0) (as, w)" and "I as0 w0"
    and "\<And>as w as' w'. I as w \<Longrightarrow> race_step R P A G (as, w) (as', w') \<Longrightarrow> I as' w'"
  shows "I as w"
  using assms(1) unfolding races_def
proof (induction rule: rtranclp_induct2)
  case refl
  show ?case by (rule assms(2))
next
  case (step as w as' w')
  then show ?case using assms(3) by blast
qed

lemma races_trans: "races R P A G x y \<Longrightarrow> races R P A G y z \<Longrightarrow> races R P A G x z"
  by (simp add: races_def)

lemma races_one: "race_step R P A G x y \<Longrightarrow> races R P A G x y"
  by (simp add: races_def)

lemma any_time_True [simp]: "any_time as a"
  by (simp add: any_time_def)

text \<open>An actor may take its next steps at once.\<close>

lemma races_alone:
  assumes "actor_steps n R P a w = (a', w')" and "i < length as" and "as ! i = a"
    and "\<And>b. G (as[i := b]) b"
  shows "races R P A G (as, w) (as[i := a'], w')"
  using assms
proof (induction n arbitrary: a w as)
  case 0
  then have "as[i := a'] = as" and "w' = w" by auto
  then show ?case by (simp add: races_def)
next
  case (Suc n)
  obtain b u where b: "actor_step R P a w = (b, u)" by fastforce
  have "G as (as ! i)"
    using Suc.prems(4) [of "as ! i"] by simp
  with b Suc.prems have "race_step R P A G (as, w) (as[i := b], u)"
    by (intro moves) simp_all
  moreover have "races R P A G (as[i := b], u) (as[i := b, i := a'], w')"
    using Suc.prems b by (intro Suc.IH [of b u]) simp_all
  ultimately show ?case by (auto simp: races_def)
qed

section \<open>Visits among themselves\<close>

text \<open>What the phase of a visit says about the rows of \<open>w\<close>, at the time \<open>t\<close>.\<close>

fun visit_ok :: "'r world \<Rightarrow> string \<Rightarrow> instant \<Rightarrow> visit_phase \<Rightarrow> bool" where
  "visit_ok w c t (V_Found l) = live_row w c l"
| "visit_ok w c t (V_Backfilled l) = live_row w c l"
| "visit_ok w c t (V_Hit l') = (\<exists>l up. live_row w c l \<and> l' = cache_image l\<lparr>l_updated_at := up\<rparr>)"
| "visit_ok w c t V_Absent = (\<forall>l. \<not> live_row w c l)"
| "visit_ok w c t (V_Answered (r, hit)) = answers_for w c t r"
| "visit_ok w c t p = True"

text \<open>The part of it that the writes to the cache rest on.\<close>

fun holds_rows :: "'r world \<Rightarrow> string \<Rightarrow> visit_phase \<Rightarrow> bool" where
  "holds_rows w c (V_Found l) = live_row w c l"
| "holds_rows w c V_Absent = (\<forall>l. \<not> live_row w c l)"
| "holds_rows w c p = True"

lemma visit_ok_holds: "visit_ok w c t p \<Longrightarrow> holds_rows w c p"
  by (cases p) simp_all

lemma visit_step_holds: "visit_step R c p u = (p', u') \<Longrightarrow> holds_rows u c p'"
  using GetLinkByShortCode_row [of c u] GetLinkByShortCode_none [of c u]
  by (cases p) (auto split: prod.splits sum.splits if_splits)

lemma visit_ok_later: "visit_ok w c t p \<Longrightarrow> t \<le> t' \<Longrightarrow> visit_ok w c t' p"
  by (cases "(w, c, t, p)" rule: visit_ok.cases) (auto intro: answers_mono)

lemma answers_from_row:
  assumes "live_row w c l" and "validateRedirectLink R l c u = (r, w')"
  shows "answers_for w c (clock w') r"
proof (rule answers_from_validate [OF assms(2) _ assms(1)])
  show "Link_IsExpired t l \<Longrightarrow> Link_IsExpired (t + second) l" for t
    by (erule Link_IsExpired_mono) (simp add: second_def)
qed (use assms(1) in \<open>auto simp: live_row_def live_link_def shows_row_def\<close>)

text \<open>The predicates that no Redis command breaks are kept by every step of a visit.\<close>

context redis_frame begin

lemma P_visit_step:
  assumes "P u"
  shows "P (snd (visit_step R c p u))"
proof -
  have "P v" if "Cache_GetLink R c u = (x, v)" for x v
    using that P_cache(1) [OF assms, of R c] by simp
  moreover have "P v" if "Cache_IsNegativelyCached R c u = (x, v)" for x v
    using that P_cache(2) [OF assms, of R c] by simp
  moreover have "P v" if "Repository_GetLinkByShortCode c u = (x, v)" for x v
    using that P_links_read(1) [OF assms, of c] by simp
  moreover have "P v" if "validateRedirectLink R l c u = (x, v)" for l x v
    using that P_validate [OF assms, of R l c] by simp
  ultimately show ?thesis
    using assms P_cache(3) [OF assms, of R c] P_SetLink [OF assms, of R c]
    by (cases p) (auto split: prod.split sum.split intro: P_metric)
qed

end

context redis_server begin

lemma visit_step_kept:
  assumes "kept D w u" and "links_inv w" and "codes_clean (w_links w)" and "holds_rows w c p"
  shows "kept D w (snd (visit_step R c p u))"
proof (cases p)
  case V_Started
  with GetLink_kept [OF assms(1), of c] show ?thesis
    by (auto split: prod.split sum.split intro: kept_metric)
next
  case V_Missed
  with IsNegativelyCached_kept [OF assms(1), of c] show ?thesis
    by (auto split: prod.split)
next
  case V_Falling
  have "kept D w (snd (call (pg_link_by_code c) u))"
    using assms(1) by (rule kept_call) (simp add: pg_link_by_code_def)
  with V_Falling show ?thesis
    by (auto split: prod.split sum.split simp flip: Repository_link_calls)
next
  case (V_Found l)
  then have "live_row w c l" using assms(4) by simp
  then have "kept D w (snd (Cache_SetLink R c l u))"
    using live_row_unique [OF assms(2)] by (intro SetLink_kept assms(1,3)) blast+
  with V_Found show ?thesis by simp
next
  case V_Absent
  with assms(1,4) show ?thesis by (auto intro: SetNegativeCache_kept)
next
  case (V_Backfilled l)
  with kept_validate [OF assms(1), of l c] show ?thesis by (simp add: case_prod_beta)
next
  case (V_Hit l)
  with kept_validate [OF assms(1), of l c] show ?thesis by (simp add: case_prod_beta)
qed (use assms(1) in simp)

lemma visit_step_ok:
  assumes "kept {c} w u" and "links_inv w" and "times_ok (w_links w)" and "visit_ok w c (clock u) p"
    and "visit_step R c p u = (p', u')"
  shows "visit_ok w c (clock u') p'"
proof -
  have rows: "live_row u = live_row w" and inv: "links_inv u" and times: "times_ok (w_links u)"
    and coh: "coherent_at R u c"
    using assms(1-3) by (simp_all add: kept_def live_row_def links_inv_def fun_eq_iff)
  show ?thesis
  proof (cases p)
    case V_Started
    with assms(5) show ?thesis
      using hit_image [OF coh inv times] by (fastforce simp: rows split: prod.splits sum.splits if_splits)
  next
    case V_Missed
    have "neg = Inr True \<Longrightarrow> \<not> live_row w c l" if "Cache_IsNegativelyCached R c u = (neg, v)" for neg v l
      using IsNegativelyCached_true that coh by (auto simp: coherent_at_def rows)
    with V_Missed assms(5) show ?thesis
      by (auto simp: answers_for_def split: prod.splits if_splits)
  next
    case V_Falling
    have "e \<noteq> Sentinel x" if "Repository_GetLinkByShortCode c u = (Inl e, v)"
      and "\<not> errors_is e Repo_ErrLinkNotFound" for e v x
      using that by (auto simp: Repository_GetLinkByShortCode_def split: prod.splits sum.splits option.splits)
    with V_Falling assms(5) GetLinkByShortCode_row [of c u, unfolded rows]
      GetLinkByShortCode_none [of c u, unfolded rows] show ?thesis
      by (auto simp: answers_for_def rows split: prod.splits sum.splits if_splits)
  next
    case V_Absent
    with assms(4,5) show ?thesis by (auto simp: answers_for_def)
  next
    case (V_Backfilled l)
    with assms(4,5) show ?thesis by (auto split: prod.splits intro: answers_from_row)
  next
    case (V_Hit l)
    with assms(4,5) show ?thesis by (auto split: prod.splits intro: answers_from_image)
  next
    case (V_Answered x)
    with assms(4,5) show ?thesis by simp
  next
    case (V_Found l)
    with assms(4,5) show ?thesis by auto
  qed
qed

end

definition fresh_visits :: "actor set" where
  "fresh_visits = range (\<lambda>c. Visiting c V_Started)"

lemma set_update_cases: "x \<in> set (xs[i := y]) \<Longrightarrow> x = y \<or> x \<in> set xs"
  using set_update_subset_insert [of xs i y] by blast

lemma set_update_others: "x \<in> set xs \<Longrightarrow> x \<noteq> xs ! i \<Longrightarrow> x \<in> set (xs[i := y])"
proof -
  assume "x \<in> set xs" and "x \<noteq> xs ! i"
  then obtain j where "j < length xs" and "xs ! j = x" and "j \<noteq> i"
    by (auto simp: in_set_conv_nth)
  then show "x \<in> set (xs[i := y])"
    by (auto simp: in_set_conv_nth intro!: exI [of _ j])
qed

context redis_server begin

definition visits_fine :: "'r world \<Rightarrow> actor list \<Rightarrow> 'r world \<Rightarrow> bool" where
  "visits_fine w as u = (kept UNIV w u
     \<and> (\<forall>a \<in> set as. \<exists>c p. a = Visiting c p \<and> visit_ok w c (clock u) p))"

lemma visits_fine_step:
  assumes "visits_fine w as u" and "links_inv w" and "times_ok (w_links w)" and "codes_clean (w_links w)"
    and "race_step R P fresh_visits any_time (as, u) (as', u')"
  shows "visits_fine w as' u'"
  using assms(5)
proof (cases rule: race_step_cases)
  case (arrives a)
  with assms(1) show ?thesis by (auto simp: visits_fine_def fresh_visits_def)
next
  case waits
  then have "clock u \<le> clock u'"
    by (cases "time_now u") (auto dest: time_now_mono)
  with assms(1) waits show ?thesis
    unfolding visits_fine_def by (metis kept_time_now visit_ok_later)
next
  case (moves i a)
  then have "as ! i \<in> set as" by simp
  then obtain c p where cp: "as ! i = Visiting c p" and ok: "visit_ok w c (clock u) p"
    using assms(1) unfolding visits_fine_def by blast
  obtain p' where step: "visit_step R c p u = (p', u')" and a: "a = Visiting c p'"
    using moves(3) cp by (auto split: prod.splits)
  have kept: "kept UNIV w u" using assms(1) by (simp add: visits_fine_def)
  have fine: "kept UNIV w u'"
    using visit_step_kept [OF kept assms(2,4) visit_ok_holds [OF ok]] step by simp
  have "visit_ok w c (clock u') p'"
    using kept by (intro visit_step_ok [OF _ assms(2,3) ok step]) (simp add: kept_def)
  moreover have "clock u \<le> clock u'"
    using clock_frame.P_visit_step [of "clock u" u R c p] step by simp
  ultimately show ?thesis
    using assms(1) fine a moves(4) visit_ok_later
    by (fastforce simp: visits_fine_def dest: set_update_cases)
qed

lemma visits_fine_races:
  assumes "coherent R w" and "links_inv w" and "times_ok (w_links w)" and "codes_clean (w_links w)"
    and "races R P fresh_visits any_time ([], w) (as, u)"
  shows "visits_fine w as u"
  using assms(5)
proof (induction rule: races_invariant)
  case start
  show ?case using assms(1) by (simp add: visits_fine_def kept_coherent)
next
  case (step as u as' u')
  then show ?case using visits_fine_step assms(2-4) by blast
qed

end

text \<open>C19: Any number of visits that arrive at any time and whose calls interleave in any order, whatever
  the calls answer, are as good as visits one after the other: when the cache was coherent, each that
  has been answered was answered as the links table says, the cache is coherent, and the table is as it
  was.\<close>

theorem concurrent_visits_faithful:
  assumes "redis_server R" and "coherent R w" and "links_inv w" and "times_ok (w_links w)"
    and "codes_clean (w_links w)" and "races R P fresh_visits any_time ([], w) (as, w')"
    and "Visiting c (V_Answered (r, hit)) \<in> set as"
  shows "answers_for w c (clock w') r \<and> coherent R w' \<and> w_links w' = w_links w"
  using redis_server.visits_fine_races [OF assms(1-6)] assms(7)
  by (fastforce simp: redis_server.visits_fine_def [OF assms(1)] redis_server.kept_coherent [OF assms(1)])

section \<open>Visits and writes\<close>

text \<open>
  The restriction under which deletions and updates are harmless: the row of a link is not written while
  a visit of its code holds it, between reading the row and writing it to the cache.
\<close>

fun holds_code :: "string \<Rightarrow> actor \<Rightarrow> bool" where
  "holds_code c (Visiting d (V_Found l)) = (c = d)"
| "holds_code c a = False"

fun exclusive :: "actor list \<Rightarrow> actor \<Rightarrow> bool" where
  "exclusive as (Deleting i (D_Found l)) = list_all (\<lambda>a. \<not> holds_code (l_short_code l) a) as"
| "exclusive as (Updating input (U_Found l)) = list_all (\<lambda>a. \<not> holds_code (l_short_code l) a) as"
| "exclusive as a = True"

definition fresh_actors :: "actor set" where
  "fresh_actors = fresh_visits \<union> range (\<lambda>i. Deleting i D_Started) \<union> range (\<lambda>input. Updating input U_Started)"

text \<open>A write is half way for a code when it has written the row and not yet deleted the keys.\<close>

fun half_way :: "string \<Rightarrow> actor \<Rightarrow> bool" where
  "half_way c (Deleting i (D_Marked l)) = (l_short_code l = c)"
| "half_way c (Updating input (U_Saved l)) = (l_short_code l = c)"
| "half_way c a = False"

text \<open>What a writer knows of the row it is about to write.\<close>

definition code_of_id :: "'r world \<Rightarrow> string \<Rightarrow> string \<Rightarrow> bool" where
  "code_of_id w i c = (\<forall>x \<in> set (w_links w). l_id x = i \<longrightarrow> l_short_code x = c)"

fun actor_ok :: "'r world \<Rightarrow> actor \<Rightarrow> bool" where
  "actor_ok w (Visiting c p) = holds_rows w c p"
| "actor_ok w (Deleting i (D_Found l)) = code_of_id w i (l_short_code l)"
| "actor_ok w (Updating input (U_Found l)) = code_of_id w (l_id l) (l_short_code l)"
| "actor_ok w a = True"

lemma holds_rows_links: "w_links u = w_links w \<Longrightarrow> holds_rows u = holds_rows w"
  using live_row_links by (fastforce simp: fun_eq_iff elim: holds_rows.elims)

lemma actor_ok_links:
  assumes "w_links u = w_links w"
  shows "actor_ok u a = actor_ok w a"
  using holds_rows_links [OF assms] assms
  by (cases "(w, a)" rule: actor_ok.cases) (simp_all add: code_of_id_def)

text \<open>An update of rows that keeps ids, codes and dead rows: nothing happens, or the rows are replaced.\<close>

definition rewritten :: "(link \<Rightarrow> bool) \<Rightarrow> (link \<Rightarrow> link) \<Rightarrow> 'r world \<Rightarrow> 'r world \<Rightarrow> bool" where
  "rewritten p g w w' = (w' = w\<lparr>w_links := map (\<lambda>x. if p x then g x else x) (w_links w)\<rparr>)"

lemma pg_update_links_up:
  assumes "pg_update_links p f w = (r, w')"
  shows "w' = w \<and> (r = Inr 0 \<or> isl r) \<or> (\<exists>n > 0. r = Inr n) \<and> rewritten p (\<lambda>x. touch_link (clock w) (f x)) w w'"
  using assms
proof (cases rule: pg_update_links_cases)
  case 2
  show ?thesis
  proof (cases "filter p (w_links w) = []")
    case True
    then have "map (\<lambda>x. if p x then touch_link (clock w) (f x) else x) (w_links w) = w_links w"
      by (intro map_idI) (auto simp: filter_empty_conv)
    with 2 True show ?thesis by simp
  next
    case False
    with 2 show ?thesis by (simp add: rewritten_def)
  qed
qed simp

lemma Repository_writes_cases:
  assumes "outcomes w = []"
  shows "Repository_DeleteLink i w = (r, w') \<Longrightarrow> (\<exists>e. r = Inl e) \<and> w' = w \<or> r = Inr () \<and>
      rewritten (\<lambda>x. l_id x = i \<and> live_link x) (\<lambda>x. touch_link (clock w) (delete_link_row (clock w) x)) w w'"
    and "Repository_UpdateLink l w = (r, w') \<Longrightarrow> (\<exists>e. r = Inl e) \<and> w' = w \<or> r = Inr () \<and>
      rewritten (\<lambda>x. l_id x = l_id l \<and> live_link x) (\<lambda>x. touch_link (clock w) (set_link_fields l x)) w w'"
proof -
  obtain x u where u: "pg_update_links (\<lambda>x. l_id x = i \<and> live_link x) (delete_link_row (clock w)) w = (x, u)"
    by fastforce
  from pg_update_links_up [OF u] show "(\<exists>e. r = Inl e) \<and> w' = w \<or> r = Inr () \<and> rewritten
      (\<lambda>x. l_id x = i \<and> live_link x) (\<lambda>x. touch_link (clock w) (delete_link_row (clock w) x)) w w'"
    if "Repository_DeleteLink i w = (r, w')"
    using that u assms by (cases x) (auto simp: Repository_DeleteLink_def split: if_splits)
next
  obtain x u where u: "pg_update_links (\<lambda>x. l_id x = l_id l \<and> live_link x) (set_link_fields l) w = (x, u)"
    by fastforce
  from pg_update_links_up [OF u] show "(\<exists>e. r = Inl e) \<and> w' = w \<or> r = Inr () \<and> rewritten
      (\<lambda>x. l_id x = l_id l \<and> live_link x) (\<lambda>x. touch_link (clock w) (set_link_fields l x)) w w'"
    if "Repository_UpdateLink l w = (r, w')"
    using that u assms by (cases x) (auto simp: Repository_UpdateLink_def split: if_splits)
qed

text \<open>The rows of the other codes stay, and no row comes to life.\<close>

lemma rewritten_rows:
  assumes "rewritten p g w w'" and "\<And>x. l_id (g x) = l_id x \<and> l_short_code (g x) = l_short_code x"
    and "\<forall>x. live_link (g x) \<longrightarrow> live_link x"
    and "\<forall>x \<in> set (w_links w). p x \<longrightarrow> l_short_code x = c"
  shows "d \<noteq> c \<Longrightarrow> live_row w' d = live_row w d"
    and "\<forall>l. \<not> live_row w d l \<Longrightarrow> \<not> live_row w' d l"
    and "code_of_id w' i e = code_of_id w i e" and "codes_clean (w_links w') = codes_clean (w_links w)"
proof -
  let ?g = "\<lambda>x. if p x then g x else x"
  have links: "w_links w' = map ?g (w_links w)" and keeps: "l_id (?g x) = l_id x" "l_short_code (?g x) = l_short_code x" for x
    using assms(1,2) by (simp_all add: rewritten_def)
  show "live_row w' d = live_row w d" if "d \<noteq> c"
  proof (rule ext)
    fix y
    have "y \<in> ?g ` set (w_links w) \<longleftrightarrow> y \<in> set (w_links w)" if y: "l_short_code y = d"
    proof
      assume "y \<in> ?g ` set (w_links w)"
      then obtain x where "x \<in> set (w_links w)" and "y = ?g x" by blast
      with y \<open>d \<noteq> c\<close> assms(4) keeps(2) [of x] show "y \<in> set (w_links w)" by (cases "p x") auto
    next
      assume "y \<in> set (w_links w)"
      with y \<open>d \<noteq> c\<close> assms(4) show "y \<in> ?g ` set (w_links w)" by (intro image_eqI [of _ _ y]) auto
    qed
    then show "live_row w' d y = live_row w d y"
      by (auto simp: live_row_def links)
  qed
  show "\<not> live_row w' d l" if "\<forall>l. \<not> live_row w d l"
    using that assms(2,3) by (auto simp: live_row_def links split: if_splits)
  show "code_of_id w' i e = code_of_id w i e"
    by (simp only: code_of_id_def links set_map ball_simps keeps)
  show "codes_clean (w_links w') = codes_clean (w_links w)"
    by (simp only: codes_clean_def list_all_iff links set_map ball_simps keeps)
qed

context redis_server begin

definition race_fine :: "actor list \<Rightarrow> 'r world \<Rightarrow> bool" where
  "race_fine as u = (outcomes u = [] \<and> links_inv u \<and> codes_clean (w_links u)
     \<and> (\<forall>a \<in> set as. actor_ok u a)
     \<and> (\<forall>c. coherent_at R u c \<or> (\<exists>a \<in> set as. half_way c a)))"

lemma race_fine_up: "race_fine as u \<Longrightarrow> outcomes u = []"
  by (simp add: race_fine_def)

lemma race_fine_later:
  assumes "race_fine as u" and "untouched u v"
  shows "race_fine as v"
proof -
  have v: "w_links v = w_links u" "w_redis v = w_redis u" "clock u \<le> clock v" "outcomes v = []"
    using assms(2) by (simp_all add: untouched_def)
  then have "coherent_at R u c \<Longrightarrow> coherent_at R v c" for c
    using coherent_at_later by blast
  with assms(1) v actor_ok_links [OF v(1)] show ?thesis
    unfolding race_fine_def links_inv_def by metis
qed

text \<open>A step that leaves the table alone, keeps what was coherent and is not taken by a half-way write.\<close>

lemma race_fine_read:
  assumes "race_fine as u" and "\<And>D. kept D u u \<Longrightarrow> kept D u u'" and "outcomes u' = []"
    and "actor_ok u a" and "\<And>c. half_way c (as ! i) \<Longrightarrow> half_way c a \<or> coherent_at R u' c"
  shows "race_fine (as[i := a]) u'"
proof -
  have links: "w_links u' = w_links u"
    using assms(2) [of "{}"] by (simp add: kept_def)
  have "coherent_at R u' c" if "coherent_at R u c" for c
    using assms(2) [of "{c}"] that by (simp add: kept_def)
  moreover have "coherent_at R u' c \<or> (\<exists>b \<in> set (as[i := a]). half_way c b)"
    if "b \<in> set as" and "half_way c b" for b c
  proof (cases "b = as ! i")
    case True
    then have "i < length as \<Longrightarrow> a \<in> set (as[i := a])" by (rule_tac set_update_memI)
    with True that assms(5) show ?thesis
      by (cases "i < length as") (auto simp: list_update_beyond)
  next
    case False
    with that show ?thesis using set_update_others by metis
  qed
  ultimately have "coherent_at R u' c \<or> (\<exists>b \<in> set (as[i := a]). half_way c b)" for c
    using assms(1) unfolding race_fine_def by metis
  with assms(1,3,4) links show ?thesis
    unfolding race_fine_def links_inv_def using actor_ok_links [OF links]
    by (metis set_update_cases)
qed

lemma race_fine_visit:
  assumes "race_fine as u" and "Visiting c p \<in> set as" and "visit_step R c p u = (p', u')"
    and "as ! i = Visiting c p"
  shows "race_fine (as[i := Visiting c p']) u'"
proof (rule race_fine_read [OF assms(1)])
  have fine: "links_inv u" "codes_clean (w_links u)" "holds_rows u c p" "outcomes u = []"
    using assms(1,2) by (auto simp: race_fine_def)
  then show "kept D u u \<Longrightarrow> kept D u u'" for D
    using visit_step_kept [of D u u c p] assms(3) by simp
  from this [of "{}"] have links: "w_links u' = w_links u"
    by (simp add: kept_def)
  show "outcomes u' = []"
    using up_frame.P_visit_step [OF fine(4), of R c p] assms(3) by simp
  show "actor_ok u (Visiting c p')"
    using visit_step_holds [OF assms(3)] by simp
qed (simp add: assms(4))

text \<open>A write of the row that no visit holds.\<close>

lemma race_fine_written:
  assumes "race_fine as u" and "i < length as" and "list_all (\<lambda>a. \<not> holds_code c a) as"
    and "\<And>d. \<not> half_way d (as ! i)" and "half_way c a" and "\<And>w. actor_ok (w :: 'r world) a"
    and rew: "rewritten p g u v" and "links_inv v"
    and keeps: "\<And>x. l_id (g x) = l_id x \<and> l_short_code (g x) = l_short_code x"
      "\<forall>x. live_link (g x) \<longrightarrow> live_link x"
    and code: "\<forall>x \<in> set (w_links u). p x \<longrightarrow> l_short_code x = c"
  shows "race_fine (as[i := a]) (record_metric f v)"
proof -
  let ?v = "record_metric f v"
  note rows = rewritten_rows [OF rew keeps code]
  have v: "w_redis ?v = w_redis u" "clock ?v = clock u" "outcomes ?v = outcomes u" "w_links ?v = w_links v"
    using rew by (simp_all add: rewritten_def)
  have here: "a \<in> set (as[i := a])"
    using assms(2) by (rule set_update_memI)
  have "coherent_at R ?v d \<or> (\<exists>b \<in> set (as[i := a]). half_way d b)" for d
  proof (cases "d = c")
    case True
    with assms(5) here show ?thesis by blast
  next
    case False
    have "live_row ?v d = live_row u d" and "clock u \<le> clock ?v"
      using rows(1) [OF False] live_row_links [OF v(4)] v(2) by simp_all
    then have "coherent_at R u d \<Longrightarrow> coherent_at R ?v d"
      using coherent_at_rows v(1) by blast
    moreover have "b \<in> set (as[i := a])" if "b \<in> set as" and "half_way d b" for b
      using set_update_others that assms(4) by metis
    ultimately show ?thesis
      using assms(1) unfolding race_fine_def by metis
  qed
  moreover have "actor_ok v b" if "b \<in> set as" for b
  proof -
    have ok: "actor_ok u b" and free: "\<not> holds_code c b"
      using assms(1,3) that by (auto simp: race_fine_def list_all_iff)
    have "holds_rows v d q" if "b = Visiting d q" for d q
      using ok free rows(1,2) [of d] that by (cases q) auto
    with ok show ?thesis
      by (cases "(v, b)" rule: actor_ok.cases) (auto simp: rows(3))
  qed
  moreover have "codes_clean (w_links v)"
    using assms(1) by (simp add: race_fine_def rows(4))
  moreover have "outcomes ?v = []"
    using v(3) race_fine_up [OF assms(1)] by simp
  ultimately show ?thesis
    using assms(6,8) actor_ok_links [OF v(4)]
    by (auto simp: race_fine_def links_inv_def dest!: set_update_cases)
qed

text \<open>The reads and the deletion of the keys, by a writer.\<close>

lemma race_fine_idle:
  assumes "race_fine as u" and "actor_ok u a" and "\<And>d. \<not> half_way d (as ! i)"
  shows "race_fine (as[i := a]) u"
  by (rule race_fine_read [OF assms(1)]) (simp_all add: assms(2,3) race_fine_up [OF assms(1)])

lemma race_fine_clears:
  assumes "race_fine as u" and "\<And>w. actor_ok (w :: 'r world) a" and "\<And>d. half_way d (as ! i) \<longleftrightarrow> d = c"
  shows "race_fine (as[i := a]) (snd (Cache_DeleteLink R c u))"
proof (rule race_fine_read [OF assms(1)])
  show "kept D u u \<Longrightarrow> kept D u (snd (Cache_DeleteLink R c u))" for D
    by (rule Cache_DeleteLink_kept)
  show "outcomes (snd (Cache_DeleteLink R c u)) = []"
    using race_fine_up [OF assms(1)] by (rule up_frame.P_cache(4))
  show "actor_ok u a" by (rule assms(2))
  show "half_way d a \<or> coherent_at R (snd (Cache_DeleteLink R c u)) d" if "half_way d (as ! i)" for d
    using that assms(3) DeleteLink_clears [OF race_fine_up [OF assms(1)]] by simp
qed

lemma read_row:
  assumes "links_inv u" and "LinkService_GetLink k u = (Inr l, v)"
  shows "code_of_id u k (l_short_code l)" and "l_id l = k"
proof -
  have l: "l \<in> set (w_links u)" "l_id l = k"
    using assms(2) GetLinkByID_row GetLink_Inr by blast+
  then show "l_id l = k" by simp
  have "x = l" if "x \<in> set (w_links u)" and "l_id x = k" for x
    using row_of_id [OF assms(1) l(1) that(1)] that(2) l(2) by simp
  then show "code_of_id u k (l_short_code l)" by (auto simp: code_of_id_def)
qed

lemma race_fine_delete:
  assumes "race_fine as u" and "as ! i = Deleting k p" and "i < length as" and "exclusive as (as ! i)"
    and "delete_step R k p u = (p', u')"
  shows "race_fine (as[i := Deleting k p']) u'"
proof (cases p)
  case D_Started
  obtain g v where g: "LinkService_GetLink k u = (g, v)" by fastforce
  with up_GetLink [OF race_fine_up [OF assms(1)], of k] have "v = u" by simp
  have inv: "links_inv u" using assms(1) by (simp add: race_fine_def)
  have "u' = u \<and> actor_ok u (Deleting k p')"
  proof (cases g)
    case (Inl e)
    with g \<open>v = u\<close> D_Started assms(5) show ?thesis by auto
  next
    case (Inr l)
    with g \<open>v = u\<close> D_Started assms(5) read_row [OF inv, of k l v] show ?thesis by auto
  qed
  with D_Started assms(2) show ?thesis
    by (simp add: race_fine_idle [OF assms(1)])
next
  case (D_Found l)
  obtain r v where r: "Repository_DeleteLink k u = (r, v)" by fastforce
  have inv: "links_inv v"
    using Repository_links_inv(3) [of u k] assms(1) r by (simp add: race_fine_def)
  have "code_of_id u k (l_short_code l)"
    using assms(1-3) D_Found nth_mem [OF assms(3)] by (auto simp: race_fine_def)
  then have code: "\<forall>x \<in> set (w_links u). l_id x = k \<and> live_link x \<longrightarrow> l_short_code x = l_short_code l"
    by (simp add: code_of_id_def)
  from Repository_writes_cases(1) [OF race_fine_up [OF assms(1)] r] show ?thesis
  proof
    assume "(\<exists>e. r = Inl e) \<and> v = u"
    then obtain e where "u' = u" and "p' = D_Answered (Inl e)"
      using r D_Found assms(5) by auto
    with D_Found assms(2) show ?thesis by (simp add: race_fine_idle [OF assms(1)])
  next
    assume "r = Inr () \<and> rewritten (\<lambda>x. l_id x = k \<and> live_link x)
        (\<lambda>x. touch_link (clock u) (delete_link_row (clock u) x)) u v"
    moreover from this race_fine_written [OF assms(1,3), of "l_short_code l" "Deleting k (D_Marked l)"
        "\<lambda>x. l_id x = k \<and> live_link x" "\<lambda>x. touch_link (clock u) (delete_link_row (clock u) x)" v IncLinkDeleted]
    have "race_fine (as[i := Deleting k (D_Marked l)]) (record_metric IncLinkDeleted v)"
      using assms(2,4) D_Found inv code by (simp add: delete_link_row_keeps)
    ultimately show ?thesis
      using r D_Found assms(5) by simp
  qed
next
  case (D_Marked l)
  then have "u' = snd (Cache_DeleteLink R (l_short_code l) u)" and "p' = D_Answered (Inr ())"
    using assms(5) by simp_all
  with D_Marked assms(2) show ?thesis by (simp add: race_fine_clears [OF assms(1)] eq_commute)
next
  case (D_Answered r)
  then have "u' = u" and "p' = D_Answered r"
    using assms(5) by simp_all
  with D_Answered assms(2) show ?thesis by (simp add: race_fine_idle [OF assms(1)])
qed

lemma edited_row:
  assumes "edited P input l w = (x, v)" and "untouched w w"
  shows "untouched w v" and "x = Inr l' \<Longrightarrow> same_row l' l"
proof -
  obtain b w1 where b: "is_expired_now l w = (b, w1)" by fastforce
  note w1 = untouched_reads(1) [OF assms(2) b]
  have "untouched w v \<and> (x = Inr l' \<longrightarrow> same_row l' l)" for l'
  proof (cases "\<exists>l2 l3. \<not> b \<and> apply_destination P (ui_destination input) l = Inr l2
      \<and> apply_redirect_type (ui_redirect_type input) l2 = Inr l3")
    case False
    then have "\<exists>e. x = Inl e" and "v = w1"
      using assms(1) b by (auto simp: edited_def split: if_splits sum.splits) metis+
    with w1 show ?thesis by auto
  next
    case True
    then obtain l2 l3 where l3: "\<not> b" "apply_destination P (ui_destination input) l = Inr l2"
      "apply_redirect_type (ui_redirect_type input) l2 = Inr l3" by blast
    obtain y w2 where y: "apply_expiry (ui_clear_expiry input) (ui_expires_at input) l3 w1 = (y, w2)"
      by fastforce
    have "x = map_sum id (apply_enabled (ui_enabled input)) y" and "v = w2"
      using assms(1) b l3 y by (auto simp: edited_def split: sum.splits)
    moreover have "y = Inr l4 \<Longrightarrow> same_row (apply_enabled (ui_enabled input) l4) l" for l4
      using edits_same_row l3(2,3) y same_row_trans by metis
    ultimately show ?thesis
      using untouched_reads(3) [OF w1 y] by (cases y) auto
  qed
  then show "untouched w v" and "x = Inr l' \<Longrightarrow> same_row l' l" by blast+
qed

lemma race_fine_update:
  assumes "race_fine as u" and "as ! i = Updating input p" and "i < length as" and "exclusive as (as ! i)"
    and "update_step R P input p u = (p', u')"
  shows "race_fine (as[i := Updating input p']) u'"
proof (cases p)
  case U_Started
  obtain g v where g: "LinkService_GetLink (ui_id input) u = (g, v)" by fastforce
  with up_GetLink [OF race_fine_up [OF assms(1)], of "ui_id input"] have "v = u" by simp
  have inv: "links_inv u" using assms(1) by (simp add: race_fine_def)
  have "u' = u \<and> actor_ok u (Updating input p')"
  proof (cases g)
    case (Inl e)
    with g \<open>v = u\<close> U_Started assms(5) show ?thesis by auto
  next
    case (Inr l)
    with g \<open>v = u\<close> U_Started assms(5) read_row [OF inv, of "ui_id input" l v] show ?thesis by auto
  qed
  with U_Started assms(2) show ?thesis
    by (simp add: race_fine_idle [OF assms(1)])
next
  case (U_Found l)
  obtain x w1 where x: "edited P input l u = (x, w1)" by fastforce
  have "untouched u u" using race_fine_up [OF assms(1)] by (simp add: untouched_def)
  note edit = edited_row [OF x this]
  note fine = race_fine_later [OF assms(1) edit(1)]
  show ?thesis
  proof (cases x)
    case (Inl e)
    with x U_Found assms(5) have "u' = w1" and "p' = U_Answered (Inl e)" by simp_all
    with U_Found assms(2) show ?thesis by (simp add: race_fine_idle [OF fine])
  next
    case (Inr l')
    obtain r v where r: "Repository_UpdateLink l' w1 = (r, v)" by fastforce
    have row: "l_id l' = l_id l" "l_short_code l' = l_short_code l"
      using edit(2) Inr by (simp_all add: same_row_def)
    have inv: "links_inv v"
      using Repository_links_inv(2) [of w1 l'] fine r by (simp add: race_fine_def)
    have "code_of_id w1 (l_id l) (l_short_code l)"
      using fine assms(2) U_Found nth_mem [OF assms(3)] by (auto simp: race_fine_def)
    then have code: "\<forall>y \<in> set (w_links w1). l_id y = l_id l' \<and> live_link y \<longrightarrow> l_short_code y = l_short_code l'"
      using row by (simp add: code_of_id_def)
    from Repository_writes_cases(2) [OF race_fine_up [OF fine] r] show ?thesis
    proof
      assume "(\<exists>e. r = Inl e) \<and> v = w1"
      then obtain e where "u' = w1" and "p' = U_Answered (Inl e)"
        using r x Inr U_Found assms(5) by auto
      with U_Found assms(2) show ?thesis by (simp add: race_fine_idle [OF fine])
    next
      assume "r = Inr () \<and> rewritten (\<lambda>y. l_id y = l_id l' \<and> live_link y)
          (\<lambda>y. touch_link (clock w1) (set_link_fields l' y)) w1 v"
      moreover from this race_fine_written [OF fine assms(3), of "l_short_code l'" "Updating input (U_Saved l')"
          "\<lambda>y. l_id y = l_id l' \<and> live_link y" "\<lambda>y. touch_link (clock w1) (set_link_fields l' y)" v IncLinkUpdated]
      have "race_fine (as[i := Updating input (U_Saved l')]) (record_metric IncLinkUpdated v)"
        using assms(2,4) U_Found inv code row by (simp add: set_link_fields_keeps)
      ultimately show ?thesis
        using r x Inr U_Found assms(5) by simp
    qed
  qed
next
  case (U_Saved l)
  then have "u' = snd (Cache_DeleteLink R (l_short_code l) u)" and "p' = U_Answered (Inr l)"
    using assms(5) by simp_all
  with U_Saved assms(2) show ?thesis by (simp add: race_fine_clears [OF assms(1)] eq_commute)
next
  case (U_Answered r)
  then have "u' = u" and "p' = U_Answered r"
    using assms(5) by simp_all
  with U_Answered assms(2) show ?thesis by (simp add: race_fine_idle [OF assms(1)])
qed

lemma race_fine_step:
  assumes "race_fine as u" and "race_step R P fresh_actors exclusive (as, u) (as', u')"
  shows "race_fine as' u'"
  using assms(2)
proof (cases rule: race_step_cases)
  case (arrives a)
  then have "actor_ok u a"
    by (auto simp: fresh_actors_def fresh_visits_def)
  with arrives assms(1) show ?thesis by (auto simp: race_fine_def)
next
  case waits
  have "untouched u u" using race_fine_up [OF assms(1)] by (simp add: untouched_def)
  then have "untouched u u'"
    using waits untouched_time by (cases "time_now u") simp
  with assms(1) waits show ?thesis using race_fine_later by simp
next
  case (moves i a)
  show ?thesis
  proof (cases "as ! i")
    case (Visiting c p)
    with moves assms(1) show ?thesis
      using race_fine_visit [of as u c p _ _ i] nth_mem [of i as] by (auto split: prod.splits)
  next
    case (Deleting k p)
    with moves assms(1) show ?thesis
      using race_fine_delete [of as u i k p] by (auto split: prod.splits)
  next
    case (Updating input p)
    with moves assms(1) show ?thesis
      using race_fine_update [of as u i input p P] by (auto split: prod.splits)
  qed
qed

lemma race_fine_races:
  assumes "coherent R w" and "links_inv w" and "codes_clean (w_links w)" and "outcomes w = []"
    and "races R P fresh_actors exclusive ([], w) (as, u)"
  shows "race_fine as u"
  using assms(5)
proof (induction rule: races_invariant)
  case start
  show ?case using assms(1-4) by (simp add: race_fine_def coherent_def)
next
  case (step as u as' u')
  then show ?case by (rule race_fine_step)
qed

end


section \<open>Runs on the reference server\<close>

theorem concurrent_visits_faithful_witness:
  "\<exists>w' r hit. races ref_redis (\<lambda>_. None) fresh_visits any_time ([], sample_world)
      ([Visiting ''abd'' (V_Answered (r, hit))], w') \<and> answers_for sample_world ''abd'' (clock w') r"
proof -
  obtain r hit w' where res: "resolve ref_redis ''abd'' sample_world = ((r, hit), w')"
    by (metis prod.exhaust)
  have start: "races ref_redis (\<lambda>_. None) fresh_visits any_time ([], sample_world) ([Visiting ''abd'' V_Started], sample_world)"
    using arrives [of "Visiting ''abd'' V_Started" fresh_visits ref_redis "\<lambda>_. None" any_time "[]" sample_world]
    by (intro races_one) (simp add: fresh_visits_def)
  have steps: "actor_steps 5 ref_redis (\<lambda>_. None) (Visiting ''abd'' V_Started) sample_world
      = (Visiting ''abd'' (V_Answered (r, hit)), w')"
    using res by (simp add: visit_alone)
  have "races ref_redis (\<lambda>_. None) fresh_visits any_time ([Visiting ''abd'' V_Started], sample_world)
      ([Visiting ''abd'' (V_Answered (r, hit))], w')"
    using races_alone [OF steps, of 0 "[_]"] by simp
  note run = races_trans [OF start this]
  have "answers_for sample_world ''abd'' (clock w') r"
    using concurrent_visits_faithful [OF ref_server.redis_server_axioms sample_coherent sample_world_inv
        sample_ok run] by simp
  with run show ?thesis by blast
qed


end
