(* ===== verification/Cache_Stale.thy ===== *)
theory Cache_Stale imports Cache_Race begin

text \<open>
  Why the restriction of \<open>Cache_Race\<close> is needed: an interleaving of one visit and one deletion after
  which the deleted link is served from the cache for a day.
\<close>

text \<open>A server that creates an absent hash and keeps it until its time to live has passed.\<close>

locale redis_keeps = redis_server +
  assumes hset_absent: "\<not> r_exists R k t s \<Longrightarrow> \<exists>s'. r_hset R k fs t s = Inr s'"
    and expire_keeps: "t \<le> u \<Longrightarrow> u < t + d \<Longrightarrow> hash_at R k u (r_expire R k d t s) = hash_at R k t s"

interpretation ref_keeps: redis_keeps ref_redis
  by unfold_locales (auto simp: ref_exists_def ref_hset_def ref_expire_def hash_at_ref ref_look_def
      split: option.splits prod.splits if_splits)

text \<open>With every call answered, a live link is deleted, and its keys are gone.\<close>

lemma DeleteLink_up:
  assumes "outcomes w = []" and "links_inv w" and "live_row w c l"
  obtains w' where "LinkService_DeleteLink R (l_id l) w = (Inr (), w')" and "outcomes w' = []"
    and "clock w' = clock w" and "w_redis w' = r_del R [neg_key c] (r_del R [link_hash_key c] (w_redis w))"
    and "\<And>x. \<not> live_row w' c x"
proof -
  have l: "l \<in> set (w_links w)" "live_link l" "l_short_code l = c" and checks: "\<forall>x \<in> set (w_links w). link_check x = None"
    using assms(2,3) by (simp_all add: live_row_def links_inv_def links_ok_def)
  have "find (\<lambda>r. l_id r = l_id l \<and> live_link r) (w_links w) = Some l"
  proof (cases "find (\<lambda>r. l_id r = l_id l \<and> live_link r) (w_links w)")
    case None
    with l show ?thesis by (auto simp: find_None_iff)
  next
    case (Some x)
    then have "x \<in> set (w_links w)" and "l_id x = l_id l"
      by (auto dest: find_Some_in)
    with row_of_id [OF assms(2) l(1)] Some show ?thesis by simp
  qed
  then have get: "LinkService_GetLink (l_id l) w = (Inr l, w)"
    using assms(1) by (simp add: LinkService_GetLink_def Repository_GetLinkByID_def pg_link_by_id_def)
  obtain r v where r: "Repository_DeleteLink (l_id l) w = (r, v)" by fastforce
  obtain x u where u: "pg_update_links (\<lambda>y. l_id y = l_id l \<and> live_link y) (delete_link_row (clock w)) w = (x, u)"
    by fastforce
  have "x = Inr (length (filter (\<lambda>y. l_id y = l_id l \<and> live_link y) (w_links w)))"
    using u
  proof (cases rule: pg_update_links_cases)
    case (1 e)
    have "first_violation (map (\<lambda>r. touch_link (clock w) (delete_link_row (clock w) r))
        (filter (\<lambda>y. l_id y = l_id l \<and> live_link y) (w_links w))) = None"
      using checks by (auto simp: first_violation_None link_check_touched)
    with u 1 show ?thesis by (simp add: pg_update_links_def)
  qed
  moreover have "filter (\<lambda>y. l_id y = l_id l \<and> live_link y) (w_links w) \<noteq> []"
    using l by (auto simp: filter_empty_conv)
  ultimately have "r = Inr ()"
    using r u assms(1) by (simp add: Repository_DeleteLink_def split: if_splits)
  with Repository_writes_cases(1) [OF assms(1) r] have v: "v = w\<lparr>w_links := map (\<lambda>x. if l_id x = l_id l \<and> live_link x
      then touch_link (clock w) (delete_link_row (clock w) x) else x) (w_links w)\<rparr>"
    by (auto simp: rewritten_def)
  let ?w' = "snd (Cache_DeleteLink R c (record_metric IncLinkDeleted v))"
  show thesis
  proof (rule that [of ?w'])
    show "LinkService_DeleteLink R (l_id l) w = (Inr (), ?w')"
      using get r \<open>r = Inr ()\<close> l(3) by (simp add: LinkService_DeleteLink_def)
    show "outcomes ?w' = []" "clock ?w' = clock w"
      "w_redis ?w' = r_del R [neg_key c] (r_del R [link_hash_key c] (w_redis w))"
      using assms(1) v by (simp_all add: Cache_calls both_def rd_del_def)
    have links: "w_links ?w' = w_links v"
      using assms(1) v by (simp add: Cache_calls both_def rd_del_def)
    show "\<not> live_row ?w' c x" for x
      using links live_row_unique [OF assms(2,3), of x]
      by (auto simp: v live_row_def delete_link_row_keeps split: if_splits)
  qed
qed

text \<open>A visit of a live code that is neither cached nor negatively cached comes to hold the row.\<close>

lemma visit_finds_row:
  assumes "outcomes w = []" and "hash_now R w c = []" and "\<not> negative_now R w c"
    and "links_inv w" and "live_row w c l"
  obtains n u where "actor_steps n R P (Visiting c V_Started) w = (Visiting c (V_Found l), u)"
    and "u = w \<or> u = record_metric IncRedirectCacheMiss w"
proof -
  have found: "Repository_GetLinkByShortCode c u = (Inr l, u)" if "u = w \<or> u = record_metric IncRedirectCacheMiss w" for u
  proof -
    have rows: "live_row u = live_row w" and up: "outcomes u = []" and links: "w_links u = w_links w"
      using that assms(1) by (auto simp: live_row_def fun_eq_iff)
    have "find (\<lambda>r. l_short_code r = c \<and> live_link r) (w_links w) = Some l"
    proof (cases "find (\<lambda>r. l_short_code r = c \<and> live_link r) (w_links w)")
      case None
      with assms(5) show ?thesis by (auto simp: find_None_iff live_row_def)
    next
      case (Some x)
      then have "live_row w c x" by (auto simp: live_row_def dest: find_Some_in)
      with live_row_unique [OF assms(4,5)] Some show ?thesis by simp
    qed
    with up show ?thesis
      by (simp add: Repository_GetLinkByShortCode_def pg_link_by_code_def links)
  qed
  have read: "Cache_GetLink R c w = (Inl (Sentinel Cache_ErrCacheMiss), w)
      \<or> (\<exists>e. Cache_GetLink R c w = (Inl (Wrap ''redis hgetall failed'' e), w))"
    using assms(1,2) by (auto simp: Cache_GetLink_def rd_hgetall_def hash_now_def hash_at_def split: sum.splits)
  have neg: "Cache_IsNegativelyCached R c (record_metric IncRedirectCacheMiss w)
      = (Inr False, record_metric IncRedirectCacheMiss w)"
    using assms(1,3) by (simp add: Cache_IsNegativelyCached_def rd_exists_def negative_now_def)
  show thesis
  proof (cases "errors_is (case Cache_GetLink R c w of (Inl e, _) \<Rightarrow> e) Cache_ErrCacheMiss")
    case True
    with read neg found [of "record_metric IncRedirectCacheMiss w"] show thesis
      by (intro that [of 3 "record_metric IncRedirectCacheMiss w"]) (auto simp: eval_nat_numeral)
  next
    case False
    with read found [of w] show thesis
      by (intro that [of 2 w]) (auto simp: eval_nat_numeral)
  qed
qed

context redis_keeps begin

text \<open>The backfill of a link that does not expire, when the key is absent.\<close>

lemma SetLink_stores:
  assumes "outcomes w = []" and "l_expires_at l = None" and "link_check l = None" and "link_times_ok l"
    and "l_short_code l = c" and "\<not> r_exists R (link_hash_key c) (clock w) (w_redis w)"
    and "hash_now R w c = []"
  defines "v \<equiv> snd (Cache_SetLink R c l w)"
  assumes "w_redis u = w_redis v" and "clock w \<le> clock u" and "clock u < clock w + DefaultLinkTTL"
  shows "hash_now R u c \<noteq> []" and "agrees (hash_now R u c) l"
proof -
  let ?fs = "cache_fields (ToCachedLink l)" and ?k = "link_hash_key c"
  obtain s where s: "r_hset R ?k ?fs (clock w) (w_redis w) = Inr s"
    using hset_absent [OF assms(6)] by blast
  have v: "w_redis v = r_del R [neg_key c] (r_expire R ?k DefaultLinkTTL (clock w) s)"
    using assms(1,2) s
    by (simp add: v_def Cache_SetLink_def store_hash_def both_def rd_hset_def rd_expire_def rd_del_def)
  have now: "hash_now R u c = hash_at R ?k (clock w) s"
    using expire_keeps [OF assms(10,11)] by (simp add: hash_now_def assms(9) v del_hash)
  have "?fs \<noteq> []" by (simp add: cache_fields_def)
  with hset_nonempty [OF s] now show "hash_now R u c \<noteq> []" by simp
  have "map_of (hash_now R u c) = map_of [] ++ map_of ?fs"
    using hset_same [OF s] assms(7) now by (simp add: hash_now_def)
  then show "agrees (hash_now R u c) l"
    by (intro agrees_merge [where fs = "[]"]) simp_all
qed

lemma hit_of_hash:
  assumes "outcomes u = []" and "hash_now R u c \<noteq> []" and "agrees (hash_now R u c) l"
    and "link_check l = None" and "link_times_ok l" and "l_short_code l = c"
    and "l_deleted_at l = None" and "l_enabled l" and "l_expires_at l = None"
  obtains l' where "fst (resolve R c u) = (Inr l', True)" and "shows_row l' l"
proof -
  obtain up where image: "ToLink c (cached_of (hash_now R u c)) = cache_image l\<lparr>l_updated_at := up\<rparr>"
    using agrees_ToLink [OF assms(3-5)] assms(6) by blast
  let ?l' = "cache_image l\<lparr>l_updated_at := up\<rparr>"
  have "Cache_GetLink R c u = (Inr (cached_of (hash_now R u c)), u)"
    using assms(1,2) by (simp add: Cache_GetLink_def rd_hgetall_def hash_now_def hash_at_def split: sum.splits)
  moreover have "validateRedirectLink R ?l' c v = (Inr ?l', v)" for v
    using assms(7-9) by (simp add: validateRedirectLink_def is_expired_now_def cache_image_def)
  ultimately have "fst (resolve R c u) = (Inr ?l', True)"
    by (simp add: resolve_def image)
  moreover have "shows_row ?l' l"
    using assms(8) by (rule shows_row_image)
  ultimately show thesis by (rule that)
qed

lemma stale_backfill:
  assumes "outcomes w = []" and "hash_now R w c = []" and "\<not> negative_now R w c" and "links_inv w"
    and "live_row w c l" and "l_enabled l" and "l_expires_at l = None" and "link_times_ok l"
  shows "\<exists>w'. races R P {} any_time ([Visiting c V_Started, Deleting (l_id l) D_Started], w)
      ([Visiting c (V_Answered (Inr l, False)), Deleting (l_id l) (D_Answered (Inr ()))], w')
    \<and> (\<forall>x. \<not> live_row w' c x)
    \<and> (\<forall>u. outcomes u = [] \<and> w_redis u = w_redis w' \<and> clock w' \<le> clock u
        \<and> clock u < clock w' + DefaultLinkTTL \<longrightarrow>
        (\<exists>l'. fst (resolve R c u) = (Inr l', True) \<and> shows_row l' l))"
proof -
  obtain n w1 where 1: "actor_steps n R P (Visiting c V_Started) w = (Visiting c (V_Found l), w1)"
    and w1: "w1 = w \<or> w1 = record_metric IncRedirectCacheMiss w"
    by (rule visit_finds_row [OF assms(1-5)])
  have same: "outcomes w1 = []" "links_inv w1" "live_row w1 c l"
    using assms(1,4,5) w1 by (auto simp: links_inv_def live_row_def)
  obtain w2 where del: "LinkService_DeleteLink R (l_id l) w1 = (Inr (), w2)" and up2: "outcomes w2 = []"
    and clock2: "clock w2 = clock w1"
    and redis2: "w_redis w2 = r_del R [neg_key c] (r_del R [link_hash_key c] (w_redis w1))"
    and gone: "\<And>x. \<not> live_row w2 c x"
    by (rule DeleteLink_up [OF same, of R]) blast
  define w3 where "w3 = snd (Cache_SetLink R c l w2)"
  have l: "l_deleted_at l = None" "l_short_code l = c" "link_check l = None"
    using assms(4,5) by (auto simp: live_row_def live_link_def links_inv_def links_ok_def)
  have 3: "actor_steps 2 R P (Visiting c (V_Found l)) w2 = (Visiting c (V_Answered (Inr l, False)), w3)"
    using l(1) assms(6,7) by (simp add: eval_nat_numeral w3_def validateRedirectLink_def is_expired_now_def)
  have 2: "actor_steps 3 R P (Deleting (l_id l) D_Started) w1 = (Deleting (l_id l) (D_Answered (Inr ())), w2)"
    using del by (simp add: delete_alone)
  have "races R P {} any_time ([Visiting c V_Started, Deleting (l_id l) D_Started], w)
      ([Visiting c (V_Answered (Inr l, False)), Deleting (l_id l) (D_Answered (Inr ()))], w3)"
  proof (rule races_trans [OF races_trans])
    show "races R P {} any_time ([Visiting c V_Started, Deleting (l_id l) D_Started], w)
        ([Visiting c (V_Found l), Deleting (l_id l) D_Started], w1)"
      using races_alone [OF 1, of 0 "[_, _]"] by simp
    show "races R P {} any_time ([Visiting c (V_Found l), Deleting (l_id l) D_Started], w1)
        ([Visiting c (V_Found l), Deleting (l_id l) (D_Answered (Inr ()))], w2)"
      using races_alone [OF 2, of 1 "[_, _]"] by simp
    show "races R P {} any_time ([Visiting c (V_Found l), Deleting (l_id l) (D_Answered (Inr ()))], w2)
        ([Visiting c (V_Answered (Inr l, False)), Deleting (l_id l) (D_Answered (Inr ()))], w3)"
      using races_alone [OF 3, of 0 "[_, _]"] by simp
  qed
  moreover have "w_links w3 = w_links w2"
    unfolding w3_def by (rule links_frame.P_SetLink) simp
  then have "\<not> live_row w3 c x" for x
    using gone by (simp add: live_row_def)
  moreover have "clock w3 = clock w2"
    using assms(7) up2 by (simp add: w3_def Cache_SetLink_def store_hash_snd both_def rd_hset_def
        rd_expire_def rd_del_def split: sum.split)
  moreover have "\<exists>l'. fst (resolve R c u) = (Inr l', True) \<and> shows_row l' l"
    if "outcomes u = []" and "w_redis u = w_redis w3" and "clock w2 \<le> clock u"
      and "clock u < clock w2 + DefaultLinkTTL" for u
  proof -
    have "\<not> r_exists R (link_hash_key c) (clock w2) (w_redis w2)" and "hash_now R w2 c = []"
      by (simp_all add: redis2 del_exists del_hash hash_now_def)
    note stores = SetLink_stores [OF up2 assms(7) l(3) assms(8) l(2) this, folded w3_def, OF that(2-4)]
    from hit_of_hash [OF that(1) stores l(3) assms(8) l(2,1) assms(6,7)] show ?thesis by metis
  qed
  ultimately show ?thesis by auto
qed

end

text \<open>C15: The restriction is needed: a visit can put a deleted link back into the cache. For every live,
  enabled link without expiry whose code is in neither cache there is an interleaving of one visit and
  one deletion, all their calls answered, after which both have succeeded and the table has no live row
  of the code, and yet for the next 24 hours every visit that finds Redis as it was left is redirected
  to the destination of the deleted link.\<close>

theorem deleted_link_comes_back:
  assumes "redis_keeps R" and "outcomes w = []" and "hash_now R w c = []" and "\<not> negative_now R w c"
    and "links_inv w" and "live_row w c l" and "l_enabled l" and "l_expires_at l = None"
    and "link_times_ok l"
  shows "\<exists>w'. races R P {} any_time ([Visiting c V_Started, Deleting (l_id l) D_Started], w)
      ([Visiting c (V_Answered (Inr l, False)), Deleting (l_id l) (D_Answered (Inr ()))], w')
    \<and> (\<forall>x. \<not> live_row w' c x)
    \<and> (\<forall>u. outcomes u = [] \<and> w_redis u = w_redis w' \<and> clock w' \<le> clock u
        \<and> clock u < clock w' + DefaultLinkTTL \<longrightarrow>
        (\<exists>l'. fst (resolve R c u) = (Inr l', True) \<and> shows_row l' l))"
  by (rule redis_keeps.stale_backfill [OF assms])

theorem deleted_link_comes_back_witness:
  "\<exists>w'. (\<forall>x. \<not> live_row w' ''abd'' x)
    \<and> (\<exists>l'. fst (resolve ref_redis ''abd'' (w'\<lparr>outcomes := []\<rparr>)) = (Inr l', True)
        \<and> l_destination l' = ''https://example.org/a'')"
proof -
  have "hash_now ref_redis sample_world ''abd'' = []" and "\<not> negative_now ref_redis sample_world ''abd''"
    by (simp_all add: hash_now_def negative_now_def hash_at_def)
  moreover have "live_row sample_world ''abd'' (sample_link ''a2'' ''abd'' (5 * second))"
    by (simp add: live_row_def live_link_def) (simp add: sample_link_def)
  moreover have "link_times_ok (sample_link ''a2'' ''abd'' (5 * second))"
    using sample_ok(1) by (simp add: times_ok_def live_link_def) (simp add: sample_link_def)
  ultimately obtain w' where gone: "\<forall>x. \<not> live_row w' ''abd'' x" and served: "\<forall>u. outcomes u = []
      \<and> w_redis u = w_redis w' \<and> clock w' \<le> clock u \<and> clock u < clock w' + DefaultLinkTTL \<longrightarrow>
      (\<exists>l'. fst (resolve ref_redis ''abd'' u) = (Inr l', True)
        \<and> shows_row l' (sample_link ''a2'' ''abd'' (5 * second)))"
    using deleted_link_comes_back [OF ref_keeps.redis_keeps_axioms, where w = sample_world
        and c = "''abd''" and l = "sample_link ''a2'' ''abd'' (5 * second)" and P = "\<lambda>_. None"] by (auto simp: sample_link_def)
  have "\<exists>l'. fst (resolve ref_redis ''abd'' (w'\<lparr>outcomes := []\<rparr>)) = (Inr l', True)
      \<and> shows_row l' (sample_link ''a2'' ''abd'' (5 * second))"
    using served [rule_format, of "w'\<lparr>outcomes := []\<rparr>"] by (simp add: DefaultLinkTTL_def hour_def minute_def second_def)
  with gone show ?thesis
    by (intro exI [of _ w'] conjI) (auto simp: shows_row_def sample_link_def)
qed

end
