(* ===== verification/Spec2Isabelle.thy ===== *)
theory Spec2Isabelle imports Click_Delivery Auth_Revocation Key_Handler Rate_Limit Link_Journey
  Webhook_Ownership Webhook_Lifecycle Webhook_Receiver Analytics_Handler Public_Site Site_Journey Bootstrap
  Observability Cache_Stale begin

text \<open>
  Penshort is a URL shortener: an HTTP server in Go over PostgreSQL and Redis. A link maps a short code to
  a destination; \<open>GET /code\<close> redirects; an API, guarded by keys with scopes and rate limits, manages links,
  keys and webhooks and reports analytics. A redirect publishes a click event on a Redis stream; a worker
  stores the events, recomputes daily statistics and records webhook deliveries; a second worker sends the
  deliveries. This development models the whole of it but for what the last section lists.

  The parts and their theories. Sources are relative to \<open>src/internal\<close> unless they start otherwise.

  \<^item> Foundations. \<open>Prelude\<close>: errors as values of one type with \<open>errors.Is\<close>, the environment of a request
    (clock, outcome of every outside call, random numbers), tables as lists with updates by a predicate,
    and the locale \<open>lifecycle_table\<close> of rows that are live until they are marked. \<open>Go_Strings\<close>, \<open>Go_Time\<close>:
    the parts of the standard library that are used. \<open>Http\<close>: requests, the response writer, JSON values,
    \<open>handler/handler.go\<close>. \<open>World\<close>: the shared state, one record of the seven tables, the Redis store and
    the metrics. \<open>Redis_Interface\<close>, \<open>Stream_Interface\<close>: the commands of Redis as parameters with their
    laws, and reference servers that keep them.
  \<^item> Links. \<open>Link_Model\<close> (\<open>model/link.go\<close>), \<open>Link_Repo\<close> (\<open>repository/link.go\<close>), \<open>Link_Cache\<close>
    (\<open>cache/link.go\<close>), \<open>Link_Service\<close> (\<open>service/link.go\<close>) with \<open>Link_Redirect\<close> and \<open>Link_Writes\<close> on what
    it promises, \<open>Cache_Race\<close> and \<open>Cache_Stale\<close> (visits, deletions and updates of it interleaved call by
    call), \<open>Link_Handler\<close> (\<open>handler/link.go\<close>, \<open>handler/dto/link.go\<close>), \<open>Redirect_Handler\<close>
    (\<open>handler/redirect.go\<close>), and \<open>Link_Journey\<close>, which joins the two handlers.
  \<^item> Keys. \<open>Key_Model\<close> (\<open>model/apikey.go\<close>, \<open>user.go\<close>), \<open>Key_Gen\<close> (\<open>auth\<close>), \<open>Key_Repo\<close>
    (\<open>repository/apikey.go\<close>, \<open>user.go\<close>), \<open>Auth\<close> (\<open>cache/auth.go\<close>, \<open>middleware/auth.go\<close>, \<open>scope.go\<close>) with
    \<open>Auth_Revocation\<close>, \<open>Key_Handler\<close> (\<open>handler/apikey.go\<close>), \<open>Rate_Limit\<close> (\<open>cache/ratelimit.go\<close> with its Lua
    script, \<open>middleware/ratelimit.go\<close>), \<open>Bootstrap\<close> (\<open>src/scripts/bootstrap-api-key.go\<close>).
  \<^item> Analytics. \<open>Click_Stream\<close> (\<open>analytics/publisher.go\<close>, \<open>validation.go\<close>), \<open>Click_Repo\<close>
    (\<open>repository/click_event.go\<close>), \<open>Click_Worker\<close> (\<open>analytics/worker.go\<close>) with \<open>Click_Delivery\<close>,
    \<open>Analytics_Handler\<close> (\<open>handler/analytics.go\<close>), \<open>Metrics\<close> (\<open>metrics\<close>).
  \<^item> Webhooks. \<open>Webhook_Model\<close> (\<open>model/webhook.go\<close>), \<open>Webhook_Rules\<close> (\<open>webhook/retry.go\<close>, \<open>signer.go\<close>,
    \<open>crypto.go\<close>, \<open>validator.go\<close>), \<open>Webhook_Repo\<close> (\<open>webhook/repository.go\<close>), \<open>Webhook_Worker\<close>
    (\<open>webhook/publisher.go\<close>, \<open>client.go\<close>, \<open>worker.go\<close>) with \<open>Webhook_Lifecycle\<close>, \<open>Webhook_Handler\<close>
    (\<open>handler/webhook.go\<close>) with \<open>Webhook_Ownership\<close>, and \<open>Webhook_Receiver\<close>, the example receiver of
    \<open>src/docs/examples\<close>.
  \<^item> The server. \<open>Middleware\<close> (the remaining files of \<open>middleware\<close>), \<open>Status_Handlers\<close>
    (\<open>handler/health.go\<close>, \<open>admin.go\<close>, \<open>metrics.go\<close>), \<open>Config_Load\<close> (\<open>config/config.go\<close>), \<open>Server\<close>
    (\<open>server/server.go\<close> and the helpers of \<open>src/cmd/api/main.go\<close>), \<open>Router\<close> (\<open>setupRouter\<close>), \<open>App\<close> (the
    handlers that \<open>main\<close> builds behind the routes, with \<open>Reply_Types\<close>, the types of the replies),
    \<open>Public_Site\<close> (a visit through all of it), \<open>Site_Journey\<close> (a creation followed by a visit, both through
    all of it), \<open>Startup\<close> (\<open>main\<close> itself), \<open>Observability\<close> (the recorders of \<open>metrics\<close>, the line of each
    request in the log, \<open>initLogger\<close>).
  \<^item> The running system. \<open>Evolution\<close> and \<open>Whole_System\<close>: what every operation, every worker round and every
    run of them all does to the state.

  The style of the model. A method is a definition of the same name that takes the state \<open>'r world\<close> and
  returns its result with the new state; an error is \<open>Inl\<close>, a panic an error of its own. A \<open>pg_\<close>
  definition is one SQL statement with the constraints and triggers of its table in \<open>src/migrations\<close>; the
  method around it is the Go code. Every call to PostgreSQL or Redis consumes one outcome: it works, fails
  before its effect, or takes its effect and loses the answer; so each theorem about arbitrary states is
  one about arbitrary failures. Reading the clock adds the next of \<open>ticks\<close>. A handler maps a request, a
  writer and a state to a writer and a state, and a middleware maps handlers to handlers.
\<close>

text \<open>
  What is shown, in the order of the manifest.

  \<^item> Links: with a coherent cache a redirect answers as the table does, and whatever the cache and the calls
    do it never leads to a deleted, disabled or expired link; a deleted link is gone; paging lists each link
    once; created links satisfy the rules; visits that interleave call by call are as good as visits in
    turn; with deletions and updates among them the cache stays coherent if no row is written while a visit
    holds it, and without this a deleted link can come back for a day; a visit through the whole server
    is answered by the right answer or by 429, and a link created through the whole server redirects there
    to the destination it was created with.
  \<^item> Analytics: no message of the stream is lost by a pass of the worker, each event is stored once, daily
    statistics are those of the stored events, the breakdowns are the largest counts in order, and the
    analytics response is exactly what the table holds.
  \<^item> Webhooks: passes of the worker follow the life cycle of a delivery, attempts are bounded, delays stay
    near their table, signatures validate exactly in their window, accepted targets are external,
    users reach their own endpoints only, a deleted endpoint is silent; and two failures, the poll that a
    NULL stops and the receiver that refuses every delivery.
  \<^item> Keys: a generated key verifies and authenticates, a protected route is reached only by an
    authenticated key with its scope, for every mux; a revoked key is refused once its cache entry is
    gone; users cannot reach or notice the keys of others; admitted requests obey the token bucket.
  \<^item> The whole: the constraints of all tables hold in all reachable states, nothing is ever lost, a request
    without a credential changes no table, every reply has its documented type, and the server process
    starts and ends in the right order.

  How the proofs are built. Contracts are locales, interpreted on the code's own definitions or, for what
  is not under \<open>src\<close>, on a reference implementation, so that no law is empty: \<open>redis_server\<close>,
  \<open>redis_expiry\<close>, \<open>redis_hash_ttl\<close>, \<open>redis_frame\<close>, \<open>stream_server\<close>, \<open>chi_mux\<close>, \<open>env_package\<close>,
  \<open>redis_keeps\<close>, \<open>lifecycle_table\<close>, \<open>scope_holder\<close>, and \<open>chi_mounts\<close>, which extends \<open>chi_mux\<close>
  by the law of a mounted router. The contract \<open>hands_on\<close> of a middleware, that it passes the request on with the parts a handler
  reads unchanged, is proved for each and composes along the chain. The locales
  \<open>quiet\<close> and \<open>evolution\<close> of \<open>Evolution\<close> carry the
  proofs about the running system: a relation between states that is reflexive, transitive and kept by
  each of the seventeen writing statements is kept by every handler, route, middleware, worker and command; it is
  interpreted with the constraints, with the history of the rows, and with the equality of the tables.

  Recursion and bounds. Loops with an index or a text are functions with a measure; the shutdown loop
  counts down. \<open>all_pages\<close>, which follows the cursors of a listing, has fuel, and one more than the number
  of rows is shown to be enough. The loops of the workers, which the program never leaves by itself, run
  over a list of rounds or loop events, so a property of every list is one of every length of run.
  Integers that wrap where it matters are words: the counters of \<open>Metrics\<close>, the timestamps of signatures,
  the offset of a page, \<open>itoa\<close>. Elsewhere an int64 is an integer and \<open>int64_ok\<close> is stated where it is used.

  Parameters, with what is assumed of them: the Redis commands and streams (the locales above), \<open>url.Parse\<close>
  and the resolver (no law, or the one named at the theorem), the chi mux (\<open>chi_mux\<close> where a match matters,
  nothing for the guards), argon2 and base64 (\<open>argon_ok\<close>), SHA-256 and HMAC (no law; the length of the
  latter once), the JSON decoders and encoders (round trips named at the theorem), UUID and ULID texts, the
  iteration order of maps (a permutation), the printing of \<open>%.6f\<close>, the env package, the database drivers.
\<close>

text \<open>
  Not modelled, and why.

  \<^item> Interleavings inside an operation, but for the operations on links in \<open>Cache_Race\<close> and for one key
    (\<open>auth_step\<close>). Elsewhere an operation is one step, a goroutine takes its effect where it is started, and
    the running system interleaves whole requests, rounds and commands. What the workers
    still do while the server is shutting down is counted as before it.
  \<^item> The precision of values: timestamps are kept in nanoseconds, while the database keeps microseconds;
    the rate limit and the averages are rationals, not floats; \<open>attempt_count\<close> does not overflow.
  \<^item> Text: case folding and blanks are those of ASCII, texts are compared bytewise, not by a collation, and
    invalid UTF-8 is not refused by the database.
  \<^item> Errors in the middle of iterating over rows, and the HTTP client's own timeouts and redirects, which
    are in the answer of the client parameter.
  \<^item> The printed form of JSON bodies, and the lines of the log but for the line of each request and the
    errors of a failed start.
  \<^item> \<open>testutil\<close>, which serves the integration tests, and the values of \<open>webhook/errors.go\<close>, which are
    constructors of the type \<open>sentinel\<close>. Client libraries, scripts, migrations going down and the
    deployment files are outside the program.
\<close>

end
